(* ===== verification/Prelude.thy ===== *)
theory Prelude
  imports Complex_Main "HOL-Library.AList" "HOL-Library.Multiset"
    "HOL-Library.List_Lexorder" "HOL-Library.Product_Lexorder" "HOL-Library.Char_ord"
    "HOL-Library.Code_Target_Nat"
begin

text \<open>
  Shared vocabulary of the development: exceptions as values of a sum type with its bind, map and
  fold; Python dictionaries as insertion-ordered association lists; sorted-and-unique tuples;
  small sets as duplicate-free lists; and the identifier types (UUIDs, SHA-256 digests, UTC instants
  in microseconds).
\<close>

named_theorems py_simps \<open>rewriting of the result monad and of the container helpers\<close>

section \<open>Identifiers\<close>

text \<open>
  A UUID compares by its 128-bit integer, and a lowercase hexadecimal SHA-256 digest of 64
  characters compares like the number it spells: both are ordered by the number they hold.
  A UTC timestamp is its number of microseconds since the epoch.
\<close>

datatype uuid = Uuid (uuid_int: nat)

datatype sha256 = Sha256 (sha256_int: nat)

instantiation uuid :: linorder
begin

definition less_eq_uuid :: "uuid \<Rightarrow> uuid \<Rightarrow> bool" where
  "u \<le> v \<longleftrightarrow> uuid_int u \<le> uuid_int v"

definition less_uuid :: "uuid \<Rightarrow> uuid \<Rightarrow> bool" where
  "u < v \<longleftrightarrow> uuid_int u < uuid_int v"

instance
  by standard (auto simp: less_eq_uuid_def less_uuid_def intro: uuid.expand)

end

instantiation sha256 :: linorder
begin

definition less_eq_sha256 :: "sha256 \<Rightarrow> sha256 \<Rightarrow> bool" where
  "g \<le> h \<longleftrightarrow> sha256_int g \<le> sha256_int h"

definition less_sha256 :: "sha256 \<Rightarrow> sha256 \<Rightarrow> bool" where
  "g < h \<longleftrightarrow> sha256_int g < sha256_int h"

instance
  by standard (auto simp: less_eq_sha256_def less_sha256_def intro: sha256.expand)

end

type_synonym timestamp = int

definition seconds :: "int \<Rightarrow> int" where
  "seconds n = n * 1000000"

section \<open>Exceptions as values\<close>

datatype py_error =
    ValueError string
  | TypeError string
  | NotImplementedError string
  | KeyError
  | IndexError
  | AssertionError
  | ZeroDivision
  | InvalidOperation
  | ExactArithmeticError
  | LiveLedgerError string
  | ExecutionAuthorityError string
  | LiveReconciliationError string
  | PilotPolicyError string
  | PilotSelectionError string
  | PilotExecutionError string
  | CapabilityIssueError string
  | OrderAmountError string
  | OrderSigningError string

type_synonym 'a result = "py_error + 'a"

definition bindE :: "'a result \<Rightarrow> ('a \<Rightarrow> 'b result) \<Rightarrow> 'b result" where
  "bindE m f = (case m of Inl e \<Rightarrow> Inl e | Inr x \<Rightarrow> f x)"

text \<open>\<open>except_as m e\<close> is \<open>try: m  except: raise e from None\<close>.\<close>

definition except_as :: "'a result \<Rightarrow> py_error \<Rightarrow> 'a result" where
  "except_as m e = (case m of Inl _ \<Rightarrow> Inl e | Inr x \<Rightarrow> Inr x)"

text \<open>Inlining them keeps evaluation by \<open>code_simp\<close> from working under the continuation.\<close>

declare bindE_def [code_unfold] except_as_def [code_unfold]

text \<open>A run of \<open>if condition: raise error\<close> statements: the first true condition raises.\<close>

fun checkE :: "(bool \<times> py_error) list \<Rightarrow> unit result" where
  "checkE [] = Inr ()"
| "checkE ((c, e) # gs) = (if c then Inl e else checkE gs)"

fun mapE :: "('a \<Rightarrow> 'b result) \<Rightarrow> 'a list \<Rightarrow> 'b list result" where
  "mapE f [] = Inr []"
| "mapE f (x # xs) = bindE (f x) (\<lambda>y. bindE (mapE f xs) (\<lambda>ys. Inr (y # ys)))"

fun foldE :: "('s \<Rightarrow> 'a \<Rightarrow> 's result) \<Rightarrow> 's \<Rightarrow> 'a list \<Rightarrow> 's result" where
  "foldE f s [] = Inr s"
| "foldE f s (x # xs) = bindE (f s x) (\<lambda>s'. foldE f s' xs)"

lemma bindE_Inl [simp, py_simps]: "bindE (Inl e) f = Inl e"
  by (simp add: bindE_def)

lemma bindE_Inr [simp, py_simps]: "bindE (Inr x) f = f x"
  by (simp add: bindE_def)

lemma bindE_eq_Inr [py_simps]: "bindE m f = Inr y \<longleftrightarrow> (\<exists>x. m = Inr x \<and> f x = Inr y)"
  by (cases m) auto

lemma bindE_eq_Inl: "bindE m f = Inl e \<longleftrightarrow> m = Inl e \<or> (\<exists>x. m = Inr x \<and> f x = Inl e)"
  by (cases m) auto

lemma bindE_assoc: "bindE (bindE m f) g = bindE m (\<lambda>x. bindE (f x) g)"
  by (cases m) auto

lemma except_as_simps [simp]: "except_as (Inl e) e' = Inl e'" "except_as (Inr x) e' = Inr x"
  by (simp_all add: except_as_def)

lemma except_as_Inr [py_simps]: "except_as m e = Inr x \<longleftrightarrow> m = Inr x"
  by (cases m) auto

lemma checkE_Inr [py_simps]: "checkE gs = Inr u \<longleftrightarrow> (\<forall>g \<in> set gs. \<not> fst g)"
  by (induction gs rule: checkE.induct) auto

lemma if_Inl_eq_Inr [py_simps]: "(if c then Inl e else m) = Inr x \<longleftrightarrow> \<not> c \<and> m = Inr x"
  by simp

lemma mapE_Inr: "mapE f xs = Inr ys \<longleftrightarrow> list_all2 (\<lambda>x y. f x = Inr y) xs ys"
  by (induction xs arbitrary: ys) (auto simp: bindE_eq_Inr list_all2_Cons1)

lemma mapE_Inr_length: "mapE f xs = Inr ys \<Longrightarrow> length ys = length xs"
  by (auto simp: mapE_Inr dest: list_all2_lengthD)

lemma mapE_Inr_set: "mapE f xs = Inr ys \<Longrightarrow> y \<in> set ys \<Longrightarrow> \<exists>x \<in> set xs. f x = Inr y"
  by (induction xs arbitrary: ys) (auto simp: bindE_eq_Inr)

lemma list_all2_left: "list_all2 P xs ys \<Longrightarrow> y \<in> set ys \<Longrightarrow> \<exists>x \<in> set xs. P x y"
  by (induction xs ys rule: list_all2_induct) auto

lemma list_all2_right: "list_all2 P xs ys \<Longrightarrow> x \<in> set xs \<Longrightarrow> \<exists>y \<in> set ys. P x y"
  by (induction xs ys rule: list_all2_induct) auto

lemma foldE_append: "foldE f s (xs @ ys) = bindE (foldE f s xs) (\<lambda>t. foldE f t ys)"
  by (induction xs arbitrary: s) (auto simp: bindE_assoc)

text \<open>The rule for loops that may raise: what every step keeps holds of the loop's result.\<close>

lemma foldE_invariant:
  assumes "foldE f s xs = Inr t" and "P s"
    and "\<And>s x s'. P s \<Longrightarrow> x \<in> set xs \<Longrightarrow> f s x = Inr s' \<Longrightarrow> P s'"
  shows "P t"
  using assms
proof (induction xs arbitrary: s)
  case Nil
  then show ?case by simp
next
  case (Cons x xs)
  from Cons.prems(1) obtain s' where "f s x = Inr s'" and "foldE f s' xs = Inr t"
    by (auto simp: bindE_eq_Inr)
  with Cons.prems(2,3) show ?case by (auto intro: Cons.IH)
qed


text \<open>Two runs of a loop whose states stay related end in related states or in the same error.\<close>

definition same_result :: "('a \<Rightarrow> 'b \<Rightarrow> bool) \<Rightarrow> 'a result \<Rightarrow> 'b result \<Rightarrow> bool" where
  "same_result R m n \<longleftrightarrow>
     (case m of Inl e \<Rightarrow> n = Inl e | Inr x \<Rightarrow> (case n of Inl _ \<Rightarrow> False | Inr y \<Rightarrow> R x y))"

lemma same_result_simps [simp]:
  "same_result R (Inl e) n \<longleftrightarrow> n = Inl e"
  "same_result R (Inr x) (Inl e) \<longleftrightarrow> False"
  "same_result R (Inr x) (Inr y) \<longleftrightarrow> R x y"
  by (simp_all add: same_result_def)

lemma same_result_eq: "same_result (=) m n \<longleftrightarrow> m = n"
  by (cases m; cases n) auto

lemma same_result_bind:
  "same_result R m n \<Longrightarrow> (\<And>x y. R x y \<Longrightarrow> same_result S (f x) (g y)) \<Longrightarrow>
     same_result S (bindE m f) (bindE n g)"
  by (cases m; cases n) auto

lemma foldE_same:
  assumes "R s t" and "\<And>s t x. x \<in> set xs \<Longrightarrow> R s t \<Longrightarrow> same_result R (f s x) (g t x)"
  shows "same_result R (foldE f s xs) (foldE g t xs)"
  using assms
proof (induction xs arbitrary: s t)
  case Nil
  then show ?case by simp
next
  case (Cons x xs)
  have "same_result R (f s x) (g t x)"
    using Cons.prems by simp
  then show ?case
    unfolding foldE.simps by (rule same_result_bind) (rule Cons.IH, auto intro: Cons.prems(2))
qed

lemma mapE_cong: "xs = ys \<Longrightarrow> (\<And>x. x \<in> set ys \<Longrightarrow> f x = g x) \<Longrightarrow> mapE f xs = mapE g ys"
proof (induction ys arbitrary: xs)
  case Nil
  then show ?case by simp
next
  case (Cons y ys)
  then show ?case by simp
qed

text \<open>A loop all of whose errors are the same one is that error or a result.\<close>

lemma foldE_error:
  "foldE f s xs = Inl e' \<Longrightarrow> (\<And>s x e'. x \<in> set xs \<Longrightarrow> f s x = Inl e' \<Longrightarrow> e' = e) \<Longrightarrow> e' = e"
  by (induction xs arbitrary: s) (auto simp: bindE_eq_Inl)

section \<open>Dictionaries and grouping\<close>

text \<open>
  A Python dictionary keeps insertion order, and storing under a present key keeps its place:
  exactly \<open>AList.update\<close> on an association list. \<open>group_by\<close> is the
  \<open>defaultdict(list)\<close> idiom \<open>for x in xs: d[key(x)].append(x)\<close>.
\<close>

type_synonym ('k, 'v) dict = "('k \<times> 'v) list"

text \<open>A mapping by key: of two values with one key the later stays.\<close>

definition index_by :: "('a \<Rightarrow> 'k) \<Rightarrow> 'a list \<Rightarrow> ('k, 'a) dict" where
  "index_by key xs = rev (map (\<lambda>x. (key x, x)) xs)"

lemma index_by_Some: "map_of (index_by key xs) k = Some x \<Longrightarrow> x \<in> set xs \<and> key x = k"
  by (auto simp: index_by_def dest!: map_of_SomeD)

definition dict_append :: "'k \<Rightarrow> 'a \<Rightarrow> ('k, 'a list) dict \<Rightarrow> ('k, 'a list) dict" where
  "dict_append k x d = AList.map_default k [x] (\<lambda>g. g @ [x]) d"

definition group_by :: "('a \<Rightarrow> 'k) \<Rightarrow> 'a list \<Rightarrow> ('k, 'a list) dict" where
  "group_by key xs = fold (\<lambda>x. dict_append (key x) x) xs []"

text \<open>\<open>d[k]\<close> where the key is known to be present.\<close>

definition dict_group :: "('k, 'a list) dict \<Rightarrow> 'k \<Rightarrow> 'a list" where
  "dict_group d k = (case map_of d k of None \<Rightarrow> [] | Some g \<Rightarrow> g)"

lemma map_of_dict_append:
  "map_of (dict_append k x d) j = (if j = k then Some (dict_group d k @ [x]) else map_of d j)"
  by (induction d) (auto simp: dict_append_def dict_group_def)

lemma dict_group_append:
  "dict_group (dict_append k x d) j = (if j = k then dict_group d k @ [x] else dict_group d j)"
  unfolding dict_group_def [of "dict_append k x d" j] by (simp add: map_of_dict_append dict_group_def)

lemma keys_dict_append: "set (map fst (dict_append k x d)) = insert k (set (map fst d))"
  by (induction d) (auto simp: dict_append_def)

lemma distinct_dict_append: "distinct (map fst d) \<Longrightarrow> distinct (map fst (dict_append k x d))"
proof (induction d)
  case Nil
  then show ?case by (simp add: dict_append_def)
next
  case (Cons p d)
  have "set (map fst (dict_append k x d)) = insert k (set (map fst d))"
    by (rule keys_dict_append)
  with Cons show ?case by (cases "fst p = k") (auto simp: dict_append_def)
qed

lemma fold_dict_append_group:
  "dict_group (fold (\<lambda>x. dict_append (key x) x) xs d) k = dict_group d k @ filter (\<lambda>x. key x = k) xs"
  by (induction xs arbitrary: d) (auto simp: dict_group_append)

lemma dict_group_group_by [simp]: "dict_group (group_by key xs) k = filter (\<lambda>x. key x = k) xs"
  by (simp add: group_by_def fold_dict_append_group) (simp add: dict_group_def)

lemma keys_group_by [simp]: "set (map fst (group_by key xs)) = key ` set xs"
proof -
  have "set (map fst (fold (\<lambda>x. dict_append (key x) x) xs d)) = set (map fst d) \<union> key ` set xs" for d
    by (induction xs arbitrary: d) (auto simp del: set_map simp: keys_dict_append)
  then show ?thesis by (simp add: group_by_def)
qed

lemma distinct_group_by: "distinct (map fst (group_by key xs))"
proof -
  have "distinct (map fst d) \<Longrightarrow> distinct (map fst (fold (\<lambda>x. dict_append (key x) x) xs d))" for d
    by (induction xs arbitrary: d) (auto simp del: distinct_map simp: distinct_dict_append)
  then show ?thesis by (simp add: group_by_def)
qed

lemma group_by_entry: "(k, g) \<in> set (group_by key xs) \<Longrightarrow> g = filter (\<lambda>x. key x = k) xs"
  using distinct_group_by [of key xs] dict_group_group_by [of key xs k]
  by (simp add: dict_group_def map_of_eq_Some_iff del: dict_group_group_by split: option.splits)

text \<open>Looking records up by a key they do not share, key by key, lists the records.\<close>

lemma lookup_all:
  assumes "distinct (map f es)" and "distinct ks" and "set ks = f ` set es"
  shows "mset (map (\<lambda>k. the (map_of (map (\<lambda>e. (f e, e)) es) k)) ks) = mset es"
proof -
  let ?g = "\<lambda>k. the (map_of (map (\<lambda>e. (f e, e)) es) k)"
  have "?g (f e) = e" if "e \<in> set es" for e
    using assms(1) that by (simp add: comp_def map_of_eq_Some_iff image_iff)
  then have "map (?g \<circ> f) es = es"
    by (intro map_idI) simp
  moreover have "mset ks = mset (map f es)"
    using assms set_eq_iff_mset_eq_distinct [of ks "map f es"] by simp
  ultimately show ?thesis
    by (metis map_map mset_map)
qed

lemma sum_list_mset_eq:
  fixes g :: "'a \<Rightarrow> 'b::comm_monoid_add"
  shows "mset xs = mset ys \<Longrightarrow> sum_list (map g xs) = sum_list (map g ys)"
  by (metis mset_map sum_mset_sum_list)

text \<open>\<open>d.setdefault(k, v)\<close>: the value now stored under the key, and the dictionary.\<close>

definition dict_setdefault :: "'k \<Rightarrow> 'v \<Rightarrow> ('k, 'v) dict \<Rightarrow> 'v \<times> ('k, 'v) dict" where
  "dict_setdefault k v d =
     (case map_of d k of Some x \<Rightarrow> (x, d) | None \<Rightarrow> (v, AList.update k v d))"

lemma group_by_mset:
  assumes "mset xs = mset ys"
  shows "mset (dict_group (group_by key xs) k) = mset (dict_group (group_by key ys) k)"
  using assms by (simp add: mset_filter)

lemma sorted_keys_group_by:
  fixes key :: "'a \<Rightarrow> 'k::linorder"
  shows "sort (map fst (group_by key xs)) = sorted_list_of_set (key ` set xs)"
  using distinct_group_by [of key xs] keys_group_by [of key xs]
  by (metis sorted_list_of_set_sort_remdups distinct_remdups_id)

lemma filters_partition:
  assumes "distinct ks" and "key ` set xs \<subseteq> set ks"
  shows "mset (concat (map (\<lambda>k. filter (\<lambda>x. key x = k) xs) ks)) = mset xs"
proof -
  have "count (mset (concat (map (\<lambda>k. filter (\<lambda>x. key x = k) xs) ks))) y =
      (if key y \<in> set ks then count (mset xs) y else 0)" for y
    using assms(1)
  proof (induction ks)
    case Nil
    then show ?case by simp
  next
    case (Cons k ks)
    have "count (mset (filter (\<lambda>x. key x = k) xs)) y = (if key y = k then count (mset xs) y else 0)"
      by (induction xs) auto
    with Cons show ?case by auto
  qed
  moreover have "key y \<notin> set ks \<Longrightarrow> count (mset xs) y = 0" for y
    using assms(2) by (auto simp: count_mset_0_iff)
  ultimately show ?thesis by (intro multiset_eqI) auto
qed

lemma last_sorted_Max: "sorted ks \<Longrightarrow> ks \<noteq> [] \<Longrightarrow> last ks = Max (set ks)"
  by (rule Max_eqI [symmetric]) (cases ks rule: rev_cases; auto simp: sorted_append)+

lemma map_filter_mset:
  "mset xs = mset ys \<Longrightarrow> mset (List.map_filter f xs) = mset (List.map_filter f ys)"
proof -
  have "mset (List.map_filter f zs) = image_mset (the \<circ> f) (filter_mset (\<lambda>x. f x \<noteq> None) (mset zs))" for zs
    by (simp add: map_filter_def)
  then show "mset xs = mset ys \<Longrightarrow> mset (List.map_filter f xs) = mset (List.map_filter f ys)"
    by simp
qed

lemma length_map_filter_eq:
  "length (List.map_filter f xs) = length xs \<longleftrightarrow> (\<forall>x \<in> set xs. f x \<noteq> None)"
proof -
  have "length (filter P xs) = length xs \<longleftrightarrow> (\<forall>x \<in> set xs. P x)" for P
    by (metis filter_True length_filter_less less_irrefl)
  then show ?thesis by (simp add: map_filter_def)
qed

text \<open>\<open>xs[i]\<close>: a negative index counts from the end, and one out of range raises.\<close>

definition py_item :: "'a list \<Rightarrow> int \<Rightarrow> 'a result" where
  "py_item xs i =
     (let n = int (length xs); j = (if i < 0 then i + n else i)
      in if 0 \<le> j \<and> j < n then Inr (xs ! nat j) else Inl IndexError)"

lemma py_item_nth [simp]: "i < length xs \<Longrightarrow> py_item xs (int i) = Inr (xs ! i)"
  by (simp add: py_item_def)

text \<open>\<open>d[k]\<close>.\<close>

definition dict_item :: "('k, 'v) dict \<Rightarrow> 'k \<Rightarrow> 'v result" where
  "dict_item d k = (case map_of d k of None \<Rightarrow> Inl KeyError | Some v \<Rightarrow> Inr v)"

section \<open>Small sets as duplicate-free lists\<close>

text \<open>\<open>{f(x) for x in xs}\<close> when only its size and its only element are read.\<close>

definition py_set :: "'a list \<Rightarrow> 'a list" where
  "py_set xs = remdups xs"

definition next_iter :: "'a list \<Rightarrow> 'a option" where
  "next_iter xs = (case xs of [] \<Rightarrow> None | x # _ \<Rightarrow> Some x)"

lemma length_py_set: "length (py_set xs) = card (set xs)"
  by (simp add: py_set_def length_remdups_card_conv)

lemma length_py_set_distinct [py_simps]:
  "length (py_set xs) = length xs \<longleftrightarrow> distinct xs" "length xs = length (py_set xs) \<longleftrightarrow> distinct xs"
  by (metis length_py_set card_distinct distinct_card)+

lemma set_py_set [simp]: "set (py_set xs) = set xs"
  by (simp add: py_set_def)

lemma py_set_small:
  assumes "set xs = set ys" and "length (py_set xs) \<le> 1"
  shows "py_set xs = py_set ys"
proof -
  have "length (py_set ys) = length (py_set xs)"
    using assms(1) by (simp add: length_py_set)
  moreover have "set (py_set xs) = set (py_set ys)"
    using assms(1) by simp
  ultimately show ?thesis
    using assms(2) by (cases "py_set xs"; cases "py_set ys") auto
qed

lemma py_set_single: "length (py_set xs) = 1 \<Longrightarrow> x \<in> set xs \<Longrightarrow> py_set xs = [x]"
  by (metis length_0_conv length_Suc_conv One_nat_def set_py_set list.set(1,2) empty_iff insert_iff)

lemma next_iter_simps [simp]: "next_iter [] = None" "next_iter (x # xs) = Some x"
  by (simp_all add: next_iter_def)

section \<open>Sorted and unique tuples\<close>

lemma eq_sort_iff [py_simps]: "xs = sort xs \<longleftrightarrow> sorted xs"
  by (metis sorted_sort sorted_sort_id)

text \<open>\<open>value == tuple(sorted(set(value)))\<close>.\<close>

definition py_sorted_set :: "'a::linorder list \<Rightarrow> 'a list" where
  "py_sorted_set xs = sort (remdups xs)"

definition sorted_unique :: "'a::linorder list \<Rightarrow> bool" where
  "sorted_unique xs \<longleftrightarrow> xs = py_sorted_set xs"

lemma sorted_unique_iff: "sorted_unique xs \<longleftrightarrow> sorted xs \<and> distinct xs"
  unfolding sorted_unique_def py_sorted_set_def
  by (metis distinct_remdups distinct_sort distinct_remdups_id sorted_sort sorted_sort_id)

lemma set_py_sorted_set [simp]: "set (py_sorted_set xs) = set xs"
  by (simp add: py_sorted_set_def)

lemma sorted_unique_py_sorted_set [simp]: "sorted_unique (py_sorted_set xs)"
  by (simp add: sorted_unique_iff) (simp add: py_sorted_set_def)

lemma py_sorted_set_cong: "set xs = set ys \<Longrightarrow> py_sorted_set xs = py_sorted_set ys"
  by (metis sorted_distinct_set_unique sorted_unique_iff sorted_unique_py_sorted_set set_py_sorted_set)

end
