(* ===== verification/Py_Decimal.thy ===== *)
theory Py_Decimal
  imports Prelude
begin

text \<open>
  Python's \<open>decimal.Decimal\<close>: a finite decimal is its sign, coefficient and exponent
  (\<open>as_tuple\<close>), and its value is a rational number.  Comparison is exact.  The arithmetic
  operators round to the 28 digits of the default context, half to even, which is the context
  every module of the program computes in; the context's exponent limits of one million are far
  outside the values the program admits and are left out.  The lemmas say when an operation is
  exact, that comparison agrees with the value, and that rounding never changes a sign.
\<close>

section \<open>Finite decimals and their values\<close>

datatype dec = Dec (dneg: bool) (dcoef: nat) (dexp: int)

text \<open>What a Python variable annotated \<open>Decimal\<close> can hold before it is validated.\<close>

datatype py_number = PyDecimal dec | PyNonFinite | PyOther

definition dsigned :: "dec \<Rightarrow> int" where
  "dsigned d = (if dneg d then - int (dcoef d) else int (dcoef d))"

definition dval :: "dec \<Rightarrow> rat" where
  "dval d = of_int (dsigned d) * 10 powi dexp d"

definition dec0 :: dec where
  "dec0 = Dec False 0 0"

text \<open>\<open>Decimal(n)\<close> for an integer n.\<close>

definition dec_of_int :: "int \<Rightarrow> dec" where
  "dec_of_int n = Dec (n < 0) (nat \<bar>n\<bar>) 0"

text \<open>The coefficient of the same number written with a smaller exponent.\<close>

definition at_exp :: "int \<Rightarrow> dec \<Rightarrow> int" where
  "at_exp m d = dsigned d * 10 ^ nat (dexp d - m)"

definition min_exp :: "dec \<Rightarrow> dec \<Rightarrow> int" where
  "min_exp a b = min (dexp a) (dexp b)"

lemma powi_pos [simp]: "0 < (10::rat) powi e"
  by (simp add: zero_less_power_int)

lemma powi_nonneg [simp]: "0 \<le> (10::rat) powi e"
  by (simp add: less_imp_le)

lemma powi_neq0 [simp]: "(10::rat) powi e \<noteq> 0"
  by simp

lemma powi_shift: "m \<le> e \<Longrightarrow> (10::rat) ^ nat (e - m) * 10 powi m = 10 powi e"
  by (simp add: power_int_def [of "10::rat" "e - m", symmetric] power_int_add [symmetric] flip: power_int_of_nat)

lemma at_exp_val: "m \<le> dexp d \<Longrightarrow> of_int (at_exp m d) * 10 powi m = dval d"
  using powi_shift [of m "dexp d"] by (simp add: at_exp_def dval_def mult.assoc)

lemma dval_dec0 [simp]: "dval dec0 = 0"
  by (simp add: dval_def dsigned_def dec0_def)

lemma dec0_sel [simp]: "dneg dec0 = False" "dcoef dec0 = 0" "dexp dec0 = 0"
  by (simp_all add: dec0_def)

lemma dval_dec_of_int [simp]: "dval (dec_of_int n) = of_int n"
  by (simp add: dval_def dsigned_def dec_of_int_def)

lemma dval_zero_iff: "dval d = 0 \<longleftrightarrow> dcoef d = 0"
  by (simp add: dval_def dsigned_def)

lemma dval_Dec_False: "dval (Dec False c e) = of_nat c * 10 powi e"
  by (simp add: dval_def dsigned_def)

section \<open>Comparison\<close>

definition dlt :: "dec \<Rightarrow> dec \<Rightarrow> bool" where
  "dlt a b \<longleftrightarrow> at_exp (min_exp a b) a < at_exp (min_exp a b) b"

definition dle :: "dec \<Rightarrow> dec \<Rightarrow> bool" where
  "dle a b \<longleftrightarrow> at_exp (min_exp a b) a \<le> at_exp (min_exp a b) b"

definition deq :: "dec \<Rightarrow> dec \<Rightarrow> bool" where
  "deq a b \<longleftrightarrow> at_exp (min_exp a b) a = at_exp (min_exp a b) b"

lemma at_exp_min:
  "of_int (at_exp (min_exp a b) a) * 10 powi min_exp a b = dval a"
  "of_int (at_exp (min_exp a b) b) * 10 powi min_exp a b = dval b"
  by (simp_all add: at_exp_val min_exp_def)

lemma dlt_iff [py_simps]: "dlt a b \<longleftrightarrow> dval a < dval b"
  unfolding dlt_def at_exp_min [of a b, symmetric] by simp

lemma dle_iff [py_simps]: "dle a b \<longleftrightarrow> dval a \<le> dval b"
  unfolding dle_def at_exp_min [of a b, symmetric] by simp

lemma deq_iff [py_simps]: "deq a b \<longleftrightarrow> dval a = dval b"
  unfolding deq_def at_exp_min [of a b, symmetric] by simp

lemmas dec_compare = dlt_iff dle_iff deq_iff

text \<open>\<open>min(a, b)\<close> and \<open>max(a, b)\<close> return their first argument on a tie.\<close>

definition dmin :: "dec \<Rightarrow> dec \<Rightarrow> dec" where
  "dmin a b = (if dlt b a then b else a)"

definition dmax :: "dec \<Rightarrow> dec \<Rightarrow> dec" where
  "dmax a b = (if dlt a b then b else a)"

lemma dval_dmin [simp]: "dval (dmin a b) = min (dval a) (dval b)"
  by (simp add: dmin_def dlt_iff)

lemma dval_dmax [simp]: "dval (dmax a b) = max (dval a) (dval b)"
  by (simp add: dmax_def dlt_iff)

section \<open>Digits and bits of a coefficient\<close>

fun num_digits :: "nat \<Rightarrow> nat" where
  "num_digits n = (if n < 10 then 1 else Suc (num_digits (n div 10)))"

declare num_digits.simps [simp del]

fun bit_length :: "nat \<Rightarrow> nat" where
  "bit_length n = (if n = 0 then 0 else Suc (bit_length (n div 2)))"

declare bit_length.simps [simp del]

lemma num_digits_pos: "0 < num_digits n"
  by (subst num_digits.simps) simp

lemma num_digits_le_iff: "0 < k \<Longrightarrow> num_digits n \<le> k \<longleftrightarrow> n < 10 ^ k"
proof (induction n arbitrary: k rule: num_digits.induct)
  case (1 n)
  show ?case
  proof (cases "n < 10")
    case True
    have "(10::nat) \<le> 10 ^ k" using "1.prems" by (cases k) auto
    with True show ?thesis using "1.prems" by (subst num_digits.simps) auto
  next
    case False
    obtain j where k: "k = Suc j" using "1.prems" by (cases k) auto
    have "num_digits n \<le> k \<longleftrightarrow> num_digits (n div 10) \<le> j"
      using False k by (subst num_digits.simps) simp
    also have "\<dots> \<longleftrightarrow> n div 10 < 10 ^ j"
    proof (cases "j = 0")
      case True
      with num_digits_pos [of "n div 10"] False show ?thesis by simp
    next
      case j: False
      with "1.IH" False show ?thesis by simp
    qed
    also have "\<dots> \<longleftrightarrow> n < 10 ^ k"
      using k by (simp add: div_less_iff_less_mult mult.commute)
    finally show ?thesis .
  qed
qed

lemma num_digits_lower: "0 < n \<Longrightarrow> 10 ^ (num_digits n - 1) \<le> n"
proof (cases "num_digits n = 1")
  case False
  with num_digits_pos [of n] have "0 < num_digits n - 1" by simp
  from num_digits_le_iff [OF this, of n] num_digits_pos [of n] show ?thesis by auto
qed simp

lemma num_digits_upper: "n < 10 ^ num_digits n"
  using num_digits_le_iff [OF num_digits_pos] by blast

lemma bit_length_le_iff: "bit_length n \<le> k \<longleftrightarrow> n < 2 ^ k"
proof (induction n arbitrary: k rule: bit_length.induct)
  case (1 n)
  show ?case
  proof (cases "n = 0")
    case True
    then show ?thesis by (subst bit_length.simps) simp
  next
    case False
    show ?thesis
    proof (cases k)
      case 0
      with False show ?thesis by (subst bit_length.simps) simp
    next
      case (Suc j)
      with "1.IH" [OF False, of j] False show ?thesis
        by (subst bit_length.simps) (auto simp: div_less_iff_less_mult mult.commute)
    qed
  qed
qed


section \<open>Arithmetic in the default context\<close>

definition half_even :: "nat \<Rightarrow> nat \<Rightarrow> nat" where
  "half_even c k =
     (let q = c div 10 ^ k; r = c mod 10 ^ k
      in if 2 * r > 10 ^ k \<or> (2 * r = 10 ^ k \<and> odd q) then q + 1 else q)"

definition dec_fix :: "bool \<Rightarrow> nat \<Rightarrow> int \<Rightarrow> dec" where
  "dec_fix s c e =
     (if num_digits c \<le> 28 then Dec s c e
      else let k = num_digits c - 28; q = half_even c k
           in if q = 10 ^ 28 then Dec s (10 ^ 27) (e + int k + 1) else Dec s q (e + int k))"

definition dadd :: "dec \<Rightarrow> dec \<Rightarrow> dec" where
  "dadd a b =
     (let m = min_exp a b; s = at_exp m a + at_exp m b
      in dec_fix (if s = 0 then dneg a \<and> dneg b else s < 0) (nat \<bar>s\<bar>) m)"

definition copy_negate :: "dec \<Rightarrow> dec" where
  "copy_negate a = Dec (\<not> dneg a) (dcoef a) (dexp a)"

definition copy_abs :: "dec \<Rightarrow> dec" where
  "copy_abs a = Dec False (dcoef a) (dexp a)"

definition dsub :: "dec \<Rightarrow> dec \<Rightarrow> dec" where
  "dsub a b = dadd a (copy_negate b)"

definition dmul :: "dec \<Rightarrow> dec \<Rightarrow> dec" where
  "dmul a b = dec_fix (dneg a \<noteq> dneg b) (dcoef a * dcoef b) (dexp a + dexp b)"

text \<open>\<open>-a\<close> and \<open>abs(a)\<close> round too, unlike \<open>copy_negate\<close> and \<open>copy_abs\<close>.\<close>

definition dminus :: "dec \<Rightarrow> dec" where
  "dminus a = dec_fix (dcoef a \<noteq> 0 \<and> \<not> dneg a) (dcoef a) (dexp a)"

definition dabs :: "dec \<Rightarrow> dec" where
  "dabs a = dec_fix False (dcoef a) (dexp a)"

text \<open>An exact quotient is brought as close to the ideal exponent as its trailing zeros allow.\<close>

function strip_zeros :: "nat \<Rightarrow> int \<Rightarrow> int \<Rightarrow> nat \<times> int" where
  "strip_zeros c e ideal =
     (if e < ideal \<and> c mod 10 = 0 then strip_zeros (c div 10) (e + 1) ideal else (c, e))"
  by pat_completeness auto
termination
  by (relation "measure (\<lambda>(c, e, ideal). nat (ideal - e))") auto

declare strip_zeros.simps [simp del]

definition ddiv :: "dec \<Rightarrow> dec \<Rightarrow> dec result" where
  "ddiv a b =
     (if dcoef b = 0 then Inl ZeroDivision
      else Inr (let s = (dneg a \<noteq> dneg b); ideal = dexp a - dexp b
        in if dcoef a = 0 then dec_fix s 0 ideal
           else let shift = int (num_digits (dcoef b)) - int (num_digits (dcoef a)) + 29;
                    n = dcoef a * 10 ^ nat shift;
                    m = dcoef b * 10 ^ nat (- shift);
                    q = n div m
                in if n mod m \<noteq> 0
                   then dec_fix s (if q mod 5 = 0 then q + 1 else q) (ideal - shift)
                   else case strip_zeros q (ideal - shift) ideal of (c, e) \<Rightarrow> dec_fix s c e))"

text \<open>\<open>sum(xs, Decimal("0"))\<close> adds from the left, rounding at every step.\<close>

definition dsum :: "dec list \<Rightarrow> dec" where
  "dsum xs = foldl dadd dec0 xs"

subsection \<open>Rounding keeps the sign\<close>

lemma half_even_ge: "c div 10 ^ k \<le> half_even c k"
  by (simp add: half_even_def Let_def)

lemma dec_fix_small: "c < 10 ^ 28 \<Longrightarrow> dec_fix s c e = Dec s c e"
  using num_digits_le_iff [of 28 c] by (simp add: dec_fix_def)

lemma dec_fix_sign:
  "dneg (dec_fix s c e) = s" "dcoef (dec_fix s c e) = 0 \<longleftrightarrow> c = 0"
proof -
  show "dneg (dec_fix s c e) = s"
    by (simp add: dec_fix_def Let_def)
  show "dcoef (dec_fix s c e) = 0 \<longleftrightarrow> c = 0"
  proof (cases "num_digits c \<le> 28")
    case True
    then show ?thesis by (simp add: dec_fix_def)
  next
    case False
    then have "c \<noteq> 0" by (cases "c = 0") (simp_all add: num_digits.simps)
    moreover have "10 ^ (num_digits c - 28) \<le> c"
    proof -
      have "(10::nat) ^ (num_digits c - 28) \<le> 10 ^ (num_digits c - 1)"
        by (rule power_increasing) auto
      also have "\<dots> \<le> c" using \<open>c \<noteq> 0\<close> by (intro num_digits_lower) simp
      finally show ?thesis .
    qed
    then have "0 < c div 10 ^ (num_digits c - 28)"
      by (simp add: div_greater_zero_iff)
    with half_even_ge [of c "num_digits c - 28"] have "0 < half_even c (num_digits c - 28)"
      by linarith
    ultimately show ?thesis using False by (simp add: dec_fix_def Let_def)
  qed
qed

lemma sgn_dval: "sgn (dval d) = (if dcoef d = 0 then 0 else if dneg d then - 1 else 1)"
  by (simp add: dval_def dsigned_def sgn_mult)

lemma sgn_dec_fix: "sgn (dval (dec_fix s c e)) = (if c = 0 then 0 else if s then - 1 else 1)"
  by (simp add: sgn_dval dec_fix_sign)

lemma at_exp_sum_val:
  "of_int (at_exp (min_exp a b) a + at_exp (min_exp a b) b) * 10 powi min_exp a b = dval a + dval b"
  by (simp add: distrib_right at_exp_min)

lemma sgn_dadd: "sgn (dval (dadd a b)) = sgn (dval a + dval b)"
  unfolding at_exp_sum_val [of a b, symmetric]
  by (simp add: dadd_def Let_def sgn_dec_fix sgn_mult) (simp add: sgn_if)

lemma dval_copy_negate [simp]: "dval (copy_negate a) = - dval a"
  by (simp add: copy_negate_def dval_def dsigned_def)

lemma dval_copy_abs [simp]: "dval (copy_abs a) = \<bar>dval a\<bar>"
  by (simp add: copy_abs_def dval_def dsigned_def abs_mult)

lemma sgn_dsub: "sgn (dval (dsub a b)) = sgn (dval a - dval b)"
  by (simp add: dsub_def sgn_dadd)

lemma sgn_dmul: "sgn (dval (dmul a b)) = sgn (dval a * dval b)"
  by (simp add: dmul_def dec_fix_sign sgn_mult sgn_dval)

lemma sgn_dminus: "sgn (dval (dminus a)) = - sgn (dval a)"
  by (simp add: dminus_def dec_fix_sign sgn_dval)

lemma sgn_dabs: "sgn (dval (dabs a)) = \<bar>sgn (dval a)\<bar>"
  by (simp add: dabs_def dec_fix_sign sgn_dval)

text \<open>Signs decide comparisons with zero, so these hold whatever was rounded away.\<close>

lemma sgn_eq_imp_sign:
  fixes x y :: rat
  assumes "sgn x = sgn y"
  shows "0 < x \<longleftrightarrow> 0 < y" and "0 \<le> x \<longleftrightarrow> 0 \<le> y" and "x < 0 \<longleftrightarrow> y < 0" and "x = 0 \<longleftrightarrow> y = 0"
    and "x \<le> 0 \<longleftrightarrow> y \<le> 0"
  using assms by (auto simp: sgn_if split: if_splits)

lemmas dadd_sign = sgn_eq_imp_sign [OF sgn_dadd]
lemmas dsub_sign = sgn_eq_imp_sign [OF sgn_dsub]
lemmas dmul_sign = sgn_eq_imp_sign [OF sgn_dmul]

lemma dsum_nonneg: "(\<And>x. x \<in> set xs \<Longrightarrow> 0 \<le> dval x) \<Longrightarrow> 0 \<le> dval (dsum xs)"
proof -
  have "0 \<le> dval z \<Longrightarrow> (\<And>x. x \<in> set xs \<Longrightarrow> 0 \<le> dval x) \<Longrightarrow> 0 \<le> dval (foldl dadd z xs)" for z
    by (induction xs arbitrary: z) (auto simp: dadd_sign)
  then show "(\<And>x. x \<in> set xs \<Longrightarrow> 0 \<le> dval x) \<Longrightarrow> ?thesis" by (simp add: dsum_def)
qed

subsection \<open>Exact operations\<close>

text \<open>
  A decimal fits the grid of step \<open>10 ^ s\<close> when it is written on it and is below
  \<open>10 ^ 28\<close> steps; sums that stay below are then exact and stay on the grid.
\<close>

definition fits :: "int \<Rightarrow> dec \<Rightarrow> bool" where
  "fits s d \<longleftrightarrow> s \<le> dexp d \<and> \<bar>dval d\<bar> < 10 powi (28 + s)"

lemma coef_small: "s \<le> m \<Longrightarrow> \<bar>of_int k * (10::rat) powi m\<bar> < 10 powi (28 + s) \<Longrightarrow> nat \<bar>k\<bar> < 10 ^ 28"
proof -
  assume sm: "s \<le> m" and lt: "\<bar>of_int k * (10::rat) powi m\<bar> < 10 powi (28 + s)"
  have "(10::rat) powi (28 + s) \<le> 10 powi (28 + m)"
    using sm by (intro power_int_increasing) auto
  also have "\<dots> = 10 ^ 28 * 10 powi m"
    by (simp add: power_int_add)
  finally have "10 powi (28 + s) \<le> (10::rat) ^ 28 * 10 powi m" .
  moreover have "\<bar>of_int k :: rat\<bar> * 10 powi m < 10 powi (28 + s)"
    using lt by (simp add: abs_mult)
  ultimately have "\<bar>of_int k :: rat\<bar> * 10 powi m < 10 ^ 28 * 10 powi m"
    by (rule less_le_trans [rotated])
  then have "\<bar>of_int k :: rat\<bar> < 10 ^ 28"
    by (simp only: mult_less_cancel_right_pos powi_pos)
  then have "of_int \<bar>k\<bar> < (of_int (10 ^ 28) :: rat)"
    by simp
  then have "\<bar>k\<bar> < 10 ^ 28"
    by (simp only: of_int_less_iff)
  then show "nat \<bar>k\<bar> < 10 ^ 28" by simp
qed

lemma dadd_exact:
  assumes "s \<le> dexp a" and "s \<le> dexp b" and small: "\<bar>dval a + dval b\<bar> < 10 powi (28 + s)"
  shows "dval (dadd a b) = dval a + dval b" and "fits s (dadd a b)"
proof -
  let ?m = "min_exp a b" let ?k = "at_exp ?m a + at_exp ?m b"
  have m: "s \<le> ?m" using assms by (simp add: min_exp_def)
  have "nat \<bar>?k\<bar> < 10 ^ 28"
    using small by (intro coef_small [OF m]) (simp only: at_exp_sum_val)
  then have eq: "dadd a b = Dec (if ?k = 0 then dneg a \<and> dneg b else ?k < 0) (nat \<bar>?k\<bar>) ?m"
    by (simp add: dadd_def Let_def dec_fix_small)
  have "dsigned (dadd a b) = ?k"
    by (auto simp: eq dsigned_def)
  then show val: "dval (dadd a b) = dval a + dval b"
    using at_exp_sum_val [of a b] by (simp only: dval_def [of "dadd a b"]) (simp only: eq dec.sel)
  show "fits s (dadd a b)"
    using m small by (simp add: fits_def val) (simp add: eq)
qed

lemma dsub_exact:
  assumes "s \<le> dexp a" and "s \<le> dexp b" and "\<bar>dval a - dval b\<bar> < 10 powi (28 + s)"
  shows "dval (dsub a b) = dval a - dval b" and "fits s (dsub a b)"
  using dadd_exact [of s a "copy_negate b"] assms by (simp_all add: dsub_def) (simp_all add: copy_negate_def)

lemma dmul_exact: "dcoef a * dcoef b < 10 ^ 28 \<Longrightarrow> dval (dmul a b) = dval a * dval b"
  by (auto simp: dmul_def dec_fix_small dval_def dsigned_def power_int_add)

text \<open>A sum is exact when all its terms are on a common grid and their sizes add up below its range.\<close>

lemma foldl_dadd_exact:
  assumes "s \<le> dexp z" and "\<And>x. x \<in> set xs \<Longrightarrow> s \<le> dexp x"
    and "\<bar>dval z\<bar> + (\<Sum>x\<leftarrow>xs. \<bar>dval x\<bar>) < 10 powi (28 + s)"
  shows "dval (foldl dadd z xs) = dval z + (\<Sum>x\<leftarrow>xs. dval x) \<and> s \<le> dexp (foldl dadd z xs)"
  using assms
proof (induction xs arbitrary: z)
  case Nil
  then show ?case by simp
next
  case (Cons x xs)
  have "0 \<le> (\<Sum>x\<leftarrow>xs. \<bar>dval x\<bar>)"
    by (induction xs) auto
  then have "\<bar>dval z + dval x\<bar> < 10 powi (28 + s)"
    using Cons.prems(3) abs_triangle_ineq [of "dval z" "dval x"] by simp
  with Cons.prems(1,2) have sum: "dval (dadd z x) = dval z + dval x" "s \<le> dexp (dadd z x)"
    using dadd_exact [of s z x] by (auto simp: fits_def)
  have "\<bar>dval (dadd z x)\<bar> + (\<Sum>x\<leftarrow>xs. \<bar>dval x\<bar>) < 10 powi (28 + s)"
    using Cons.prems(3) sum(1) abs_triangle_ineq [of "dval z" "dval x"] by simp
  from Cons.IH [OF sum(2) _ this] Cons.prems(2) sum(1) show ?case by auto
qed

lemma dsum_exact:
  assumes "s \<le> 0" and "\<And>x. x \<in> set xs \<Longrightarrow> s \<le> dexp x"
    and "(\<Sum>x\<leftarrow>xs. \<bar>dval x\<bar>) < 10 powi (28 + s)"
  shows "dval (dsum xs) = (\<Sum>x\<leftarrow>xs. dval x)"
  using foldl_dadd_exact [of s dec0 xs] assms by (simp add: dsum_def)

section \<open>Smallest and largest of a list\<close>

text \<open>\<open>min(xs)\<close> and \<open>max(xs)\<close> keep the first of equal elements and raise on an empty list.\<close>

definition dmin_list :: "dec list \<Rightarrow> dec result" where
  "dmin_list xs = (case xs of [] \<Rightarrow> Inl (ValueError ''min() arg is an empty sequence'')
     | y # ys \<Rightarrow> Inr (foldl dmin y ys))"

definition dmax_list :: "dec list \<Rightarrow> dec result" where
  "dmax_list xs = (case xs of [] \<Rightarrow> Inl (ValueError ''max() arg is an empty sequence'')
     | y # ys \<Rightarrow> Inr (foldl dmax y ys))"

lemma foldl_dmin: "foldl dmin z xs \<in> set (z # xs) \<and> (\<forall>x \<in> set (z # xs). dval (foldl dmin z xs) \<le> dval x)"
proof (induction xs arbitrary: z)
  case Nil
  then show ?case by simp
next
  case (Cons x xs)
  have "dmin z x \<in> {z, x}" "dval (dmin z x) \<le> dval z" "dval (dmin z x) \<le> dval x"
    by (auto simp: dmin_def) (simp add: dlt_iff)+
  with Cons [of "dmin z x"] show ?case by (auto intro: order_trans)
qed

lemma foldl_dmax: "foldl dmax z xs \<in> set (z # xs) \<and> (\<forall>x \<in> set (z # xs). dval x \<le> dval (foldl dmax z xs))"
proof (induction xs arbitrary: z)
  case Nil
  then show ?case by simp
next
  case (Cons x xs)
  have "dmax z x \<in> {z, x}" "dval z \<le> dval (dmax z x)" "dval x \<le> dval (dmax z x)"
    by (auto simp: dmax_def) (simp add: dlt_iff)+
  with Cons [of "dmax z x"] show ?case by (auto intro: order_trans)
qed

lemma dmin_list_Inr: "dmin_list xs = Inr m \<Longrightarrow> m \<in> set xs \<and> (\<forall>x \<in> set xs. dval m \<le> dval x)"
  using foldl_dmin by (fastforce simp: dmin_list_def split: list.splits)

lemma dmax_list_Inr: "dmax_list xs = Inr m \<Longrightarrow> m \<in> set xs \<and> (\<forall>x \<in> set xs. dval x \<le> dval m)"
  using foldl_dmax by (fastforce simp: dmax_list_def split: list.splits)

lemma dminmax_list_total: "xs \<noteq> [] \<Longrightarrow> \<exists>m. dmin_list xs = Inr m" "xs \<noteq> [] \<Longrightarrow> \<exists>m. dmax_list xs = Inr m"
  by (cases xs; simp add: dmin_list_def dmax_list_def)+

end
