(* ===== verification/Contracts.thy ===== *)
theory Contracts
  imports Prelude
begin

text \<open>
  The interfaces the components rely on, as locales: exact addition with an overflow error,
  double-entry rows, a state machine with final states, validation that may be repeated, and
  records named by a digest of their content.  Each is interpreted, on the model's own operations,
  in the theory of the component that provides it.
\<close>

section \<open>Addition that is exact or raises\<close>

locale exact_adder =
  fixes add :: "'a \<Rightarrow> 'a \<Rightarrow> 'a result" and val :: "'a \<Rightarrow> rat"
  assumes add_val: "add a b = Inr c \<Longrightarrow> val c = val a + val b"
begin

lemma fold_val: "foldE add z xs = Inr t \<Longrightarrow> val t = val z + sum_list (map val xs)"
  by (induction xs arbitrary: z) (auto simp: bindE_eq_Inr add_val)

lemma fold_of_val:
  "foldE (\<lambda>s x. add s (f x)) z xs = Inr t \<Longrightarrow> val t = val z + sum_list (map (val \<circ> f) xs)"
  by (induction xs arbitrary: z) (auto simp: bindE_eq_Inr add_val)

end

section \<open>Double-entry rows\<close>

text \<open>
  A row carries a debit and a credit.  Entries are booked in balanced blocks; whatever groups the
  blocks are split into by a key they share, each group balances.
\<close>

locale double_entry =
  fixes debit credit :: "'p \<Rightarrow> rat" and key :: "'p \<Rightarrow> 'k"
begin

definition balanced :: "'p list \<Rightarrow> bool" where
  "balanced ps \<longleftrightarrow> sum_list (map debit ps) = sum_list (map credit ps)"

lemma balanced_Nil: "balanced []"
  by (simp add: balanced_def)

lemma balanced_append: "balanced ps \<Longrightarrow> balanced qs \<Longrightarrow> balanced (ps @ qs)"
  by (simp add: balanced_def)

lemma balanced_concat: "(\<And>ps. ps \<in> set pss \<Longrightarrow> balanced ps) \<Longrightarrow> balanced (concat pss)"
  by (induction pss) (auto simp: balanced_Nil balanced_append)

lemma balanced_pair: "debit p = credit q \<Longrightarrow> credit p = 0 \<Longrightarrow> debit q = 0 \<Longrightarrow> balanced [p, q]"
  by (simp add: balanced_def)

lemma balanced_mset: "mset ps = mset qs \<Longrightarrow> balanced ps \<Longrightarrow> balanced qs"
proof -
  assume "mset ps = mset qs"
  then have "mset (map f ps) = mset (map f qs)" for f :: "'p \<Rightarrow> rat" by simp
  then have "sum_list (map f ps) = sum_list (map f qs)" for f :: "'p \<Rightarrow> rat"
    by (metis sum_mset_sum_list)
  then show "balanced ps \<Longrightarrow> balanced qs" by (simp add: balanced_def)
qed

lemma balanced_group:
  assumes "\<And>ps. ps \<in> set pss \<Longrightarrow> balanced ps"
    and "\<And>ps p q. ps \<in> set pss \<Longrightarrow> p \<in> set ps \<Longrightarrow> q \<in> set ps \<Longrightarrow> key p = key q"
  shows "balanced (filter (\<lambda>p. key p = k) (concat pss))"
  using assms
proof (induction pss)
  case Nil
  then show ?case by (simp add: balanced_Nil)
next
  case (Cons ps pss)
  have "filter (\<lambda>p. key p = k) ps = ps \<or> filter (\<lambda>p. key p = k) ps = []"
    using Cons.prems(2) [of ps] by (cases ps) (auto simp: filter_id_conv filter_empty_conv)
  moreover have "balanced (filter (\<lambda>p. key p = k) (concat pss))"
    using Cons.prems by (intro Cons.IH) (meson list.set_intros)+
  ultimately show ?case
    using Cons.prems(1) by (auto simp: balanced_append)
qed

end

section \<open>State machines with final states\<close>

locale state_machine =
  fixes legal :: "'s \<Rightarrow> 's \<Rightarrow> bool" and final :: "'s \<Rightarrow> bool"
  assumes final_stuck: "final s \<Longrightarrow> \<not> legal s t"
begin

text \<open>In a legal history only the last state can be final, so a final state is never left.\<close>

lemma legal_history_final:
  "successively legal (xs @ [y]) \<Longrightarrow> x \<in> set xs \<Longrightarrow> \<not> final x"
proof (induction xs)
  case Nil
  then show ?case by simp
next
  case (Cons a xs)
  then show ?case
    by (cases xs) (auto dest: final_stuck)
qed

lemma final_history_last: "successively legal xs \<Longrightarrow> x \<in> set xs \<Longrightarrow> final x \<Longrightarrow> last xs = x"
  using legal_history_final [of "butlast xs" "last xs" x] append_butlast_last_id [of xs]
  by (metis append_is_Nil_conv empty_iff empty_set in_set_butlastD list.distinct(1) rotate1.simps(2) set_ConsD set_rotate1)

inductive steps :: "'s \<Rightarrow> 's \<Rightarrow> bool" where
  steps_refl: "steps s s"
| steps_trans: "steps s t \<Longrightarrow> legal t u \<Longrightarrow> steps s u"

lemma steps_from_final: "steps s t \<Longrightarrow> final s \<Longrightarrow> t = s"
  by (induction rule: steps.induct) (auto dest: final_stuck)

end

section \<open>Validation that may be repeated\<close>

locale revalidation =
  fixes validate :: "'a \<Rightarrow> 'a result"
  assumes validate_id: "validate x = Inr y \<Longrightarrow> y = x"
begin

text \<open>A record is valid when building it again returns it.\<close>

definition valid :: "'a \<Rightarrow> bool" where
  "valid x \<longleftrightarrow> validate x = Inr x"

lemma validate_iff: "validate x = Inr y \<longleftrightarrow> y = x \<and> valid x"
  using validate_id [of x y] by (auto simp: valid_def)

lemma map_validate: "mapE validate xs = Inr ys \<Longrightarrow> ys = xs \<and> (\<forall>x \<in> set xs. validate x = Inr x)"
proof (induction xs arbitrary: ys)
  case Nil
  then show ?case by simp
next
  case (Cons x xs)
  then show ?case by (auto simp: bindE_eq_Inr dest: validate_id)
qed

lemma map_validate_idem: "mapE validate xs = Inr ys \<Longrightarrow> mapE validate ys = Inr ys"
  using map_validate by blast

end

section \<open>Records named by their content\<close>

locale content_identity =
  fixes ident :: "'r \<Rightarrow> 'i" and derive :: "'r \<Rightarrow> 'i" and seal :: "'r \<Rightarrow> 'r"
  assumes ident_seal: "ident (seal r) = derive r"
    and derive_seal: "derive (seal r) = derive r"
begin

definition sealed :: "'r \<Rightarrow> bool" where
  "sealed r \<longleftrightarrow> ident r = derive r"

lemma sealed_seal: "sealed (seal r)"
  by (simp add: sealed_def ident_seal derive_seal)

lemma sealed_same_ident: "sealed r \<Longrightarrow> sealed q \<Longrightarrow> derive r = derive q \<longleftrightarrow> ident r = ident q"
  by (simp add: sealed_def)

end

end
