(* ===== verification/Exact_Decimal.thy ===== *)
theory Exact_Decimal
  imports Py_Decimal Contracts
begin

text \<open>
  The exact arithmetic of the live ledger (\<open>predictions/execution/ledger.py\<close>): decimals of at most
  six places and at most \<open>10 ^ 30\<close> in size, taken apart into coefficient and exponent, computed in
  unbounded integers, and rejected instead of rounded.  The theorems say that a result is the exact
  mathematical one, and that the operations fail only outside the ledger's range.
\<close>

definition MAX_LEDGER_DECIMAL_PLACES :: int where
  "MAX_LEDGER_DECIMAL_PLACES = 6"

definition MAX_LEDGER_AMOUNT :: dec where
  "MAX_LEDGER_AMOUNT = Dec False (10 ^ 30) 0"

definition MAX_LEDGER_EXPONENT :: int where
  "MAX_LEDGER_EXPONENT = 30"

definition MAX_LEDGER_COEFFICIENT_DIGITS :: nat where
  "MAX_LEDGER_COEFFICIENT_DIGITS = 37"

definition MAX_LEDGER_ADJUSTED_EXPONENT :: int where
  "MAX_LEDGER_ADJUSTED_EXPONENT = 30"

definition MAX_LEDGER_ALIGNMENT_DELTA :: int where
  "MAX_LEDGER_ALIGNMENT_DELTA = MAX_LEDGER_EXPONENT + MAX_LEDGER_DECIMAL_PLACES"

definition MAX_LEDGER_COEFFICIENT_BITS :: nat where
  "MAX_LEDGER_COEFFICIENT_BITS = 128"

lemmas ledger_limits = MAX_LEDGER_DECIMAL_PLACES_def MAX_LEDGER_EXPONENT_def
  MAX_LEDGER_COEFFICIENT_DIGITS_def MAX_LEDGER_ADJUSTED_EXPONENT_def MAX_LEDGER_ALIGNMENT_DELTA_def
  MAX_LEDGER_COEFFICIENT_BITS_def

section \<open>Taking decimals apart and putting them together\<close>

text \<open>The test on the adjusted exponent, the same for both directions.\<close>

definition adjusted_in_range :: "nat \<Rightarrow> int \<Rightarrow> bool" where
  "adjusted_in_range coefficient exponent =
     (let adjusted_exponent = exponent + int (num_digits coefficient) - 1;
          delta = MAX_LEDGER_ADJUSTED_EXPONENT - exponent
      in \<not> adjusted_exponent > MAX_LEDGER_ADJUSTED_EXPONENT \<and>
         \<not> (adjusted_exponent = MAX_LEDGER_ADJUSTED_EXPONENT \<and>
            (delta > MAX_LEDGER_ALIGNMENT_DELTA \<or> coefficient > 10 ^ nat delta)))"

fun decimal_resource_components :: "py_number \<Rightarrow> (int \<times> int) result" where
  "decimal_resource_components (PyDecimal value) =
     (if dexp value < - MAX_LEDGER_DECIMAL_PLACES \<or> dexp value > MAX_LEDGER_EXPONENT \<or>
         num_digits (dcoef value) < 1 \<or> num_digits (dcoef value) > MAX_LEDGER_COEFFICIENT_DIGITS
      then Inl ExactArithmeticError
      else if dcoef value = 0 then Inr (0, 0)
      else if \<not> adjusted_in_range (dcoef value) (dexp value) then Inl ExactArithmeticError
      else Inr (if dneg value then - int (dcoef value) else int (dcoef value), dexp value))"
| "decimal_resource_components PyNonFinite = Inl ExactArithmeticError"
| "decimal_resource_components PyOther = Inl ExactArithmeticError"

definition decimal_coefficient :: "dec \<Rightarrow> (int \<times> int) result" where
  "decimal_coefficient value = decimal_resource_components (PyDecimal value)"

definition bounded_decimal :: "dec \<Rightarrow> bool" where
  "bounded_decimal value =
     (case decimal_resource_components (PyDecimal value) of Inl _ \<Rightarrow> False | Inr _ \<Rightarrow> True)"

definition decimal_from_coefficient :: "int \<Rightarrow> int \<Rightarrow> dec result" where
  "decimal_from_coefficient coefficient exponent =
     (if exponent < - MAX_LEDGER_DECIMAL_PLACES \<or> exponent > MAX_LEDGER_EXPONENT \<or>
         bit_length (nat \<bar>coefficient\<bar>) > MAX_LEDGER_COEFFICIENT_BITS
      then Inl ExactArithmeticError
      else if coefficient = 0 then Inr dec0
      else if num_digits (nat \<bar>coefficient\<bar>) > MAX_LEDGER_COEFFICIENT_DIGITS
      then Inl ExactArithmeticError
      else if \<not> adjusted_in_range (nat \<bar>coefficient\<bar>) exponent then Inl ExactArithmeticError
      else Inr (Dec (coefficient < 0) (nat \<bar>coefficient\<bar>) exponent))"

section \<open>Operations\<close>

definition exact_product :: "dec \<Rightarrow> dec \<Rightarrow> dec result" where
  "exact_product left right =
     bindE (decimal_coefficient left) (\<lambda>(left_coefficient, left_exponent).
     bindE (decimal_coefficient right) (\<lambda>(right_coefficient, right_exponent).
       if left_coefficient = 0 \<or> right_coefficient = 0 then Inr dec0
       else let output_exponent = left_exponent + right_exponent;
                minimum_output_digits =
                  num_digits (nat \<bar>left_coefficient\<bar>) + num_digits (nat \<bar>right_coefficient\<bar>) - 1
            in if output_exponent < - MAX_LEDGER_DECIMAL_PLACES \<or>
                  output_exponent > MAX_LEDGER_EXPONENT \<or>
                  minimum_output_digits > MAX_LEDGER_COEFFICIENT_DIGITS
               then Inl ExactArithmeticError
               else decimal_from_coefficient (left_coefficient * right_coefficient) output_exponent))"

definition exact_add :: "dec \<Rightarrow> dec \<Rightarrow> dec result" where
  "exact_add left right =
     bindE (decimal_coefficient left) (\<lambda>(left_coefficient, left_exponent).
     bindE (decimal_coefficient right) (\<lambda>(right_coefficient, right_exponent).
       let exponent = min left_exponent right_exponent;
           left_delta = left_exponent - exponent;
           right_delta = right_exponent - exponent
       in if left_delta > MAX_LEDGER_ALIGNMENT_DELTA \<or> right_delta > MAX_LEDGER_ALIGNMENT_DELTA \<or>
             (left_coefficient \<noteq> 0 \<and>
              int (num_digits (nat \<bar>left_coefficient\<bar>)) + left_delta > int MAX_LEDGER_COEFFICIENT_DIGITS) \<or>
             (right_coefficient \<noteq> 0 \<and>
              int (num_digits (nat \<bar>right_coefficient\<bar>)) + right_delta > int MAX_LEDGER_COEFFICIENT_DIGITS)
          then Inl ExactArithmeticError
          else decimal_from_coefficient
                 (left_coefficient * 10 ^ nat left_delta + right_coefficient * 10 ^ nat right_delta)
                 exponent))"

definition exact_difference :: "dec \<Rightarrow> dec \<Rightarrow> dec result" where
  "exact_difference left right =
     bindE (decimal_coefficient right) (\<lambda>(right_coefficient, right_exponent).
     bindE (decimal_from_coefficient (- right_coefficient) right_exponent) (\<lambda>negated.
       exact_add left negated))"

definition is_quantized :: "dec \<Rightarrow> dec \<Rightarrow> bool" where
  "is_quantized value quantum =
     (case decimal_coefficient value of Inl _ \<Rightarrow> False
      | Inr (value_coefficient, value_exponent) \<Rightarrow>
        (case decimal_coefficient quantum of Inl _ \<Rightarrow> False
         | Inr (quantum_coefficient, quantum_exponent) \<Rightarrow>
           if quantum_coefficient = 0 then False
           else let exponent = min value_exponent quantum_exponent;
                    value_delta = value_exponent - exponent;
                    quantum_delta = quantum_exponent - exponent
                in if value_delta > MAX_LEDGER_ALIGNMENT_DELTA \<or> quantum_delta > MAX_LEDGER_ALIGNMENT_DELTA
                   then False
                   else let value_integer = value_coefficient * 10 ^ nat value_delta;
                            quantum_integer = quantum_coefficient * 10 ^ nat quantum_delta
                        in value_integer mod \<bar>quantum_integer\<bar> = 0))"

section \<open>The range, as numbers\<close>

definition ledger_max :: rat where
  "ledger_max = 10 ^ 30"

lemma MAX_LEDGER_AMOUNT_val: "dval MAX_LEDGER_AMOUNT = ledger_max"
  by (simp add: MAX_LEDGER_AMOUNT_def dval_Dec_False ledger_max_def)

lemma scaled_le_max: "e \<le> 30 \<Longrightarrow> of_nat c * 10 powi e \<le> ledger_max \<longleftrightarrow> c \<le> 10 ^ nat (30 - e)"
proof -
  assume "e \<le> 30"
  then have "ledger_max = of_nat (10 ^ nat (30 - e)) * 10 powi e"
    using powi_shift [of e 30] by (simp add: ledger_max_def)
  then have "of_nat c * 10 powi e \<le> ledger_max \<longleftrightarrow>
      of_nat c * 10 powi e \<le> (of_nat (10 ^ nat (30 - e)) :: rat) * 10 powi e"
    by (simp only:)
  also have "\<dots> \<longleftrightarrow> c \<le> 10 ^ nat (30 - e)"
    by (simp only: mult_le_cancel_right_pos [OF powi_pos] of_nat_le_iff)
  finally show ?thesis .
qed

lemma adjusted_in_range_iff:
  assumes "- 6 \<le> e" and "e \<le> 30" and "0 < c"
  shows "adjusted_in_range c e \<longleftrightarrow> of_nat c * 10 powi e \<le> ledger_max"
proof -
  let ?n = "num_digits c"
  define d where "d = nat (30 - e)"
  have e: "e = 30 - int d" and d: "d \<le> 36" using assms by (simp_all add: d_def)
  have lower: "10 ^ (?n - 1) \<le> c" using assms(3) by (rule num_digits_lower)
  have upper: "c < 10 ^ ?n" by (rule num_digits_upper)
  have n: "0 < ?n" by (rule num_digits_pos)
  have unfold: "adjusted_in_range c e \<longleftrightarrow> ?n \<le> Suc d \<and> (?n = Suc d \<longrightarrow> c \<le> 10 ^ d)"
    using d by (auto simp: adjusted_in_range_def Let_def ledger_limits e)
  consider "Suc d < ?n" | "?n = Suc d" | "?n \<le> d" by linarith
  then have "adjusted_in_range c e \<longleftrightarrow> c \<le> 10 ^ d"
  proof cases
    case 1
    then have "(10::nat) ^ d < 10 ^ (?n - 1)" by (intro power_strict_increasing) auto
    with lower have "\<not> c \<le> 10 ^ d" by linarith
    with 1 show ?thesis by (simp add: unfold)
  next
    case 2
    then show ?thesis by (simp add: unfold)
  next
    case 3
    then have "(10::nat) ^ ?n \<le> 10 ^ d" by (intro power_increasing) auto
    with upper have "c \<le> 10 ^ d" by linarith
    with 3 show ?thesis by (simp add: unfold)
  qed
  with scaled_le_max [OF assms(2)] show ?thesis by (simp add: d_def)
qed

lemma digits_in_range:
  assumes "- 6 \<le> e" and "e \<le> 30" and "of_nat c * 10 powi e \<le> ledger_max"
  shows "num_digits c \<le> 37" and "c \<le> 10 ^ 36" and "bit_length c \<le> 128"
proof -
  have "c \<le> 10 ^ nat (30 - e)" using assms scaled_le_max by blast
  also have "(10::nat) ^ nat (30 - e) \<le> 10 ^ 36" using assms by (intro power_increasing) auto
  finally show "c \<le> 10 ^ 36" .
  then show "num_digits c \<le> 37" and "bit_length c \<le> 128"
    by (simp_all add: num_digits_le_iff bit_length_le_iff)
qed


section \<open>What the operations compute\<close>

lemma coefficient_val_le: "\<bar>of_int k * 10 powi e\<bar> = of_nat (nat \<bar>k\<bar>) * (10::rat) powi e"
  by (simp add: abs_mult)

lemma dval_abs_coef: "\<bar>dval d\<bar> = of_nat (dcoef d) * 10 powi dexp d"
  by (simp add: dval_def dsigned_def abs_mult)

text \<open>A decimal is bounded exactly when it has at most six places and is at most \<open>10 ^ 30\<close> in size.\<close>

lemma bounded_decimal_iff:
  "bounded_decimal d \<longleftrightarrow> - 6 \<le> dexp d \<and> dexp d \<le> 30 \<and> \<bar>dval d\<bar> \<le> ledger_max"
proof (cases "- 6 \<le> dexp d \<and> dexp d \<le> 30")
  case True
  show ?thesis
  proof (cases "dcoef d = 0")
    case zero: True
    with True show ?thesis
      by (simp add: bounded_decimal_def ledger_limits dval_abs_coef ledger_max_def num_digits.simps)
  next
    case False
    with True adjusted_in_range_iff [of "dexp d" "dcoef d"]
      digits_in_range [of "dexp d" "dcoef d"] num_digits_pos [of "dcoef d"]
    show ?thesis
      by (auto simp: bounded_decimal_def ledger_limits dval_abs_coef)
  qed
qed (auto simp: bounded_decimal_def ledger_limits)

lemma decimal_coefficient_cases:
  "decimal_coefficient d =
     (if bounded_decimal d then Inr (if dcoef d = 0 then (0, 0) else (dsigned d, dexp d))
      else Inl ExactArithmeticError)"
  by (auto simp: bounded_decimal_def decimal_coefficient_def dsigned_def)

lemma decimal_from_coefficient_cases:
  "decimal_from_coefficient k e =
     (if - 6 \<le> e \<and> e \<le> 30 \<and> \<bar>of_int k * 10 powi e\<bar> \<le> ledger_max
      then Inr (if k = 0 then dec0 else Dec (k < 0) (nat \<bar>k\<bar>) e)
      else Inl ExactArithmeticError)"
proof (cases "- 6 \<le> e \<and> e \<le> 30")
  case True
  show ?thesis
  proof (cases "k = 0")
    case zero: True
    with True show ?thesis
      by (simp add: decimal_from_coefficient_def ledger_limits ledger_max_def bit_length.simps)
  next
    case False
    then have "0 < nat \<bar>k\<bar>" by simp
    with True False adjusted_in_range_iff [of e "nat \<bar>k\<bar>"] digits_in_range [of e "nat \<bar>k\<bar>"]
    show ?thesis
      unfolding coefficient_val_le
      by (auto simp: decimal_from_coefficient_def ledger_limits)
  qed
qed (auto simp: decimal_from_coefficient_def ledger_limits)

lemma dval_Dec_int: "dval (Dec (k < 0) (nat \<bar>k\<bar>) e) = of_int k * 10 powi e"
  by (simp add: dval_def dsigned_def)

lemma decimal_from_coefficient_val:
  assumes "decimal_from_coefficient k e = Inr d"
  shows "dval d = of_int k * 10 powi e" and "bounded_decimal d"
  using assms by (auto simp: decimal_from_coefficient_cases dval_Dec_int bounded_decimal_iff ledger_max_def
      split: if_splits)


lemma bounded_decimal_dec0 [simp]: "bounded_decimal dec0"
  by (simp add: bounded_decimal_iff ledger_max_def)

text \<open>The components of a bounded decimal, as every operation receives them.\<close>

lemma components_of_bounded:
  assumes "bounded_decimal d"
  obtains c e where "decimal_coefficient d = Inr (c, e)" and "of_int c * 10 powi e = dval d"
    and "- 6 \<le> e" and "e \<le> 30" and "\<bar>of_int c * (10::rat) powi e\<bar> \<le> ledger_max"
    and "c = 0 \<longleftrightarrow> dval d = 0"
proof (cases "dcoef d = 0")
  case True
  with assms show ?thesis
    by (intro that [of 0 0]) (auto simp: decimal_coefficient_cases ledger_max_def dval_def dsigned_def)
next
  case False
  with assms show ?thesis
    by (intro that [of "dsigned d" "dexp d"])
      (simp_all add: decimal_coefficient_cases bounded_decimal_iff dval_def dsigned_def)
qed

lemma unbounded_components: "\<not> bounded_decimal d \<Longrightarrow> decimal_coefficient d = Inl ExactArithmeticError"
  by (simp add: decimal_coefficient_cases)

lemma aligned_digits:
  assumes "- 6 \<le> m" and "m \<le> e" and "\<bar>of_int c * (10::rat) powi e\<bar> \<le> ledger_max" and "c \<noteq> 0"
  shows "int (num_digits (nat \<bar>c\<bar>)) + (e - m) \<le> 37"
proof -
  let ?n = "num_digits (nat \<bar>c\<bar>)" let ?k = "nat (e - m)"
  have "of_nat (nat \<bar>c\<bar> * 10 ^ ?k) * 10 powi m \<le> ledger_max"
    using assms(2,3) powi_shift [of m e] by (simp add: abs_mult mult.assoc)
  moreover have "m \<le> 30"
  proof (rule ccontr)
    assume "\<not> m \<le> 30"
    then have "(10::rat) powi 31 \<le> 10 powi e" using assms(2) by (intro power_int_increasing) auto
    moreover have "10 powi e \<le> \<bar>of_int c * (10::rat) powi e\<bar>"
    proof -
      have "(1::rat) \<le> \<bar>of_int c\<bar>" using \<open>c \<noteq> 0\<close> by linarith
      then show ?thesis by (simp add: abs_mult)
    qed
    ultimately have "(10::rat) powi 31 \<le> ledger_max" using assms(3) by linarith
    then show False by (simp add: ledger_max_def)
  qed
  ultimately have small: "nat \<bar>c\<bar> * 10 ^ ?k \<le> 10 ^ 36"
    using assms(1) by (intro digits_in_range(2))
  have "10 ^ (?n - 1) \<le> nat \<bar>c\<bar>" using assms(4) by (intro num_digits_lower) simp
  then have "10 ^ (?n - 1) * 10 ^ ?k \<le> nat \<bar>c\<bar> * 10 ^ ?k" by (rule mult_le_mono1)
  also note small
  finally have "(10::nat) ^ (?n - 1 + ?k) \<le> 10 ^ 36" by (simp only: power_add)
  then have "?n - 1 + ?k \<le> 36"
    by (simp only: power_increasing_iff)
  then show ?thesis using assms(2) num_digits_pos [of "nat \<bar>c\<bar>"] by linarith
qed


lemma exact_add_components:
  assumes "decimal_coefficient a = Inr (ca, ea)" and "decimal_coefficient b = Inr (cb, eb)"
    and "- 6 \<le> ea" and "ea \<le> 30" and "\<bar>of_int ca * (10::rat) powi ea\<bar> \<le> ledger_max"
    and "- 6 \<le> eb" and "eb \<le> 30" and "\<bar>of_int cb * (10::rat) powi eb\<bar> \<le> ledger_max"
  shows "exact_add a b =
    decimal_from_coefficient (ca * 10 ^ nat (ea - min ea eb) + cb * 10 ^ nat (eb - min ea eb)) (min ea eb)"
proof -
  have "- 6 \<le> min ea eb" "min ea eb \<le> ea" "min ea eb \<le> eb" using assms by auto
  note digits = aligned_digits [OF this(1,2) assms(5)] aligned_digits [OF this(1,3) assms(8)]
  then show ?thesis
    using assms(1-4,6,7)
    by (auto simp: exact_add_def Let_def ledger_limits not_le [symmetric] simp del: not_le)
qed

lemma aligned_sum_val:
  "of_int (ca * 10 ^ nat (ea - min ea eb) + cb * 10 ^ nat (eb - min ea eb)) * (10::rat) powi min ea eb
    = of_int ca * 10 powi ea + of_int cb * 10 powi eb"
  using powi_shift [of "min ea eb" ea] powi_shift [of "min ea eb" eb]
  by (simp add: distrib_right mult.assoc)

lemma exact_add_cases:
  "case exact_add a b of
     Inl e \<Rightarrow> e = ExactArithmeticError \<and>
       \<not> (bounded_decimal a \<and> bounded_decimal b \<and> \<bar>dval a + dval b\<bar> \<le> ledger_max)
   | Inr c \<Rightarrow> bounded_decimal a \<and> bounded_decimal b \<and> bounded_decimal c \<and> dval c = dval a + dval b"
proof (cases "bounded_decimal a \<and> bounded_decimal b")
  case True
  then obtain ca ea cb eb where
    a: "decimal_coefficient a = Inr (ca, ea)" "of_int ca * 10 powi ea = dval a" "- 6 \<le> ea" "ea \<le> 30"
       "\<bar>of_int ca * (10::rat) powi ea\<bar> \<le> ledger_max" and
    b: "decimal_coefficient b = Inr (cb, eb)" "of_int cb * 10 powi eb = dval b" "- 6 \<le> eb" "eb \<le> 30"
       "\<bar>of_int cb * (10::rat) powi eb\<bar> \<le> ledger_max"
    by (metis components_of_bounded)
  let ?k = "ca * 10 ^ nat (ea - min ea eb) + cb * 10 ^ nat (eb - min ea eb)"
  have val: "of_int ?k * 10 powi min ea eb = dval a + dval b"
    unfolding aligned_sum_val using a(2) b(2) by simp
  have eq: "exact_add a b = decimal_from_coefficient ?k (min ea eb)"
    by (rule exact_add_components [OF a(1) b(1) a(3,4,5) b(3,4,5)])
  show ?thesis
  proof (cases "decimal_from_coefficient ?k (min ea eb)")
    case (Inl e)
    have "- 6 \<le> min ea eb" "min ea eb \<le> 30" using a b by auto
    with Inl val eq show ?thesis by (auto simp: decimal_from_coefficient_cases split: if_splits)
  next
    case (Inr c)
    with True eq val decimal_from_coefficient_val [OF Inr] show ?thesis by simp
  qed
next
  case False
  then have "exact_add a b = Inl ExactArithmeticError"
    by (cases "bounded_decimal a") (auto simp: exact_add_def decimal_coefficient_cases)
  with False show ?thesis by auto
qed

text \<open>The contract of addition, for the folds of the ledger and of reconciliation.\<close>

interpretation ledger_add: exact_adder exact_add dval
proof
  fix a b c
  assume "exact_add a b = Inr c"
  with exact_add_cases [of a b] show "dval c = dval a + dval b" by simp
qed


lemma exact_difference_cases:
  "case exact_difference a b of
     Inl e \<Rightarrow> e = ExactArithmeticError \<and>
       \<not> (bounded_decimal a \<and> bounded_decimal b \<and> \<bar>dval a - dval b\<bar> \<le> ledger_max)
   | Inr c \<Rightarrow> bounded_decimal a \<and> bounded_decimal b \<and> bounded_decimal c \<and> dval c = dval a - dval b"
proof (cases "bounded_decimal b")
  case True
  then obtain cb eb where b: "decimal_coefficient b = Inr (cb, eb)" "of_int cb * 10 powi eb = dval b"
      "- 6 \<le> eb" "eb \<le> 30" "\<bar>of_int cb * (10::rat) powi eb\<bar> \<le> ledger_max"
    by (rule components_of_bounded)
  then obtain n where n: "decimal_from_coefficient (- cb) eb = Inr n"
    by (simp add: decimal_from_coefficient_cases abs_mult)
  from decimal_from_coefficient_val [OF n] b(2) have "dval n = - dval b" "bounded_decimal n"
    by simp_all
  moreover have "exact_difference a b = exact_add a n"
    by (simp add: exact_difference_def b(1) n)
  ultimately show ?thesis
    using exact_add_cases [of a n] True by (auto split: sum.splits)
qed (simp add: exact_difference_def unbounded_components)

lemma exact_product_zero:
  assumes "bounded_decimal a" and "bounded_decimal b" and "dval a * dval b = 0"
  shows "exact_product a b = Inr dec0"
  using assms components_of_bounded [OF assms(1)] components_of_bounded [OF assms(2)]
  by (auto simp: exact_product_def decimal_coefficient_cases dval_def dsigned_def)

lemma product_val:
  "of_int (ca * cb) * (10::rat) powi (ea + eb) = (of_int ca * 10 powi ea) * (of_int cb * 10 powi eb)"
  by (simp add: power_int_add)

text \<open>A product with more digits than the ledger keeps is out of range anyway.\<close>

lemma product_digits:
  assumes "- 6 \<le> e" and "a \<noteq> 0" and "b \<noteq> 0" and "\<bar>of_int (a * b) * (10::rat) powi e\<bar> \<le> ledger_max"
    and "e \<le> 30"
  shows "num_digits (nat \<bar>a\<bar>) + num_digits (nat \<bar>b\<bar>) - 1 \<le> 37"
proof -
  let ?n = "num_digits (nat \<bar>a\<bar>)" let ?m = "num_digits (nat \<bar>b\<bar>)"
  have "10 ^ (?n - 1) * 10 ^ (?m - 1) \<le> nat \<bar>a\<bar> * nat \<bar>b\<bar>"
    using assms(2,3) by (intro mult_le_mono num_digits_lower) auto
  also have "nat \<bar>a\<bar> * nat \<bar>b\<bar> = nat \<bar>a * b\<bar>"
    by (simp add: abs_mult nat_mult_distrib)
  also have "\<dots> \<le> 10 ^ 36"
    using assms(1,4,5) unfolding coefficient_val_le by (intro digits_in_range(2))
  finally have "(10::nat) ^ (?n - 1 + (?m - 1)) \<le> 10 ^ 36" by (simp only: power_add)
  then have "?n - 1 + (?m - 1) \<le> 36" by (simp only: power_increasing_iff)
  then show ?thesis using num_digits_pos [of "nat \<bar>a\<bar>"] num_digits_pos [of "nat \<bar>b\<bar>"] by linarith
qed

lemma exact_product_cases:
  "case exact_product a b of
     Inl e \<Rightarrow> e = ExactArithmeticError \<and>
       (bounded_decimal a \<and> bounded_decimal b \<longrightarrow>
          dval a * dval b \<noteq> 0 \<and>
          (dexp a + dexp b < - 6 \<or> 30 < dexp a + dexp b \<or> ledger_max < \<bar>dval a * dval b\<bar>))
   | Inr c \<Rightarrow> bounded_decimal a \<and> bounded_decimal b \<and> bounded_decimal c \<and> dval c = dval a * dval b"
proof (cases "bounded_decimal a \<and> bounded_decimal b")
  case bounded: True
  show ?thesis
  proof (cases "dval a * dval b = 0")
    case True
    with bounded show ?thesis by (simp add: exact_product_zero)
  next
    case False
    then have nz: "dcoef a \<noteq> 0" "dcoef b \<noteq> 0" by (simp_all add: dval_zero_iff)
    let ?e = "dexp a + dexp b" let ?k = "dsigned a * dsigned b"
    have val: "of_int ?k * 10 powi ?e = dval a * dval b"
      by (simp only: product_val) (simp add: dval_def)
    have eq: "exact_product a b =
        (if ?e < - 6 \<or> ?e > 30 \<or> num_digits (dcoef a) + num_digits (dcoef b) - 1 > 37
         then Inl ExactArithmeticError else decimal_from_coefficient ?k ?e)"
      using bounded nz
      by (auto simp: exact_product_def decimal_coefficient_cases dsigned_def Let_def ledger_limits)
    show ?thesis
    proof (cases "?e < - 6 \<or> ?e > 30")
      case True
      with eq False show ?thesis by auto
    next
      case inrange: False
      have digits: "num_digits (dcoef a) + num_digits (dcoef b) - 1 \<le> 37"
        if "\<bar>dval a * dval b\<bar> \<le> ledger_max"
        using product_digits [of ?e "dsigned a" "dsigned b"] that inrange nz val
        by (auto simp: dsigned_def split: if_splits)
      show ?thesis
      proof (cases "\<bar>dval a * dval b\<bar> \<le> ledger_max")
        case True
        then obtain c where c: "decimal_from_coefficient ?k ?e = Inr c"
          using inrange val by (simp add: decimal_from_coefficient_cases)
        with decimal_from_coefficient_val [OF c] eq inrange digits [OF True] bounded val show ?thesis
          by simp
      next
        case over: False
        then have "decimal_from_coefficient ?k ?e = Inl ExactArithmeticError"
          using val by (simp add: decimal_from_coefficient_cases)
        with eq over False show ?thesis by auto
      qed
    qed
  qed
next
  case False
  then have "exact_product a b = Inl ExactArithmeticError"
    by (cases "bounded_decimal a") (auto simp: exact_product_def decimal_coefficient_cases)
  with False show ?thesis by auto
qed


lemma quantum_divides:
  fixes qi vi :: int
  assumes "qi \<noteq> 0"
  shows "vi mod \<bar>qi\<bar> = 0 \<longleftrightarrow> (\<exists>k::int. (of_int vi :: rat) * 10 powi e = of_int k * (of_int qi * 10 powi e))"
proof -
  have "vi mod \<bar>qi\<bar> = 0 \<longleftrightarrow> (\<exists>k. vi = k * qi)"
    unfolding mod_eq_0_iff_dvd abs_dvd_iff by (simp only: dvd_def mult.commute)
  also have "\<dots> \<longleftrightarrow> (\<exists>k::int. (of_int vi :: rat) = of_int (k * qi))"
    by (simp only: of_int_eq_iff)
  also have "\<dots> \<longleftrightarrow> (\<exists>k::int. (of_int vi :: rat) * 10 powi e = of_int k * (of_int qi * 10 powi e))"
    by (simp add: mult.assoc [symmetric])
  finally show ?thesis .
qed

lemma is_quantized_iff:
  "is_quantized v q \<longleftrightarrow>
     bounded_decimal v \<and> bounded_decimal q \<and> dval q \<noteq> 0 \<and> (\<exists>k::int. dval v = of_int k * dval q)"
proof (cases "bounded_decimal v \<and> bounded_decimal q")
  case True
  then obtain cv ev cq eq where
    v: "decimal_coefficient v = Inr (cv, ev)" "of_int cv * 10 powi ev = dval v" "- 6 \<le> ev" "ev \<le> 30" and
    q: "decimal_coefficient q = Inr (cq, eq)" "of_int cq * 10 powi eq = dval q" "- 6 \<le> eq" "eq \<le> 30"
       "cq = 0 \<longleftrightarrow> dval q = 0"
    by (metis components_of_bounded)
  let ?m = "min ev eq"
  have vi: "of_int (cv * 10 ^ nat (ev - ?m)) * (10::rat) powi ?m = dval v"
    and qi: "of_int (cq * 10 ^ nat (eq - ?m)) * (10::rat) powi ?m = dval q"
    using powi_shift [of ?m ev] powi_shift [of ?m eq] v(2) q(2) by (simp_all add: mult.assoc)
  have "is_quantized v q \<longleftrightarrow> cq \<noteq> 0 \<and> (cv * 10 ^ nat (ev - ?m)) mod \<bar>cq * 10 ^ nat (eq - ?m)\<bar> = 0"
    using v(1,3,4) q(1,3,4) by (auto simp: is_quantized_def Let_def ledger_limits)
  also have "\<dots> \<longleftrightarrow> dval q \<noteq> 0 \<and> (\<exists>k::int. dval v = of_int k * dval q)"
  proof (cases "cq = 0")
    case False
    then have "cq * 10 ^ nat (eq - ?m) \<noteq> 0" by simp
    from quantum_divides [OF this, of "cv * 10 ^ nat (ev - ?m)" ?m] show ?thesis
      unfolding vi qi using False q(5) by simp
  qed (simp add: q(5))
  finally show ?thesis using True by simp
next
  case False
  then show ?thesis
    by (auto simp: is_quantized_def decimal_coefficient_cases split: sum.splits if_splits)
qed

section \<open>Properties\<close>

text \<open>
  C27: exact addition and subtraction of ledger decimals never round.  Either the result is the exact
  sum or difference, again a bounded decimal, or the operation raises, and it raises only when an
  argument or the exact result is outside the ledger's range.
\<close>

theorem exact_add_difference_exact:
  "(case exact_add a b of
      Inl e \<Rightarrow> e = ExactArithmeticError \<and>
        \<not> (bounded_decimal a \<and> bounded_decimal b \<and> \<bar>dval a + dval b\<bar> \<le> ledger_max)
    | Inr c \<Rightarrow> bounded_decimal a \<and> bounded_decimal b \<and> bounded_decimal c \<and> dval c = dval a + dval b) \<and>
   (case exact_difference a b of
      Inl e \<Rightarrow> e = ExactArithmeticError \<and>
        \<not> (bounded_decimal a \<and> bounded_decimal b \<and> \<bar>dval a - dval b\<bar> \<le> ledger_max)
    | Inr c \<Rightarrow> bounded_decimal a \<and> bounded_decimal b \<and> bounded_decimal c \<and> dval c = dval a - dval b)"
  using exact_add_cases exact_difference_cases by (rule conjI)

text \<open>
  C28: the product of two ledger decimals is exact or the operation raises; with bounded arguments
  it raises only when the product needs more than six places, an exponent above 30, or a value
  above \<open>10 ^ 30\<close>.
\<close>

theorem exact_product_exact:
  "case exact_product a b of
     Inl e \<Rightarrow> e = ExactArithmeticError \<and>
       \<not> (bounded_decimal a \<and> bounded_decimal b \<and>
          (dval a * dval b = 0 \<or>
           - 6 \<le> dexp a + dexp b \<and> dexp a + dexp b \<le> 30 \<and> \<bar>dval a * dval b\<bar> \<le> ledger_max))
   | Inr c \<Rightarrow> bounded_decimal a \<and> bounded_decimal b \<and> bounded_decimal c \<and> dval c = dval a * dval b"
  using exact_product_cases [of a b] by (cases "exact_product a b") (simp_all, linarith)

text \<open>
  The quantum test accepts exactly the bounded decimals that are an integer multiple of a
  bounded nonzero quantum.
\<close>

lemma is_quantized_multiple:
  "is_quantized v q \<longleftrightarrow>
     bounded_decimal v \<and> bounded_decimal q \<and> dval q \<noteq> 0 \<and> (\<exists>k::int. dval v = of_int k * dval q)"
  by (rule is_quantized_iff)

end
