(* ===== verification/Canonical.thy ===== *)
theory Canonical
  imports Py_Decimal
begin

text \<open>
  Canonical content and its digests.  The program names records by hashing their canonical JSON
  (sorted keys, no spaces, decimals and identifiers as strings): SHA-256 for fingerprints and
  UUID version 5 for identifiers.  The content is modelled as a value of \<open>jval\<close>, one constructor
  per kind of field so that no two contents are confused; the two digest functions are parameters,
  since nothing here depends on how they compute.  What a proof needs of them (no collision among
  the contents in play) is always stated as a hypothesis.
\<close>

datatype jval =
    JNull
  | JBool bool
  | JInt int
  | JText string
  | JDec dec
  | JUuid uuid
  | JHash sha256
  | JTime timestamp
  | JList "jval list"
  | JObj "(string \<times> jval) list"

record digests =
  sha256_of :: "jval \<Rightarrow> sha256"
  uuid5_of :: "uuid \<Rightarrow> jval \<Rightarrow> uuid"

definition jopt :: "('a \<Rightarrow> jval) \<Rightarrow> 'a option \<Rightarrow> jval" where
  "jopt f v = (case v of None \<Rightarrow> JNull | Some x \<Rightarrow> f x)"

definition jhashes :: "sha256 list \<Rightarrow> jval" where
  "jhashes hs = JList (map JHash hs)"

lemma jopt_inj: "(\<And>x y. f x = f y \<Longrightarrow> x = y) \<Longrightarrow> (\<And>x. f x \<noteq> JNull) \<Longrightarrow> jopt f u = jopt f v \<Longrightarrow> u = v"
  by (auto simp: jopt_def split: option.splits dest: sym)

lemma jopt_simps [simp]:
  "jopt JText u = jopt JText v \<longleftrightarrow> u = v" "jopt JUuid u' = jopt JUuid v' \<longleftrightarrow> u' = v'"
  "jopt JHash h = jopt JHash h' \<longleftrightarrow> h = h'" "jopt JTime t = jopt JTime t' \<longleftrightarrow> t = t'"
  "jopt JInt i = jopt JInt i' \<longleftrightarrow> i = i'" "jopt JDec d = jopt JDec d' \<longleftrightarrow> d = d'"
  by (auto simp: jopt_def split: option.splits)

lemma jhashes_inj [simp]: "jhashes hs = jhashes gs \<longleftrightarrow> hs = gs"
  by (auto simp: jhashes_def intro: map_injective injI)

text \<open>Sample digest functions, computable ones, for the worked examples of the other theories.\<close>

fun leaf_code :: "jval \<Rightarrow> int" where
  "leaf_code JNull = 0"
| "leaf_code (JBool b) = (if b then 1 else 2)"
| "leaf_code (JInt i) = i"
| "leaf_code (JText s) = fold (\<lambda>c acc. (acc * 257 + of_char c) mod 1000003) s 1"
| "leaf_code (JDec d) = int (dcoef d) * 64 + dexp d"
| "leaf_code (JUuid u) = int (uuid_int u)"
| "leaf_code (JHash h) = int (sha256_int h)"
| "leaf_code (JTime t) = t"
| "leaf_code (JList vs) = int (length vs)"
| "leaf_code (JObj fs) = int (length fs)"

definition content_code :: "jval \<Rightarrow> int" where
  "content_code j = (case j of
       JObj fs \<Rightarrow> fold (\<lambda>(_, v) acc. (acc * 1009 + leaf_code v) mod 1000003) fs 1
     | JList vs \<Rightarrow> fold (\<lambda>v acc. (acc * 1009 + leaf_code v) mod 1000003) vs 1
     | _ \<Rightarrow> leaf_code j)"

definition example_digests :: digests where
  "example_digests = \<lparr>sha256_of = (\<lambda>j. Sha256 (nat (content_code j))),
                      uuid5_of = (\<lambda>_ j. Uuid (nat (content_code j)))\<rparr>"

section \<open>Text fields\<close>

text \<open>\<open>StringConstraints(min_length=1)\<close>, and the printable ASCII of at most 256 characters.\<close>

definition nonempty_string :: "string \<Rightarrow> bool" where
  "nonempty_string s \<longleftrightarrow> s \<noteq> []"

definition public_text :: "string \<Rightarrow> bool" where
  "public_text s \<longleftrightarrow> 1 \<le> length s \<and> length s \<le> 256 \<and>
     (\<forall>c \<in> set s. CHR 0x20 \<le> c \<and> c \<le> CHR 0x7E)"

definition opt_all :: "('a \<Rightarrow> bool) \<Rightarrow> 'a option \<Rightarrow> bool" where
  "opt_all p v = (case v of None \<Rightarrow> True | Some x \<Rightarrow> p x)"

text \<open>\<open>s.partition(sep)\<close> for a one-character separator.\<close>

definition py_partition :: "char \<Rightarrow> string \<Rightarrow> string \<times> string \<times> string" where
  "py_partition sep s =
     (let base = takeWhile (\<lambda>c. c \<noteq> sep) s; rest = dropWhile (\<lambda>c. c \<noteq> sep) s
      in case rest of [] \<Rightarrow> (base, '''', '''') | c # qs \<Rightarrow> (base, [c], qs))"

lemma py_partition_prefix:
  "sep \<notin> set base \<Longrightarrow> py_partition sep (base @ sep # qs) = (base, [sep], qs)"
  by (simp add: py_partition_def Let_def takeWhile_append2 dropWhile_append2) (simp add: takeWhile_append dropWhile_append)

section \<open>Timestamps\<close>

text \<open>
  A \<open>datetime\<close> before validation: wall-clock microseconds, and the UTC offset when it has one.
\<close>

datatype py_datetime = Naive int | Aware int int

fun normalize_utc_timestamp :: "py_datetime \<Rightarrow> timestamp result" where
  "normalize_utc_timestamp (Naive _) = Inl (ValueError ''timestamp must be timezone-aware'')"
| "normalize_utc_timestamp (Aware wall offset) = Inr (wall - offset)"

end
