(* ===== verification/Prediction_Domain.thy ===== *)
theory Prediction_Domain
  imports Canonical Contracts
begin

text \<open>
  The records every part of the prediction package shares (\<open>predictions/domain.py\<close>): venues, rule
  versions and their identity, markets, trades, order books and fee rates, with the validators that
  run when a record is built.  Timestamps are validated before a record holds them
  (\<open>normalize_utc_timestamp\<close>), so a record stores UTC instants.  The digests are parameters.
\<close>

section \<open>Venues and sides\<close>

datatype prediction_venue = Polymarket | Kalshi | Limitless

fun venue_value :: "prediction_venue \<Rightarrow> string" where
  "venue_value Polymarket = ''polymarket''"
| "venue_value Kalshi = ''kalshi''"
| "venue_value Limitless = ''limitless''"

lemma venue_value_inj [simp]: "venue_value u = venue_value v \<longleftrightarrow> u = v"
  by (cases u; cases v) simp_all

datatype side = Buy | Sell

fun side_value :: "side \<Rightarrow> string" where
  "side_value Buy = ''buy''"
| "side_value Sell = ''sell''"

lemma side_value_inj [simp]: "side_value a = side_value b \<longleftrightarrow> a = b"
  by (cases a; cases b) simp_all

section \<open>Field types\<close>

text \<open>\<open>PositiveDecimal\<close> and \<open>NonNegativeDecimal\<close>.\<close>

definition positive_decimal :: "dec \<Rightarrow> bool" where
  "positive_decimal d \<longleftrightarrow> dlt dec0 d"

definition nonnegative_decimal :: "dec \<Rightarrow> bool" where
  "nonnegative_decimal d \<longleftrightarrow> dle dec0 d"

lemma positive_decimal_iff [py_simps]: "positive_decimal d \<longleftrightarrow> 0 < dval d"
  by (simp add: positive_decimal_def dlt_iff)

lemma nonnegative_decimal_iff [py_simps]: "nonnegative_decimal d \<longleftrightarrow> 0 \<le> dval d"
  by (simp add: nonnegative_decimal_def dle_iff)

text \<open>\<open>ProbabilityDecimal\<close>: strictly between zero and one.\<close>

definition probability_decimal :: "dec \<Rightarrow> bool" where
  "probability_decimal d \<longleftrightarrow> dlt dec0 d \<and> dlt d (dec_of_int 1)"

lemma probability_decimal_iff [py_simps]: "probability_decimal d \<longleftrightarrow> 0 < dval d \<and> dval d < 1"
  by (simp add: probability_decimal_def dlt_iff)

section \<open>Rule versions\<close>

definition NAMESPACE_URL :: uuid where
  "NAMESPACE_URL = Uuid 0x6ba7b8119dad11d180b400c04fd430c8"

definition RULE_VERSION_NAMESPACE :: "digests \<Rightarrow> uuid" where
  "RULE_VERSION_NAMESPACE D =
     uuid5_of D NAMESPACE_URL (JText ''polytrading.predictions.rule_version'')"

definition rule_content ::
  "prediction_venue \<Rightarrow> string \<Rightarrow> string \<Rightarrow> string \<Rightarrow> string option \<Rightarrow> string list \<Rightarrow> timestamp option \<Rightarrow> jval" where
  "rule_content venue market_id question description resolution_source outcomes end_at =
     JList [JText (venue_value venue), JText market_id, JText question, JText description,
            jopt JText resolution_source, JList (map JText outcomes), jopt JTime end_at]"

definition rule_relevant_version_id ::
  "digests \<Rightarrow> prediction_venue \<Rightarrow> string \<Rightarrow> string \<Rightarrow> string \<Rightarrow> string option \<Rightarrow> string list \<Rightarrow>
     timestamp option \<Rightarrow> uuid" where
  "rule_relevant_version_id D venue market_id question description resolution_source outcomes end_at =
     uuid5_of D (RULE_VERSION_NAMESPACE D)
       (rule_content venue market_id question description resolution_source outcomes end_at)"

record rule_version =
  rv_rule_version_id :: uuid
  rv_market_id :: string
  rv_venue :: prediction_venue
  rv_question :: string
  rv_description :: string
  rv_resolution_source :: "string option"
  rv_outcomes :: "string list"
  rv_superseded_rule_version_id :: "uuid option"
  rv_effective_at :: timestamp
  rv_source_hash :: sha256

definition validate_rule_version :: "rule_version \<Rightarrow> rule_version result" where
  "validate_rule_version r =
     (if rv_outcomes r = [] then Inl (ValueError ''rule version must declare at least one outcome'')
      else Inr r)"

lemma rule_content_inj:
  "rule_content v m q d s os e = rule_content v' m' q' d' s' os' e' \<longleftrightarrow>
     (v, m, q, d, s, os, e) = (v', m', q', d', s', os', e')"
proof -
  have "map JText os = map JText os' \<longleftrightarrow> os = os'"
    by (auto intro: map_injective injI)
  then show ?thesis by (auto simp: rule_content_def)
qed

section \<open>Raw envelopes and markets\<close>

record prediction_raw_envelope =
  re_event_id :: uuid
  re_venue :: prediction_venue
  re_endpoint :: string
  re_venue_timestamp :: "timestamp option"
  re_observed_at :: timestamp
  re_received_monotonic_ns :: int
  re_request_latency_ms :: dec
  re_source_version :: string
  re_payload_json :: string
  re_source_hash :: sha256

definition validate_raw_envelope :: "prediction_raw_envelope \<Rightarrow> prediction_raw_envelope result" where
  "validate_raw_envelope r =
     (if \<not> nonnegative_decimal (re_request_latency_ms r) then Inl (ValueError ''request_latency_ms'')
      else Inr r)"

record market_record =
  mr_market_id :: string
  mr_venue :: prediction_venue
  mr_underlying_exchange :: "string option"
  mr_event_id :: "string option"
  mr_question :: string
  mr_slug :: "string option"
  mr_outcomes :: "string list"
  mr_outcome_token_ids :: "string list option"
  mr_negative_risk :: "bool option"
  mr_active :: bool
  mr_closed :: bool
  mr_restricted :: "bool option"
  mr_order_book_enabled :: bool
  mr_start_at :: "timestamp option"
  mr_end_at :: "timestamp option"
  mr_resolution_source :: "string option"
  mr_rule_version_id :: uuid
  mr_information_cutoff :: timestamp
  mr_source_url :: string
  mr_retrieved_at :: timestamp
  mr_raw_hash :: sha256
  mr_normalized_hash :: sha256

definition validate_market :: "market_record \<Rightarrow> market_record result" where
  "validate_market m =
     bindE (checkE
       [(mr_outcomes m = [], ValueError ''market must declare at least one outcome''),
        (\<not> opt_all (\<lambda>ids. length ids = length (mr_outcomes m)) (mr_outcome_token_ids m),
         ValueError ''outcome token IDs must align one-to-one with outcomes''),
        (mr_venue m = Kalshi \<and> mr_negative_risk m \<noteq> None,
         ValueError ''negative_risk is Polymarket/Limitless-specific; unknown for Kalshi'')])
       (\<lambda>_. Inr m)"

interpretation market: revalidation validate_market
  by unfold_locales (simp add: validate_market_def bindE_eq_Inr del: checkE.simps)

section \<open>Trades, order books and fees\<close>

record market_trade =
  mt_venue :: prediction_venue
  mt_market_id :: string
  mt_outcome_token_id :: "string option"
  mt_trade_id :: string
  mt_price :: dec
  mt_size :: dec
  mt_side :: "side option"
  mt_effective_at :: timestamp
  mt_observed_at :: timestamp
  mt_source_hash :: sha256

definition validate_market_trade :: "market_trade \<Rightarrow> market_trade result" where
  "validate_market_trade t =
     (if \<not> (probability_decimal (mt_price t) \<and> positive_decimal (mt_size t))
      then Inl (ValueError ''trade price or size'') else Inr t)"

record book_level =
  bl_price :: dec
  bl_size :: dec

definition validate_level :: "book_level \<Rightarrow> book_level result" where
  "validate_level l =
     (if \<not> (probability_decimal (bl_price l) \<and> positive_decimal (bl_size l))
      then Inl (ValueError ''book level price or size'') else Inr l)"

record book_snapshot =
  bk_cycle_id :: uuid
  bk_venue :: prediction_venue
  bk_market_id :: string
  bk_outcome_token_id :: "string option"
  bk_bids :: "book_level list"
  bk_asks :: "book_level list"
  bk_sequence :: "string option"
  bk_effective_at :: timestamp
  bk_observed_at :: timestamp
  bk_source_hash :: sha256

text \<open>\<open>any(test(left, right) for left, right in zip(xs[:-1], xs[1:]))\<close>.\<close>

definition any_adjacent :: "('a \<Rightarrow> 'a \<Rightarrow> bool) \<Rightarrow> 'a list \<Rightarrow> bool" where
  "any_adjacent test xs = list_ex (\<lambda>(left, right). test left right) (zip (butlast xs) (tl xs))"

definition validate_book :: "book_snapshot \<Rightarrow> book_snapshot result" where
  "validate_book b =
     bindE (mapE validate_level (bk_bids b)) (\<lambda>_.
     bindE (mapE validate_level (bk_asks b)) (\<lambda>_.
     bindE (checkE
       [(bk_bids b = [] \<or> bk_asks b = [], ValueError ''book must contain bids and asks''),
        (any_adjacent (\<lambda>left right. dle (bl_price left) (bl_price right)) (bk_bids b),
         ValueError ''book bids must be in strictly descending price order''),
        (any_adjacent (\<lambda>left right. dle (bl_price right) (bl_price left)) (bk_asks b),
         ValueError ''book asks must be in strictly ascending price order''),
        (dle (bl_price (hd (bk_asks b))) (bl_price (hd (bk_bids b))),
         ValueError ''book top of book must not cross'')])
       (\<lambda>_. Inr b)))"

record fee_rate =
  fr_venue :: prediction_venue
  fr_market_id :: "string option"
  fr_maker_rate :: dec
  fr_taker_rate :: dec
  fr_observed_at :: timestamp
  fr_source_hash :: sha256

definition validate_fee_rate :: "fee_rate \<Rightarrow> fee_rate result" where
  "validate_fee_rate f =
     (if \<not> (nonnegative_decimal (fr_maker_rate f) \<and> nonnegative_decimal (fr_taker_rate f))
      then Inl (ValueError ''fee rate'') else Inr f)"

lemma any_adjacent_successively: "\<not> any_adjacent test xs \<longleftrightarrow> successively (\<lambda>x y. \<not> test x y) xs"
proof (induction xs)
  case Nil
  then show ?case by (simp add: any_adjacent_def)
next
  case (Cons x xs)
  then show ?case by (cases xs) (auto simp: any_adjacent_def)
qed

lemma successively_sorted_wrt:
  "transp r \<Longrightarrow> successively r xs \<longleftrightarrow> sorted_wrt r xs"
  by (simp add: successively_conv_sorted_wrt)

lemma validate_level_Inr [py_simps]:
  "validate_level l = Inr k \<longleftrightarrow> k = l \<and> 0 < dval (bl_price l) \<and> dval (bl_price l) < 1 \<and> 0 < dval (bl_size l)"
  by (auto simp: validate_level_def probability_decimal_iff positive_decimal_iff)

interpretation level: revalidation validate_level
  by unfold_locales (simp add: validate_level_Inr)

text \<open>What a validated book is: priced levels, bids falling, asks rising, and no crossing.\<close>

definition sound_book :: "book_snapshot \<Rightarrow> bool" where
  "sound_book b \<longleftrightarrow>
     (\<forall>l \<in> set (bk_bids b) \<union> set (bk_asks b).
        0 < dval (bl_price l) \<and> dval (bl_price l) < 1 \<and> 0 < dval (bl_size l)) \<and>
     bk_bids b \<noteq> [] \<and> bk_asks b \<noteq> [] \<and>
     sorted_wrt (\<lambda>l r. dval (bl_price r) < dval (bl_price l)) (bk_bids b) \<and>
     sorted_wrt (\<lambda>l r. dval (bl_price l) < dval (bl_price r)) (bk_asks b) \<and>
     dval (bl_price (hd (bk_bids b))) < dval (bl_price (hd (bk_asks b)))"

lemma validate_book_sound: "validate_book b = Inr b' \<longleftrightarrow> b' = b \<and> sound_book b"
proof -
  have levels: "(\<exists>ys. mapE validate_level xs = Inr ys) \<longleftrightarrow>
      (\<forall>l \<in> set xs. 0 < dval (bl_price l) \<and> dval (bl_price l) < 1 \<and> 0 < dval (bl_size l))" for xs
    by (induction xs) (auto simp: bindE_eq_Inr validate_level_Inr)
  have bids: "\<not> any_adjacent (\<lambda>l r. dle (bl_price l) (bl_price r)) xs \<longleftrightarrow>
      sorted_wrt (\<lambda>l r. dval (bl_price r) < dval (bl_price l)) xs" for xs :: "book_level list"
    unfolding any_adjacent_successively dle_iff not_le
    by (rule successively_sorted_wrt) (auto intro: transpI)
  have asks: "\<not> any_adjacent (\<lambda>l r. dle (bl_price r) (bl_price l)) xs \<longleftrightarrow>
      sorted_wrt (\<lambda>l r. dval (bl_price l) < dval (bl_price r)) xs" for xs :: "book_level list"
    unfolding any_adjacent_successively dle_iff not_le
    by (rule successively_sorted_wrt) (auto intro: transpI)
  show ?thesis
    unfolding validate_book_def bindE_eq_Inr checkE_Inr sound_book_def ball_Un
      levels [symmetric] bids [symmetric] asks [symmetric]
    by (auto simp: dle_iff)
qed

interpretation book: revalidation validate_book
  by unfold_locales (simp add: validate_book_sound)

lemma sound_book_gap:
  assumes "sound_book b" and "l \<in> set (bk_bids b)" and "r \<in> set (bk_asks b)"
  shows "dval (bl_price l) < dval (bl_price r)"
proof -
  have "dval (bl_price l) \<le> dval (bl_price (hd (bk_bids b)))"
    using assms(1,2) by (cases "bk_bids b") (auto simp: sound_book_def)
  moreover have "dval (bl_price (hd (bk_asks b))) \<le> dval (bl_price r)"
    using assms(1,3) by (cases "bk_asks b") (auto simp: sound_book_def)
  ultimately show ?thesis
    using assms(1) by (simp add: sound_book_def)
qed

text \<open>
  C38: a book snapshot passes validation exactly when every level has a price strictly between zero
  and one and a positive size, both sides are nonempty, bids strictly fall, asks strictly rise and
  the best bid is below the best ask; and then no bid anywhere in the book reaches any ask.
\<close>

theorem book_validation:
  "(validate_book b = Inr b' \<longleftrightarrow> b' = b \<and> sound_book b) \<and>
   (validate_book b = Inr b' \<longrightarrow>
     (\<forall>l \<in> set (bk_bids b'). \<forall>r \<in> set (bk_asks b'). dval (bl_price l) < dval (bl_price r)))"
  using validate_book_sound [of b b'] sound_book_gap [of b] by auto

definition example_book :: book_snapshot where
  "example_book = \<lparr>bk_cycle_id = Uuid 1, bk_venue = Kalshi, bk_market_id = ''M'', bk_outcome_token_id = None,
     bk_bids = [\<lparr>bl_price = Dec False 45 (-2), bl_size = Dec False 10 0\<rparr>,
                \<lparr>bl_price = Dec False 40 (-2), bl_size = Dec False 5 0\<rparr>],
     bk_asks = [\<lparr>bl_price = Dec False 47 (-2), bl_size = Dec False 8 0\<rparr>,
                \<lparr>bl_price = Dec False 5 (-1), bl_size = Dec False 20 0\<rparr>],
     bk_sequence = None, bk_effective_at = 1, bk_observed_at = 2, bk_source_hash = Sha256 9\<rparr>"

lemma example_book_valid: "validate_book example_book = Inr example_book"
  by code_simp

lemma book_validation_witness:
  "validate_book example_book = Inr example_book \<and>
   dval (bl_price (hd (bk_bids example_book))) < dval (bl_price (last (bk_asks example_book)))"
proof -
  have "hd (bk_bids example_book) \<in> set (bk_bids example_book)"
    and "last (bk_asks example_book) \<in> set (bk_asks example_book)"
    by (simp_all add: example_book_def)
  with book_validation [of example_book example_book] example_book_valid show ?thesis
    by blast
qed

text \<open>
  A rule version's identity is a function of the rule-relevant content alone, and as long as the
  UUID digest does not collide on the two contents, changing any one of venue, market, question,
  description, resolution source, outcomes or end time mints a new identity.
\<close>

lemma rule_version_identity:
  assumes "uuid5_of D (RULE_VERSION_NAMESPACE D) (rule_content v m q d s os e) =
      uuid5_of D (RULE_VERSION_NAMESPACE D) (rule_content v' m' q' d' s' os' e') \<Longrightarrow>
      rule_content v m q d s os e = rule_content v' m' q' d' s' os' e'"
  shows "rule_relevant_version_id D v m q d s os e = rule_relevant_version_id D v' m' q' d' s' os' e' \<longleftrightarrow>
      (v, m, q, d, s, os, e) = (v', m', q', d', s', os', e')"
  using assms rule_content_inj [of v m q d s os e v' m' q' d' s' os' e']
  unfolding rule_relevant_version_id_def by auto

lemma rule_version_identity_witness:
  "rule_relevant_version_id example_digests Kalshi ''M'' ''Q'' ''D'' None [''Y''] None \<noteq>
   rule_relevant_version_id example_digests Kalshi ''M'' ''Q'' ''E'' None [''Y''] None"
proof -
  have "uuid5_of example_digests (RULE_VERSION_NAMESPACE example_digests) (rule_content Kalshi ''M'' ''Q'' ''D'' None [''Y''] None) \<noteq>
      uuid5_of example_digests (RULE_VERSION_NAMESPACE example_digests) (rule_content Kalshi ''M'' ''Q'' ''E'' None [''Y''] None)"
    by code_simp
  with rule_version_identity [of example_digests Kalshi "''M''" "''Q''" "''D''" None "[''Y'']" None
      Kalshi "''M''" "''Q''" "''E''" None "[''Y'']" None]
  show ?thesis by simp
qed

end
