(* ===== verification/Exec_Models.thy ===== *)
theory Exec_Models
  imports Prediction_Domain
begin

text \<open>
  The records of the live execution boundary (\<open>predictions/execution/models.py\<close>): plans, intents,
  venue events, ledger postings, kill events and reconciliations, with the validators that run
  whenever a record is built or revalidated.  A field whose type is a one-value literal
  (\<open>schema_version\<close>, the venue of a live record) carries no information and is left out.
  Validation returns the record or raises; it changes nothing.
\<close>

section \<open>Enumerations\<close>

datatype immediate_order_type = FAK | FOK

datatype execution_operation =
    DESCRIBE_IDENTITY | SIGNER_KILL | SIGN_ORDER | SUBMIT_ORDER | CANCEL_ORDER
  | HEARTBEAT | READ_ORDERS | READ_TRADES | READ_ACCOUNT | READ_GEOBLOCK

datatype venue_order_state =
    PLANNED | SIGNED | SUBMITTING | ACK_LIVE_UNEXPECTED | ACK_MATCHED | ACK_DELAYED
  | PARTIALLY_FILLED | FILLED | CANCEL_PENDING | CANCELLED | REJECTED | UNKNOWN | RECONCILED

datatype venue_trade_state =
    MATCHED_NOT_BROADCASTED | MATCHED | MINED | CONFIRMED | RETRYING | FAILED

fun venue_trade_state_value :: "venue_trade_state \<Rightarrow> string" where
  "venue_trade_state_value MATCHED_NOT_BROADCASTED = ''MATCHED_NOT_BROADCASTED''"
| "venue_trade_state_value MATCHED = ''MATCHED''"
| "venue_trade_state_value MINED = ''MINED''"
| "venue_trade_state_value CONFIRMED = ''CONFIRMED''"
| "venue_trade_state_value RETRYING = ''RETRYING''"
| "venue_trade_state_value FAILED = ''FAILED''"

fun venue_order_state_value :: "venue_order_state \<Rightarrow> string" where
  "venue_order_state_value PLANNED = ''PLANNED''"
| "venue_order_state_value SIGNED = ''SIGNED''"
| "venue_order_state_value SUBMITTING = ''SUBMITTING''"
| "venue_order_state_value ACK_LIVE_UNEXPECTED = ''ACK_LIVE_UNEXPECTED''"
| "venue_order_state_value ACK_MATCHED = ''ACK_MATCHED''"
| "venue_order_state_value ACK_DELAYED = ''ACK_DELAYED''"
| "venue_order_state_value PARTIALLY_FILLED = ''PARTIALLY_FILLED''"
| "venue_order_state_value FILLED = ''FILLED''"
| "venue_order_state_value CANCEL_PENDING = ''CANCEL_PENDING''"
| "venue_order_state_value CANCELLED = ''CANCELLED''"
| "venue_order_state_value REJECTED = ''REJECTED''"
| "venue_order_state_value UNKNOWN = ''UNKNOWN''"
| "venue_order_state_value RECONCILED = ''RECONCILED''"

datatype exchange_kind = Standard | Negative_risk

fun exchange_kind_value :: "exchange_kind \<Rightarrow> string" where
  "exchange_kind_value Standard = ''standard''"
| "exchange_kind_value Negative_risk = ''negative_risk''"

fun order_type_value :: "immediate_order_type \<Rightarrow> string" where
  "order_type_value FAK = ''FAK''"
| "order_type_value FOK = ''FOK''"

lemma venue_trade_state_value_inj [simp]:
  "venue_trade_state_value s = venue_trade_state_value t \<longleftrightarrow> s = t"
  by (cases s; cases t) simp_all

lemma venue_order_state_value_inj [simp]:
  "venue_order_state_value s = venue_order_state_value t \<longleftrightarrow> s = t"
  by (cases s; cases t) simp_all

lemma short_value_inj [simp]:
  "exchange_kind_value k = exchange_kind_value l \<longleftrightarrow> k = l"
  "order_type_value x = order_type_value y \<longleftrightarrow> x = y"
   apply (cases k; cases l; simp)
  apply (cases x; cases y; simp)
  done

section \<open>Plans\<close>

record live_execution_plan =
  ep_lineage_hashes :: "sha256 list"
  ep_plan_id :: uuid
  ep_proposal_id :: uuid
  ep_candidate_id :: uuid
  ep_proof_artifact_hash :: sha256
  ep_economics_report_hash :: sha256
  ep_account_fingerprint :: sha256
  ep_book_snapshot_ids :: "uuid list"
  ep_fee_evidence_ids :: "uuid list"
  ep_information_cutoff :: timestamp
  ep_token_ids :: "string list"
  ep_leg_order_types :: "immediate_order_type list"
  ep_maximum_size :: "dec option"
  ep_maximum_spend :: "dec option"
  ep_limit_prices :: "dec list"
  ep_fee_rate_bps_caps :: "int list"
  ep_assigned_capital :: dec
  ep_incomplete_exposure_reserve :: dec
  ep_risk_policy_hash :: sha256
  ep_manifest_hash :: sha256
  ep_eligibility_hash :: sha256
  ep_protocol_hash :: sha256
  ep_capability_fingerprint :: sha256
  ep_book_deadline :: timestamp
  ep_proof_deadline :: timestamp
  ep_economics_deadline :: timestamp
  ep_account_deadline :: timestamp
  ep_geoblock_deadline :: timestamp
  ep_kill_conditions :: "string list"
  ep_unwind_conditions :: "string list"
  ep_plan_fingerprint :: sha256
  ep_observed_at :: timestamp

definition plan_fields_ok :: "live_execution_plan \<Rightarrow> bool" where
  "plan_fields_ok p \<longleftrightarrow>
     sorted_unique (ep_lineage_hashes p) \<and>
     list_all nonempty_string (ep_token_ids p) \<and>
     opt_all positive_decimal (ep_maximum_size p) \<and> opt_all positive_decimal (ep_maximum_spend p) \<and>
     list_all positive_decimal (ep_limit_prices p) \<and> list_all (\<lambda>b. 0 \<le> b) (ep_fee_rate_bps_caps p) \<and>
     positive_decimal (ep_assigned_capital p) \<and>
     nonnegative_decimal (ep_incomplete_exposure_reserve p) \<and>
     list_all nonempty_string (ep_kill_conditions p) \<and> list_all nonempty_string (ep_unwind_conditions p)"

definition validate_plan :: "live_execution_plan \<Rightarrow> live_execution_plan result" where
  "validate_plan p =
     (let count = length (ep_token_ids p);
          deadlines = [ep_book_deadline p, ep_proof_deadline p, ep_economics_deadline p,
                       ep_account_deadline p, ep_geoblock_deadline p]
      in bindE (checkE
        [(\<not> plan_fields_ok p, ValueError ''plan field''),
         (count = 0, ValueError ''plan must contain at least one Polymarket token''),
         (\<not> (length (ep_leg_order_types p) = length (ep_limit_prices p) \<and>
             length (ep_limit_prices p) = length (ep_fee_rate_bps_caps p) \<and>
             length (ep_fee_rate_bps_caps p) = count),
          ValueError ''per-leg plan fields must align with token_ids''),
         (ep_maximum_size p = None \<and> ep_maximum_spend p = None,
          ValueError ''plan must define maximum_size or maximum_spend''),
         (ep_kill_conditions p = [] \<or> ep_unwind_conditions p = [],
          ValueError ''plan must declare kill and unwind conditions''),
         (list_ex (\<lambda>deadline. deadline \<le> ep_observed_at p) deadlines,
          ValueError ''plan freshness deadlines must be after observed_at'')])
        (\<lambda>_. Inr p))"

lemma validate_plan_id: "validate_plan p = Inr q \<Longrightarrow> q = p"
  by (simp add: validate_plan_def Let_def bindE_eq_Inr del: checkE.simps)

interpretation plan: revalidation validate_plan
  by unfold_locales (rule validate_plan_id)

section \<open>Intents\<close>

record execution_intent =
  ei_lineage_hashes :: "sha256 list"
  ei_intent_id :: uuid
  ei_plan_id :: uuid
  ei_leg_sequence :: int
  ei_token_id :: string
  ei_side :: side
  ei_limit_price :: dec
  ei_tick_size :: dec
  ei_exchange_kind :: exchange_kind
  ei_base_size :: "dec option"
  ei_maximum_spend :: "dec option"
  ei_order_type :: immediate_order_type
  ei_fee_rate_bps_cap :: int
  ei_rounding_mode :: string
  ei_account_fingerprint :: sha256
  ei_capability_fingerprint :: sha256
  ei_created_at :: timestamp
  ei_deadline :: timestamp
  ei_protocol_version :: string
  ei_intent_fingerprint :: sha256

text \<open>
  \<open>_intent_content\<close> is the JSON object without the two identities; the identifier is derived from
  the object that still holds the fingerprint.  The order of the keys is fixed by sorting in the
  code and by position here.
\<close>

definition intent_fields :: "execution_intent \<Rightarrow> (string \<times> jval) list" where
  "intent_fields i =
    [(''lineage_hashes'', jhashes (ei_lineage_hashes i)),
     (''plan_id'', JUuid (ei_plan_id i)),
     (''leg_sequence'', JInt (ei_leg_sequence i)),
     (''token_id'', JText (ei_token_id i)),
     (''side'', JText (side_value (ei_side i))),
     (''limit_price'', JDec (ei_limit_price i)),
     (''tick_size'', JDec (ei_tick_size i)),
     (''exchange_kind'', JText (exchange_kind_value (ei_exchange_kind i))),
     (''base_size'', jopt JDec (ei_base_size i)),
     (''maximum_spend'', jopt JDec (ei_maximum_spend i)),
     (''order_type'', JText (order_type_value (ei_order_type i))),
     (''fee_rate_bps_cap'', JInt (ei_fee_rate_bps_cap i)),
     (''rounding_mode'', JText (ei_rounding_mode i)),
     (''account_fingerprint'', JHash (ei_account_fingerprint i)),
     (''capability_fingerprint'', JHash (ei_capability_fingerprint i)),
     (''created_at'', JTime (ei_created_at i)),
     (''deadline'', JTime (ei_deadline i)),
     (''protocol_version'', JText (ei_protocol_version i))]"

definition intent_content :: "execution_intent \<Rightarrow> jval" where
  "intent_content i = JObj (intent_fields i)"

definition intent_fingerprint :: "digests \<Rightarrow> execution_intent \<Rightarrow> sha256" where
  "intent_fingerprint D i = sha256_of D (intent_content i)"

definition INTENT_NAMESPACE :: uuid where
  "INTENT_NAMESPACE = Uuid 0xb59d5b2a94e64a5eb184327132349d5e"

definition deterministic_intent_id :: "digests \<Rightarrow> execution_intent \<Rightarrow> uuid" where
  "deterministic_intent_id D i =
     uuid5_of D INTENT_NAMESPACE
       (JObj (intent_fields i @ [(''intent_fingerprint'', JHash (ei_intent_fingerprint i))]))"

definition intent_fields_ok :: "execution_intent \<Rightarrow> bool" where
  "intent_fields_ok i \<longleftrightarrow>
     sorted_unique (ei_lineage_hashes i) \<and> 0 \<le> ei_leg_sequence i \<and>
     nonempty_string (ei_token_id i) \<and> positive_decimal (ei_limit_price i) \<and>
     positive_decimal (ei_tick_size i) \<and> opt_all positive_decimal (ei_base_size i) \<and>
     opt_all positive_decimal (ei_maximum_spend i) \<and> 0 \<le> ei_fee_rate_bps_cap i \<and>
     nonempty_string (ei_rounding_mode i) \<and> nonempty_string (ei_protocol_version i)"

definition validate_intent :: "digests \<Rightarrow> execution_intent \<Rightarrow> execution_intent result" where
  "validate_intent D i =
     bindE (checkE
       [(\<not> intent_fields_ok i, ValueError ''intent field''),
        (ei_base_size i = None \<and> ei_maximum_spend i = None,
         ValueError ''intent must define base_size or maximum_spend''),
        (ei_deadline i \<le> ei_created_at i, ValueError ''deadline must be after created_at''),
        (ei_intent_fingerprint i \<noteq> intent_fingerprint D i,
         ValueError ''intent fingerprint does not match intent content''),
        (ei_intent_id i \<noteq> deterministic_intent_id D i,
         ValueError ''intent_id does not match canonical intent content'')])
       (\<lambda>_. Inr i)"

lemma validate_intent_Inr [py_simps]:
  "validate_intent D i = Inr j \<longleftrightarrow> j = i \<and> intent_fields_ok i \<and>
     (ei_base_size i \<noteq> None \<or> ei_maximum_spend i \<noteq> None) \<and> ei_created_at i < ei_deadline i \<and>
     ei_intent_fingerprint i = intent_fingerprint D i \<and> ei_intent_id i = deterministic_intent_id D i"
  unfolding validate_intent_def bindE_eq_Inr checkE_Inr by (simp add: not_le) blast

interpretation intent: revalidation "validate_intent D"
  by unfold_locales (simp add: validate_intent_Inr)

text \<open>Setting the fingerprint and then the identifier makes an intent that names its own content.\<close>

definition seal_intent :: "digests \<Rightarrow> execution_intent \<Rightarrow> execution_intent" where
  "seal_intent D i =
     (let j = i\<lparr>ei_intent_fingerprint := intent_fingerprint D i\<rparr>
      in j\<lparr>ei_intent_id := deterministic_intent_id D j\<rparr>)"

lemma intent_fields_updates [simp]:
  "intent_fields (i\<lparr>ei_intent_fingerprint := f\<rparr>) = intent_fields i"
  "intent_fields (i\<lparr>ei_intent_id := u\<rparr>) = intent_fields i"
  by (simp_all add: intent_fields_def)

interpretation intent_identity:
  content_identity ei_intent_fingerprint "intent_fingerprint D" "seal_intent D"
  by unfold_locales (simp_all add: seal_intent_def Let_def intent_fingerprint_def intent_content_def)

text \<open>The content determines every field but the two identities.\<close>

lemma intent_content_inj:
  "intent_content i = intent_content j \<longleftrightarrow>
     j = i\<lparr>ei_intent_id := ei_intent_id j, ei_intent_fingerprint := ei_intent_fingerprint j\<rparr>"
  by (cases i; cases j) (auto simp: intent_content_def intent_fields_def)

section \<open>Venue events\<close>

record venue_order_event =
  oe_lineage_hashes :: "sha256 list"
  oe_event_id :: uuid
  oe_raw_event_hash :: sha256
  oe_source_channel :: string
  oe_venue_order_id :: string
  oe_intent_id :: "uuid option"
  oe_original_venue_state :: string
  oe_normalized_state :: venue_order_state
  oe_terminal :: bool
  oe_venue_timestamp :: "timestamp option"
  oe_received_at :: timestamp
  oe_sequence_number :: "int option"
  oe_protocol_version :: string

definition terminal_order_states :: "venue_order_state list" where
  "terminal_order_states = [FILLED, CANCELLED, REJECTED, RECONCILED]"

definition validate_order_event :: "venue_order_event \<Rightarrow> venue_order_event result" where
  "validate_order_event e =
     bindE (checkE
       [(\<not> (sorted_unique (oe_lineage_hashes e) \<and> nonempty_string (oe_source_channel e) \<and>
            nonempty_string (oe_venue_order_id e) \<and> nonempty_string (oe_original_venue_state e) \<and>
            opt_all (\<lambda>n. 0 \<le> n) (oe_sequence_number e) \<and> nonempty_string (oe_protocol_version e)),
         ValueError ''order event field''),
        (oe_terminal e \<noteq> (oe_normalized_state e \<in> set terminal_order_states),
         ValueError ''terminal must match the normalized order state'')])
       (\<lambda>_. Inr e)"

record venue_trade_event =
  te_lineage_hashes :: "sha256 list"
  te_trade_event_id :: uuid
  te_raw_event_hash :: sha256
  te_source_channel :: string
  te_venue_trade_id :: string
  te_venue_order_id :: "string option"
  te_intent_id :: "uuid option"
  te_original_venue_state :: string
  te_normalized_state :: venue_trade_state
  te_terminal :: bool
  te_venue_timestamp :: "timestamp option"
  te_received_at :: timestamp
  te_sequence_number :: "int option"
  te_protocol_version :: string

definition terminal_trade_states :: "venue_trade_state list" where
  "terminal_trade_states = [CONFIRMED, FAILED]"

definition validate_trade_event :: "venue_trade_event \<Rightarrow> venue_trade_event result" where
  "validate_trade_event e =
     bindE (checkE
       [(\<not> (sorted_unique (te_lineage_hashes e) \<and> nonempty_string (te_source_channel e) \<and>
            nonempty_string (te_venue_trade_id e) \<and> opt_all nonempty_string (te_venue_order_id e) \<and>
            nonempty_string (te_original_venue_state e) \<and>
            opt_all (\<lambda>n. 0 \<le> n) (te_sequence_number e) \<and> nonempty_string (te_protocol_version e)),
         ValueError ''trade event field''),
        (te_terminal e \<noteq> (te_normalized_state e \<in> set terminal_trade_states),
         ValueError ''terminal must match the normalized trade state'')])
       (\<lambda>_. Inr e)"

lemma validate_order_event_id: "validate_order_event e = Inr f \<Longrightarrow> f = e"
  by (simp add: validate_order_event_def bindE_eq_Inr del: checkE.simps)

lemma validate_order_event_terminal:
  "validate_order_event e = Inr f \<Longrightarrow>
     oe_terminal e \<longleftrightarrow> oe_normalized_state e \<in> set terminal_order_states"
  unfolding validate_order_event_def bindE_eq_Inr checkE_Inr by auto

lemma validate_trade_event_id: "validate_trade_event e = Inr f \<Longrightarrow> f = e"
  by (simp add: validate_trade_event_def bindE_eq_Inr del: checkE.simps)

lemma validate_trade_event_terminal:
  "validate_trade_event e = Inr f \<Longrightarrow>
     te_terminal e \<longleftrightarrow> te_normalized_state e \<in> set terminal_trade_states"
  unfolding validate_trade_event_def bindE_eq_Inr checkE_Inr by auto

interpretation order_event: revalidation validate_order_event
  by unfold_locales (rule validate_order_event_id)

interpretation trade_event: revalidation validate_trade_event
  by unfold_locales (rule validate_trade_event_id)

section \<open>Activation evidence and kill events\<close>

record activation_evidence =
  ae_lineage_hashes :: "sha256 list"
  ae_activation_evidence_id :: uuid
  ae_capability_digest :: sha256
  ae_manifest_digest :: sha256
  ae_verifier_result :: bool
  ae_verified_at :: timestamp
  ae_expires_at :: "timestamp option"
  ae_rejection_codes :: "string list"

definition validate_activation :: "activation_evidence \<Rightarrow> activation_evidence result" where
  "validate_activation e =
     bindE (checkE
       [(\<not> (sorted_unique (ae_lineage_hashes e) \<and> list_all nonempty_string (ae_rejection_codes e)),
         ValueError ''activation field''),
        (ae_verifier_result e \<and> ae_rejection_codes e \<noteq> [],
         ValueError ''accepted activation evidence cannot contain rejection codes''),
        (\<not> ae_verifier_result e \<and> ae_rejection_codes e = [],
         ValueError ''rejected activation evidence requires a stable rejection code''),
        (\<not> opt_all (\<lambda>t. ae_verified_at e < t) (ae_expires_at e),
         ValueError ''activation expiration must be after verification'')])
       (\<lambda>_. Inr e)"

interpretation activation: revalidation validate_activation
  by unfold_locales (simp add: validate_activation_def bindE_eq_Inr del: checkE.simps)

record kill_switch_event =
  ke_lineage_hashes :: "sha256 list"
  ke_kill_event_id :: uuid
  ke_trigger :: string
  ke_scope :: string
  ke_source_intent_id :: "uuid option"
  ke_source_order_id :: "string option"
  ke_prior_state :: bool
  ke_occurred_at :: timestamp
  ke_clearance_evidence_hashes :: "sha256 list"

definition validate_kill_event :: "kill_switch_event \<Rightarrow> kill_switch_event result" where
  "validate_kill_event e =
     bindE (checkE
       [(\<not> (sorted_unique (ke_lineage_hashes e) \<and> nonempty_string (ke_trigger e) \<and>
            nonempty_string (ke_scope e) \<and> opt_all nonempty_string (ke_source_order_id e) \<and>
            sorted_unique (ke_clearance_evidence_hashes e)),
         ValueError ''kill event field'')])
       (\<lambda>_. Inr e)"

interpretation kill_event: revalidation validate_kill_event
  by unfold_locales (simp add: validate_kill_event_def bindE_eq_Inr del: checkE.simps)

section \<open>Ledger postings\<close>

record live_ledger_posting =
  lp_lineage_hashes :: "sha256 list"
  lp_posting_id :: uuid
  lp_account_fingerprint :: sha256
  lp_intent_id :: "uuid option"
  lp_venue_order_id :: "string option"
  lp_venue_trade_id :: "string option"
  lp_settlement_hash :: "sha256 option"
  lp_fee_hash :: "sha256 option"
  lp_balance_evidence_hashes :: "sha256 list"
  lp_debit_account :: string
  lp_credit_account :: string
  lp_asset_id :: string
  lp_debit_amount :: dec
  lp_credit_amount :: dec
  lp_occurred_at :: timestamp

definition validate_posting :: "live_ledger_posting \<Rightarrow> live_ledger_posting result" where
  "validate_posting p =
     bindE (checkE
       [(\<not> (sorted_unique (lp_lineage_hashes p) \<and> opt_all nonempty_string (lp_venue_order_id p) \<and>
            opt_all nonempty_string (lp_venue_trade_id p) \<and>
            sorted_unique (lp_balance_evidence_hashes p) \<and> nonempty_string (lp_debit_account p) \<and>
            nonempty_string (lp_credit_account p) \<and> nonempty_string (lp_asset_id p) \<and>
            nonnegative_decimal (lp_debit_amount p) \<and> nonnegative_decimal (lp_credit_amount p)),
         ValueError ''posting field''),
        (dlt dec0 (lp_debit_amount p) = dlt dec0 (lp_credit_amount p),
         ValueError ''exactly one ledger posting side must be nonzero'')])
       (\<lambda>_. Inr p)"

lemma validate_posting_Inr:
  assumes "validate_posting p = Inr q"
  shows "q = p" "0 \<le> dval (lp_debit_amount p)" "0 \<le> dval (lp_credit_amount p)"
    "0 < dval (lp_debit_amount p) \<longleftrightarrow> dval (lp_credit_amount p) = 0"
proof -
  show "q = p"
    using assms by (simp add: validate_posting_def bindE_eq_Inr del: checkE.simps)
  have "nonnegative_decimal (lp_debit_amount p)" "nonnegative_decimal (lp_credit_amount p)"
    and "dlt dec0 (lp_debit_amount p) \<noteq> dlt dec0 (lp_credit_amount p)"
    using assms unfolding validate_posting_def bindE_eq_Inr checkE_Inr by auto
  then show "0 \<le> dval (lp_debit_amount p)" "0 \<le> dval (lp_credit_amount p)"
    "0 < dval (lp_debit_amount p) \<longleftrightarrow> dval (lp_credit_amount p) = 0"
    by (auto simp: nonnegative_decimal_iff dlt_iff)
qed

interpretation posting: revalidation validate_posting
  by unfold_locales (rule validate_posting_Inr(1))

section \<open>Reconciliations\<close>

record live_reconciliation =
  lr_lineage_hashes :: "sha256 list"
  lr_reconciliation_id :: uuid
  lr_account_fingerprint :: sha256
  lr_observed_at :: timestamp
  lr_complete :: bool
  lr_differences :: "string list"
  lr_evidence_hashes :: "sha256 list"
  lr_next_action :: "string option"
  lr_venue_order_hashes :: "sha256 list"
  lr_venue_trade_hashes :: "sha256 list"
  lr_balance_hashes :: "sha256 list"
  lr_allowance_hashes :: "sha256 list"
  lr_expected_posting_ids :: "uuid list"

definition validate_reconciliation :: "live_reconciliation \<Rightarrow> live_reconciliation result" where
  "validate_reconciliation r =
     bindE (checkE
       [(\<not> (sorted_unique (lr_lineage_hashes r) \<and> list_all nonempty_string (lr_differences r) \<and>
            sorted_unique (lr_evidence_hashes r) \<and> opt_all nonempty_string (lr_next_action r) \<and>
            sorted_unique (lr_venue_order_hashes r) \<and> sorted_unique (lr_venue_trade_hashes r) \<and>
            sorted_unique (lr_balance_hashes r) \<and> sorted_unique (lr_allowance_hashes r)),
         ValueError ''reconciliation field''),
        (lr_complete r \<and> lr_differences r \<noteq> [],
         ValueError ''complete reconciliation cannot contain unexplained differences''),
        (lr_complete r \<and> lr_next_action r \<noteq> None,
         ValueError ''complete reconciliation cannot require a next action''),
        (\<not> lr_complete r \<and> lr_differences r = [],
         ValueError ''incomplete reconciliation requires unexplained differences''),
        (\<not> lr_complete r \<and> lr_next_action r = None,
         ValueError ''incomplete reconciliation requires a next action'')])
       (\<lambda>_. Inr r)"

lemma validate_reconciliation_Inr:
  assumes "validate_reconciliation r = Inr s"
  shows "s = r" "lr_complete r \<longleftrightarrow> lr_differences r = []"
    "lr_complete r \<longleftrightarrow> lr_next_action r = None"
  using assms unfolding validate_reconciliation_def bindE_eq_Inr checkE_Inr by auto

interpretation reconciliation: revalidation validate_reconciliation
  by unfold_locales (rule validate_reconciliation_Inr(1))

definition RECONCILIATION_NAMESPACE :: uuid where
  "RECONCILIATION_NAMESPACE = Uuid 0xcc34beb0472f4d4fab9d038e8336323f"

definition reconciliation_content :: "live_reconciliation \<Rightarrow> jval" where
  "reconciliation_content r =
    JObj [(''lineage_hashes'', jhashes (lr_lineage_hashes r)),
          (''account_fingerprint'', JHash (lr_account_fingerprint r)),
          (''observed_at'', JTime (lr_observed_at r)),
          (''complete'', JBool (lr_complete r)),
          (''differences'', JList (map JText (lr_differences r))),
          (''evidence_hashes'', jhashes (lr_evidence_hashes r)),
          (''next_action'', jopt JText (lr_next_action r)),
          (''venue_order_hashes'', jhashes (lr_venue_order_hashes r)),
          (''venue_trade_hashes'', jhashes (lr_venue_trade_hashes r)),
          (''balance_hashes'', jhashes (lr_balance_hashes r)),
          (''allowance_hashes'', jhashes (lr_allowance_hashes r)),
          (''expected_posting_ids'', JList (map JUuid (lr_expected_posting_ids r)))]"

definition canonical_live_reconciliation_id :: "digests \<Rightarrow> live_reconciliation \<Rightarrow> uuid" where
  "canonical_live_reconciliation_id D r =
     uuid5_of D RECONCILIATION_NAMESPACE (JHash (sha256_of D (reconciliation_content r)))"

section \<open>Protocol conformance\<close>

record protocol_conformance_result =
  cr_lineage_hashes :: "sha256 list"
  cr_conformance_result_id :: uuid
  cr_fixture_hashes :: "sha256 list"
  cr_source_hashes :: "sha256 list"
  cr_implementation_revision :: string
  cr_executed_checks :: "string list"
  cr_result :: string
  cr_observed_at :: timestamp
  cr_failure_fingerprints :: "sha256 list"

definition validate_conformance ::
  "protocol_conformance_result \<Rightarrow> protocol_conformance_result result" where
  "validate_conformance c =
     bindE (checkE
       [(\<not> (sorted_unique (cr_lineage_hashes c) \<and> sorted_unique (cr_fixture_hashes c) \<and>
            sorted_unique (cr_source_hashes c) \<and> nonempty_string (cr_implementation_revision c) \<and>
            list_all nonempty_string (cr_executed_checks c) \<and> nonempty_string (cr_result c) \<and>
            sorted_unique (cr_failure_fingerprints c)),
         ValueError ''conformance field''),
        (cr_executed_checks c = [] \<or> \<not> distinct (cr_executed_checks c),
         ValueError ''executed_checks must be nonempty and unique'')])
       (\<lambda>_. Inr c)"

interpretation conformance: revalidation validate_conformance
  by unfold_locales (simp add: validate_conformance_def bindE_eq_Inr del: checkE.simps)

end
