(* ===== verification/Live_History.thy ===== *)
theory Live_History
  imports Exec_Models
begin

text \<open>
  Live evidence histories (\<open>predictions/execution/ledger.py\<close>, lines 36 and 73 to 185, 487 to 746):
  snapshots of untrusted sequences, removal of duplicates by identity and fingerprint, the legal
  transitions of an order, and the classification of order and trade events into one history per
  order and per trade.  The theorems show that an accepted order history is a legal run of the
  transition relation in the order of its evidence, that a terminal state ends a history, and that
  the classification does not depend on the order in which the caller lists the events.
\<close>

definition MAX_LIVE_EVIDENCE_ITEMS :: nat where
  "MAX_LIVE_EVIDENCE_ITEMS = 10000"

section \<open>Snapshots and duplicates\<close>

definition snapshot_sequence :: "('a \<Rightarrow> 'a result) \<Rightarrow> string \<Rightarrow> 'a list \<Rightarrow> 'a list result" where
  "snapshot_sequence validate code values =
     (if length values > MAX_LIVE_EVIDENCE_ITEMS then Inl (LiveLedgerError code)
      else except_as (mapE validate values) (LiveLedgerError code))"

definition dedupe_step ::
  "('a \<Rightarrow> sha256) \<Rightarrow> ('a \<Rightarrow> 'k) \<Rightarrow> string \<Rightarrow> ('k, sha256 \<times> 'a) dict \<Rightarrow> 'a \<Rightarrow> ('k, sha256 \<times> 'a) dict result"
where
  "dedupe_step fingerprint identity conflict_code by_identity value =
     (case map_of by_identity (identity value) of
        Some existing \<Rightarrow>
          if fst existing \<noteq> fingerprint value then Inl (LiveLedgerError conflict_code)
          else Inr (AList.update (identity value) (fingerprint value, value) by_identity)
      | None \<Rightarrow> Inr (AList.update (identity value) (fingerprint value, value) by_identity))"

definition dedupe_records ::
  "('a \<Rightarrow> sha256) \<Rightarrow> ('a \<Rightarrow> 'k) \<Rightarrow> string \<Rightarrow> 'a list \<Rightarrow> 'a list result" where
  "dedupe_records fingerprint identity conflict_code values =
     bindE (foldE (dedupe_step fingerprint identity conflict_code) [] values)
       (\<lambda>by_identity. Inr (map (snd \<circ> snd) by_identity))"

lemma snapshot_sequence_Inr:
  assumes "\<And>x y. validate x = Inr y \<Longrightarrow> y = x"
  shows "snapshot_sequence validate code xs = Inr ys \<longleftrightarrow>
    ys = xs \<and> length xs \<le> MAX_LIVE_EVIDENCE_ITEMS \<and> (\<forall>x \<in> set xs. validate x = Inr x)"
proof -
  have "mapE validate xs = Inr zs \<longleftrightarrow> zs = xs \<and> (\<forall>x \<in> set xs. validate x = Inr x)" for zs
    using assms by (induction xs arbitrary: zs) (auto simp: bindE_eq_Inr)
  then show ?thesis
    by (auto simp: snapshot_sequence_def except_as_Inr)
qed

lemma snapshot_sequence_Inl:
  "snapshot_sequence validate code xs = Inl e \<Longrightarrow> e = LiveLedgerError code"
  by (cases "mapE validate xs") (auto simp: snapshot_sequence_def split: if_splits)

text \<open>What the dictionary of seen records holds after the loop.\<close>

definition dedupe_inv ::
  "('a \<Rightarrow> sha256) \<Rightarrow> ('a \<Rightarrow> 'k) \<Rightarrow> 'a list \<Rightarrow> ('k, sha256 \<times> 'a) dict \<Rightarrow> bool" where
  "dedupe_inv fp ident seen d \<longleftrightarrow>
     distinct (map fst d) \<and>
     (\<forall>(k, h, v) \<in> set d. k = ident v \<and> h = fp v \<and> v \<in> set seen) \<and>
     (\<forall>x \<in> set seen. \<exists>v. map_of d (ident x) = Some (fp x, v) \<and> fp v = fp x \<and> ident v = ident x)"

lemma dedupe_inv_step:
  assumes "dedupe_inv fp ident seen d" and "dedupe_step fp ident code d x = Inr d'"
  shows "dedupe_inv fp ident (seen @ [x]) d'"
proof -
  have d': "d' = AList.update (ident x) (fp x, x) d"
    and same: "\<And>h v. map_of d (ident x) = Some (h, v) \<Longrightarrow> h = fp x"
    using assms(2) by (auto simp: dedupe_step_def split: option.splits if_splits)
  have look: "map_of d' k = (if k = ident x then Some (fp x, x) else map_of d k)" for k
    by (simp add: d' update_conv')
  have dist: "distinct (map fst d')"
    using assms(1) by (simp add: d' dedupe_inv_def distinct_update)
  have entries: "k = ident v \<and> h = fp v \<and> v \<in> set (seen @ [x])" if "(k, h, v) \<in> set d'" for k h v
  proof -
    from that dist have "map_of d' k = Some (h, v)" by simp
    with look have "k = ident x \<and> h = fp x \<and> v = x \<or> map_of d k = Some (h, v)"
      by (auto split: if_splits)
    with assms(1) show ?thesis
      by (auto simp: dedupe_inv_def dest!: map_of_SomeD)
  qed
  have found: "\<exists>v. map_of d' (ident y) = Some (fp y, v) \<and> fp v = fp y \<and> ident v = ident y"
    if "y \<in> set (seen @ [x])" for y
    using that assms(1) same by (auto simp: look dedupe_inv_def)
  show ?thesis
    unfolding dedupe_inv_def using dist entries found by auto
qed

lemma dedupe_inv_fold:
  "dedupe_inv fp ident seen d \<Longrightarrow> foldE (dedupe_step fp ident code) d xs = Inr d' \<Longrightarrow>
     dedupe_inv fp ident (seen @ xs) d'"
proof (induction xs arbitrary: seen d)
  case Nil
  then show ?case by simp
next
  case (Cons x xs)
  then obtain d1 where "dedupe_step fp ident code d x = Inr d1"
    and "foldE (dedupe_step fp ident code) d1 xs = Inr d'" by (auto simp: bindE_eq_Inr)
  with Cons.IH [OF dedupe_inv_step] Cons.prems(1) show ?case by fastforce
qed

lemma dedupe_inv_Nil: "dedupe_inv fp ident [] []"
  by (simp add: dedupe_inv_def)

text \<open>The loop fails exactly when two records share an identity but not a fingerprint.\<close>

definition consistent :: "('a \<Rightarrow> sha256) \<Rightarrow> ('a \<Rightarrow> 'k) \<Rightarrow> 'a set \<Rightarrow> bool" where
  "consistent fp ident S \<longleftrightarrow> (\<forall>x \<in> S. \<forall>y \<in> S. ident x = ident y \<longrightarrow> fp x = fp y)"

lemma dedupe_fold_succeeds:
  "dedupe_inv fp ident seen d \<Longrightarrow> consistent fp ident (set (seen @ xs)) \<Longrightarrow>
     \<exists>d'. foldE (dedupe_step fp ident code) d xs = Inr d'"
proof (induction xs arbitrary: seen d)
  case Nil
  then show ?case by simp
next
  case (Cons x xs)
  have "h = fp x" if "map_of d (ident x) = Some (h, v)" for h v
  proof -
    from that have "(ident x, h, v) \<in> set d" by (rule map_of_SomeD)
    with Cons.prems(1) have "ident v = ident x" "h = fp v" "v \<in> set seen"
      by (auto simp: dedupe_inv_def)
    with Cons.prems(2) show ?thesis by (auto simp: consistent_def)
  qed
  then obtain d1 where d1: "dedupe_step fp ident code d x = Inr d1"
    by (force simp: dedupe_step_def split: option.splits)
  moreover have "\<exists>d'. foldE (dedupe_step fp ident code) d1 xs = Inr d'"
    using Cons.IH [OF dedupe_inv_step [OF Cons.prems(1) d1]] Cons.prems(2) by simp
  ultimately show ?case by simp
qed

lemma dedupe_records_Inr:
  assumes "dedupe_records fp ident code xs = Inr ys"
  shows "distinct (map ident ys)" "set ys \<subseteq> set xs" "consistent fp ident (set xs)"
    "\<forall>x \<in> set xs. \<exists>y \<in> set ys. ident y = ident x \<and> fp y = fp x"
proof -
  obtain d where "foldE (dedupe_step fp ident code) [] xs = Inr d" and ys: "ys = map (snd \<circ> snd) d"
    using assms by (auto simp: dedupe_records_def bindE_eq_Inr)
  from dedupe_inv_fold [OF dedupe_inv_Nil this(1)] have inv: "dedupe_inv fp ident xs d" by simp
  have "map ident ys = map fst d"
    using inv unfolding ys by (auto simp: dedupe_inv_def)
  then show "distinct (map ident ys)"
    using inv by (simp add: dedupe_inv_def)
  show "set ys \<subseteq> set xs"
    using inv unfolding ys by (auto simp: dedupe_inv_def)
  have "\<exists>y \<in> set ys. ident y = ident x \<and> fp y = fp x" if "x \<in> set xs" for x
  proof -
    from inv that obtain v where "map_of d (ident x) = Some (fp x, v)" "fp v = fp x" "ident v = ident x"
      by (auto simp: dedupe_inv_def)
    then show ?thesis unfolding ys by (force dest!: map_of_SomeD)
  qed
  then show "\<forall>x \<in> set xs. \<exists>y \<in> set ys. ident y = ident x \<and> fp y = fp x" by blast
  have "fp x = fp y" if "x \<in> set xs" "y \<in> set xs" "ident x = ident y" for x y
  proof -
    have "\<forall>z \<in> set xs. \<exists>v. map_of d (ident z) = Some (fp z, v) \<and> fp v = fp z \<and> ident v = ident z"
      using inv unfolding dedupe_inv_def by blast
    with that(1,2) have "\<exists>v. map_of d (ident x) = Some (fp x, v)" "\<exists>v. map_of d (ident y) = Some (fp y, v)"
      by blast+
    with that(3) show ?thesis by auto
  qed
  then show "consistent fp ident (set xs)"
    unfolding consistent_def by blast
qed

lemma dedupe_records_Inl:
  assumes "dedupe_records fp ident code xs = Inl e"
  shows "e = LiveLedgerError code" "\<not> consistent fp ident (set xs)"
proof -
  have "foldE (dedupe_step fp ident code) [] xs = Inl e"
    using assms by (auto simp: dedupe_records_def bindE_eq_Inl)
  then show "e = LiveLedgerError code"
    by (rule foldE_error) (auto simp: dedupe_step_def split: option.splits if_splits)
  show "\<not> consistent fp ident (set xs)"
    using dedupe_fold_succeeds [OF dedupe_inv_Nil, of fp ident xs code] \<open>foldE _ _ _ = _\<close> by auto
qed

text \<open>With no collision among the records listed, each is kept once, and the order of the list
  does not matter.\<close>

lemma dedupe_records_set:
  assumes "dedupe_records fp ident code xs = Inr ys" and "inj_on fp (set xs)"
  shows "set ys = set xs"
proof -
  have "x \<in> set ys" if x: "x \<in> set xs" for x
  proof -
    obtain y where "y \<in> set ys" "fp y = fp x"
      using bspec [OF dedupe_records_Inr(4) [OF assms(1)] x] by blast
    moreover from \<open>y \<in> set ys\<close> have "y \<in> set xs"
      using dedupe_records_Inr(2) [OF assms(1)] by auto
    ultimately show ?thesis
      using assms(2) that by (metis inj_onD)
  qed
  then show ?thesis
    using dedupe_records_Inr(2) [OF assms(1)] by auto
qed

lemma dedupe_records_same:
  assumes "set xs = set ys" and "inj_on fp (set xs)"
  shows "same_result (\<lambda>us vs. mset us = mset vs \<and> set us = set xs)
    (dedupe_records fp ident code xs) (dedupe_records fp ident code ys)"
proof (cases "dedupe_records fp ident code xs")
  case (Inl e)
  moreover from dedupe_records_Inl [OF Inl] have "dedupe_records fp ident code ys = Inl e"
    using dedupe_records_Inr(3) [of fp ident code ys] dedupe_records_Inl(1) [of fp ident code ys] assms(1)
    by (cases "dedupe_records fp ident code ys") auto
  ultimately show ?thesis by simp
next
  case (Inr us)
  then obtain vs where vs: "dedupe_records fp ident code ys = Inr vs"
    using dedupe_records_Inr(3) [OF Inr] dedupe_records_Inl(2) [of fp ident code ys] assms(1)
    by (cases "dedupe_records fp ident code ys") auto
  have "distinct us" "distinct vs"
    using dedupe_records_Inr(1) [OF Inr] dedupe_records_Inr(1) [OF vs] by (auto simp: distinct_map)
  moreover have "set us = set xs" "set vs = set xs"
    using dedupe_records_set [OF Inr assms(2)] dedupe_records_set [OF vs] assms by auto
  ultimately show ?thesis
    using Inr vs by (simp add: set_eq_iff_mset_eq_distinct [symmetric])
qed

section \<open>Content of events\<close>

definition canonical_execution_hash :: "digests \<Rightarrow> jval \<Rightarrow> sha256" where
  "canonical_execution_hash D payload = sha256_of D payload"

definition order_event_content :: "venue_order_event \<Rightarrow> jval" where
  "order_event_content e =
    JObj [(''lineage_hashes'', jhashes (oe_lineage_hashes e)),
          (''event_id'', JUuid (oe_event_id e)),
          (''raw_event_hash'', JHash (oe_raw_event_hash e)),
          (''source_channel'', JText (oe_source_channel e)),
          (''venue_order_id'', JText (oe_venue_order_id e)),
          (''intent_id'', jopt JUuid (oe_intent_id e)),
          (''original_venue_state'', JText (oe_original_venue_state e)),
          (''normalized_state'', JText (venue_order_state_value (oe_normalized_state e))),
          (''terminal'', JBool (oe_terminal e)),
          (''venue_timestamp'', jopt JTime (oe_venue_timestamp e)),
          (''received_at'', JTime (oe_received_at e)),
          (''sequence_number'', jopt JInt (oe_sequence_number e)),
          (''protocol_version'', JText (oe_protocol_version e))]"

definition trade_event_content :: "venue_trade_event \<Rightarrow> jval" where
  "trade_event_content e =
    JObj [(''lineage_hashes'', jhashes (te_lineage_hashes e)),
          (''trade_event_id'', JUuid (te_trade_event_id e)),
          (''raw_event_hash'', JHash (te_raw_event_hash e)),
          (''source_channel'', JText (te_source_channel e)),
          (''venue_trade_id'', JText (te_venue_trade_id e)),
          (''venue_order_id'', jopt JText (te_venue_order_id e)),
          (''intent_id'', jopt JUuid (te_intent_id e)),
          (''original_venue_state'', JText (te_original_venue_state e)),
          (''normalized_state'', JText (venue_trade_state_value (te_normalized_state e))),
          (''terminal'', JBool (te_terminal e)),
          (''venue_timestamp'', jopt JTime (te_venue_timestamp e)),
          (''received_at'', JTime (te_received_at e)),
          (''sequence_number'', jopt JInt (te_sequence_number e)),
          (''protocol_version'', JText (te_protocol_version e))]"

lemma order_event_content_inj [simp]: "order_event_content e = order_event_content f \<longleftrightarrow> e = f"
  by (cases e; cases f) (auto simp: order_event_content_def)

lemma trade_event_content_inj [simp]: "trade_event_content e = trade_event_content f \<longleftrightarrow> e = f"
  by (cases e; cases f) (auto simp: trade_event_content_def)

section \<open>Grouping events by the order or trade they belong to\<close>

text \<open>
  The first loop of both classifications: one event per raw hash, an admissibility test (the
  cutoff, for orders), and the event appended to its group.
\<close>

definition group_event ::
  "('a \<Rightarrow> sha256) \<Rightarrow> ('a \<Rightarrow> uuid) \<Rightarrow> ('a \<Rightarrow> bool) \<Rightarrow> ('a \<Rightarrow> string) \<Rightarrow> string \<Rightarrow>
     (sha256, uuid) dict \<times> (string, 'a list) dict \<Rightarrow> 'a \<Rightarrow>
     ((sha256, uuid) dict \<times> (string, 'a list) dict) result"
where
  "group_event raw_hash event_id admissible key code = (\<lambda>(event_by_raw_hash, grouped) event.
     let (existing_event_id, event_by_raw_hash') =
           dict_setdefault (raw_hash event) (event_id event) event_by_raw_hash
     in if existing_event_id \<noteq> event_id event then Inl (LiveLedgerError code)
        else if \<not> admissible event then Inl (LiveLedgerError code)
        else Inr (event_by_raw_hash', dict_append (key event) event grouped))"

definition raw_hashes_bound :: "('a \<Rightarrow> sha256) \<Rightarrow> ('a \<Rightarrow> uuid) \<Rightarrow> 'a set \<Rightarrow> bool" where
  "raw_hashes_bound raw_hash event_id S \<longleftrightarrow>
     (\<forall>x \<in> S. \<forall>y \<in> S. raw_hash x = raw_hash y \<longrightarrow> event_id x = event_id y)"

lemma group_event_fold:
  assumes "\<forall>r i. map_of seen r = Some i \<longleftrightarrow> (\<exists>x \<in> S. raw x = r \<and> ident x = i)"
    and "raw_hashes_bound raw ident S"
  shows "bindE (foldE (group_event raw ident ok key code) (seen, grouped) xs) (\<lambda>(_, g). Inr g) =
    (if (\<forall>x \<in> set xs. ok x) \<and> raw_hashes_bound raw ident (S \<union> set xs)
     then Inr (fold (\<lambda>x. dict_append (key x) x) xs grouped)
     else Inl (LiveLedgerError code))"
  using assms
proof (induction xs arbitrary: seen grouped S)
  case Nil
  then show ?case by simp
next
  case (Cons x xs)
  show ?case
  proof (cases "\<exists>i. map_of seen (raw x) = Some i \<and> i \<noteq> ident x")
    case True
    then obtain i where i: "map_of seen (raw x) = Some i" "i \<noteq> ident x" by blast
    then have "\<not> raw_hashes_bound raw ident (S \<union> set (x # xs))"
      using Cons.prems(1) unfolding raw_hashes_bound_def by auto
    with i show ?thesis by (simp add: group_event_def dict_setdefault_def)
  next
    case False
    define seen' where "seen' = snd (dict_setdefault (raw x) (ident x) seen)"
    have step: "group_event raw ident ok key code (seen, grouped) x =
        (if ok x then Inr (seen', dict_append (key x) x grouped) else Inl (LiveLedgerError code))"
      using False by (auto simp: group_event_def seen'_def dict_setdefault_def split: option.splits)
    have look: "map_of seen' r = (if r = raw x then Some (ident x) else map_of seen r)" for r
      using False by (auto simp: seen'_def dict_setdefault_def update_conv' split: option.splits)
    have fresh: "ident y = ident x" if "y \<in> S" "raw y = raw x" for y
      using that Cons.prems(1) False by metis
    have prem1: "\<forall>r i. map_of seen' r = Some i \<longleftrightarrow> (\<exists>y \<in> insert x S. raw y = r \<and> ident y = i)"
      using Cons.prems(1) fresh by (auto simp: look)
    have prem2: "raw_hashes_bound raw ident (insert x S)"
      using Cons.prems(2) fresh unfolding raw_hashes_bound_def by (metis insert_iff)
    have union: "insert x S \<union> set xs = S \<union> set (x # xs)" by simp
    show ?thesis
      using Cons.IH [OF prem1 prem2, of "dict_append (key x) x grouped"] unfolding union
      by (simp add: step del: Un_insert_right)
  qed
qed

text \<open>The loop from empty dictionaries: the groups, or the one error it can raise.\<close>

definition group_events ::
  "('a \<Rightarrow> sha256) \<Rightarrow> ('a \<Rightarrow> uuid) \<Rightarrow> ('a \<Rightarrow> bool) \<Rightarrow> ('a \<Rightarrow> string) \<Rightarrow> string \<Rightarrow> 'a list \<Rightarrow>
     (string, 'a list) dict result"
where
  "group_events raw_hash event_id admissible key code events =
     bindE (foldE (group_event raw_hash event_id admissible key code) ([], []) events)
       (\<lambda>(_, grouped). Inr grouped)"

lemma group_events_eq:
  "group_events raw ident ok key code xs =
     (if (\<forall>x \<in> set xs. ok x) \<and> raw_hashes_bound raw ident (set xs)
      then Inr (group_by key xs) else Inl (LiveLedgerError code))"
proof -
  show ?thesis
    unfolding group_events_def group_by_def
    by (subst group_event_fold [of "[]" "{}"]) (simp_all add: raw_hashes_bound_def)
qed

text \<open>
  Snapshot, removal of duplicates, grouping and classification of the groups in key order: what
  both classifications do, and why the caller's order does not matter to it.
\<close>

lemma group_classify_same:
  assumes "mset us = mset vs" and "\<And>k ms ns. mset ms = mset ns \<Longrightarrow> f k ms = f k ns"
  shows "bindE (group_events raw ident ok key code us)
      (\<lambda>g. mapE (\<lambda>k. f k (dict_group g k)) (sort (map fst g))) =
    bindE (group_events raw ident ok key code vs)
      (\<lambda>g. mapE (\<lambda>k. f k (dict_group g k)) (sort (map fst g)))"
proof -
  have "set us = set vs"
    using assms(1) by (rule mset_eq_setD)
  moreover have "f k (dict_group (group_by key us) k) = f k (dict_group (group_by key vs) k)" for k
    using assms(1) by (intro assms(2) group_by_mset)
  ultimately show ?thesis
    by (simp add: group_events_eq sorted_keys_group_by del: dict_group_group_by)
qed

lemma evidence_pipeline_same:
  assumes "\<And>x y. validate x = Inr y \<Longrightarrow> y = x" and perm: "mset xs = mset ys"
    and inj: "inj_on fp (set xs)" and "\<And>k ms ns. mset ms = mset ns \<Longrightarrow> f k ms = f k ns"
  shows "bindE (snapshot_sequence validate code xs) (\<lambda>values.
       bindE (dedupe_records fp ident dcode values) (\<lambda>us.
       bindE (group_events raw ident' ok key gcode us)
         (\<lambda>g. mapE (\<lambda>k. f k (dict_group g k)) (sort (map fst g))))) =
     bindE (snapshot_sequence validate code ys) (\<lambda>values.
       bindE (dedupe_records fp ident dcode values) (\<lambda>us.
       bindE (group_events raw ident' ok key gcode us)
         (\<lambda>g. mapE (\<lambda>k. f k (dict_group g k)) (sort (map fst g)))))"
proof -
  have sets: "set xs = set ys" and len: "length xs = length ys"
    using perm by (auto dest: mset_eq_setD mset_eq_length)
  have snap: "snapshot_sequence validate code us = Inr ws \<longleftrightarrow>
      ws = us \<and> length us \<le> MAX_LIVE_EVIDENCE_ITEMS \<and> (\<forall>x \<in> set us. validate x = Inr x)" for us ws
    by (rule snapshot_sequence_Inr [OF assms(1)])
  show ?thesis
  proof (cases "snapshot_sequence validate code xs")
    case (Inl e)
    then have "snapshot_sequence validate code ys \<noteq> Inr zs" for zs
      using snap [of xs xs] snap [of ys zs] sets len by auto
    then obtain e' where "snapshot_sequence validate code ys = Inl e'"
      by (cases "snapshot_sequence validate code ys") auto
    with Inl show ?thesis
      by (auto dest!: snapshot_sequence_Inl)
  next
    case (Inr zs)
    then have "snapshot_sequence validate code xs = Inr xs" "snapshot_sequence validate code ys = Inr ys"
      using sets len by (auto simp: snap)
    moreover have "same_result (=)
      (bindE (dedupe_records fp ident dcode xs) (\<lambda>us. bindE (group_events raw ident' ok key gcode us)
         (\<lambda>g. mapE (\<lambda>k. f k (dict_group g k)) (sort (map fst g)))))
      (bindE (dedupe_records fp ident dcode ys) (\<lambda>us. bindE (group_events raw ident' ok key gcode us)
         (\<lambda>g. mapE (\<lambda>k. f k (dict_group g k)) (sort (map fst g)))))"
      by (rule same_result_bind [OF dedupe_records_same [OF sets inj]], elim conjE)
        (simp only: same_result_eq, rule group_classify_same, assumption, rule assms(4))
    ultimately show ?thesis
      by (simp add: same_result_eq)
  qed
qed

section \<open>Order histories\<close>

fun legal_order_transitions :: "venue_order_state \<Rightarrow> venue_order_state list" where
  "legal_order_transitions SUBMITTING = [UNKNOWN, REJECTED]"
| "legal_order_transitions ACK_MATCHED =
     [PARTIALLY_FILLED, FILLED, CANCEL_PENDING, CANCELLED, REJECTED, UNKNOWN, RECONCILED]"
| "legal_order_transitions ACK_DELAYED =
     [ACK_MATCHED, PARTIALLY_FILLED, FILLED, REJECTED, UNKNOWN, RECONCILED]"
| "legal_order_transitions ACK_LIVE_UNEXPECTED =
     [PARTIALLY_FILLED, FILLED, CANCEL_PENDING, CANCELLED, REJECTED, UNKNOWN, RECONCILED]"
| "legal_order_transitions PARTIALLY_FILLED =
     [PARTIALLY_FILLED, FILLED, CANCEL_PENDING, CANCELLED, UNKNOWN, RECONCILED]"
| "legal_order_transitions CANCEL_PENDING =
     [CANCEL_PENDING, CANCELLED, FILLED, PARTIALLY_FILLED, UNKNOWN, RECONCILED]"
| "legal_order_transitions UNKNOWN =
     [ACK_MATCHED, PARTIALLY_FILLED, FILLED, CANCEL_PENDING, CANCELLED, REJECTED, RECONCILED]"
| "legal_order_transitions _ = []"

definition legal_order_transition :: "venue_order_state \<Rightarrow> venue_order_state \<Rightarrow> bool" where
  "legal_order_transition previous current \<longleftrightarrow> current \<in> set (legal_order_transitions previous)"

definition terminal_order_state :: "venue_order_state \<Rightarrow> bool" where
  "terminal_order_state s \<longleftrightarrow> s \<in> set terminal_order_states"

interpretation order_machine: state_machine legal_order_transition terminal_order_state
  by unfold_locales (auto simp: terminal_order_state_def terminal_order_states_def legal_order_transition_def)

record classified_order_history =
  oh_venue_order_id :: string
  oh_ordered_events :: "venue_order_event list"
  oh_raw_event_hashes :: "sha256 list"
  oh_intent_id :: "uuid option"
  oh_protocol_version :: string
  oh_terminal_event :: "venue_order_event option"

definition order_conflict :: py_error where
  "order_conflict = LiveLedgerError ''ORDER_EVENT_CONFLICT''"

text \<open>The order the evidence gives to the events received at one instant.\<close>

definition order_evidence_order :: "bool \<Rightarrow> venue_order_event list \<Rightarrow> venue_order_event list result" where
  "order_evidence_order sequences_supplied members =
     (if \<not> sequences_supplied then (if length members \<noteq> 1 then Inl order_conflict else Inr members)
      else let sequences = map oe_sequence_number members
           in if None \<in> set sequences \<or> length (py_set sequences) \<noteq> length sequences
              then Inl order_conflict
              else Inr (sort_key (\<lambda>event. the (oe_sequence_number event)) members))"

definition append_order_event ::
  "bool \<Rightarrow> int option \<times> venue_order_event list \<Rightarrow> venue_order_event \<Rightarrow>
     (int option \<times> venue_order_event list) result"
where
  "append_order_event sequences_supplied = (\<lambda>(prior_sequence, ordered) event.
     if sequences_supplied \<and>
        (case (prior_sequence, oe_sequence_number event) of
           (Some prior, Some sequence) \<Rightarrow> sequence \<le> prior | _ \<Rightarrow> False)
     then Inl order_conflict
     else Inr (case oe_sequence_number event of None \<Rightarrow> prior_sequence | Some sequence \<Rightarrow> Some sequence,
               ordered @ [event]))"

definition order_receipt_group ::
  "bool \<Rightarrow> (timestamp, venue_order_event list) dict \<Rightarrow> int option \<times> venue_order_event list \<Rightarrow>
     timestamp \<Rightarrow> (int option \<times> venue_order_event list) result"
where
  "order_receipt_group sequences_supplied receipt_groups state received_at =
     bindE (order_evidence_order sequences_supplied (dict_group receipt_groups received_at))
       (foldE (append_order_event sequences_supplied) state)"

definition order_state_step ::
  "venue_order_event option \<times> venue_order_event option \<Rightarrow> venue_order_event \<Rightarrow>
     (venue_order_event option \<times> venue_order_event option) result"
where
  "order_state_step = (\<lambda>(terminal_event, previous) event.
     if terminal_event \<noteq> None then Inl order_conflict
     else if \<not> opt_all (\<lambda>p. legal_order_transition (oe_normalized_state p) (oe_normalized_state event)) previous
     then Inl order_conflict
     else Inr (if terminal_order_state (oe_normalized_state event) then Some event else None, Some event))"

definition classify_order_history ::
  "string \<Rightarrow> venue_order_event list \<Rightarrow> classified_order_history result" where
  "classify_order_history venue_order_id history =
     (let intent_ids = py_set (map oe_intent_id history);
          protocol_versions = py_set (map oe_protocol_version history);
          sequence_presence = py_set (map (\<lambda>event. oe_sequence_number event = None) history);
          sequences_supplied = False \<in> set sequence_presence;
          receipt_groups = group_by oe_received_at history
      in bindE (checkE
           [(length intent_ids \<noteq> 1 \<or> length protocol_versions \<noteq> 1, order_conflict),
            (length sequence_presence \<noteq> 1, order_conflict)]) (\<lambda>_.
         bindE (foldE (order_receipt_group sequences_supplied receipt_groups) (None, [])
                  (sort (map fst receipt_groups))) (\<lambda>(_, ordered).
         bindE (foldE order_state_step (None, None) ordered) (\<lambda>(terminal_event, _).
         Inr \<lparr>oh_venue_order_id = venue_order_id,
              oh_ordered_events = ordered,
              oh_raw_event_hashes = sort (map oe_raw_event_hash ordered),
              oh_intent_id = hd intent_ids,
              oh_protocol_version = hd protocol_versions,
              oh_terminal_event = terminal_event\<rparr>))))"

definition order_event_admissible :: "timestamp \<Rightarrow> venue_order_event \<Rightarrow> bool" where
  "order_event_admissible cutoff event \<longleftrightarrow>
     oe_received_at event \<le> cutoff \<and> opt_all (\<lambda>t. t \<le> cutoff) (oe_venue_timestamp event)"

definition classify_order_histories ::
  "digests \<Rightarrow> venue_order_event list \<Rightarrow> py_datetime \<Rightarrow> classified_order_history list result" where
  "classify_order_histories D orders cutoff =
     bindE (except_as (normalize_utc_timestamp cutoff) (LiveLedgerError ''ORDER_EVENT_INVALID''))
       (\<lambda>normalized_cutoff.
     bindE (snapshot_sequence validate_order_event ''ORDER_EVENT_INVALID'' orders) (\<lambda>values.
     bindE (dedupe_records (\<lambda>e. canonical_execution_hash D (order_event_content e)) oe_event_id
              ''ORDER_EVENT_CONFLICT'' values) (\<lambda>order_values.
     bindE (group_events oe_raw_event_hash oe_event_id (order_event_admissible normalized_cutoff)
              oe_venue_order_id ''ORDER_EVENT_CONFLICT'' order_values) (\<lambda>grouped.
     mapE (\<lambda>oid. classify_order_history oid (dict_group grouped oid)) (sort (map fst grouped))))))"

text \<open>The order of the evidence: by receipt, and by sequence number where one is supplied.\<close>

lemma order_evidence_order_Inr:
  assumes "order_evidence_order sequences_supplied members = Inr xs"
  shows "mset xs = mset members" "sequences_supplied \<Longrightarrow> \<forall>e \<in> set xs. oe_sequence_number e \<noteq> None"
proof -
  show "mset xs = mset members"
    using assms by (auto simp: order_evidence_order_def Let_def split: if_splits)
  show "\<forall>e \<in> set xs. oe_sequence_number e \<noteq> None" if "sequences_supplied"
  proof -
    from assms that have "None \<notin> oe_sequence_number ` set members" and "set xs = set members"
      by (auto simp: order_evidence_order_def Let_def split: if_splits)
    then show ?thesis by (metis image_eqI)
  qed
qed

lemma order_evidence_order_same:
  assumes "mset ms = mset ns"
  shows "order_evidence_order s ms = order_evidence_order s ns"
proof (cases s)
  case True
  have sets: "set ms = set ns" and len: "length ms = length ns"
    using assms by (auto dest: mset_eq_setD mset_eq_length)
  show ?thesis
  proof (cases "None \<in> oe_sequence_number ` set ns \<or>
      card (oe_sequence_number ` set ns) \<noteq> length ns")
    case bad: True
    then show ?thesis
      using True sets len by (auto simp: order_evidence_order_def length_py_set Let_def)
  next
    case False
    then have "inj_on oe_sequence_number (set ns)"
      by (metis card_length card_image_le eq_card_imp_inj_on finite_set le_antisym)
    then have "inj_on (\<lambda>e. the (oe_sequence_number e)) (set ns)"
      using False by (auto simp: inj_on_def image_iff) (metis option.exhaust_sel)
    then have "sort_key (\<lambda>e. the (oe_sequence_number e)) ms = sort_key (\<lambda>e. the (oe_sequence_number e)) ns"
      using assms sets by (intro sort_key_inj_key_eq) auto
    then show ?thesis
      using True sets len by (simp add: order_evidence_order_def length_py_set Let_def)
  qed
next
  case False
  have "length ms = length ns"
    using assms by (rule mset_eq_length)
  with False assms show ?thesis
    by (auto simp: order_evidence_order_def length_Suc_conv)
qed

lemma append_order_events:
  "foldE (append_order_event s) (p, ordered) xs = Inr (q, ys) \<Longrightarrow> ys = ordered @ xs"
  by (induction xs arbitrary: p ordered)
    (fastforce simp: append_order_event_def bindE_eq_Inr split: if_splits)+

text \<open>What the loop keeps when sequence numbers are supplied: they increase strictly.\<close>

definition sequence_inv :: "int option \<times> venue_order_event list \<Rightarrow> bool" where
  "sequence_inv = (\<lambda>(prior, ordered).
     None \<notin> set (map oe_sequence_number ordered) \<and>
     successively (<) (map (\<lambda>e. the (oe_sequence_number e)) ordered) \<and>
     prior = (if ordered = [] then None else oe_sequence_number (last ordered)))"

lemma append_order_event_inv:
  assumes "sequence_inv state" and "oe_sequence_number e \<noteq> None"
    and "append_order_event True state e = Inr state'"
  shows "sequence_inv state'"
proof -
  obtain prior ordered where state: "state = (prior, ordered)" by (cases state)
  obtain sequence where seq: "oe_sequence_number e = Some sequence" using assms(2) by auto
  have state': "state' = (Some sequence, ordered @ [e])"
    and above: "prior = Some p \<Longrightarrow> p < sequence" for p
    using assms(3) by (auto simp: append_order_event_def state seq split: option.splits if_splits)
  show ?thesis
  proof (cases ordered rule: rev_cases)
    case Nil
    then show ?thesis by (simp add: sequence_inv_def state' seq)
  next
    case (snoc ys y)
    with assms(1) obtain p where "oe_sequence_number y = Some p" "prior = Some p"
      by (cases "oe_sequence_number y") (auto simp: sequence_inv_def state)
    with above snoc assms(1) show ?thesis
      by (simp add: sequence_inv_def state state' seq successively_append_iff)
  qed
qed

lemma order_receipt_groups:
  assumes "foldE (order_receipt_group s groups) (p, ordered) ks = Inr (q, ys)"
  shows "\<exists>yss. ys = ordered @ concat yss \<and>
    list_all2 (\<lambda>k xs. mset xs = mset (dict_group groups k)) ks yss"
  using assms
proof (induction ks arbitrary: p ordered)
  case Nil
  then show ?case by simp
next
  case (Cons k ks)
  then obtain r zs where step: "order_receipt_group s groups (p, ordered) k = Inr (r, zs)"
    and rest: "foldE (order_receipt_group s groups) (r, zs) ks = Inr (q, ys)"
    by (auto simp: bindE_eq_Inr)
  from step obtain xs where "order_evidence_order s (dict_group groups k) = Inr xs"
    and "zs = ordered @ xs"
    by (auto simp: order_receipt_group_def bindE_eq_Inr dest: append_order_events)
  moreover obtain yss where "ys = zs @ concat yss"
    and "list_all2 (\<lambda>k xs. mset xs = mset (dict_group groups k)) ks yss"
    using Cons.IH [OF rest] by blast
  ultimately show ?case
    by (intro exI [of _ "xs # yss"]) (simp add: order_evidence_order_Inr(1))
qed

lemma order_receipt_groups_inv:
  assumes "foldE (order_receipt_group True groups) (None, []) ks = Inr state"
  shows "sequence_inv state"
  using assms
proof (rule foldE_invariant)
  show "sequence_inv (None, [])" by (simp add: sequence_inv_def)
next
  fix state k state'
  assume inv: "sequence_inv state" and "order_receipt_group True groups state k = Inr state'"
  then obtain xs where xs: "order_evidence_order True (dict_group groups k) = Inr xs"
    and run: "foldE (append_order_event True) state xs = Inr state'"
    by (auto simp: order_receipt_group_def bindE_eq_Inr)
  show "sequence_inv state'"
    by (rule foldE_invariant [where P = sequence_inv, OF run inv])
      (rule append_order_event_inv, assumption, use order_evidence_order_Inr(2) [OF xs] in blast, assumption)
qed

lemma concat_blocks_mset:
  "list_all2 (\<lambda>k xs. mset xs = mset (f k)) ks yss \<Longrightarrow> mset (concat yss) = mset (concat (map f ks))"
  by (induction ks yss rule: list_all2_induct) auto

lemma concat_blocks_sorted:
  assumes "list_all2 (\<lambda>k xs. \<forall>x \<in> set xs. g x = k) ks yss" and "sorted ks"
  shows "sorted (map g (concat yss))"
  using assms
proof (induction ks yss rule: list_all2_induct)
  case Nil
  then show ?case by simp
next
  case (Cons k ks xs yss)
  have later: "\<forall>y \<in> set (concat yss). g y \<in> set ks"
    using Cons.hyps(2) by (induction ks yss rule: list_all2_induct) auto
  have "sorted (map g xs)"
    using Cons.hyps(1) by (induction xs) auto
  then show ?case
    using Cons later by (fastforce simp: sorted_append)
qed

lemma order_state_steps:
  "foldE order_state_step (None, None) xs =
    (if successively legal_order_transition (map oe_normalized_state xs)
     then Inr (if xs \<noteq> [] \<and> terminal_order_state (oe_normalized_state (last xs)) then Some (last xs) else None,
               if xs = [] then None else Some (last xs))
     else Inl order_conflict)"
proof (induction xs rule: rev_induct)
  case Nil
  then show ?case by simp
next
  case (snoc x xs)
  then show ?case
    using order_machine.final_stuck [of "oe_normalized_state (last xs)" "oe_normalized_state x"]
    by (auto simp: foldE_append successively_append_iff last_map order_state_step_def opt_all_def)
qed

text \<open>One accepted history: the same events, in evidence order, along a legal run.\<close>

definition has_sequences :: "venue_order_event list \<Rightarrow> bool" where
  "has_sequences h \<longleftrightarrow> list_ex (\<lambda>e. oe_sequence_number e \<noteq> None) h"

lemma supplied_iff: "False \<in> set (py_set (map (\<lambda>e. oe_sequence_number e = None) h)) \<longleftrightarrow> has_sequences h"
  by (induction h) (auto simp: has_sequences_def)

lemma order_history_run:
  assumes "foldE (order_receipt_group s (group_by oe_received_at h)) (None, [])
    (sort (map fst (group_by oe_received_at h))) = Inr (p, ordered)"
  shows "mset ordered = mset h" "sorted (map oe_received_at ordered)"
    "s \<Longrightarrow> successively (<) (map (\<lambda>e. the (oe_sequence_number e)) ordered)"
proof -
  let ?ks = "sort (map fst (group_by oe_received_at h))"
  obtain yss where ordered: "ordered = concat yss"
    and blocks: "list_all2 (\<lambda>k xs. mset xs = mset (dict_group (group_by oe_received_at h) k)) ?ks yss"
    using order_receipt_groups [OF assms] by auto
  have "mset ordered = mset (concat (map (\<lambda>k. filter (\<lambda>e. oe_received_at e = k) h) ?ks))"
    unfolding ordered using concat_blocks_mset [OF blocks] by simp
  also have "\<dots> = mset h"
    by (rule filters_partition) (simp_all add: distinct_group_by flip: set_map)
  finally show "mset ordered = mset h" .
  have "list_all2 (\<lambda>k xs. \<forall>x \<in> set xs. oe_received_at x = k) ?ks yss"
    using blocks
  proof (rule list_all2_mono)
    fix k xs assume "mset xs = mset (dict_group (group_by oe_received_at h) k)"
    then have "set xs = set (dict_group (group_by oe_received_at h) k)" by (rule mset_eq_setD)
    then show "\<forall>x \<in> set xs. oe_received_at x = k" by simp
  qed
  then show "sorted (map oe_received_at ordered)"
    unfolding ordered by (rule concat_blocks_sorted) simp
  show "s \<Longrightarrow> successively (<) (map (\<lambda>e. the (oe_sequence_number e)) ordered)"
    using order_receipt_groups_inv [of _ _ "(p, ordered)"] assms
    by (cases s) (auto simp: sequence_inv_def)
qed

definition terminal_last :: "venue_order_event list \<Rightarrow> venue_order_event option" where
  "terminal_last es =
     (if es \<noteq> [] \<and> terminal_order_state (oe_normalized_state (last es)) then Some (last es) else None)"

lemma classify_order_history_Inr:
  assumes "classify_order_history oid h = Inr r"
  shows "mset (oh_ordered_events r) = mset h"
    "sorted (map oe_received_at (oh_ordered_events r))"
    "has_sequences h \<Longrightarrow> successively (<) (map (\<lambda>e. the (oe_sequence_number e)) (oh_ordered_events r))"
    "successively legal_order_transition (map oe_normalized_state (oh_ordered_events r))"
    "oh_terminal_event r = terminal_last (oh_ordered_events r)"
    "oh_venue_order_id r = oid"
    "\<forall>e \<in> set h. oe_intent_id e = oh_intent_id r \<and> oe_protocol_version e = oh_protocol_version r"
proof -
  let ?ids = "py_set (map oe_intent_id h)" and ?vs = "py_set (map oe_protocol_version h)"
  have one: "length ?ids = 1" "length ?vs = 1"
    using assms by (auto simp: classify_order_history_def Let_def split: if_splits)
  obtain p ordered where run: "foldE (order_receipt_group (has_sequences h) (group_by oe_received_at h))
      (None, []) (sort (map fst (group_by oe_received_at h))) = Inr (p, ordered)"
    and r: "bindE (foldE order_state_step (None, None) ordered) (\<lambda>(terminal_event, _).
         Inr \<lparr>oh_venue_order_id = oid, oh_ordered_events = ordered,
              oh_raw_event_hashes = sort (map oe_raw_event_hash ordered),
              oh_intent_id = hd ?ids, oh_protocol_version = hd ?vs,
              oh_terminal_event = terminal_event\<rparr>) = Inr r"
    using assms unfolding classify_order_history_def Let_def supplied_iff
    by (auto simp: bindE_eq_Inr simp del: foldE.simps)
  have legal: "successively legal_order_transition (map oe_normalized_state ordered)"
    using r by (auto simp: order_state_steps split: if_splits)
  have r': "r = \<lparr>oh_venue_order_id = oid, oh_ordered_events = ordered,
      oh_raw_event_hashes = sort (map oe_raw_event_hash ordered),
      oh_intent_id = hd ?ids, oh_protocol_version = hd ?vs, oh_terminal_event = terminal_last ordered\<rparr>"
    using r legal by (simp add: order_state_steps terminal_last_def)
  show "mset (oh_ordered_events r) = mset h" "sorted (map oe_received_at (oh_ordered_events r))"
    "has_sequences h \<Longrightarrow> successively (<) (map (\<lambda>e. the (oe_sequence_number e)) (oh_ordered_events r))"
    using order_history_run [OF run] by (simp_all add: r')
  show "successively legal_order_transition (map oe_normalized_state (oh_ordered_events r))"
    "oh_terminal_event r = terminal_last (oh_ordered_events r)" "oh_venue_order_id r = oid"
    using legal by (simp_all add: r')
  show "\<forall>e \<in> set h. oe_intent_id e = oh_intent_id r \<and> oe_protocol_version e = oh_protocol_version r"
    using py_set_single [OF one(1)] py_set_single [OF one(2)] by (fastforce simp: r')
qed

text \<open>The histories of the same events, listed in any order, are the same.\<close>

lemma order_receipt_group_same:
  assumes "mset h = mset h'"
  shows "order_receipt_group s (group_by oe_received_at h) = order_receipt_group s (group_by oe_received_at h')"
  by (intro ext) (simp only: order_receipt_group_def order_evidence_order_same [OF group_by_mset [OF assms]])

lemma classify_order_history_same:
  assumes "mset h = mset h'"
  shows "classify_order_history oid h = classify_order_history oid h'"
proof -
  have sets: "set h = set h'"
    using assms by (rule mset_eq_setD)
  have ids: "length (py_set (map f h)) = 1 \<Longrightarrow> py_set (map f h) = py_set (map f h')" for f :: "_ \<Rightarrow> 'b"
    using sets by (intro py_set_small) auto
  have lens: "length (py_set (map f h)) = length (py_set (map f h'))" for f :: "_ \<Rightarrow> 'b"
    using sets by (simp add: length_py_set)
  have supplied: "False \<in> set (py_set (map f h)) \<longleftrightarrow> False \<in> set (py_set (map f h'))" for f
    using sets by simp
  have keys: "sort (map fst (group_by oe_received_at h)) = sort (map fst (group_by oe_received_at h'))"
    using sets by (simp add: sorted_keys_group_by)
  show ?thesis
  proof (cases "length (py_set (map oe_intent_id h)) = 1 \<and> length (py_set (map oe_protocol_version h)) = 1")
    case True
    then show ?thesis
      unfolding classify_order_history_def Let_def order_receipt_group_same [OF assms] keys supplied
      by (simp add: ids lens del: foldE.simps)
  next
    case False
    then show ?thesis
      unfolding classify_order_history_def Let_def by (auto simp: lens)
  qed
qed

lemma classify_order_histories_same:
  assumes "mset orders = mset orders'"
    and "inj_on (sha256_of D) (order_event_content ` set orders)"
  shows "classify_order_histories D orders cutoff = classify_order_histories D orders' cutoff"
proof -
  have "inj_on (\<lambda>e. canonical_execution_hash D (order_event_content e)) (set orders)"
    using assms(2) by (auto simp: inj_on_def canonical_execution_hash_def)
  note same = evidence_pipeline_same [where f = classify_order_history,
      OF validate_order_event_id assms(1) this classify_order_history_same]
  show ?thesis
    unfolding classify_order_histories_def
    by (intro arg_cong [where f = "bindE _"] ext) (rule same)
qed

section \<open>Trade histories\<close>

definition terminal_trade_state :: "venue_trade_state \<Rightarrow> bool" where
  "terminal_trade_state s \<longleftrightarrow> s \<in> set terminal_trade_states"

record classified_trade_history =
  th_venue_trade_id :: string
  th_validated_events :: "venue_trade_event set"
  th_raw_event_hashes :: "sha256 list"
  th_intent_id :: "uuid option"
  th_venue_order_id :: "string option"
  th_protocol_version :: string
  th_confirmed_terminal :: "venue_trade_event option"
  th_failed_terminal :: "venue_trade_event option"
  th_latest_unresolved_state :: "venue_trade_state option"
  th_unresolved_ambiguous :: bool

definition trade_conflict :: py_error where
  "trade_conflict = LiveLedgerError ''TRADE_EVENT_CONFLICT''"

text \<open>Tied events get an order, by sequence number, only when one of them is terminal.\<close>

definition trade_evidence_order :: "venue_trade_event list \<Rightarrow> venue_trade_event list result" where
  "trade_evidence_order members =
     (let supplied_sequences = List.map_filter te_sequence_number members;
          contains_terminal = list_ex (\<lambda>event. terminal_trade_state (te_normalized_state event)) members
      in if contains_terminal \<and> length members > 1
         then if length supplied_sequences \<noteq> length members \<or>
                 length (py_set supplied_sequences) \<noteq> length supplied_sequences
              then Inl trade_conflict
              else Inr (sort_key (\<lambda>event. the (te_sequence_number event)) members)
         else Inr members)"

type_synonym trade_terminals = "venue_trade_event option \<times> venue_trade_event option \<times> bool"

definition trade_event_step :: "trade_terminals \<Rightarrow> venue_trade_event \<Rightarrow> trade_terminals result" where
  "trade_event_step = (\<lambda>(confirmed_terminal, failed_terminal, terminal_seen) event.
     if terminal_seen then Inl trade_conflict
     else Inr (case te_normalized_state event of
         CONFIRMED \<Rightarrow> (Some event, failed_terminal, True)
       | FAILED \<Rightarrow> (confirmed_terminal, Some event, True)
       | _ \<Rightarrow> (confirmed_terminal, failed_terminal, terminal_seen)))"

type_synonym trade_loop = "trade_terminals \<times> int option \<times> venue_trade_event list"

definition trade_receipt_group ::
  "(timestamp, venue_trade_event list) dict \<Rightarrow> trade_loop \<Rightarrow> timestamp \<Rightarrow> trade_loop result" where
  "trade_receipt_group receipt_groups = (\<lambda>(terminals, prior_sequence, final_group) received_at.
     let members = dict_group receipt_groups received_at;
         supplied_sequences = List.map_filter te_sequence_number members
     in if snd (snd terminals) then Inl trade_conflict
        else if \<not> opt_all (\<lambda>prior. \<not> list_ex (\<lambda>sequence. sequence \<le> prior) supplied_sequences) prior_sequence
        then Inl trade_conflict
        else bindE (trade_evidence_order members) (\<lambda>evidence_order.
             bindE (foldE trade_event_step terminals evidence_order) (\<lambda>terminals'.
             Inr (terminals',
                  if supplied_sequences \<noteq> [] then Some (Max (set supplied_sequences)) else prior_sequence,
                  evidence_order))))"

definition trade_history_result ::
  "string \<Rightarrow> venue_trade_event list \<Rightarrow> trade_loop \<Rightarrow> classified_trade_history" where
  "trade_history_result trade_id history = (\<lambda>((confirmed_terminal, failed_terminal, _), _, final_group).
     let unresolved = confirmed_terminal = None \<and> failed_terminal = None
     in \<lparr>th_venue_trade_id = trade_id,
         th_validated_events = set history,
         th_raw_event_hashes = sort (map te_raw_event_hash history),
         th_intent_id = next_iter (py_set (List.map_filter te_intent_id history)),
         th_venue_order_id = next_iter (py_set (List.map_filter te_venue_order_id history)),
         th_protocol_version = hd (py_set (map te_protocol_version history)),
         th_confirmed_terminal = confirmed_terminal,
         th_failed_terminal = failed_terminal,
         th_latest_unresolved_state =
           (if unresolved \<and> length final_group = 1 then Some (te_normalized_state (hd final_group)) else None),
         th_unresolved_ambiguous = (unresolved \<and> length final_group > 1)\<rparr>)"

definition classify_trade_history ::
  "string \<Rightarrow> venue_trade_event list \<Rightarrow> classified_trade_history result" where
  "classify_trade_history trade_id history =
     (let intent_ids = py_set (List.map_filter te_intent_id history);
          order_ids = py_set (List.map_filter te_venue_order_id history);
          protocol_versions = py_set (map te_protocol_version history);
          receipt_groups = group_by te_received_at history
      in bindE (checkE
           [(length intent_ids > 1 \<or> length order_ids > 1 \<or> length protocol_versions \<noteq> 1, trade_conflict)]) (\<lambda>_.
         bindE (foldE (trade_receipt_group receipt_groups) ((None, None, False), None, [])
                  (sort (map fst receipt_groups))) (\<lambda>loop.
         Inr (trade_history_result trade_id history loop))))"

definition snapshot_trade_events :: "digests \<Rightarrow> venue_trade_event list \<Rightarrow> venue_trade_event list result" where
  "snapshot_trade_events D trades =
     bindE (snapshot_sequence validate_trade_event ''TRADE_EVENT_INVALID'' trades)
       (dedupe_records (\<lambda>e. canonical_execution_hash D (trade_event_content e)) te_trade_event_id
          ''TRADE_EVENT_CONFLICT'')"

definition classify_trade_histories ::
  "digests \<Rightarrow> venue_trade_event list \<Rightarrow> classified_trade_history list result" where
  "classify_trade_histories D trades =
     bindE (snapshot_trade_events D trades) (\<lambda>trade_values.
     bindE (group_events te_raw_event_hash te_trade_event_id (\<lambda>_. True) te_venue_trade_id
              ''TRADE_EVENT_CONFLICT'' trade_values) (\<lambda>grouped.
     mapE (\<lambda>tid. classify_trade_history tid (dict_group grouped tid)) (sort (map fst grouped))))"

abbreviation terminal_trade :: "venue_trade_event \<Rightarrow> bool" where
  "terminal_trade e \<equiv> terminal_trade_state (te_normalized_state e)"

lemma terminal_trade_state_iff: "terminal_trade_state s \<longleftrightarrow> s = CONFIRMED \<or> s = FAILED"
  by (simp add: terminal_trade_state_def terminal_trade_states_def)

lemma trade_event_steps:
  "foldE trade_event_step (None, None, False) zs =
    (if \<forall>e \<in> set (butlast zs). \<not> terminal_trade e
     then Inr (if zs \<noteq> [] \<and> te_normalized_state (last zs) = CONFIRMED then Some (last zs) else None,
               if zs \<noteq> [] \<and> te_normalized_state (last zs) = FAILED then Some (last zs) else None,
               zs \<noteq> [] \<and> terminal_trade (last zs))
     else Inl trade_conflict)"
proof (induction zs rule: rev_induct)
  case Nil
  then show ?case by simp
next
  case (snoc z zs)
  have "set zs = (if zs = [] then {} else insert (last zs) (set (butlast zs)))"
    by (cases zs rule: rev_cases) auto
  with snoc show ?case
    by (auto simp: foldE_append trade_event_step_def terminal_trade_state_iff split: venue_trade_state.splits)
qed

lemma trade_evidence_order_mset: "trade_evidence_order members = Inr xs \<Longrightarrow> mset xs = mset members"
  by (auto simp: trade_evidence_order_def Let_def split: if_splits)

lemma trade_receipt_groups:
  assumes "foldE (trade_receipt_group groups) (t, p, g) ks = Inr (t', p', g')"
  shows "\<exists>zss. foldE trade_event_step t (concat zss) = Inr t' \<and>
    list_all2 (\<lambda>k xs. mset xs = mset (dict_group groups k)) ks zss \<and>
    g' = (if zss = [] then g else last zss)"
  using assms
proof (induction ks arbitrary: t p g)
  case Nil
  then show ?case by simp
next
  case (Cons k ks)
  then obtain t1 p1 xs where xs: "trade_evidence_order (dict_group groups k) = Inr xs"
    and step: "foldE trade_event_step t xs = Inr t1"
    and rest: "foldE (trade_receipt_group groups) (t1, p1, xs) ks = Inr (t', p', g')"
    by (auto simp: bindE_eq_Inr trade_receipt_group_def Let_def split: if_splits)
  obtain zss where "foldE trade_event_step t1 (concat zss) = Inr t'"
    and "list_all2 (\<lambda>k xs. mset xs = mset (dict_group groups k)) ks zss"
    and "g' = (if zss = [] then xs else last zss)"
    using Cons.IH [OF rest] by blast
  then show ?case
    using trade_evidence_order_mset [OF xs] step
    by (intro exI [of _ "xs # zss"]) (simp add: foldE_append)
qed

text \<open>
  One accepted history: an order of the same events by receipt in which only the last can be
  terminal, and the events received last.
\<close>

definition latest_events :: "venue_trade_event list \<Rightarrow> venue_trade_event list" where
  "latest_events h = filter (\<lambda>e. te_received_at e = Max (te_received_at ` set h)) h"

lemma trade_history_run:
  assumes "foldE (trade_receipt_group (group_by te_received_at h)) ((None, None, False), None, [])
    (sort (map fst (group_by te_received_at h))) = Inr (t, p, final)" and "h \<noteq> []"
  obtains zs where "foldE trade_event_step (None, None, False) zs = Inr t" "mset zs = mset h"
    "sorted (map te_received_at zs)" "mset final = mset (latest_events h)"
proof -
  let ?g = "group_by te_received_at h"
  let ?ks = "sort (map fst ?g)"
  have keys: "set ?ks = te_received_at ` set h"
    by (simp flip: set_map)
  with assms(2) have "?ks \<noteq> []" by (metis image_is_empty set_empty)
  obtain zss where run: "foldE trade_event_step (None, None, False) (concat zss) = Inr t"
    and blocks: "list_all2 (\<lambda>k xs. mset xs = mset (dict_group ?g k)) ?ks zss"
    and final: "final = (if zss = [] then [] else last zss)"
    using trade_receipt_groups [OF assms(1)] by blast
  have "mset (concat zss) = mset (concat (map (\<lambda>k. filter (\<lambda>e. te_received_at e = k) h) ?ks))"
    using concat_blocks_mset [OF blocks] by simp
  also have "\<dots> = mset h"
    by (rule filters_partition) (simp_all add: distinct_group_by flip: set_map)
  finally have "mset (concat zss) = mset h" .
  moreover have "list_all2 (\<lambda>k xs. \<forall>x \<in> set xs. te_received_at x = k) ?ks zss"
    using blocks
  proof (rule list_all2_mono)
    fix k xs assume "mset xs = mset (dict_group ?g k)"
    then have "set xs = set (dict_group ?g k)" by (rule mset_eq_setD)
    then show "\<forall>x \<in> set xs. te_received_at x = k" by simp
  qed
  then have "sorted (map te_received_at (concat zss))"
    by (rule concat_blocks_sorted) simp
  moreover have "mset final = mset (dict_group ?g (last ?ks))"
  proof -
    from blocks \<open>?ks \<noteq> []\<close> have "zss \<noteq> []" by auto
    moreover have "length ?ks = length zss"
      using blocks by (rule list_all2_lengthD)
    ultimately show ?thesis
      using list_all2_nthD [OF blocks, of "length ?ks - 1"] \<open>?ks \<noteq> []\<close> final
      by (simp add: last_conv_nth del: dict_group_group_by)
  qed
  then have "mset final = mset (latest_events h)"
    using last_sorted_Max [of ?ks] \<open>?ks \<noteq> []\<close> unfolding keys by (simp add: latest_events_def)
  ultimately show thesis
    using run that by blast
qed

lemma classify_trade_history_Inr:
  assumes "classify_trade_history tid h = Inr r"
  obtains zs where "zs \<noteq> []" "mset zs = mset h" "sorted (map te_received_at zs)"
    "\<forall>e \<in> set (butlast zs). \<not> terminal_trade e"
    "th_confirmed_terminal r = (if te_normalized_state (last zs) = CONFIRMED then Some (last zs) else None)"
    "th_failed_terminal r = (if te_normalized_state (last zs) = FAILED then Some (last zs) else None)"
    "th_latest_unresolved_state r = (if \<not> terminal_trade (last zs) \<and> length (latest_events h) = 1
       then Some (te_normalized_state (hd (latest_events h))) else None)"
    "th_unresolved_ambiguous r = (\<not> terminal_trade (last zs) \<and> 1 < length (latest_events h))"
    "th_venue_trade_id r = tid" "th_validated_events r = set h"
proof -
  have "length (py_set (map te_protocol_version h)) = 1"
    using assms by (auto simp: classify_trade_history_def Let_def split: if_splits)
  then have "h \<noteq> []" by (auto simp: py_set_def)
  obtain t p final where run: "foldE (trade_receipt_group (group_by te_received_at h))
      ((None, None, False), None, []) (sort (map fst (group_by te_received_at h))) = Inr (t, p, final)"
    using assms unfolding classify_trade_history_def Let_def
    by (auto simp: bindE_eq_Inr simp del: foldE.simps)
  obtain zs where zs: "foldE trade_event_step (None, None, False) zs = Inr t" "mset zs = mset h"
    "sorted (map te_received_at zs)" and final: "mset final = mset (latest_events h)"
    using trade_history_run [OF run \<open>h \<noteq> []\<close>] by blast
  have "zs \<noteq> []" using \<open>h \<noteq> []\<close> zs(2) by auto
  have last_only: "\<forall>e \<in> set (butlast zs). \<not> terminal_trade e"
    and t: "t = (if te_normalized_state (last zs) = CONFIRMED then Some (last zs) else None,
               if te_normalized_state (last zs) = FAILED then Some (last zs) else None,
               terminal_trade (last zs))"
    using zs(1) \<open>zs \<noteq> []\<close> by (auto simp: trade_event_steps split: if_splits)
  have len: "length final = length (latest_events h)"
    using final by (rule mset_eq_length)
  have hd: "hd final = hd (latest_events h)" if "length final = 1"
    using that final len by (auto simp: length_Suc_conv)
  show thesis
  proof (rule that [OF \<open>zs \<noteq> []\<close> zs(2,3) last_only])
    show "th_confirmed_terminal r = (if te_normalized_state (last zs) = CONFIRMED then Some (last zs) else None)"
      "th_failed_terminal r = (if te_normalized_state (last zs) = FAILED then Some (last zs) else None)"
      "th_latest_unresolved_state r = (if \<not> terminal_trade (last zs) \<and> length (latest_events h) = 1
         then Some (te_normalized_state (hd (latest_events h))) else None)"
      "th_unresolved_ambiguous r = (\<not> terminal_trade (last zs) \<and> 1 < length (latest_events h))"
      "th_venue_trade_id r = tid" "th_validated_events r = set h"
      using assms run hd unfolding classify_trade_history_def Let_def
      by (auto simp: bindE_eq_Inr t len terminal_trade_state_iff trade_history_result_def
          simp del: foldE.simps split: if_splits)
  qed
qed

text \<open>The histories of the same events, listed in any order, are the same.\<close>

lemma sort_key_sequence_same:
  assumes "mset ms = mset ns" and "\<forall>e \<in> set ns. f e \<noteq> None"
    and "distinct (List.map_filter f ns)"
  shows "sort_key (\<lambda>e. the (f e)) ms = sort_key (\<lambda>e. the (f e)) ns"
proof -
  have "List.map_filter f ns = map (\<lambda>e. the (f e)) ns"
    using assms(2) by (simp add: map_filter_def)
  with assms(3) have "inj_on (\<lambda>e. the (f e)) (set ns)"
    by (simp add: distinct_map)
  then show ?thesis
    using assms(1) mset_eq_setD [OF assms(1)] by (intro sort_key_inj_key_eq) auto
qed

lemma trade_evidence_order_same:
  assumes "mset ms = mset ns"
  shows "same_result (\<lambda>xs ys. mset xs = mset ys \<and> (xs = ys \<or> list_all (\<lambda>e. \<not> terminal_trade e) xs \<and>
      list_all (\<lambda>e. \<not> terminal_trade e) ys))
    (trade_evidence_order ms) (trade_evidence_order ns)"
proof -
  have sets: "set ms = set ns" and len: "length ms = length ns"
    using assms by (auto dest: mset_eq_setD mset_eq_length)
  have seqs: "mset (List.map_filter te_sequence_number ms) = mset (List.map_filter te_sequence_number ns)"
    using assms by (rule map_filter_mset)
  have dist: "length (py_set xs) = length xs \<longleftrightarrow> distinct xs" for xs :: "int list"
    by (simp add: length_py_set card_distinct distinct_card) (metis card_distinct distinct_card)
  show ?thesis
  proof (cases "list_ex terminal_trade ns \<and> length ns > 1")
    case True
    then have t: "list_ex terminal_trade ms \<and> length ms > 1"
      using sets len by (simp add: list_ex_iff)
    have same_len: "length (List.map_filter te_sequence_number ms) = length (List.map_filter te_sequence_number ns)"
      using seqs by (rule mset_eq_length)
    have same_dist: "distinct (List.map_filter te_sequence_number ms) \<longleftrightarrow>
        distinct (List.map_filter te_sequence_number ns)"
      using seqs by (metis mset_eq_imp_distinct_iff)
    show ?thesis
    proof (cases "length (List.map_filter te_sequence_number ns) = length ns \<and>
        distinct (List.map_filter te_sequence_number ns)")
      case ordered: True
      then have "sort_key (\<lambda>e. the (te_sequence_number e)) ms = sort_key (\<lambda>e. the (te_sequence_number e)) ns"
        using assms by (intro sort_key_sequence_same) (simp_all add: length_map_filter_eq)
      with ordered show ?thesis
        using True t same_len same_dist len assms
        by (simp add: trade_evidence_order_def dist)
    next
      case False
      then show ?thesis
        using True t same_len same_dist len by (auto simp: trade_evidence_order_def dist)
    qed
  next
    case False
    then have f: "\<not> (list_ex terminal_trade ms \<and> length ms > 1)"
      using sets len by (simp add: list_ex_iff)
    have "ms = ns" if "length ns \<le> 1"
      using that assms len by (cases ns; cases ms) auto
    moreover have "trade_evidence_order ms = Inr ms" "trade_evidence_order ns = Inr ns"
      using False f unfolding trade_evidence_order_def Let_def by (simp_all only: if_False)
    moreover have "list_all (\<lambda>e. \<not> terminal_trade e) ms" "list_all (\<lambda>e. \<not> terminal_trade e) ns"
      if "\<not> length ns \<le> 1"
      using False that sets by (auto simp: list_ex_iff list_all_iff)
    ultimately show ?thesis
      using assms by (cases "length ns \<le> 1") auto
  qed
qed

lemma trade_event_steps_nonterminal:
  "list_all (\<lambda>e. \<not> terminal_trade e) xs \<Longrightarrow> foldE trade_event_step (c, f, False) xs = Inr (c, f, False)"
  by (induction xs) (auto simp: trade_event_step_def terminal_trade_state_iff split: venue_trade_state.splits)

definition same_trade_loop :: "trade_loop \<Rightarrow> trade_loop \<Rightarrow> bool" where
  "same_trade_loop = (\<lambda>(t, p, g) (t', p', g'). t = t' \<and> p = p' \<and> mset g = mset g')"

lemma trade_receipt_group_same:
  assumes "mset h = mset h'" and "same_trade_loop s s'"
  shows "same_result same_trade_loop
    (trade_receipt_group (group_by te_received_at h) s k)
    (trade_receipt_group (group_by te_received_at h') s' k)"
proof -
  let ?ms = "dict_group (group_by te_received_at h) k" and ?ns = "dict_group (group_by te_received_at h') k"
  have perm: "mset ?ms = mset ?ns"
    using assms(1) by (rule group_by_mset)
  have seqs: "mset (List.map_filter te_sequence_number ?ms) = mset (List.map_filter te_sequence_number ?ns)"
    using perm by (rule map_filter_mset)
  then have set: "set (List.map_filter te_sequence_number ?ms) = set (List.map_filter te_sequence_number ?ns)"
    by (rule mset_eq_setD)
  then have empty: "List.map_filter te_sequence_number ?ms = [] \<longleftrightarrow> List.map_filter te_sequence_number ?ns = []"
    by (metis set_empty)
  obtain c f seen p g g' where s: "s = ((c, f, seen), p, g)" "s' = ((c, f, seen), p, g')" "mset g = mset g'"
    using assms(2) by (auto simp: same_trade_loop_def)
  have step: "same_result (\<lambda>t t'. t = t')
      (foldE trade_event_step (c, f, False) xs) (foldE trade_event_step (c, f, False) ys)"
    if "xs = ys \<or> list_all (\<lambda>e. \<not> terminal_trade e) xs \<and> list_all (\<lambda>e. \<not> terminal_trade e) ys" for xs ys
    using that by (auto simp: same_result_eq trade_event_steps_nonterminal)
  show ?thesis
    unfolding trade_receipt_group_def s Let_def prod.case set list_ex_iff empty
    by (auto simp del: dict_group_group_by simp: same_trade_loop_def
        intro!: same_result_bind [OF trade_evidence_order_same [OF perm]] same_result_bind [OF step])
qed

lemma classify_trade_history_same:
  assumes "mset h = mset h'"
  shows "classify_trade_history tid h = classify_trade_history tid h'"
proof -
  have sets: "set h = set h'"
    using assms by (rule mset_eq_setD)
  have opts: "set (List.map_filter f h) = set (List.map_filter f h')" for f :: "_ \<Rightarrow> 'b option"
    using mset_eq_setD [OF map_filter_mset [OF assms]] .
  have keys: "sort (map fst (group_by te_received_at h)) = sort (map fst (group_by te_received_at h'))"
    using sets by (simp add: sorted_keys_group_by)
  have loop: "same_result same_trade_loop
      (foldE (trade_receipt_group (group_by te_received_at h)) ((None, None, False), None, []) ks)
      (foldE (trade_receipt_group (group_by te_received_at h')) ((None, None, False), None, []) ks)" for ks
    by (rule foldE_same [where R = same_trade_loop])
      (simp add: same_trade_loop_def, rule trade_receipt_group_same [OF assms])
  let ?small = "\<lambda>h. \<not> (length (py_set (List.map_filter te_intent_id h)) > 1 \<or>
      length (py_set (List.map_filter te_venue_order_id h)) > 1 \<or>
      length (py_set (map te_protocol_version h)) \<noteq> 1)"
  have small: "?small h \<longleftrightarrow> ?small h'"
    by (simp add: length_py_set sets opts)
  show ?thesis
  proof (cases "?small h")
    case True
    have small_sets: "py_set (List.map_filter te_intent_id h) = py_set (List.map_filter te_intent_id h')"
      "py_set (List.map_filter te_venue_order_id h) = py_set (List.map_filter te_venue_order_id h')"
      "py_set (map te_protocol_version h) = py_set (map te_protocol_version h')"
      using True by (auto intro!: py_set_small simp: opts sets)
    have hashes: "sort (map te_raw_event_hash h) = sort (map te_raw_event_hash h')"
      using assms by (metis mset_map sorted_list_of_multiset_mset)
    have result: "trade_history_result tid h s = trade_history_result tid h' s'"
      if loops: "same_trade_loop s s'" for s s'
    proof -
      obtain c f x p g g' where s: "s = ((c, f, x), p, g)" "s' = ((c, f, x), p, g')" and "mset g = mset g'"
        using loops by (cases s; cases s') (auto simp: same_trade_loop_def)
      then have len: "length g = length g'" and hd: "length g' = 1 \<Longrightarrow> hd g = hd g'"
        by (auto simp: length_Suc_conv dest: mset_eq_length)
      then show ?thesis
        unfolding trade_history_result_def s prod.case Let_def
        small_sets hashes sets by (cases "length g' = 1") simp_all
    qed
    have "same_result (=)
       (bindE (foldE (trade_receipt_group (group_by te_received_at h)) ((None, None, False), None, []) ks)
         (\<lambda>loop. Inr (trade_history_result tid h loop)))
       (bindE (foldE (trade_receipt_group (group_by te_received_at h')) ((None, None, False), None, []) ks)
         (\<lambda>loop. Inr (trade_history_result tid h' loop)))" for ks
      by (rule same_result_bind [OF loop]) (simp add: result)
    then show ?thesis
      using True small unfolding classify_trade_history_def Let_def keys
      by (simp add: same_result_eq)
  next
    case False
    with small show ?thesis
      unfolding classify_trade_history_def Let_def by auto
  qed
qed

lemma classify_trade_histories_same:
  assumes "mset trades = mset trades'"
    and "inj_on (sha256_of D) (trade_event_content ` set trades)"
  shows "classify_trade_histories D trades = classify_trade_histories D trades'"
proof -
  have "inj_on (\<lambda>e. canonical_execution_hash D (trade_event_content e)) (set trades)"
    using assms(2) by (auto simp: inj_on_def canonical_execution_hash_def)
  note same = evidence_pipeline_same [where f = classify_trade_history,
      OF validate_trade_event_id assms(1) this classify_trade_history_same]
  show ?thesis
    unfolding classify_trade_histories_def snapshot_trade_events_def bindE_assoc by (rule same)
qed

section \<open>Accepted evidence\<close>

text \<open>What an accepted classification says of its input, and of each of its histories.\<close>

lemma mapE_groups:
  assumes "mapE (\<lambda>k. f k (dict_group (group_by key us) k)) (sort (map fst (group_by key us))) = Inr rs"
  shows "r \<in> set rs \<Longrightarrow> \<exists>k \<in> key ` set us. f k (filter (\<lambda>x. key x = k) us) = Inr r"
    and "u \<in> set us \<Longrightarrow> \<exists>r \<in> set rs. f (key u) (filter (\<lambda>x. key x = key u) us) = Inr r"
proof -
  have all: "list_all2 (\<lambda>k r. f k (filter (\<lambda>x. key x = k) us) = Inr r) (sort (map fst (group_by key us))) rs"
    using assms by (simp add: mapE_Inr)
  have keys: "set (sort (map fst (group_by key us))) = key ` set us"
    by (simp flip: set_map)
  show "\<exists>k \<in> key ` set us. f k (filter (\<lambda>x. key x = k) us) = Inr r" if "r \<in> set rs"
    using list_all2_left [OF all that] unfolding keys .
  show "\<exists>r \<in> set rs. f (key u) (filter (\<lambda>x. key x = key u) us) = Inr r" if "u \<in> set us"
  proof -
    from that keys have "key u \<in> set (sort (map fst (group_by key us)))" by simp
    from list_all2_right [OF all this] show ?thesis .
  qed
qed

lemma classify_order_histories_Inr:
  assumes "classify_order_histories D orders cutoff = Inr rs"
  obtains t us where "normalize_utc_timestamp cutoff = Inr t"
    "\<forall>e \<in> set orders. validate_order_event e = Inr e" "length orders \<le> MAX_LIVE_EVIDENCE_ITEMS"
    "dedupe_records (\<lambda>e. canonical_execution_hash D (order_event_content e)) oe_event_id
       ''ORDER_EVENT_CONFLICT'' orders = Inr us"
    "\<forall>e \<in> set us. order_event_admissible t e"
    "raw_hashes_bound oe_raw_event_hash oe_event_id (set us)"
    "mapE (\<lambda>oid. classify_order_history oid (dict_group (group_by oe_venue_order_id us) oid))
       (sort (map fst (group_by oe_venue_order_id us))) = Inr rs"
  using assms unfolding classify_order_histories_def
  by (auto simp: bindE_eq_Inr except_as_Inr snapshot_sequence_Inr [OF validate_order_event_id]
      group_events_eq simp del: dict_group_group_by split: if_splits)

lemma classify_trade_histories_Inr:
  assumes "classify_trade_histories D trades = Inr rs"
  obtains us where "\<forall>e \<in> set trades. validate_trade_event e = Inr e"
    "length trades \<le> MAX_LIVE_EVIDENCE_ITEMS"
    "dedupe_records (\<lambda>e. canonical_execution_hash D (trade_event_content e)) te_trade_event_id
       ''TRADE_EVENT_CONFLICT'' trades = Inr us"
    "raw_hashes_bound te_raw_event_hash te_trade_event_id (set us)"
    "mapE (\<lambda>tid. classify_trade_history tid (dict_group (group_by te_venue_trade_id us) tid))
       (sort (map fst (group_by te_venue_trade_id us))) = Inr rs"
  using assms unfolding classify_trade_histories_def snapshot_trade_events_def
  by (auto simp: bindE_eq_Inr snapshot_sequence_Inr [OF validate_trade_event_id]
      group_events_eq simp del: dict_group_group_by split: if_splits)

section \<open>Properties\<close>

text \<open>Two events of one order, and two of one trade, for the examples.\<close>

definition example_order_event :: "nat \<Rightarrow> venue_order_state \<Rightarrow> timestamp \<Rightarrow> venue_order_event" where
  "example_order_event u state t = \<lparr>
     oe_lineage_hashes = [], oe_event_id = Uuid u, oe_raw_event_hash = Sha256 u, oe_source_channel = ''user'',
     oe_venue_order_id = ''order-1'', oe_intent_id = Some (Uuid 5),
     oe_original_venue_state = venue_order_state_value state, oe_normalized_state = state,
     oe_terminal = (state \<in> set terminal_order_states), oe_venue_timestamp = None, oe_received_at = t,
     oe_sequence_number = None, oe_protocol_version = ''v1''\<rparr>"

definition example_orders :: "venue_order_event list" where
  "example_orders = [example_order_event 1 ACK_MATCHED 10, example_order_event 2 FILLED 20]"

definition example_trade_event :: "nat \<Rightarrow> venue_trade_state \<Rightarrow> timestamp \<Rightarrow> venue_trade_event" where
  "example_trade_event u state t = \<lparr>
     te_lineage_hashes = [], te_trade_event_id = Uuid u, te_raw_event_hash = Sha256 u,
     te_source_channel = ''user'', te_venue_trade_id = ''trade-1'', te_venue_order_id = Some ''order-1'',
     te_intent_id = Some (Uuid 5), te_original_venue_state = venue_trade_state_value state,
     te_normalized_state = state, te_terminal = (state \<in> set terminal_trade_states),
     te_venue_timestamp = None, te_received_at = t, te_sequence_number = None,
     te_protocol_version = ''v1''\<rparr>"

definition example_trades :: "venue_trade_event list" where
  "example_trades = [example_trade_event 1 MATCHED 10, example_trade_event 2 CONFIRMED 20]"

lemma example_order_histories:
  "case classify_order_histories example_digests (rev example_orders) (Aware 30 0) of
     Inr [r] \<Rightarrow> oh_ordered_events r = example_orders | _ \<Rightarrow> False"
  by code_simp

lemma example_trade_histories:
  "case classify_trade_histories example_digests (rev example_trades) of
     Inr [r] \<Rightarrow> th_confirmed_terminal r = Some (example_trade_event 2 CONFIRMED 20) | _ \<Rightarrow> False"
  by code_simp

lemma example_orders_inj: "inj_on (sha256_of example_digests) (order_event_content ` set example_orders)"
proof -
  have "sha256_of example_digests (order_event_content (example_order_event 1 ACK_MATCHED 10)) \<noteq>
      sha256_of example_digests (order_event_content (example_order_event 2 FILLED 20))" by code_simp
  then show ?thesis by (auto simp: inj_on_def example_orders_def)
qed

lemma example_trades_inj: "inj_on (sha256_of example_digests) (trade_event_content ` set example_trades)"
proof -
  have "sha256_of example_digests (trade_event_content (example_trade_event 1 MATCHED 10)) \<noteq>
      sha256_of example_digests (trade_event_content (example_trade_event 2 CONFIRMED 20))" by code_simp
  then show ?thesis by (auto simp: inj_on_def example_trades_def)
qed

lemma order_history_members:
  assumes "classify_order_histories D orders cutoff = Inr rs" and "r \<in> set rs"
  obtains t h where "normalize_utc_timestamp cutoff = Inr t" "classify_order_history (oh_venue_order_id r) h = Inr r"
    "set h \<subseteq> {e \<in> set orders. oe_venue_order_id e = oh_venue_order_id r \<and> order_event_admissible t e}" "h \<noteq> []"
proof -
  from assms(1) obtain t us where t: "normalize_utc_timestamp cutoff = Inr t"
    and us: "dedupe_records (\<lambda>e. canonical_execution_hash D (order_event_content e)) oe_event_id
       ''ORDER_EVENT_CONFLICT'' orders = Inr us" "\<forall>e \<in> set us. order_event_admissible t e"
    and run: "mapE (\<lambda>oid. classify_order_history oid (dict_group (group_by oe_venue_order_id us) oid))
       (sort (map fst (group_by oe_venue_order_id us))) = Inr rs"
    by (rule classify_order_histories_Inr)
  from mapE_groups(1) [where f = classify_order_history, OF run assms(2)] obtain k
    where k: "k \<in> oe_venue_order_id ` set us"
      "classify_order_history k (filter (\<lambda>e. oe_venue_order_id e = k) us) = Inr r" by blast
  have "oh_venue_order_id r = k"
    using k(2) by (rule classify_order_history_Inr(6))
  moreover have "filter (\<lambda>e. oe_venue_order_id e = k) us \<noteq> []"
    using k(1) by (auto simp: filter_empty_conv)
  moreover have "set us \<subseteq> set orders"
    using us(1) by (rule dedupe_records_Inr(2))
  ultimately show thesis
    using t us(2) k(2) by (intro that [of t "filter (\<lambda>e. oe_venue_order_id e = k) us"]) auto
qed

text \<open>
  C13: every accepted order history holds events of that order from the caller's evidence, none
  received or stamped after the cutoff, in order of receipt (and of strictly increasing sequence
  numbers, when the venue supplies them), along a legal run of the transition relation; a terminal
  state can only be the last, and the recorded terminal event is exactly that last event.
\<close>

theorem order_histories_legal:
  assumes "classify_order_histories D orders cutoff = Inr rs" and "r \<in> set rs"
    and "normalize_utc_timestamp cutoff = Inr t"
  shows "oh_ordered_events r \<noteq> [] \<and>
    set (oh_ordered_events r) \<subseteq>
      {e \<in> set orders. oe_venue_order_id e = oh_venue_order_id r \<and> order_event_admissible t e} \<and>
    sorted (map oe_received_at (oh_ordered_events r)) \<and>
    (has_sequences (oh_ordered_events r) \<longrightarrow>
      successively (<) (map (\<lambda>e. the (oe_sequence_number e)) (oh_ordered_events r))) \<and>
    successively legal_order_transition (map oe_normalized_state (oh_ordered_events r)) \<and>
    (\<forall>e \<in> set (butlast (oh_ordered_events r)). \<not> terminal_order_state (oe_normalized_state e)) \<and>
    oh_terminal_event r = terminal_last (oh_ordered_events r)"
proof -
  obtain t' h where t': "normalize_utc_timestamp cutoff = Inr t'"
    and h: "classify_order_history (oh_venue_order_id r) h = Inr r"
    "set h \<subseteq> {e \<in> set orders. oe_venue_order_id e = oh_venue_order_id r \<and> order_event_admissible t' e}"
    "h \<noteq> []"
    using assms(1,2) by (rule order_history_members)
  note facts = classify_order_history_Inr [OF h(1)]
  have sets: "set (oh_ordered_events r) = set h"
    using facts(1) by (rule mset_eq_setD)
  have "oh_ordered_events r \<noteq> []"
    using sets h(3) by auto
  moreover from this have "\<forall>e \<in> set (butlast (oh_ordered_events r)).
      \<not> terminal_order_state (oe_normalized_state e)"
    using order_machine.legal_history_final [of "map oe_normalized_state (butlast (oh_ordered_events r))"
        "oe_normalized_state (last (oh_ordered_events r))"] facts(4)
    by (metis append_butlast_last_id image_eqI list.set_map map_append list.simps(8,9))
  moreover have "has_sequences (oh_ordered_events r) \<longleftrightarrow> has_sequences h"
    using sets by (simp add: has_sequences_def list_ex_iff)
  moreover have "t' = t"
    using t' assms(3) by simp
  ultimately show ?thesis
    using facts(2-5) h(2) sets by simp
qed

lemma order_histories_legal_witness:
  "\<exists>r. classify_order_histories example_digests example_orders (Aware 30 0) = Inr [r] \<and>
     oh_terminal_event r = terminal_last (oh_ordered_events r)"
proof -
  have "case classify_order_histories example_digests example_orders (Aware 30 0) of
      Inr [r] \<Rightarrow> True | _ \<Rightarrow> False" by code_simp
  then obtain r where "classify_order_histories example_digests example_orders (Aware 30 0) = Inr [r]"
    by (auto split: sum.splits list.splits)
  with order_histories_legal [of example_digests example_orders "Aware 30 0" "[r]" r 30]
  show ?thesis by simp
qed

text \<open>
  C17: the classification of order events takes no chronology from the caller.  Listing the same
  events in any other order gives the same histories, or the same error, as long as no two
  different events of the list have the same digest.
\<close>

theorem order_histories_order_independent:
  assumes "mset orders = mset orders'"
    and "inj_on (sha256_of D) (order_event_content ` set orders)"
  shows "classify_order_histories D orders cutoff = classify_order_histories D orders' cutoff"
  using assms by (rule classify_order_histories_same)

lemma order_histories_order_independent_witness:
  "classify_order_histories example_digests example_orders (Aware 30 0) =
     classify_order_histories example_digests (rev example_orders) (Aware 30 0)"
  by (rule order_histories_order_independent) (simp_all add: example_orders_inj)

text \<open>
  C14: in an accepted trade history at most one event is terminal, nothing is received after it, and
  it is recorded as the confirmation or the failure; without one, the latest state is reported only
  when a single event was received last, and otherwise the history is marked ambiguous.
\<close>

theorem trade_histories_classified:
  assumes "classify_trade_histories D trades = Inr rs" and "r \<in> set rs"
  shows "\<exists>h zs. th_validated_events r = set h \<and> h \<noteq> [] \<and>
     set h \<subseteq> {e \<in> set trades. te_venue_trade_id e = th_venue_trade_id r} \<and>
     mset zs = mset h \<and> sorted (map te_received_at zs) \<and>
     (\<forall>e \<in> set (butlast zs). \<not> terminal_trade_state (te_normalized_state e)) \<and>
     th_confirmed_terminal r = (if te_normalized_state (last zs) = CONFIRMED then Some (last zs) else None) \<and>
     th_failed_terminal r = (if te_normalized_state (last zs) = FAILED then Some (last zs) else None) \<and>
     th_latest_unresolved_state r =
       (if \<not> terminal_trade_state (te_normalized_state (last zs)) \<and> length (latest_events h) = 1
        then Some (te_normalized_state (hd (latest_events h))) else None) \<and>
     th_unresolved_ambiguous r =
       (\<not> terminal_trade_state (te_normalized_state (last zs)) \<and> 1 < length (latest_events h))"
proof -
  from assms(1) obtain us where us: "dedupe_records (\<lambda>e. canonical_execution_hash D (trade_event_content e))
      te_trade_event_id ''TRADE_EVENT_CONFLICT'' trades = Inr us"
    and run: "mapE (\<lambda>tid. classify_trade_history tid (dict_group (group_by te_venue_trade_id us) tid))
       (sort (map fst (group_by te_venue_trade_id us))) = Inr rs"
    by (rule classify_trade_histories_Inr)
  from mapE_groups(1) [where f = classify_trade_history, OF run assms(2)] obtain k
    where k: "classify_trade_history k (filter (\<lambda>e. te_venue_trade_id e = k) us) = Inr r" by blast
  have "set us \<subseteq> set trades"
    using us by (rule dedupe_records_Inr(2))
  then have sub: "set (filter (\<lambda>e. te_venue_trade_id e = k) us) \<subseteq> {e \<in> set trades. te_venue_trade_id e = k}"
    by auto
  from k obtain zs where zs: "zs \<noteq> []" "mset zs = mset (filter (\<lambda>e. te_venue_trade_id e = k) us)"
    "sorted (map te_received_at zs)" "\<forall>e \<in> set (butlast zs). \<not> terminal_trade e"
    and r: "th_confirmed_terminal r = (if te_normalized_state (last zs) = CONFIRMED then Some (last zs) else None)"
    "th_failed_terminal r = (if te_normalized_state (last zs) = FAILED then Some (last zs) else None)"
    "th_latest_unresolved_state r = (if \<not> terminal_trade (last zs) \<and>
        length (latest_events (filter (\<lambda>e. te_venue_trade_id e = k) us)) = 1
       then Some (te_normalized_state (hd (latest_events (filter (\<lambda>e. te_venue_trade_id e = k) us)))) else None)"
    "th_unresolved_ambiguous r = (\<not> terminal_trade (last zs) \<and>
        1 < length (latest_events (filter (\<lambda>e. te_venue_trade_id e = k) us)))"
    "th_venue_trade_id r = k" "th_validated_events r = set (filter (\<lambda>e. te_venue_trade_id e = k) us)"
    by (rule classify_trade_history_Inr)
  have "filter (\<lambda>e. te_venue_trade_id e = k) us \<noteq> []"
    using zs(1,2) by (metis mset_zero_iff)
  with sub zs r show ?thesis
    by (intro exI [of _ "filter (\<lambda>e. te_venue_trade_id e = k) us"] exI [of _ zs]) (simp only: simp_thms)
qed

lemma trade_histories_classified_witness:
  "\<exists>r. classify_trade_histories example_digests example_trades = Inr [r] \<and>
     th_failed_terminal r = None \<and> (\<exists>h. th_validated_events r = set h \<and> h \<noteq> [])"
proof -
  have "case classify_trade_histories example_digests example_trades of
      Inr [r] \<Rightarrow> th_failed_terminal r = None | _ \<Rightarrow> False" by code_simp
  then obtain r where "classify_trade_histories example_digests example_trades = Inr [r]"
    "th_failed_terminal r = None"
    by (auto split: sum.splits list.splits)
  with trade_histories_classified [of example_digests example_trades "[r]" r]
  show ?thesis by auto
qed

text \<open>The classification of trade events does not depend on the order of the caller's list either.\<close>

lemma trade_histories_order_independent:
  assumes "mset trades = mset trades'"
    and "inj_on (sha256_of D) (trade_event_content ` set trades)"
  shows "classify_trade_histories D trades = classify_trade_histories D trades'"
  using assms by (rule classify_trade_histories_same)

lemma trade_histories_order_independent_witness:
  "classify_trade_histories example_digests example_trades =
     classify_trade_histories example_digests (rev example_trades)"
  by (rule trade_histories_order_independent) (simp_all add: example_trades_inj)

end
