(* ===== verification/Live_Ledger.thy ===== *)
theory Live_Ledger
  imports Exact_Decimal Live_History
begin

text \<open>
  The live ledger (\<open>predictions/execution/ledger.py\<close>): authoritative trade economics and their
  validation, the balanced pairs of postings booked for each confirmed trade, the binding of a
  trade to its intent with the intent's limits, the structural check of a set of postings, and
  \<open>verify_live_conservation\<close>.  The theorems show that the postings move exactly the cash, positions
  and fees of the economics, that every asset and every evidence group balances, that no intent is
  exceeded, and that verification accepts nothing but the canonical postings.
\<close>

section \<open>Authoritative trade economics\<close>

text \<open>
  \<open>trade_state\<close> and \<open>settlement_state\<close> are the literal \<open>CONFIRMED\<close> and left out, like the schema
  version.
\<close>

record trade_economics =
  au_account_fingerprint :: sha256
  au_intent_id :: uuid
  au_venue_order_id :: string
  au_venue_trade_id :: string
  au_trade_event_hash :: sha256
  au_cash_asset_id :: string
  au_position_asset_id :: string
  au_side :: side
  au_price :: dec
  au_size :: dec
  au_fee :: dec
  au_cash_quantum :: dec
  au_position_quantum :: dec
  au_fee_hash :: sha256
  au_settlement_hash :: sha256
  au_source_hash :: sha256
  au_balance_evidence_hashes :: "sha256 list"
  au_occurred_at :: timestamp
  au_information_cutoff :: timestamp
  au_protocol_version :: string
  au_realized_pnl :: "dec option"
  au_cost_basis_evidence_hash :: "sha256 option"
  au_economics_fingerprint :: "sha256 option"

definition economics_fields :: "trade_economics \<Rightarrow> (string \<times> jval) list" where
  "economics_fields e =
    [(''account_fingerprint'', JHash (au_account_fingerprint e)),
     (''intent_id'', JUuid (au_intent_id e)),
     (''venue_order_id'', JText (au_venue_order_id e)),
     (''venue_trade_id'', JText (au_venue_trade_id e)),
     (''trade_event_hash'', JHash (au_trade_event_hash e)),
     (''cash_asset_id'', JText (au_cash_asset_id e)),
     (''position_asset_id'', JText (au_position_asset_id e)),
     (''side'', JText (side_value (au_side e))),
     (''price'', JDec (au_price e)),
     (''size'', JDec (au_size e)),
     (''fee'', JDec (au_fee e)),
     (''cash_quantum'', JDec (au_cash_quantum e)),
     (''position_quantum'', JDec (au_position_quantum e)),
     (''fee_hash'', JHash (au_fee_hash e)),
     (''settlement_hash'', JHash (au_settlement_hash e)),
     (''source_hash'', JHash (au_source_hash e)),
     (''balance_evidence_hashes'', jhashes (au_balance_evidence_hashes e)),
     (''occurred_at'', JTime (au_occurred_at e)),
     (''information_cutoff'', JTime (au_information_cutoff e)),
     (''protocol_version'', JText (au_protocol_version e)),
     (''realized_pnl'', jopt JDec (au_realized_pnl e)),
     (''cost_basis_evidence_hash'', jopt JHash (au_cost_basis_evidence_hash e))]"

definition economics_fingerprint :: "digests \<Rightarrow> trade_economics \<Rightarrow> sha256" where
  "economics_fingerprint D e = canonical_execution_hash D (JObj (economics_fields e))"

definition economics_content :: "trade_economics \<Rightarrow> jval" where
  "economics_content e =
     JObj (economics_fields e @ [(''economics_fingerprint'', jopt JHash (au_economics_fingerprint e))])"

definition economics_fields_ok :: "trade_economics \<Rightarrow> bool" where
  "economics_fields_ok e \<longleftrightarrow>
     public_text (au_venue_order_id e) \<and> public_text (au_venue_trade_id e) \<and>
     public_text (au_cash_asset_id e) \<and> public_text (au_position_asset_id e) \<and>
     positive_decimal (au_price e) \<and> positive_decimal (au_size e) \<and> nonnegative_decimal (au_fee e) \<and>
     positive_decimal (au_cash_quantum e) \<and> positive_decimal (au_position_quantum e) \<and>
     1 \<le> length (au_balance_evidence_hashes e) \<and>
     length (au_balance_evidence_hashes e) \<le> MAX_LIVE_EVIDENCE_ITEMS \<and>
     public_text (au_protocol_version e) \<and>
     bounded_decimal (au_price e) \<and> bounded_decimal (au_size e) \<and> bounded_decimal (au_fee e) \<and>
     bounded_decimal (au_cash_quantum e) \<and> bounded_decimal (au_position_quantum e) \<and>
     opt_all bounded_decimal (au_realized_pnl e) \<and>
     sorted_unique (au_balance_evidence_hashes e)"

definition exact_economics_ok :: "trade_economics \<Rightarrow> bool" where
  "exact_economics_ok e \<longleftrightarrow>
     list_all bounded_decimal
       [au_price e, au_size e, au_fee e, au_cash_quantum e, au_position_quantum e] \<and>
     (case exact_product (au_price e) (au_size e) of
        Inl _ \<Rightarrow> False
      | Inr notional \<Rightarrow>
          \<not> (dlt (dec_of_int 1) (au_price e) \<or>
             dlt (au_cash_quantum e) (Dec False 1 (- 6)) \<or>
             dlt (au_position_quantum e) (Dec False 1 (- 2)) \<or>
             \<not> is_quantized (au_size e) (au_position_quantum e) \<or>
             \<not> bounded_decimal notional \<or>
             \<not> is_quantized notional (au_cash_quantum e) \<or>
             \<not> is_quantized (au_fee e) (au_cash_quantum e) \<or>
             au_occurred_at e > au_information_cutoff e \<or>
             (au_realized_pnl e = None) \<noteq> (au_cost_basis_evidence_hash e = None) \<or>
             \<not> opt_all (\<lambda>pnl. \<not> (deq pnl dec0 \<or> \<not> bounded_decimal (copy_abs pnl) \<or>
                 \<not> is_quantized (copy_abs pnl) (au_cash_quantum e))) (au_realized_pnl e)))"

definition validate_economics :: "digests \<Rightarrow> trade_economics \<Rightarrow> trade_economics result" where
  "validate_economics D e =
     (if \<not> economics_fields_ok e \<or> \<not> exact_economics_ok e
      then Inl (ValueError ''TRADE_ECONOMICS_INVALID'')
      else let expected = economics_fingerprint D e
           in case au_economics_fingerprint e of
                None \<Rightarrow> Inr (e\<lparr>au_economics_fingerprint := Some expected\<rparr>)
              | Some fingerprint \<Rightarrow>
                  if fingerprint \<noteq> expected then Inl (ValueError ''TRADE_ECONOMICS_INVALID'') else Inr e)"

section \<open>Postings\<close>

definition account :: "string \<Rightarrow> string \<Rightarrow> string" where
  "account base asset_id = base @ '':'' @ asset_id"

definition ACCOUNT_BASES :: "string list" where
  "ACCOUNT_BASES = [''venue_cash'', ''venue_position'', ''fees_paid'', ''settlement_receivable'', ''realized_pnl'']"

definition posting_identity_payload :: "live_ledger_posting \<Rightarrow> jval" where
  "posting_identity_payload p =
    JObj [(''lineage_hashes'', jhashes (lp_lineage_hashes p)),
          (''account_fingerprint'', JHash (lp_account_fingerprint p)),
          (''intent_id'', jopt JUuid (lp_intent_id p)),
          (''venue_order_id'', jopt JText (lp_venue_order_id p)),
          (''venue_trade_id'', jopt JText (lp_venue_trade_id p)),
          (''settlement_hash'', jopt JHash (lp_settlement_hash p)),
          (''fee_hash'', jopt JHash (lp_fee_hash p)),
          (''balance_evidence_hashes'', jhashes (lp_balance_evidence_hashes p)),
          (''debit_account'', JText (lp_debit_account p)),
          (''credit_account'', JText (lp_credit_account p)),
          (''asset_id'', JText (lp_asset_id p)),
          (''debit_amount'', JDec (lp_debit_amount p)),
          (''credit_amount'', JDec (lp_credit_amount p)),
          (''occurred_at'', JTime (lp_occurred_at p))]"

definition POSTING_NAMESPACE :: uuid where
  "POSTING_NAMESPACE = Uuid 0xddf6bc3faf66443592c0d3c2713d5865"

definition canonical_posting_id :: "digests \<Rightarrow> live_ledger_posting \<Rightarrow> uuid" where
  "canonical_posting_id D p =
     uuid5_of D POSTING_NAMESPACE (JHash (canonical_execution_hash D (posting_identity_payload p)))"

definition build_posting ::
  "digests \<Rightarrow> trade_economics \<Rightarrow> string \<Rightarrow> string \<Rightarrow> string \<Rightarrow> dec \<Rightarrow> dec \<Rightarrow> sha256 list \<Rightarrow>
     live_ledger_posting result"
where
  "build_posting D evidence debit_account credit_account asset_id debit_amount credit_amount lineage_hashes =
     bindE (validate_posting \<lparr>
         lp_lineage_hashes = lineage_hashes,
         lp_posting_id = Uuid 0,
         lp_account_fingerprint = au_account_fingerprint evidence,
         lp_intent_id = Some (au_intent_id evidence),
         lp_venue_order_id = Some (au_venue_order_id evidence),
         lp_venue_trade_id = Some (au_venue_trade_id evidence),
         lp_settlement_hash = Some (au_settlement_hash evidence),
         lp_fee_hash = Some (au_fee_hash evidence),
         lp_balance_evidence_hashes = au_balance_evidence_hashes evidence,
         lp_debit_account = debit_account,
         lp_credit_account = credit_account,
         lp_asset_id = asset_id,
         lp_debit_amount = debit_amount,
         lp_credit_amount = credit_amount,
         lp_occurred_at = au_occurred_at evidence\<rparr>) (\<lambda>provisional.
     validate_posting (provisional\<lparr>lp_posting_id := canonical_posting_id D provisional\<rparr>))"

text \<open>A leg is a debit account, a credit account, an asset and an amount.\<close>

type_synonym ledger_leg = "string \<times> string \<times> string \<times> dec"

definition paired_postings ::
  "digests \<Rightarrow> trade_economics \<Rightarrow> sha256 list \<Rightarrow> ledger_leg \<Rightarrow> live_ledger_posting list result" where
  "paired_postings D evidence lineage_hashes = (\<lambda>(debit_account, credit_account, asset_id, amount).
     bindE (build_posting D evidence debit_account credit_account asset_id amount dec0 lineage_hashes) (\<lambda>debit.
     bindE (build_posting D evidence debit_account credit_account asset_id dec0 amount lineage_hashes) (\<lambda>credit.
     Inr [debit, credit])))"

definition trade_legs :: "trade_economics \<Rightarrow> dec \<Rightarrow> ledger_leg list" where
  "trade_legs exact notional =
     (let cash = au_cash_asset_id exact; position = au_position_asset_id exact
      in (case au_side exact of
            Buy \<Rightarrow>
              [(account ''settlement_receivable'' cash, account ''venue_cash'' cash, cash, notional),
               (account ''venue_position'' position, account ''settlement_receivable'' position, position,
                au_size exact)]
          | Sell \<Rightarrow>
              [(account ''venue_cash'' cash, account ''settlement_receivable'' cash, cash, notional),
               (account ''settlement_receivable'' position, account ''venue_position'' position, position,
                au_size exact)]) @
         (if \<not> deq (au_fee exact) dec0
          then [(account ''fees_paid'' cash, account ''venue_cash'' cash, cash, au_fee exact)] else []) @
         (case au_realized_pnl exact of
            None \<Rightarrow> []
          | Some pnl \<Rightarrow>
              (if dlt dec0 pnl
               then [(account ''settlement_receivable'' cash, account ''realized_pnl'' cash, cash, copy_abs pnl)]
               else [(account ''realized_pnl'' cash, account ''settlement_receivable'' cash, cash, copy_abs pnl)])))"

definition trade_lineage :: "trade_economics \<Rightarrow> sha256 list" where
  "trade_lineage exact = py_sorted_set
     ([au_trade_event_hash exact, au_settlement_hash exact, au_fee_hash exact, au_source_hash exact] @
      (case au_economics_fingerprint exact of None \<Rightarrow> [] | Some h \<Rightarrow> [h]) @
      au_balance_evidence_hashes exact @
      (case au_cost_basis_evidence_hash exact of None \<Rightarrow> [] | Some h \<Rightarrow> [h]))"

definition trade_rows :: "digests \<Rightarrow> trade_economics \<Rightarrow> live_ledger_posting list result" where
  "trade_rows D exact =
     bindE (except_as (exact_product (au_price exact) (au_size exact))
              (LiveLedgerError ''TRADE_ECONOMICS_MISMATCH'')) (\<lambda>notional.
     bindE (mapE (paired_postings D exact (trade_lineage exact)) (trade_legs exact notional)) (\<lambda>rows.
     Inr (concat rows)))"

section \<open>Structural conservation\<close>

definition valid_account_name :: "string \<Rightarrow> string \<Rightarrow> bool" where
  "valid_account_name value asset_id =
     (if value \<in> set ACCOUNT_BASES then True
      else let (base, separator, qualifier) = py_partition (CHR '':'') value
           in separator = '':'' \<and> base \<in> set ACCOUNT_BASES \<and> qualifier = asset_id)"

definition valid_account_base :: "string \<Rightarrow> bool" where
  "valid_account_base value = (fst (py_partition (CHR '':'') value) \<in> set ACCOUNT_BASES)"

text \<open>The evidence group of a row, and the pair it belongs to (decimals compare by value).\<close>

type_synonym evidence_group =
  "sha256 \<times> uuid option \<times> string option \<times> string option \<times> sha256 option \<times> sha256 option \<times>
   sha256 list \<times> timestamp \<times> sha256 list \<times> string"

definition evidence_group :: "live_ledger_posting \<Rightarrow> evidence_group" where
  "evidence_group p =
     (lp_account_fingerprint p, lp_intent_id p, lp_venue_order_id p, lp_venue_trade_id p,
      lp_settlement_hash p, lp_fee_hash p, lp_balance_evidence_hashes p, lp_occurred_at p,
      lp_lineage_hashes p, lp_asset_id p)"

definition posting_amount :: "live_ledger_posting \<Rightarrow> dec" where
  "posting_amount p = (if \<not> deq (lp_debit_amount p) dec0 then lp_debit_amount p else lp_credit_amount p)"

definition pair_key :: "live_ledger_posting \<Rightarrow> evidence_group \<times> string \<times> string \<times> rat" where
  "pair_key p = (evidence_group p, lp_debit_account p, lp_credit_account p, dval (posting_amount p))"

text \<open>Running totals \<open>[debit, credit]\<close> under a key, starting from zero.\<close>

definition add_totals ::
  "'k \<Rightarrow> live_ledger_posting \<Rightarrow> ('k, dec \<times> dec) dict \<Rightarrow> ('k, dec \<times> dec) dict result" where
  "add_totals key p totals =
     (let (debit, credit) = (case map_of totals key of None \<Rightarrow> (dec0, dec0) | Some t \<Rightarrow> t)
      in bindE (exact_add debit (lp_debit_amount p)) (\<lambda>debit'.
         bindE (exact_add credit (lp_credit_amount p)) (\<lambda>credit'.
         Inr (AList.update key (debit', credit') totals))))"

record conservation_state =
  cs_seen_ids :: "uuid list"
  cs_pairs :: "(evidence_group \<times> string \<times> string \<times> rat, live_ledger_posting list) dict"
  cs_group_totals :: "(evidence_group, dec \<times> dec) dict"
  cs_asset_totals :: "(string, dec \<times> dec) dict"

definition conservation_step ::
  "digests \<Rightarrow> conservation_state \<Rightarrow> live_ledger_posting \<Rightarrow> conservation_state result" where
  "conservation_step D st p =
     bindE (checkE
       [(lp_posting_id p \<in> set (cs_seen_ids st), LiveLedgerError ''POSTING_ID_DUPLICATE''),
        (\<not> bounded_decimal (lp_debit_amount p) \<or> \<not> bounded_decimal (lp_credit_amount p),
         LiveLedgerError ''POSTING_AMOUNT_INVALID''),
        (lp_intent_id p = None \<or> lp_venue_order_id p = None \<or> lp_venue_trade_id p = None \<or>
         lp_settlement_hash p = None \<or> lp_fee_hash p = None \<or> lp_balance_evidence_hashes p = [] \<or>
         lp_debit_account p = lp_credit_account p \<or>
         \<not> valid_account_base (lp_debit_account p) \<or> \<not> valid_account_base (lp_credit_account p),
         LiveLedgerError ''POSTING_ACCOUNT_INVALID''),
        (lp_posting_id p \<noteq> canonical_posting_id D p, LiveLedgerError ''POSTING_ID_MISMATCH''),
        (\<not> valid_account_name (lp_debit_account p) (lp_asset_id p) \<or>
         \<not> valid_account_name (lp_credit_account p) (lp_asset_id p),
         LiveLedgerError ''POSTING_ACCOUNT_INVALID''),
        (\<not> ({the (lp_settlement_hash p), the (lp_fee_hash p)} \<union> set (lp_balance_evidence_hashes p)
            \<subseteq> set (lp_lineage_hashes p)),
         LiveLedgerError ''POSTING_EVIDENCE_INVALID'')]) (\<lambda>_.
     except_as
       (bindE (add_totals (evidence_group p) p (cs_group_totals st)) (\<lambda>group_totals.
        bindE (add_totals (lp_asset_id p) p (cs_asset_totals st)) (\<lambda>asset_totals.
        Inr \<lparr>cs_seen_ids = lp_posting_id p # cs_seen_ids st,
             cs_pairs = dict_append (pair_key p) p (cs_pairs st),
             cs_group_totals = group_totals, cs_asset_totals = asset_totals\<rparr>)))
       (LiveLedgerError ''POSTING_AMOUNT_INVALID''))"

definition check_pair :: "live_ledger_posting list \<Rightarrow> unit result" where
  "check_pair rows =
     bindE (except_as
       (foldE (\<lambda>(debit_total, credit_total) row.
           bindE (exact_add debit_total (lp_debit_amount row)) (\<lambda>debit_total'.
           bindE (exact_add credit_total (lp_credit_amount row)) (\<lambda>credit_total'.
           Inr (debit_total', credit_total')))) (dec0, dec0) rows)
       (LiveLedgerError ''POSTING_AMOUNT_INVALID'')) (\<lambda>(debit_total, credit_total).
     if length rows \<noteq> 2 \<or>
        length (filter (\<lambda>row. dlt dec0 (lp_debit_amount row)) rows) \<noteq> 1 \<or>
        length (filter (\<lambda>row. dlt dec0 (lp_credit_amount row)) rows) \<noteq> 1 \<or>
        \<not> deq debit_total credit_total
     then Inl (LiveLedgerError ''POSTING_PAIR_INVALID'') else Inr ())"

definition verify_structural_conservation :: "digests \<Rightarrow> live_ledger_posting list \<Rightarrow> unit result" where
  "verify_structural_conservation D postings =
     bindE (snapshot_sequence validate_posting ''POSTING_INVALID'' postings) (\<lambda>values.
     bindE (foldE (conservation_step D)
       \<lparr>cs_seen_ids = [], cs_pairs = [], cs_group_totals = [], cs_asset_totals = []\<rparr> values) (\<lambda>st.
     bindE (mapE check_pair (map snd (cs_pairs st))) (\<lambda>_.
     if list_ex (\<lambda>(debit, credit). \<not> deq debit credit) (map snd (cs_group_totals st)) \<or>
        list_ex (\<lambda>(debit, credit). \<not> deq debit credit) (map snd (cs_asset_totals st))
     then Inl (LiveLedgerError ''POSTING_CONSERVATION_INVALID'') else Inr ())))"

section \<open>Binding trades to intents\<close>

definition intent_full_content :: "execution_intent \<Rightarrow> jval" where
  "intent_full_content i =
     JObj (intent_fields i @ [(''intent_id'', JUuid (ei_intent_id i)),
                              (''intent_fingerprint'', JHash (ei_intent_fingerprint i))])"

definition trade_binding_ok ::
  "execution_intent \<Rightarrow> venue_trade_event \<Rightarrow> trade_economics \<Rightarrow> dec \<Rightarrow> dec \<Rightarrow> dec \<Rightarrow> bool" where
  "trade_binding_ok i trade e notional fee_scaled fee_cap_scaled =
     (let price_allowed = (if ei_side i = Buy then dle (au_price e) (ei_limit_price i)
                           else dle (ei_limit_price i) (au_price e))
      in \<not> (te_normalized_state trade \<noteq> CONFIRMED \<or>
            \<not> te_terminal trade \<or>
            te_original_venue_state trade \<noteq> venue_trade_state_value CONFIRMED \<or>
            te_intent_id trade \<noteq> Some (ei_intent_id i) \<or>
            te_venue_order_id trade \<noteq> Some (au_venue_order_id e) \<or>
            te_venue_trade_id trade \<noteq> au_venue_trade_id e \<or>
            te_raw_event_hash trade \<noteq> au_trade_event_hash e \<or>
            au_intent_id e \<noteq> ei_intent_id i \<or>
            au_account_fingerprint e \<noteq> ei_account_fingerprint i \<or>
            au_position_asset_id e \<noteq> ei_token_id i \<or>
            au_side e \<noteq> ei_side i \<or>
            au_protocol_version e \<noteq> ei_protocol_version i \<or>
            te_protocol_version trade \<noteq> ei_protocol_version i \<or>
            \<not> price_allowed \<or>
            \<not> is_quantized (au_price e) (ei_tick_size i) \<or>
            \<not> opt_all (\<lambda>base_size. \<not> dlt base_size (au_size e)) (ei_base_size i) \<or>
            \<not> opt_all (\<lambda>maximum_spend. \<not> dlt maximum_spend notional) (ei_maximum_spend i) \<or>
            dlt fee_cap_scaled fee_scaled \<or>
            ei_created_at i > au_occurred_at e \<or>
            au_occurred_at e > ei_deadline i \<or>
            au_occurred_at e > te_received_at trade \<or>
            te_received_at trade > au_information_cutoff e \<or>
            \<not> opt_all (\<lambda>venue_timestamp. venue_timestamp = au_occurred_at e) (te_venue_timestamp trade)))"

definition validated_trade_binding ::
  "execution_intent \<Rightarrow> venue_trade_event \<Rightarrow> trade_economics \<Rightarrow> unit result" where
  "validated_trade_binding i trade e =
     bindE (except_as
       (bindE (exact_product (au_price e) (au_size e)) (\<lambda>notional.
        bindE (exact_product (au_fee e) (dec_of_int 10000)) (\<lambda>fee_scaled.
        bindE (exact_product notional (dec_of_int (ei_fee_rate_bps_cap i))) (\<lambda>fee_cap_scaled.
        Inr (notional, fee_scaled, fee_cap_scaled)))))
       (LiveLedgerError ''TRADE_ECONOMICS_MISMATCH'')) (\<lambda>(notional, fee_scaled, fee_cap_scaled).
     if \<not> trade_binding_ok i trade e notional fee_scaled fee_cap_scaled
     then Inl (LiveLedgerError ''TRADE_ECONOMICS_MISMATCH'') else Inr ())"

section \<open>Postings for confirmed trades\<close>

record intent_totals =
  it_intent_order_ids :: "(uuid, string) dict"
  it_order_intent_ids :: "(string, uuid) dict"
  it_sizes :: "(uuid, dec) dict"
  it_notionals :: "(uuid, dec) dict"

definition dict_total :: "('k, dec) dict \<Rightarrow> 'k \<Rightarrow> dec" where
  "dict_total d k = (case map_of d k of None \<Rightarrow> dec0 | Some x \<Rightarrow> x)"

definition bind_confirmed_trade ::
  "(uuid, execution_intent) dict \<Rightarrow> (string, trade_economics) dict \<Rightarrow> intent_totals \<Rightarrow>
     string \<times> venue_trade_event \<Rightarrow> intent_totals result"
where
  "bind_confirmed_trade intent_by_id economics_by_trade t = (\<lambda>(trade_id, trade).
     case Option.bind (te_intent_id trade) (map_of intent_by_id) of
       None \<Rightarrow> Inl (LiveLedgerError ''TRADE_ECONOMICS_MISMATCH'')
     | Some source_intent \<Rightarrow>
         let exact = the (map_of economics_by_trade trade_id);
             intent = ei_intent_id source_intent;
             order_id = au_venue_order_id exact
         in bindE (validated_trade_binding source_intent trade exact) (\<lambda>_.
            let (intent_order, intent_orders) = dict_setdefault intent order_id (it_intent_order_ids t);
                (order_intent, order_intents) = dict_setdefault order_id intent (it_order_intent_ids t)
            in if intent_order \<noteq> order_id \<or> order_intent \<noteq> intent
               then Inl (LiveLedgerError ''INTENT_ORDER_GROUP_INVALID'')
               else except_as
                 (bindE (exact_add (dict_total (it_sizes t) intent) (au_size exact)) (\<lambda>size.
                  bindE (exact_product (au_price exact) (au_size exact)) (\<lambda>notional.
                  bindE (exact_add (dict_total (it_notionals t) intent) notional) (\<lambda>spent.
                  Inr \<lparr>it_intent_order_ids = intent_orders, it_order_intent_ids = order_intents,
                       it_sizes = AList.update intent size (it_sizes t),
                       it_notionals = AList.update intent spent (it_notionals t)\<rparr>))))
                 (LiveLedgerError ''INTENT_TRADE_BOUNDS_EXCEEDED'')))"

definition check_intent_bounds ::
  "(uuid, execution_intent) dict \<Rightarrow> intent_totals \<Rightarrow> uuid \<times> dec \<Rightarrow> unit result" where
  "check_intent_bounds intent_by_id t = (\<lambda>(intent_id, total_size).
     let source_intent = the (map_of intent_by_id intent_id)
     in if \<not> opt_all (\<lambda>base_size. \<not> dlt base_size total_size) (ei_base_size source_intent) \<or>
           \<not> opt_all (\<lambda>maximum_spend. \<not> dlt maximum_spend (dict_total (it_notionals t) intent_id))
              (ei_maximum_spend source_intent)
        then Inl (LiveLedgerError ''INTENT_TRADE_BOUNDS_EXCEEDED'') else Inr ())"

definition ledger_intents :: "digests \<Rightarrow> execution_intent list \<Rightarrow> execution_intent list result" where
  "ledger_intents D intents =
     bindE (snapshot_sequence (validate_intent D) ''INTENT_EVIDENCE_INVALID'' intents)
       (dedupe_records (\<lambda>i. canonical_execution_hash D (intent_full_content i)) ei_intent_id
          ''INTENT_EVIDENCE_CONFLICT'')"

definition ledger_economics :: "digests \<Rightarrow> trade_economics list \<Rightarrow> trade_economics list result" where
  "ledger_economics D economics =
     bindE (snapshot_sequence (validate_economics D) ''TRADE_ECONOMICS_INVALID'' economics)
       (dedupe_records (\<lambda>e. canonical_execution_hash D (economics_content e)) au_venue_trade_id
          ''TRADE_ECONOMICS_CONFLICT'')"

definition confirmed_by_trade :: "classified_trade_history list \<Rightarrow> (string, venue_trade_event) dict" where
  "confirmed_by_trade histories =
     List.map_filter (\<lambda>h. map_option (Pair (th_venue_trade_id h)) (th_confirmed_terminal h)) histories"

definition postings_for_confirmed_trades ::
  "digests \<Rightarrow> execution_intent list \<Rightarrow> venue_trade_event list \<Rightarrow> trade_economics list \<Rightarrow>
     live_ledger_posting list result"
where
  "postings_for_confirmed_trades D intents trades economics =
     bindE (ledger_intents D intents) (\<lambda>intent_values.
     bindE (classify_trade_histories D trades) (\<lambda>trade_histories.
     bindE (ledger_economics D economics) (\<lambda>economics_values.
     let intent_by_id = map (\<lambda>i. (ei_intent_id i, i)) intent_values;
         economics_by_trade = map (\<lambda>e. (au_venue_trade_id e, e)) economics_values;
         confirmed = confirmed_by_trade trade_histories
     in if set (map fst economics_by_trade) \<noteq> set (map fst confirmed)
        then Inl (LiveLedgerError ''TRADE_ECONOMICS_MISMATCH'')
        else
     bindE (foldE (bind_confirmed_trade intent_by_id economics_by_trade)
       \<lparr>it_intent_order_ids = [], it_order_intent_ids = [], it_sizes = [], it_notionals = []\<rparr>
       (sort_key fst confirmed)) (\<lambda>totals.
     bindE (mapE (check_intent_bounds intent_by_id totals) (it_sizes totals)) (\<lambda>_.
     bindE (mapE (\<lambda>trade_id. trade_rows D (the (map_of economics_by_trade trade_id)))
              (sort (map fst confirmed))) (\<lambda>rows.
     let result = sort_key lp_posting_id (concat rows)
     in bindE (verify_structural_conservation D result) (\<lambda>_. Inr result)))))))"

text \<open>Equality of posting records: equal fields, decimals by value.\<close>

definition posting_eq :: "live_ledger_posting \<Rightarrow> live_ledger_posting \<Rightarrow> bool" where
  "posting_eq p q \<longleftrightarrow>
     deq (lp_debit_amount p) (lp_debit_amount q) \<and> deq (lp_credit_amount p) (lp_credit_amount q) \<and>
     p\<lparr>lp_debit_amount := dec0, lp_credit_amount := dec0\<rparr> = q\<lparr>lp_debit_amount := dec0, lp_credit_amount := dec0\<rparr>"

definition verify_live_conservation ::
  "digests \<Rightarrow> live_ledger_posting list \<Rightarrow> execution_intent list \<Rightarrow> venue_trade_event list \<Rightarrow>
     trade_economics list \<Rightarrow> unit result"
where
  "verify_live_conservation D postings intents trades economics =
     bindE (snapshot_sequence validate_posting ''POSTING_INVALID'' postings) (\<lambda>values.
     bindE (verify_structural_conservation D values) (\<lambda>_.
     bindE (postings_for_confirmed_trades D intents trades economics) (\<lambda>canonical.
     if \<not> list_all2 posting_eq (sort_key lp_posting_id values) canonical
     then Inl (LiveLedgerError ''POSTING_TOPOLOGY_MISMATCH'') else Inr ())))"

section \<open>Rows of one trade\<close>

definition row_debit :: "live_ledger_posting \<Rightarrow> rat" where
  "row_debit p = dval (lp_debit_amount p)"

definition row_credit :: "live_ledger_posting \<Rightarrow> rat" where
  "row_credit p = dval (lp_credit_amount p)"

interpretation group_entries: double_entry row_debit row_credit evidence_group .

interpretation asset_entries: double_entry row_debit row_credit lp_asset_id .

definition seal_posting :: "digests \<Rightarrow> live_ledger_posting \<Rightarrow> live_ledger_posting" where
  "seal_posting D p = p\<lparr>lp_posting_id := canonical_posting_id D p\<rparr>"

lemma canonical_posting_id_update [simp]:
  "canonical_posting_id D (p\<lparr>lp_posting_id := u\<rparr>) = canonical_posting_id D p"
  by (simp add: canonical_posting_id_def posting_identity_payload_def)

interpretation posting_identity: content_identity lp_posting_id "canonical_posting_id D" "seal_posting D"
  by unfold_locales (simp_all add: seal_posting_def)

lemma build_posting_Inr:
  assumes "build_posting D e da ca a d c l = Inr p"
  shows "validate_posting p = Inr p" "lp_posting_id p = canonical_posting_id D p"
    "lp_debit_account p = da" "lp_credit_account p = ca" "lp_debit_amount p = d" "lp_credit_amount p = c"
    "lp_asset_id p = a" "evidence_group p = (au_account_fingerprint e, Some (au_intent_id e),
       Some (au_venue_order_id e), Some (au_venue_trade_id e), Some (au_settlement_hash e),
       Some (au_fee_hash e), au_balance_evidence_hashes e, au_occurred_at e, l, a)"
proof -
  obtain q where q: "validate_posting \<lparr>
         lp_lineage_hashes = l, lp_posting_id = Uuid 0,
         lp_account_fingerprint = au_account_fingerprint e, lp_intent_id = Some (au_intent_id e),
         lp_venue_order_id = Some (au_venue_order_id e), lp_venue_trade_id = Some (au_venue_trade_id e),
         lp_settlement_hash = Some (au_settlement_hash e), lp_fee_hash = Some (au_fee_hash e),
         lp_balance_evidence_hashes = au_balance_evidence_hashes e,
         lp_debit_account = da, lp_credit_account = ca, lp_asset_id = a,
         lp_debit_amount = d, lp_credit_amount = c, lp_occurred_at = au_occurred_at e\<rparr> = Inr q"
    and p: "validate_posting (seal_posting D q) = Inr p"
    using assms by (auto simp: build_posting_def bindE_eq_Inr seal_posting_def)
  note q' = validate_posting_Inr(1) [OF q] and p' = validate_posting_Inr(1) [OF p]
  show "validate_posting p = Inr p" using p by (simp add: p')
  show "lp_posting_id p = canonical_posting_id D p" unfolding p'
    by (rule posting_identity.sealed_seal [unfolded posting_identity.sealed_def])
  show "lp_debit_account p = da" "lp_credit_account p = ca" "lp_debit_amount p = d" "lp_credit_amount p = c"
    "lp_asset_id p = a" "evidence_group p = (au_account_fingerprint e, Some (au_intent_id e),
       Some (au_venue_order_id e), Some (au_venue_trade_id e), Some (au_settlement_hash e),
       Some (au_fee_hash e), au_balance_evidence_hashes e, au_occurred_at e, l, a)"
    unfolding p' q' by (simp_all add: seal_posting_def evidence_group_def)
qed

text \<open>The balance of an account: what is debited to it less what is credited to it.\<close>

definition row_effect :: "string \<Rightarrow> live_ledger_posting \<Rightarrow> rat" where
  "row_effect A p = (if lp_debit_account p = A then row_debit p else 0) -
                    (if lp_credit_account p = A then row_credit p else 0)"

definition account_balance :: "string \<Rightarrow> live_ledger_posting list \<Rightarrow> rat" where
  "account_balance A ps = sum_list (map (row_effect A) ps)"

definition leg_effect :: "string \<Rightarrow> ledger_leg \<Rightarrow> rat" where
  "leg_effect A = (\<lambda>(debit_account, credit_account, _, amount).
     (if debit_account = A then dval amount else 0) - (if credit_account = A then dval amount else 0))"

lemma paired_postings_Inr:
  assumes "paired_postings D e l (da, ca, a, amount) = Inr rows"
  obtains p q where "rows = [p, q]" "build_posting D e da ca a amount dec0 l = Inr p"
    "build_posting D e da ca a dec0 amount l = Inr q"
  using assms by (auto simp: paired_postings_def bindE_eq_Inr)

lemma paired_postings_facts:
  assumes "paired_postings D e l leg = Inr rows"
  shows "account_balance A rows = leg_effect A leg"
    "group_entries.balanced rows"
    "\<forall>p \<in> set rows. lp_posting_id p = canonical_posting_id D p"
    "\<forall>p \<in> set rows. \<forall>q \<in> set rows. evidence_group p = evidence_group q \<and> lp_asset_id p = lp_asset_id q"
proof -
  obtain da ca a amount where leg: "leg = (da, ca, a, amount)" by (cases leg)
  obtain p q where rows: "rows = [p, q]" and "build_posting D e da ca a amount dec0 l = Inr p"
    "build_posting D e da ca a dec0 amount l = Inr q"
    using assms unfolding leg by (rule paired_postings_Inr)
  note p = build_posting_Inr [OF this(2)] and q = build_posting_Inr [OF this(3)]
  show "account_balance A rows = leg_effect A leg"
    by (simp add: account_balance_def row_effect_def row_debit_def row_credit_def leg_effect_def leg rows p q)
  show "group_entries.balanced rows"
    unfolding rows by (rule group_entries.balanced_pair) (simp_all add: row_debit_def row_credit_def p q)
  show "\<forall>p \<in> set rows. lp_posting_id p = canonical_posting_id D p"
    unfolding rows by (simp add: p(2) q(2) [symmetric] del: p q) (metis p(2) q(2))
  show "\<forall>p \<in> set rows. \<forall>q \<in> set rows. evidence_group p = evidence_group q \<and> lp_asset_id p = lp_asset_id q"
    unfolding rows by (simp add: p(7,8) q(7,8))
qed

lemma account_balance_append: "account_balance A (ps @ qs) = account_balance A ps + account_balance A qs"
  by (simp add: account_balance_def)

lemma account_balance_mset: "mset ps = mset qs \<Longrightarrow> account_balance A ps = account_balance A qs"
  unfolding account_balance_def by (metis mset_map sum_mset_sum_list)

lemma paired_rows_balance:
  "mapE (paired_postings D e l) legs = Inr rows \<Longrightarrow>
     account_balance A (concat rows) = sum_list (map (leg_effect A) legs)"
  by (induction legs arbitrary: rows)
    (auto simp: bindE_eq_Inr account_balance_append paired_postings_facts(1), simp add: account_balance_def)

lemma account_inject [simp]:
  "account ''venue_cash'' x = account ''venue_cash'' y \<longleftrightarrow> x = y"
  "account ''venue_position'' x = account ''venue_position'' y \<longleftrightarrow> x = y"
  "account ''fees_paid'' x = account ''fees_paid'' y \<longleftrightarrow> x = y"
  "account ''realized_pnl'' x = account ''realized_pnl'' y \<longleftrightarrow> x = y"
  by (simp_all add: account_def)

lemma account_differ [simp]:
  "account ''settlement_receivable'' x \<noteq> account ''venue_cash'' y"
  "account ''settlement_receivable'' x \<noteq> account ''venue_position'' y"
  "account ''settlement_receivable'' x \<noteq> account ''fees_paid'' y"
  "account ''settlement_receivable'' x \<noteq> account ''realized_pnl'' y"
  "account ''venue_cash'' x \<noteq> account ''venue_position'' y"
  "account ''venue_cash'' x \<noteq> account ''fees_paid'' y"
  "account ''venue_cash'' x \<noteq> account ''realized_pnl'' y"
  "account ''venue_position'' x \<noteq> account ''venue_cash'' y"
  "account ''venue_position'' x \<noteq> account ''fees_paid'' y"
  "account ''venue_position'' x \<noteq> account ''realized_pnl'' y"
  "account ''fees_paid'' x \<noteq> account ''venue_cash'' y"
  "account ''fees_paid'' x \<noteq> account ''venue_position'' y"
  "account ''fees_paid'' x \<noteq> account ''realized_pnl'' y"
  "account ''realized_pnl'' x \<noteq> account ''venue_cash'' y"
  "account ''realized_pnl'' x \<noteq> account ''venue_position'' y"
  "account ''realized_pnl'' x \<noteq> account ''fees_paid'' y"
  by (simp_all add: account_def)

text \<open>What one trade does to the cash, position, fee and profit accounts, as numbers.\<close>

definition cash_flow :: "trade_economics \<Rightarrow> rat" where
  "cash_flow e = (case au_side e of Buy \<Rightarrow> - (dval (au_price e) * dval (au_size e))
                  | Sell \<Rightarrow> dval (au_price e) * dval (au_size e)) - dval (au_fee e)"

definition position_flow :: "trade_economics \<Rightarrow> rat" where
  "position_flow e = (case au_side e of Buy \<Rightarrow> dval (au_size e) | Sell \<Rightarrow> - dval (au_size e))"

definition pnl_value :: "trade_economics \<Rightarrow> rat" where
  "pnl_value e = (case au_realized_pnl e of None \<Rightarrow> 0 | Some pnl \<Rightarrow> dval pnl)"

lemma trade_legs_effect:
  assumes "dval notional = dval (au_price e) * dval (au_size e)"
  shows "sum_list (map (leg_effect (account ''venue_cash'' c)) (trade_legs e notional)) =
      (if au_cash_asset_id e = c then cash_flow e else 0)"
    "sum_list (map (leg_effect (account ''venue_position'' c)) (trade_legs e notional)) =
      (if au_position_asset_id e = c then position_flow e else 0)"
    "sum_list (map (leg_effect (account ''fees_paid'' c)) (trade_legs e notional)) =
      (if au_cash_asset_id e = c then dval (au_fee e) else 0)"
    "sum_list (map (leg_effect (account ''realized_pnl'' c)) (trade_legs e notional)) =
      (if au_cash_asset_id e = c then - pnl_value e else 0)"
  using assms
  by (cases "au_side e"; simp add: trade_legs_def leg_effect_def cash_flow_def position_flow_def
      pnl_value_def Let_def deq_iff dlt_iff split: option.splits)+

lemma trade_rows_facts:
  assumes "trade_rows D e = Inr rows"
  shows "account_balance (account ''venue_cash'' c) rows = (if au_cash_asset_id e = c then cash_flow e else 0)"
    "account_balance (account ''venue_position'' c) rows =
      (if au_position_asset_id e = c then position_flow e else 0)"
    "account_balance (account ''fees_paid'' c) rows = (if au_cash_asset_id e = c then dval (au_fee e) else 0)"
    "account_balance (account ''realized_pnl'' c) rows = (if au_cash_asset_id e = c then - pnl_value e else 0)"
    "group_entries.balanced (filter (\<lambda>p. evidence_group p = g) rows)"
    "asset_entries.balanced (filter (\<lambda>p. lp_asset_id p = a) rows)"
proof -
  obtain notional blocks where n: "exact_product (au_price e) (au_size e) = Inr notional"
    and blocks: "mapE (paired_postings D e (trade_lineage e)) (trade_legs e notional) = Inr blocks"
    and rows: "rows = concat blocks"
    using assms by (auto simp: trade_rows_def bindE_eq_Inr except_as_Inr)
  have val: "dval notional = dval (au_price e) * dval (au_size e)"
    using exact_product_cases [of "au_price e" "au_size e"] by (simp add: n)
  show "account_balance (account ''venue_cash'' c) rows = (if au_cash_asset_id e = c then cash_flow e else 0)"
    "account_balance (account ''venue_position'' c) rows =
      (if au_position_asset_id e = c then position_flow e else 0)"
    "account_balance (account ''fees_paid'' c) rows = (if au_cash_asset_id e = c then dval (au_fee e) else 0)"
    "account_balance (account ''realized_pnl'' c) rows = (if au_cash_asset_id e = c then - pnl_value e else 0)"
    unfolding rows paired_rows_balance [OF blocks] by (rule trade_legs_effect [OF val])+
  have block: "\<exists>leg. paired_postings D e (trade_lineage e) leg = Inr ps" if "ps \<in> set blocks" for ps
    using mapE_Inr_set [OF blocks that] by blast
  show "group_entries.balanced (filter (\<lambda>p. evidence_group p = g) rows)"
    unfolding rows by (rule group_entries.balanced_group) (use block paired_postings_facts(2,4) in blast)+
  show "asset_entries.balanced (filter (\<lambda>p. lp_asset_id p = a) rows)"
    unfolding rows by (rule asset_entries.balanced_group) (use block paired_postings_facts(2,4) in blast)+
qed

section \<open>What a successful booking consists of\<close>

lemma validate_economics_Inr:
  assumes "validate_economics D e = Inr f"
  shows "validate_economics D f = Inr f" "economics_fields_ok f" "exact_economics_ok f"
    "f = e\<lparr>au_economics_fingerprint := Some (economics_fingerprint D e)\<rparr>"
proof -
  have ok: "economics_fields_ok e" "exact_economics_ok e"
    and f: "f = e\<lparr>au_economics_fingerprint := Some (economics_fingerprint D e)\<rparr>"
    using assms by (auto simp: validate_economics_def Let_def split: if_splits option.splits)
  have "economics_fields_ok (e\<lparr>au_economics_fingerprint := h\<rparr>) = economics_fields_ok e"
    "exact_economics_ok (e\<lparr>au_economics_fingerprint := h\<rparr>) = exact_economics_ok e"
    "economics_fingerprint D (e\<lparr>au_economics_fingerprint := h\<rparr>) = economics_fingerprint D e" for h
    by (simp_all add: economics_fields_ok_def exact_economics_ok_def economics_fingerprint_def
        economics_fields_def cong: sum.case_cong)
  with ok show "validate_economics D f = Inr f" "economics_fields_ok f" "exact_economics_ok f"
    by (simp_all add: f validate_economics_def Let_def)
  show "f = e\<lparr>au_economics_fingerprint := Some (economics_fingerprint D e)\<rparr>" by (rule f)
qed

lemma snapshot_sequence_members:
  "snapshot_sequence validate code xs = Inr ys \<Longrightarrow> y \<in> set ys \<Longrightarrow> \<exists>x \<in> set xs. validate x = Inr y"
  by (auto simp: snapshot_sequence_def except_as_Inr dest: mapE_Inr_set split: if_splits)

lemma ledger_economics_facts:
  assumes "ledger_economics D economics = Inr es"
  shows "distinct (map au_venue_trade_id es)" "\<forall>e \<in> set es. economics_fields_ok e \<and> exact_economics_ok e"
    "\<forall>e \<in> set es. \<exists>x \<in> set economics. validate_economics D x = Inr e"
proof -
  obtain ys where ys: "snapshot_sequence (validate_economics D) ''TRADE_ECONOMICS_INVALID'' economics = Inr ys"
    and es: "dedupe_records (\<lambda>e. canonical_execution_hash D (economics_content e)) au_venue_trade_id
      ''TRADE_ECONOMICS_CONFLICT'' ys = Inr es"
    using assms by (auto simp: ledger_economics_def bindE_eq_Inr)
  show "distinct (map au_venue_trade_id es)"
    using es by (rule dedupe_records_Inr(1))
  show "\<forall>e \<in> set es. \<exists>x \<in> set economics. validate_economics D x = Inr e"
    using dedupe_records_Inr(2) [OF es] snapshot_sequence_members [OF ys] by blast
  then show "\<forall>e \<in> set es. economics_fields_ok e \<and> exact_economics_ok e"
    using validate_economics_Inr(2,3) by blast
qed

lemma ledger_intents_facts:
  assumes "ledger_intents D intents = Inr us"
  shows "distinct (map ei_intent_id us)" "\<forall>i \<in> set us. validate_intent D i = Inr i" "set us \<subseteq> set intents"
proof -
  have id: "validate_intent D i = Inr j \<Longrightarrow> j = i" for i j
    by (simp add: validate_intent_Inr)
  obtain ys where ys: "snapshot_sequence (validate_intent D) ''INTENT_EVIDENCE_INVALID'' intents = Inr ys"
    and us: "dedupe_records (\<lambda>i. canonical_execution_hash D (intent_full_content i)) ei_intent_id
      ''INTENT_EVIDENCE_CONFLICT'' ys = Inr us"
    using assms by (auto simp: ledger_intents_def bindE_eq_Inr)
  have "ys = intents" "\<forall>i \<in> set intents. validate_intent D i = Inr i"
    using ys snapshot_sequence_Inr [of "validate_intent D", OF id] by blast+
  with dedupe_records_Inr(1,2) [OF us] show "distinct (map ei_intent_id us)"
    "\<forall>i \<in> set us. validate_intent D i = Inr i" "set us \<subseteq> set intents" by auto
qed

lemma confirmed_by_trade_member:
  "(k, t) \<in> set (confirmed_by_trade hs) \<longleftrightarrow>
     (\<exists>h \<in> set hs. th_venue_trade_id h = k \<and> th_confirmed_terminal h = Some t)"
  by (induction hs) (auto simp: confirmed_by_trade_def split: option.splits)

lemma confirmed_terminal_in_trades:
  assumes "classify_trade_histories D trades = Inr hs" and "h \<in> set hs"
    and "th_confirmed_terminal h = Some trade"
  shows "trade \<in> set trades"
proof -
  from assms(1) obtain us where us: "dedupe_records (\<lambda>e. canonical_execution_hash D (trade_event_content e))
      te_trade_event_id ''TRADE_EVENT_CONFLICT'' trades = Inr us"
    and run: "mapE (\<lambda>tid. classify_trade_history tid (dict_group (group_by te_venue_trade_id us) tid))
       (sort (map fst (group_by te_venue_trade_id us))) = Inr hs"
    by (rule classify_trade_histories_Inr)
  from mapE_groups(1) [where f = classify_trade_history, OF run assms(2)] obtain k
    where k: "classify_trade_history k (filter (\<lambda>e. te_venue_trade_id e = k) us) = Inr h" by blast
  then obtain zs where "zs \<noteq> []" "mset zs = mset (filter (\<lambda>e. te_venue_trade_id e = k) us)"
    "th_confirmed_terminal h = (if te_normalized_state (last zs) = CONFIRMED then Some (last zs) else None)"
    by (rule classify_trade_history_Inr)
  moreover from this(2) have "set zs \<subseteq> set us"
    by (metis filter_is_subset mset_eq_setD)
  ultimately have "trade \<in> set us"
    using assms(3) last_in_set [of zs] by (auto split: if_splits)
  then show ?thesis
    using dedupe_records_Inr(2) [OF us] by auto
qed

lemma trade_history_ids:
  assumes "classify_trade_histories D trades = Inr hs"
  shows "distinct (map th_venue_trade_id hs)"
proof -
  from assms obtain us where
    run: "mapE (\<lambda>tid. classify_trade_history tid (dict_group (group_by te_venue_trade_id us) tid))
       (sort (map fst (group_by te_venue_trade_id us))) = Inr hs"
    by (rule classify_trade_histories_Inr)
  have "list_all2 (\<lambda>k h. th_venue_trade_id h = k) (sort (map fst (group_by te_venue_trade_id us))) hs"
    using run unfolding mapE_Inr
    by (rule list_all2_mono) (erule classify_trade_history_Inr, assumption)
  then have "map th_venue_trade_id hs = sort (map fst (group_by te_venue_trade_id us))"
    by (induction rule: list_all2_induct) auto
  then show ?thesis by (simp add: distinct_group_by)
qed

lemma distinct_confirmed: "distinct (map th_venue_trade_id hs) \<Longrightarrow> distinct (map fst (confirmed_by_trade hs))"
proof (induction hs)
  case Nil
  then show ?case by (simp add: confirmed_by_trade_def)
next
  case (Cons h hs)
  have "set (map fst (confirmed_by_trade hs)) \<subseteq> set (map th_venue_trade_id hs)"
    by (force simp: confirmed_by_trade_member)
  moreover have "confirmed_by_trade (h # hs) =
      (case th_confirmed_terminal h of None \<Rightarrow> [] | Some t \<Rightarrow> [(th_venue_trade_id h, t)]) @ confirmed_by_trade hs"
    by (simp add: confirmed_by_trade_def split: option.splits)
  ultimately show ?case
    using Cons by (auto split: option.splits)
qed

lemma postings_Inr:
  assumes "postings_for_confirmed_trades D intents trades economics = Inr ps"
  obtains us hs es totals units rows where
    "ledger_intents D intents = Inr us" "classify_trade_histories D trades = Inr hs"
    "ledger_economics D economics = Inr es"
    "au_venue_trade_id ` set es = fst ` set (confirmed_by_trade hs)"
    "foldE (bind_confirmed_trade (map (\<lambda>i. (ei_intent_id i, i)) us) (map (\<lambda>e. (au_venue_trade_id e, e)) es))
       \<lparr>it_intent_order_ids = [], it_order_intent_ids = [], it_sizes = [], it_notionals = []\<rparr>
       (sort_key fst (confirmed_by_trade hs)) = Inr totals"
    "mapE (check_intent_bounds (map (\<lambda>i. (ei_intent_id i, i)) us) totals) (it_sizes totals) = Inr units"
    "mapE (\<lambda>tid. trade_rows D (the (map_of (map (\<lambda>e. (au_venue_trade_id e, e)) es) tid)))
       (sort (map fst (confirmed_by_trade hs))) = Inr rows"
    "ps = sort_key lp_posting_id (concat rows)"
    "verify_structural_conservation D ps = Inr ()"
proof -
  show thesis
    using assms unfolding postings_for_confirmed_trades_def Let_def bindE_eq_Inr
    apply (elim exE conjE)
    apply (split if_split_asm)
     apply simp
    unfolding bindE_eq_Inr
    apply (elim exE conjE)
    by (rule that) (assumption | simp add: image_image)+
qed

section \<open>Totals per intent\<close>

definition size_total :: "uuid \<Rightarrow> trade_economics list \<Rightarrow> rat" where
  "size_total i es = sum_list (map (\<lambda>e. dval (au_size e)) (filter (\<lambda>e. au_intent_id e = i) es))"

definition spend_total :: "uuid \<Rightarrow> trade_economics list \<Rightarrow> rat" where
  "spend_total i es =
     sum_list (map (\<lambda>e. dval (au_price e) * dval (au_size e)) (filter (\<lambda>e. au_intent_id e = i) es))"

definition totals_inv :: "trade_economics list \<Rightarrow> intent_totals \<Rightarrow> bool" where
  "totals_inv seen t \<longleftrightarrow>
     distinct (map fst (it_sizes t)) \<and> fst ` set (it_sizes t) = au_intent_id ` set seen \<and>
     (\<forall>i. dval (dict_total (it_sizes t) i) = size_total i seen) \<and>
     (\<forall>i. dval (dict_total (it_notionals t) i) = spend_total i seen)"

lemma dict_total_update: "dict_total (AList.update k v d) i = (if i = k then v else dict_total d i)"
  by (simp add: dict_total_def update_conv')

lemma bind_confirmed_trade_Inr:
  assumes "bind_confirmed_trade I E t (tid, trade) = Inr t'"
  obtains i size notional spent where
    "te_intent_id trade \<noteq> None" "map_of I (the (te_intent_id trade)) = Some i"
    "validated_trade_binding i trade (the (map_of E tid)) = Inr ()"
    "exact_add (dict_total (it_sizes t) (ei_intent_id i)) (au_size (the (map_of E tid))) = Inr size"
    "exact_product (au_price (the (map_of E tid))) (au_size (the (map_of E tid))) = Inr notional"
    "exact_add (dict_total (it_notionals t) (ei_intent_id i)) notional = Inr spent"
    "it_sizes t' = AList.update (ei_intent_id i) size (it_sizes t)"
    "it_notionals t' = AList.update (ei_intent_id i) spent (it_notionals t)"
proof -
  obtain i where i: "Option.bind (te_intent_id trade) (map_of I) = Some i"
    using assms by (auto simp: bind_confirmed_trade_def split: option.splits)
  obtain a b c d where sd: "dict_setdefault (ei_intent_id i) (au_venue_order_id (the (map_of E tid)))
      (it_intent_order_ids t) = (a, b)"
    "dict_setdefault (au_venue_order_id (the (map_of E tid))) (ei_intent_id i) (it_order_intent_ids t) = (c, d)"
    by (meson surj_pair)
  from i have "te_intent_id trade \<noteq> None" "map_of I (the (te_intent_id trade)) = Some i"
    by (auto simp: bind_eq_Some_conv)
  with assms that show thesis
    by (auto simp: bind_confirmed_trade_def i Let_def sd bindE_eq_Inr except_as_Inr split: if_splits)
qed

lemma validated_trade_binding_Inr:
  assumes "validated_trade_binding i trade e = Inr u"
  obtains notional fee_scaled cap_scaled where
    "dval notional = dval (au_price e) * dval (au_size e)" "dval fee_scaled = dval (au_fee e) * 10000"
    "dval cap_scaled = dval notional * of_int (ei_fee_rate_bps_cap i)"
    "trade_binding_ok i trade e notional fee_scaled cap_scaled"
proof -
  obtain n f c where "exact_product (au_price e) (au_size e) = Inr n"
    "exact_product (au_fee e) (dec_of_int 10000) = Inr f"
    "exact_product n (dec_of_int (ei_fee_rate_bps_cap i)) = Inr c" "trade_binding_ok i trade e n f c"
    using assms by (auto simp: validated_trade_binding_def bindE_eq_Inr except_as_Inr split: if_splits)
  then show thesis
    using that [of n f c] exact_product_cases [of "au_price e" "au_size e"]
      exact_product_cases [of "au_fee e" "dec_of_int 10000"]
      exact_product_cases [of n "dec_of_int (ei_fee_rate_bps_cap i)"] by simp
qed

lemma totals_inv_step:
  assumes inv: "totals_inv seen t" and run: "bind_confirmed_trade I E t (tid, trade) = Inr t'"
  shows "totals_inv (seen @ [the (map_of E tid)]) t'"
proof -
  let ?e = "the (map_of E tid)"
  from run obtain i size notional spent where
    bound: "validated_trade_binding i trade ?e = Inr ()"
    and add: "exact_add (dict_total (it_sizes t) (ei_intent_id i)) (au_size ?e) = Inr size"
      "exact_product (au_price ?e) (au_size ?e) = Inr notional"
      "exact_add (dict_total (it_notionals t) (ei_intent_id i)) notional = Inr spent"
    and t': "it_sizes t' = AList.update (ei_intent_id i) size (it_sizes t)"
      "it_notionals t' = AList.update (ei_intent_id i) spent (it_notionals t)"
    by (rule bind_confirmed_trade_Inr)
  from bound have intent: "au_intent_id ?e = ei_intent_id i"
    by (rule validated_trade_binding_Inr) (simp add: trade_binding_ok_def Let_def)
  have vals: "dval size = dval (dict_total (it_sizes t) (ei_intent_id i)) + dval (au_size ?e)"
    "dval spent = dval (dict_total (it_notionals t) (ei_intent_id i)) + dval (au_price ?e) * dval (au_size ?e)"
    using ledger_add.add_val [OF add(1)] ledger_add.add_val [OF add(3)]
      exact_product_cases [of "au_price ?e" "au_size ?e"] by (simp_all add: add(2))
  have "distinct (map fst (it_sizes t'))"
    using inv by (simp add: totals_inv_def t' distinct_update)
  moreover have "fst ` set (it_sizes t') = au_intent_id ` set (seen @ [?e])"
  proof -
    have "fst ` set (it_sizes t') = insert (ei_intent_id i) (fst ` set (it_sizes t))"
      unfolding t' dom_map_of_conv_image_fst [symmetric] by (auto simp: update_conv')
    then show ?thesis using inv by (simp add: totals_inv_def intent)
  qed
  moreover have "dval (dict_total (it_sizes t') j) = size_total j (seen @ [?e])" for j
    using inv by (simp add: totals_inv_def t' dict_total_update size_total_def vals intent)
  moreover have "dval (dict_total (it_notionals t') j) = spend_total j (seen @ [?e])" for j
    using inv by (simp add: totals_inv_def t' dict_total_update spend_total_def vals intent)
  ultimately show ?thesis
    by (simp add: totals_inv_def)
qed

lemma totals_inv_fold:
  "totals_inv seen t \<Longrightarrow> foldE (bind_confirmed_trade I E) t xs = Inr t' \<Longrightarrow>
     totals_inv (seen @ map (\<lambda>x. the (map_of E (fst x))) xs) t'"
proof (induction xs arbitrary: seen t)
  case Nil
  then show ?case by simp
next
  case (Cons x xs)
  obtain tid trade where x: "x = (tid, trade)" by (cases x)
  from Cons.prems(2) obtain t1 where step: "bind_confirmed_trade I E t (tid, trade) = Inr t1"
    and rest: "foldE (bind_confirmed_trade I E) t1 xs = Inr t'"
    by (auto simp: bindE_eq_Inr x)
  have "totals_inv (seen @ [the (map_of E tid)]) t1"
    using Cons.prems(1) step by (rule totals_inv_step)
  from Cons.IH [OF this rest] show ?case by (simp add: x)
qed

lemma bind_fold_each:
  "foldE (bind_confirmed_trade I E) t xs = Inr t' \<Longrightarrow> (tid, trade) \<in> set xs \<Longrightarrow>
     \<exists>i. te_intent_id trade \<noteq> None \<and> map_of I (the (te_intent_id trade)) = Some i \<and>
       validated_trade_binding i trade (the (map_of E tid)) = Inr ()"
proof (induction xs arbitrary: t)
  case Nil
  then show ?case by simp
next
  case (Cons x xs)
  from Cons.prems(1) obtain t1 where step: "bind_confirmed_trade I E t x = Inr t1"
    and rest: "foldE (bind_confirmed_trade I E) t1 xs = Inr t'"
    by (auto simp: bindE_eq_Inr)
  show ?case
  proof (cases "x = (tid, trade)")
    case True
    from step show ?thesis unfolding True by (rule bind_confirmed_trade_Inr) blast
  next
    case False
    with Cons.prems(2) Cons.IH [OF rest] show ?thesis by simp
  qed
qed

lemma size_total_mset: "mset es = mset fs \<Longrightarrow> size_total i es = size_total i fs"
  unfolding size_total_def by (intro sum_list_mset_eq) simp

lemma spend_total_mset: "mset es = mset fs \<Longrightarrow> spend_total i es = spend_total i fs"
  unfolding spend_total_def by (intro sum_list_mset_eq) simp

section \<open>What is booked\<close>

lemma booked_balance:
  assumes "mapE (\<lambda>k. trade_rows D (E k)) ks = Inr rows"
    and "\<And>e rs. trade_rows D e = Inr rs \<Longrightarrow> account_balance A rs = eff e"
  shows "account_balance A (concat rows) = sum_list (map (\<lambda>k. eff (E k)) ks)"
  using assms(1)
proof (induction ks arbitrary: rows)
  case Nil
  then show ?case by (simp add: account_balance_def)
next
  case (Cons k ks)
  then show ?case
    by (auto simp: bindE_eq_Inr account_balance_append assms(2))
qed

lemma sort_key_fst_map: "map fst (sort_key fst xs) = sort (map fst xs)"
  for xs :: "('a::linorder \<times> 'b) list"
  by (rule properties_for_sort [symmetric]) simp_all

text \<open>
  The economics that are booked, the trades and intents they belong to, and the totals that were
  compared with the limits.
\<close>

lemma postings_economics:
  assumes "postings_for_confirmed_trades D intents trades economics = Inr ps"
  obtains us es where "ledger_intents D intents = Inr us" "ledger_economics D economics = Inr es"
    "\<And>A eff. (\<And>e rs. trade_rows D e = Inr rs \<Longrightarrow> account_balance A rs = eff e) \<Longrightarrow>
       account_balance A ps = sum_list (map eff es)"
    "\<forall>e \<in> set es. \<exists>i \<in> set us. \<exists>trade \<in> set trades. validated_trade_binding i trade e = Inr ()"
    "\<forall>i \<in> set us. \<not> opt_all (\<lambda>b. size_total (ei_intent_id i) es \<le> dval b) (ei_base_size i) \<or>
       \<not> opt_all (\<lambda>m. spend_total (ei_intent_id i) es \<le> dval m) (ei_maximum_spend i) \<longrightarrow>
       ei_intent_id i \<notin> au_intent_id ` set es"
    "sorted (map lp_posting_id ps)" "verify_structural_conservation D ps = Inr ()"
proof -
  obtain us hs es totals units rows where
    us: "ledger_intents D intents = Inr us" and hs: "classify_trade_histories D trades = Inr hs" and
    es: "ledger_economics D economics = Inr es" and
    keys: "au_venue_trade_id ` set es = fst ` set (confirmed_by_trade hs)" and
    run: "foldE (bind_confirmed_trade (map (\<lambda>i. (ei_intent_id i, i)) us) (map (\<lambda>e. (au_venue_trade_id e, e)) es))
       \<lparr>it_intent_order_ids = [], it_order_intent_ids = [], it_sizes = [], it_notionals = []\<rparr>
       (sort_key fst (confirmed_by_trade hs)) = Inr totals" and
    bounds: "mapE (check_intent_bounds (map (\<lambda>i. (ei_intent_id i, i)) us) totals) (it_sizes totals) = Inr units" and
    rows: "mapE (\<lambda>tid. trade_rows D (the (map_of (map (\<lambda>e. (au_venue_trade_id e, e)) es) tid)))
       (sort (map fst (confirmed_by_trade hs))) = Inr rows" and
    ps: "ps = sort_key lp_posting_id (concat rows)" and ver: "verify_structural_conservation D ps = Inr ()"
    using assms by (rule postings_Inr)
  let ?E = "\<lambda>tid. the (map_of (map (\<lambda>e. (au_venue_trade_id e, e)) es) tid)"
  let ?ks = "sort (map fst (confirmed_by_trade hs))"
  have dist: "distinct (map au_venue_trade_id es)"
    using es by (rule ledger_economics_facts)
  have dist_us: "distinct (map ei_intent_id us)"
    using us by (rule ledger_intents_facts)
  have all: "mset (map ?E ?ks) = mset es"
    using distinct_confirmed [OF trade_history_ids [OF hs]] keys by (intro lookup_all dist) simp_all
  show thesis
  proof (rule that [OF us es _ _ _ _ ver])
    fix A eff assume eff: "\<And>e rs. trade_rows D e = Inr rs \<Longrightarrow> account_balance A rs = eff e"
    have "account_balance A ps = account_balance A (concat rows)"
      unfolding ps by (rule account_balance_mset) simp
    also have "\<dots> = sum_list (map eff (map ?E ?ks))"
      using booked_balance [OF rows eff] by (simp add: comp_def)
    also have "\<dots> = sum_list (map eff es)"
      using all by (rule sum_list_mset_eq)
    finally show "account_balance A ps = sum_list (map eff es)" .
  next
    have es_set: "set es = ?E ` fst ` set (confirmed_by_trade hs)"
      using mset_eq_setD [OF all] by simp
    show "\<forall>e \<in> set es. \<exists>i \<in> set us. \<exists>trade \<in> set trades. validated_trade_binding i trade e = Inr ()"
    proof
      fix e assume "e \<in> set es"
      then obtain tid trade where tt: "(tid, trade) \<in> set (confirmed_by_trade hs)" "e = ?E tid"
        unfolding es_set by auto
      then obtain i where i: "map_of (map (\<lambda>i. (ei_intent_id i, i)) us) (the (te_intent_id trade)) = Some i"
        "validated_trade_binding i trade e = Inr ()"
        using bind_fold_each [OF run, of tid trade] by auto
      have "i \<in> set us"
        using map_of_SomeD [OF i(1)] by auto
      moreover obtain h where "h \<in> set hs" "th_confirmed_terminal h = Some trade"
        using tt(1) by (auto simp: confirmed_by_trade_member)
      then have "trade \<in> set trades"
        by (rule confirmed_terminal_in_trades [OF hs])
      ultimately show "\<exists>i \<in> set us. \<exists>trade \<in> set trades. validated_trade_binding i trade e = Inr ()"
        using i(2) by blast
    qed
  next
    have "totals_inv [] \<lparr>it_intent_order_ids = [], it_order_intent_ids = [], it_sizes = [], it_notionals = []\<rparr>"
      by (simp add: totals_inv_def dict_total_def size_total_def spend_total_def)
    from totals_inv_fold [OF this run] have inv: "totals_inv (map ?E ?ks) totals"
      by (simp add: sort_key_fst_map [symmetric] comp_def)
    show "\<forall>i \<in> set us. \<not> opt_all (\<lambda>b. size_total (ei_intent_id i) es \<le> dval b) (ei_base_size i) \<or>
       \<not> opt_all (\<lambda>m. spend_total (ei_intent_id i) es \<le> dval m) (ei_maximum_spend i) \<longrightarrow>
       ei_intent_id i \<notin> au_intent_id ` set es"
    proof (intro ballI impI notI)
      fix i assume i: "i \<in> set us" and over: "\<not> opt_all (\<lambda>b. size_total (ei_intent_id i) es \<le> dval b) (ei_base_size i) \<or>
         \<not> opt_all (\<lambda>m. spend_total (ei_intent_id i) es \<le> dval m) (ei_maximum_spend i)"
        and "ei_intent_id i \<in> au_intent_id ` set es"
      then have "ei_intent_id i \<in> fst ` set (it_sizes totals)"
        using inv mset_eq_setD [OF all] by (simp add: totals_inv_def)
      then obtain total where entry: "(ei_intent_id i, total) \<in> set (it_sizes totals)" by auto
      have source: "the (map_of (map (\<lambda>i. (ei_intent_id i, i)) us) (ei_intent_id i)) = i"
        using dist_us i by (simp add: comp_def map_of_eq_Some_iff image_iff)
      have "dict_total (it_sizes totals) (ei_intent_id i) = total"
        using entry inv by (simp add: dict_total_def totals_inv_def)
      then have total: "dval total = size_total (ei_intent_id i) es"
        "dval (dict_total (it_notionals totals) (ei_intent_id i)) = spend_total (ei_intent_id i) es"
        using inv size_total_mset [OF all] spend_total_mset [OF all] by (auto simp: totals_inv_def)
      have "check_intent_bounds (map (\<lambda>i. (ei_intent_id i, i)) us) totals (ei_intent_id i, total) = Inr ()"
        using list_all2_right [OF bounds [unfolded mapE_Inr] entry] by auto
      then show False
        using over by (auto simp: check_intent_bounds_def source Let_def dlt_iff total not_less split: if_splits)
    qed
  next
    show "sorted (map lp_posting_id ps)" by (simp add: ps)
  qed
qed

section \<open>What the structural check establishes\<close>

definition totals_at :: "('k, dec \<times> dec) dict \<Rightarrow> 'k \<Rightarrow> dec \<times> dec" where
  "totals_at d k = (case map_of d k of None \<Rightarrow> (dec0, dec0) | Some t \<Rightarrow> t)"

definition totals_ok ::
  "(live_ledger_posting \<Rightarrow> 'k) \<Rightarrow> live_ledger_posting list \<Rightarrow> ('k, dec \<times> dec) dict \<Rightarrow> bool" where
  "totals_ok key ps d \<longleftrightarrow>
     distinct (map fst d) \<and> fst ` set d = key ` set ps \<and>
     (\<forall>k. dval (fst (totals_at d k)) = sum_list (map row_debit (filter (\<lambda>p. key p = k) ps)) \<and>
          dval (snd (totals_at d k)) = sum_list (map row_credit (filter (\<lambda>p. key p = k) ps)))"

lemma add_totals_ok:
  assumes "totals_ok key ps d" and "add_totals (key p) p d = Inr d'"
  shows "totals_ok key (ps @ [p]) d'"
proof -
  obtain x y where add: "exact_add (fst (totals_at d (key p))) (lp_debit_amount p) = Inr x"
    "exact_add (snd (totals_at d (key p))) (lp_credit_amount p) = Inr y"
    and d': "d' = AList.update (key p) (x, y) d"
    using assms(2) by (auto simp: add_totals_def Let_def bindE_eq_Inr totals_at_def case_prod_beta)
  have at: "totals_at (AList.update (key p) (x, y) d) k = (if k = key p then (x, y) else totals_at d k)" for k
    by (simp add: totals_at_def update_conv')
  have "fst ` set d' = insert (key p) (fst ` set d)"
    unfolding d' dom_map_of_conv_image_fst [symmetric] by (auto simp: update_conv')
  then show ?thesis
    using assms(1) ledger_add.add_val [OF add(1)] ledger_add.add_val [OF add(2)]
    by (auto simp: totals_ok_def at d' distinct_update row_debit_def row_credit_def)
qed

definition row_sound :: "digests \<Rightarrow> live_ledger_posting \<Rightarrow> bool" where
  "row_sound D p \<longleftrightarrow>
     lp_posting_id p = canonical_posting_id D p \<and>
     lp_intent_id p \<noteq> None \<and> lp_venue_order_id p \<noteq> None \<and> lp_venue_trade_id p \<noteq> None \<and>
     lp_debit_account p \<noteq> lp_credit_account p \<and>
     valid_account_name (lp_debit_account p) (lp_asset_id p) \<and>
     valid_account_name (lp_credit_account p) (lp_asset_id p)"

definition conservation_inv :: "digests \<Rightarrow> live_ledger_posting list \<Rightarrow> conservation_state \<Rightarrow> bool" where
  "conservation_inv D ps st \<longleftrightarrow>
     set (cs_seen_ids st) = lp_posting_id ` set ps \<and> distinct (map lp_posting_id ps) \<and>
     list_all (row_sound D) ps \<and> cs_pairs st = group_by pair_key ps \<and>
     totals_ok evidence_group ps (cs_group_totals st) \<and> totals_ok lp_asset_id ps (cs_asset_totals st)"

lemma conservation_step_inv:
  assumes "conservation_inv D ps st" and "conservation_step D st p = Inr st'"
  shows "conservation_inv D (ps @ [p]) st'"
proof -
  obtain g a where g: "add_totals (evidence_group p) p (cs_group_totals st) = Inr g"
    and a: "add_totals (lp_asset_id p) p (cs_asset_totals st) = Inr a"
    and st': "st' = \<lparr>cs_seen_ids = lp_posting_id p # cs_seen_ids st,
      cs_pairs = dict_append (pair_key p) p (cs_pairs st), cs_group_totals = g, cs_asset_totals = a\<rparr>"
    and new: "lp_posting_id p \<notin> set (cs_seen_ids st)" and sound: "row_sound D p"
    using assms(2) unfolding conservation_step_def bindE_eq_Inr checkE_Inr except_as_Inr
    by (auto simp: row_sound_def)
  have "group_by pair_key (ps @ [p]) = dict_append (pair_key p) p (group_by pair_key ps)"
    by (simp add: group_by_def)
  then show ?thesis
    using assms(1) add_totals_ok [where key = evidence_group and ps = ps, OF _ g]
      add_totals_ok [where key = lp_asset_id and ps = ps, OF _ a] new sound
    by (auto simp: conservation_inv_def st')
qed

lemma conservation_fold_inv:
  "conservation_inv D ps st \<Longrightarrow> foldE (conservation_step D) st qs = Inr st' \<Longrightarrow>
     conservation_inv D (ps @ qs) st'"
proof (induction qs arbitrary: ps st)
  case Nil
  then show ?case by simp
next
  case (Cons q qs)
  then obtain st1 where "conservation_step D st q = Inr st1"
    and rest: "foldE (conservation_step D) st1 qs = Inr st'" by (auto simp: bindE_eq_Inr)
  with Cons.prems(1) have "conservation_inv D (ps @ [q]) st1" by (blast intro: conservation_step_inv)
  from Cons.IH [OF this rest] show ?case by simp
qed

lemma pair_totals:
  "foldE (\<lambda>(debit_total, credit_total) row.
       bindE (exact_add debit_total (lp_debit_amount row)) (\<lambda>debit_total'.
       bindE (exact_add credit_total (lp_credit_amount row)) (\<lambda>credit_total'.
       Inr (debit_total', credit_total')))) (x, y) rows = Inr (d, c) \<Longrightarrow>
   dval d = dval x + sum_list (map row_debit rows) \<and> dval c = dval y + sum_list (map row_credit rows)"
  by (induction rows arbitrary: x y)
    (auto simp: bindE_eq_Inr row_debit_def row_credit_def dest!: ledger_add.add_val)

text \<open>A checked pair: two rows, one with the debit and one with the credit, of the same amount.\<close>

lemma check_pair_Inr:
  assumes "check_pair rows = Inr u" and "\<forall>p \<in> set rows. validate_posting p = Inr p" and "p \<in> set rows"
  shows "\<exists>q. (rows = [p, q] \<or> rows = [q, p]) \<and> row_debit q = row_credit p \<and> row_credit q = row_debit p"
proof -
  obtain d c where fold: "foldE (\<lambda>(debit_total, credit_total) row.
       bindE (exact_add debit_total (lp_debit_amount row)) (\<lambda>debit_total'.
       bindE (exact_add credit_total (lp_credit_amount row)) (\<lambda>credit_total'.
       Inr (debit_total', credit_total')))) (dec0, dec0) rows = Inr (d, c)"
    and shape: "length rows = 2" "length (filter (\<lambda>row. dlt dec0 (lp_debit_amount row)) rows) = 1"
      "length (filter (\<lambda>row. dlt dec0 (lp_credit_amount row)) rows) = 1" "deq d c"
    using assms(1) by (auto simp: check_pair_def bindE_eq_Inr except_as_Inr split: if_splits)
  obtain a b where rows: "rows = [a, b]"
    using shape(1) by (auto simp: length_Suc_conv numeral_2_eq_2)
  have sums: "row_debit a + row_debit b = row_credit a + row_credit b"
    using pair_totals [OF fold] shape(4) by (simp add: rows deq_iff)
  have valid: "validate_posting a = Inr a" "validate_posting b = Inr b"
    using assms(2) by (simp_all add: rows)
  have one: "(0 < row_debit a) \<noteq> (0 < row_debit b)"
    using shape(2) by (auto simp: rows dlt_iff row_debit_def split: if_splits)
  have "row_debit b = row_credit a \<and> row_credit b = row_debit a"
    using one sums validate_posting_Inr(2-4) [OF valid(1)] validate_posting_Inr(2-4) [OF valid(2)]
    unfolding row_debit_def row_credit_def by linarith
  with assms(3) show ?thesis by (auto simp: rows)
qed

lemma verify_structural_Inr:
  assumes "verify_structural_conservation D ps = Inr u"
  shows "length ps \<le> MAX_LIVE_EVIDENCE_ITEMS" "\<forall>p \<in> set ps. validate_posting p = Inr p"
    "distinct (map lp_posting_id ps)" "list_all (row_sound D) ps"
    "group_entries.balanced (filter (\<lambda>p. evidence_group p = g) ps)"
    "asset_entries.balanced (filter (\<lambda>p. lp_asset_id p = a) ps)"
    "\<forall>p \<in> set ps. check_pair (filter (\<lambda>q. pair_key q = pair_key p) ps) = Inr ()"
proof -
  have "snapshot_sequence validate_posting ''POSTING_INVALID'' ps = Inr ps"
    and tail: "bindE (foldE (conservation_step D)
       \<lparr>cs_seen_ids = [], cs_pairs = [], cs_group_totals = [], cs_asset_totals = []\<rparr> ps) (\<lambda>st.
     bindE (mapE check_pair (map snd (cs_pairs st))) (\<lambda>_.
     if list_ex (\<lambda>(debit, credit). \<not> deq debit credit) (map snd (cs_group_totals st)) \<or>
        list_ex (\<lambda>(debit, credit). \<not> deq debit credit) (map snd (cs_asset_totals st))
     then Inl (LiveLedgerError ''POSTING_CONSERVATION_INVALID'') else Inr ())) = Inr u"
    using assms by (auto simp: verify_structural_conservation_def bindE_eq_Inr
        snapshot_sequence_Inr [OF validate_posting_Inr(1)])
  then have len: "length ps \<le> MAX_LIVE_EVIDENCE_ITEMS" and valid: "\<forall>p \<in> set ps. validate_posting p = Inr p"
    by (simp_all add: snapshot_sequence_Inr [OF validate_posting_Inr(1)])
  obtain st where run: "foldE (conservation_step D)
       \<lparr>cs_seen_ids = [], cs_pairs = [], cs_group_totals = [], cs_asset_totals = []\<rparr> ps = Inr st"
    and rest: "bindE (mapE check_pair (map snd (cs_pairs st))) (\<lambda>_.
     if list_ex (\<lambda>(debit, credit). \<not> deq debit credit) (map snd (cs_group_totals st)) \<or>
        list_ex (\<lambda>(debit, credit). \<not> deq debit credit) (map snd (cs_asset_totals st))
     then Inl (LiveLedgerError ''POSTING_CONSERVATION_INVALID'') else Inr ()) = Inr u"
    using tail unfolding bindE_eq_Inr [of "foldE _ _ _"] by blast
  obtain units where pairs: "mapE check_pair (map snd (cs_pairs st)) = Inr units"
    and groups: "\<forall>t \<in> set (cs_group_totals st). deq (fst (snd t)) (snd (snd t))"
    and assets: "\<forall>t \<in> set (cs_asset_totals st). deq (fst (snd t)) (snd (snd t))"
    using rest by (auto simp: bindE_eq_Inr list_ex_iff case_prod_beta split: if_splits)
  have inv: "conservation_inv D ps st"
    using conservation_fold_inv [OF _ run, of "[]"]
    by (simp add: conservation_inv_def totals_ok_def totals_at_def group_by_def)
  show "length ps \<le> MAX_LIVE_EVIDENCE_ITEMS" "\<forall>p \<in> set ps. validate_posting p = Inr p"
    by (fact len, fact valid)
  show "distinct (map lp_posting_id ps)" "list_all (row_sound D) ps"
    using inv by (simp_all add: conservation_inv_def)
  have balanced: "sum_list (map row_debit (filter (\<lambda>p. key p = k) ps)) =
      sum_list (map row_credit (filter (\<lambda>p. key p = k) ps))"
    if ok: "totals_ok key ps d" and eqs: "\<forall>t \<in> set d. deq (fst (snd t)) (snd (snd t))"
    for key :: "live_ledger_posting \<Rightarrow> 'k" and d k
  proof -
    have "deq (fst (totals_at d k)) (snd (totals_at d k))"
      using eqs by (auto simp: totals_at_def deq_iff split: option.splits dest!: map_of_SomeD)
    with ok show ?thesis
      by (simp add: totals_ok_def deq_iff)
  qed
  show "group_entries.balanced (filter (\<lambda>p. evidence_group p = g) ps)"
    "asset_entries.balanced (filter (\<lambda>p. lp_asset_id p = a) ps)"
    unfolding group_entries.balanced_def asset_entries.balanced_def
    using inv groups assets by (auto simp: conservation_inv_def intro!: balanced)
  show "\<forall>p \<in> set ps. check_pair (filter (\<lambda>q. pair_key q = pair_key p) ps) = Inr ()"
  proof
    fix p assume "p \<in> set ps"
    then have "pair_key p \<in> fst ` set (cs_pairs st)"
      using inv keys_group_by [of pair_key ps] by (simp add: conservation_inv_def)
    then obtain g where entry: "(pair_key p, g) \<in> set (cs_pairs st)" by auto
    then have g: "g = filter (\<lambda>q. pair_key q = pair_key p) ps"
      using inv group_by_entry [of "pair_key p" g pair_key ps] by (simp add: conservation_inv_def)
    have "g \<in> set (map snd (cs_pairs st))"
      using image_eqI [of g snd, OF _ entry] by simp
    then obtain u where "check_pair g = Inr u"
      using list_all2_right [OF pairs [unfolded mapE_Inr]] by blast
    then show "check_pair (filter (\<lambda>q. pair_key q = pair_key p) ps) = Inr ()"
      by (simp add: g)
  qed
qed

section \<open>Properties\<close>

text \<open>A buy of ten contracts at 0.50 with a fee of 0.01, for the examples.\<close>

definition example_intent :: execution_intent where
  "example_intent = \<lparr>
     ei_lineage_hashes = [], ei_intent_id = Uuid 558565, ei_plan_id = Uuid 9, ei_leg_sequence = 0, ei_token_id = ''yes'',
     ei_side = Buy, ei_limit_price = Dec False 60 (- 2), ei_tick_size = Dec False 1 (- 2),
     ei_exchange_kind = Standard, ei_base_size = Some (Dec False 10 0), ei_maximum_spend = None,
     ei_order_type = FOK, ei_fee_rate_bps_cap = 100, ei_rounding_mode = ''down'',
     ei_account_fingerprint = Sha256 3, ei_capability_fingerprint = Sha256 4, ei_created_at = 0, ei_deadline = 100,
     ei_protocol_version = ''v1'', 
     ei_intent_fingerprint = Sha256 233227\<rparr>"

definition example_trade :: venue_trade_event where
  "example_trade = (example_trade_event 2 CONFIRMED 20)\<lparr>te_intent_id := Some (Uuid 558565)\<rparr>"

definition example_economics :: trade_economics where
  "example_economics = \<lparr>
     au_account_fingerprint = Sha256 3, au_intent_id = Uuid 558565, au_venue_order_id = ''order-1'',
     au_venue_trade_id = ''trade-1'', au_trade_event_hash = Sha256 2, au_cash_asset_id = ''usdc'',
     au_position_asset_id = ''yes'', au_side = Buy, au_price = Dec False 50 (- 2), au_size = Dec False 10 0,
     au_fee = Dec False 1 (- 2), au_cash_quantum = Dec False 1 (- 6), au_position_quantum = Dec False 1 (- 2),
     au_fee_hash = Sha256 21, au_settlement_hash = Sha256 22, au_source_hash = Sha256 23, au_balance_evidence_hashes = [Sha256 24],
     au_occurred_at = 15, au_information_cutoff = 30, au_protocol_version = ''v1'',
     au_realized_pnl = None, au_cost_basis_evidence_hash = None, au_economics_fingerprint = None\<rparr>"

definition example_booking :: "live_ledger_posting list result" where
  "example_booking =
     postings_for_confirmed_trades example_digests [example_intent] [example_trade] [example_economics]"


lemma example_booking_rows: "case example_booking of Inr ps \<Rightarrow> length ps = 6 | _ \<Rightarrow> False"
  by code_simp

lemma example_booking_Inr:
  obtains ps where
    "postings_for_confirmed_trades example_digests [example_intent] [example_trade] [example_economics] = Inr ps"
    "length ps = 6"
  using example_booking_rows by (auto simp: example_booking_def split: sum.splits)

text \<open>
  C1: the postings of a successful booking move exactly what the authoritative economics say: for
  every asset, the balances of the cash, position, fee and profit accounts are the exact sums, over
  the booked trades, of price times size (out for a buy, in for a sale) less fees, of sizes, of
  fees, and of realized profits.
\<close>

theorem postings_move_exact_amounts:
  assumes "postings_for_confirmed_trades D intents trades economics = Inr ps"
  shows "\<exists>es. ledger_economics D economics = Inr es \<and>
    account_balance (account ''venue_cash'' a) ps =
      sum_list (map (\<lambda>e. if au_cash_asset_id e = a then cash_flow e else 0) es) \<and>
    account_balance (account ''venue_position'' a) ps =
      sum_list (map (\<lambda>e. if au_position_asset_id e = a then position_flow e else 0) es) \<and>
    account_balance (account ''fees_paid'' a) ps =
      sum_list (map (\<lambda>e. if au_cash_asset_id e = a then dval (au_fee e) else 0) es) \<and>
    account_balance (account ''realized_pnl'' a) ps =
      sum_list (map (\<lambda>e. if au_cash_asset_id e = a then - pnl_value e else 0) es)"
proof -
  obtain us es where es: "ledger_economics D economics = Inr es"
    and sums: "\<And>A eff. (\<And>e rs. trade_rows D e = Inr rs \<Longrightarrow> account_balance A rs = eff e) \<Longrightarrow>
       account_balance A ps = sum_list (map eff es)"
    using assms by (rule postings_economics) blast
  show ?thesis
    by (intro exI [of _ es] conjI es sums trade_rows_facts)
qed

lemma postings_move_exact_amounts_witness:
  "\<exists>ps. example_booking = Inr ps \<and>
     (\<exists>es. ledger_economics example_digests [example_economics] = Inr es \<and>
        account_balance (account ''venue_position'' ''yes'') ps =
          sum_list (map (\<lambda>e. if au_position_asset_id e = ''yes'' then position_flow e else 0) es))"
  by (rule example_booking_Inr) (auto simp: example_booking_def dest: postings_move_exact_amounts [where a = "''yes''"])

text \<open>
  C26: a booking is conserved: identifiers are distinct and derived from the row's content, every
  evidence group and every asset balances, and every row has exactly one counterpart with the
  opposite amounts under the same evidence, accounts and asset.
\<close>

theorem postings_conserved:
  assumes "verify_structural_conservation D ps = Inr u"
  shows "distinct (map lp_posting_id ps) \<and> list_all (row_sound D) ps \<and>
    (\<forall>g. sum_list (map row_debit (filter (\<lambda>p. evidence_group p = g) ps)) =
         sum_list (map row_credit (filter (\<lambda>p. evidence_group p = g) ps))) \<and>
    (\<forall>a. sum_list (map row_debit (filter (\<lambda>p. lp_asset_id p = a) ps)) =
         sum_list (map row_credit (filter (\<lambda>p. lp_asset_id p = a) ps))) \<and>
    (\<forall>p \<in> set ps. \<exists>q. filter (\<lambda>r. pair_key r = pair_key p) ps \<in> {[p, q], [q, p]} \<and>
       row_debit q = row_credit p \<and> row_credit q = row_debit p)"
proof (intro conjI allI ballI)
  note facts = verify_structural_Inr [OF assms]
  show "distinct (map lp_posting_id ps)" "list_all (row_sound D) ps"
    by (fact facts(3), fact facts(4))
  show "sum_list (map row_debit (filter (\<lambda>p. evidence_group p = g) ps)) =
      sum_list (map row_credit (filter (\<lambda>p. evidence_group p = g) ps))" for g
    using facts(5) by (simp add: group_entries.balanced_def)
  show "sum_list (map row_debit (filter (\<lambda>p. lp_asset_id p = a) ps)) =
      sum_list (map row_credit (filter (\<lambda>p. lp_asset_id p = a) ps))" for a
    using facts(6) by (simp add: asset_entries.balanced_def)
  fix p assume p: "p \<in> set ps"
  have "\<forall>r \<in> set (filter (\<lambda>r. pair_key r = pair_key p) ps). validate_posting r = Inr r"
    using facts(2) by simp
  from check_pair_Inr [OF bspec [OF facts(7) p] this, of p] p
  show "\<exists>q. filter (\<lambda>r. pair_key r = pair_key p) ps \<in> {[p, q], [q, p]} \<and>
       row_debit q = row_credit p \<and> row_credit q = row_debit p" by auto
qed

lemma postings_conserved_witness:
  "\<exists>ps. example_booking = Inr ps \<and> length ps = 6 \<and> distinct (map lp_posting_id ps)"
proof (rule example_booking_Inr)
  fix ps assume run: "postings_for_confirmed_trades example_digests [example_intent] [example_trade]
      [example_economics] = Inr ps" and len: "length ps = 6"
  have "verify_structural_conservation example_digests ps = Inr ()"
    by (rule postings_Inr [OF run])
  from postings_conserved [OF this] run len show ?thesis
    by (auto simp: example_booking_def)
qed

text \<open>
  The postings generated for one trade balance by construction, in every evidence group and in
  every asset, before any check.
\<close>

lemma trade_rows_balanced:
  assumes "trade_rows D e = Inr rows"
  shows "sum_list (map row_debit (filter (\<lambda>p. evidence_group p = g) rows)) =
      sum_list (map row_credit (filter (\<lambda>p. evidence_group p = g) rows)) \<and>
    sum_list (map row_debit (filter (\<lambda>p. lp_asset_id p = a) rows)) =
      sum_list (map row_credit (filter (\<lambda>p. lp_asset_id p = a) rows))"
  using trade_rows_facts(5) [OF assms, of g] trade_rows_facts(6) [OF assms, of a]
  by (simp add: group_entries.balanced_def asset_entries.balanced_def)

text \<open>
  C4: no intent is exceeded.  Over all the trades booked for an intent, the sizes add up to at
  most its base size and the notionals to at most its maximum spend, when it sets them.
\<close>

theorem intent_limits_respected:
  assumes "postings_for_confirmed_trades D intents trades economics = Inr ps"
  shows "\<exists>us es. ledger_intents D intents = Inr us \<and> ledger_economics D economics = Inr es \<and>
    (\<forall>i \<in> set us. opt_all (\<lambda>b. size_total (ei_intent_id i) es \<le> dval b) (ei_base_size i) \<and>
       opt_all (\<lambda>m. spend_total (ei_intent_id i) es \<le> dval m) (ei_maximum_spend i))"
proof -
  obtain us es where us: "ledger_intents D intents = Inr us" and es: "ledger_economics D economics = Inr es"
    and over: "\<forall>i \<in> set us. \<not> opt_all (\<lambda>b. size_total (ei_intent_id i) es \<le> dval b) (ei_base_size i) \<or>
       \<not> opt_all (\<lambda>m. spend_total (ei_intent_id i) es \<le> dval m) (ei_maximum_spend i) \<longrightarrow>
       ei_intent_id i \<notin> au_intent_id ` set es"
    using assms by (rule postings_economics) blast
  have "opt_all (\<lambda>b. size_total (ei_intent_id i) es \<le> dval b) (ei_base_size i) \<and>
      opt_all (\<lambda>m. spend_total (ei_intent_id i) es \<le> dval m) (ei_maximum_spend i)" if i: "i \<in> set us" for i
  proof (cases "ei_intent_id i \<in> au_intent_id ` set es")
    case True
    with over i show ?thesis by blast
  next
    case False
    then have none: "filter (\<lambda>e. au_intent_id e = ei_intent_id i) es = []"
      unfolding filter_empty_conv by (metis image_eqI)
    have "validate_intent D i = Inr i"
      using ledger_intents_facts(2) [OF us] i by blast
    then have "opt_all positive_decimal (ei_base_size i)" "opt_all positive_decimal (ei_maximum_spend i)"
      by (simp_all add: validate_intent_Inr intent_fields_ok_def)
    then show ?thesis
      by (auto simp: size_total_def spend_total_def none opt_all_def positive_decimal_iff split: option.splits)
  qed
  with us es show ?thesis by blast
qed

lemma intent_limits_respected_witness:
  "\<exists>ps. example_booking = Inr ps \<and>
     (\<exists>us es. ledger_intents example_digests [example_intent] = Inr us \<and>
        ledger_economics example_digests [example_economics] = Inr es \<and>
        (\<forall>i \<in> set us. opt_all (\<lambda>b. size_total (ei_intent_id i) es \<le> dval b) (ei_base_size i)))"
  by (rule example_booking_Inr) (auto simp: example_booking_def dest!: intent_limits_respected)

text \<open>
  C12: every booked trade is evidence-bound: there is an intent and a confirmed trade event of the
  caller's evidence with the same intent, order, trade and raw hash; the price is within the
  intent's limit and on its tick, the fee is at most the capped basis points of the notional, and
  the trade happened between the intent's creation and its deadline, before it was received.
\<close>

theorem booked_trades_bound:
  assumes "postings_for_confirmed_trades D intents trades economics = Inr ps"
    and "ledger_economics D economics = Inr es" and "e \<in> set es"
  shows "\<exists>i \<in> set intents. \<exists>t \<in> set trades. validate_intent D i = Inr i \<and>
    te_normalized_state t = CONFIRMED \<and> te_terminal t \<and> te_intent_id t = Some (ei_intent_id i) \<and>
    te_venue_trade_id t = au_venue_trade_id e \<and> te_venue_order_id t = Some (au_venue_order_id e) \<and>
    te_raw_event_hash t = au_trade_event_hash e \<and> au_intent_id e = ei_intent_id i \<and>
    au_side e = ei_side i \<and> au_position_asset_id e = ei_token_id i \<and>
    (ei_side i = Buy \<longrightarrow> dval (au_price e) \<le> dval (ei_limit_price i)) \<and>
    (ei_side i = Sell \<longrightarrow> dval (ei_limit_price i) \<le> dval (au_price e)) \<and>
    (\<exists>k::int. dval (au_price e) = of_int k * dval (ei_tick_size i)) \<and>
    dval (au_fee e) * 10000 \<le> dval (au_price e) * dval (au_size e) * of_int (ei_fee_rate_bps_cap i) \<and>
    ei_created_at i \<le> au_occurred_at e \<and> au_occurred_at e \<le> ei_deadline i \<and>
    au_occurred_at e \<le> te_received_at t"
proof -
  obtain us es' where us: "ledger_intents D intents = Inr us" and es': "ledger_economics D economics = Inr es'"
    and bound: "\<forall>e \<in> set es'. \<exists>i \<in> set us. \<exists>trade \<in> set trades. validated_trade_binding i trade e = Inr ()"
    using assms(1) by (rule postings_economics) blast
  from es' assms(2,3) bound obtain i t where i: "i \<in> set us" and t: "t \<in> set trades"
    and bind: "validated_trade_binding i t e = Inr ()" by auto
  from bind obtain n f c where vals: "dval n = dval (au_price e) * dval (au_size e)"
    "dval f = dval (au_fee e) * 10000" "dval c = dval n * of_int (ei_fee_rate_bps_cap i)"
    and ok: "trade_binding_ok i t e n f c"
    by (rule validated_trade_binding_Inr)
  have "i \<in> set intents" "validate_intent D i = Inr i"
    using ledger_intents_facts(2,3) [OF us] i by auto
  moreover have "\<exists>k::int. dval (au_price e) = of_int k * dval (ei_tick_size i)"
    using ok by (auto simp: trade_binding_ok_def Let_def is_quantized_iff)
  ultimately show ?thesis
    using t ok vals by (intro bexI [of _ i] bexI [of _ t])
      (simp_all add: trade_binding_ok_def Let_def dlt_iff dle_iff split: if_splits)
qed

lemma booked_trades_bound_witness:
  "\<exists>e i t. ledger_economics example_digests [example_economics] = Inr [e] \<and>
     i \<in> {example_intent} \<and> t \<in> {example_trade} \<and> au_intent_id e = ei_intent_id i"
proof (rule example_booking_Inr)
  fix ps assume run: "postings_for_confirmed_trades example_digests [example_intent] [example_trade]
      [example_economics] = Inr ps"
  have "case ledger_economics example_digests [example_economics] of Inr [e] \<Rightarrow> True | _ \<Rightarrow> False"
    by code_simp
  then obtain e where e: "ledger_economics example_digests [example_economics] = Inr [e]"
    by (auto split: sum.splits list.splits)
  from booked_trades_bound [OF run e, of e] e show ?thesis by auto
qed

lemma posting_eq_refl: "posting_eq p p"
  by (simp add: posting_eq_def deq_iff)

text \<open>
  C3: verification accepts the postings that the ledger itself generates from the same evidence.
\<close>

theorem verification_accepts_booking:
  assumes "postings_for_confirmed_trades D intents trades economics = Inr ps"
  shows "verify_live_conservation D ps intents trades economics = Inr ()"
proof -
  have ver: "verify_structural_conservation D ps = Inr ()" and sorted: "sorted (map lp_posting_id ps)"
    using assms by (rule postings_economics, simp)+
  have "snapshot_sequence validate_posting ''POSTING_INVALID'' ps = Inr ps"
    using verify_structural_Inr(1,2) [OF ver] by (simp add: snapshot_sequence_Inr [OF validate_posting_Inr(1)])
  moreover have "sort_key lp_posting_id ps = ps"
    using sorted by (rule sort_key_id_if_sorted)
  ultimately show ?thesis
    using ver assms by (simp add: verify_live_conservation_def list_all2_refl posting_eq_refl)
qed

lemma verification_accepts_booking_witness:
  "\<exists>ps. length ps = 6 \<and>
     verify_live_conservation example_digests ps [example_intent] [example_trade] [example_economics] = Inr ()"
  by (rule example_booking_Inr) (auto intro: verification_accepts_booking)

lemma posting_identity_payload_inj:
  "posting_identity_payload p = posting_identity_payload q \<Longrightarrow> lp_posting_id p = lp_posting_id q \<Longrightarrow> p = q"
  by (cases p; cases q) (auto simp: posting_identity_payload_def)

text \<open>
  C2: verification accepts nothing else.  Whatever postings are accepted, in whatever order, are
  the canonical postings of the evidence, unless two different postings of the two lists have the
  same derived identifier.
\<close>

theorem verification_only_canonical:
  assumes "verify_live_conservation D ps intents trades economics = Inr ()"
    and "postings_for_confirmed_trades D intents trades economics = Inr canonical"
    and "\<forall>p \<in> set ps. \<forall>q \<in> set canonical. canonical_posting_id D p = canonical_posting_id D q \<longrightarrow>
      posting_identity_payload p = posting_identity_payload q"
  shows "sort_key lp_posting_id ps = canonical \<and> mset ps = mset canonical"
proof -
  have ver: "verify_structural_conservation D ps = Inr ()"
    and eq: "list_all2 posting_eq (sort_key lp_posting_id ps) canonical"
    using assms(1,2) by (auto simp: verify_live_conservation_def bindE_eq_Inr
        snapshot_sequence_Inr [OF validate_posting_Inr(1)] split: if_splits)
  have ver': "verify_structural_conservation D canonical = Inr ()"
    using assms(2) by (rule postings_economics)
  have same: "p = q" if "p \<in> set ps" "q \<in> set canonical" "posting_eq p q" for p q
  proof (rule posting_identity_payload_inj)
    show ids: "lp_posting_id p = lp_posting_id q"
      using that(3) by (cases p; cases q) (simp add: posting_eq_def)
    have "lp_posting_id p = canonical_posting_id D p" "lp_posting_id q = canonical_posting_id D q"
      using verify_structural_Inr(4) [OF ver] verify_structural_Inr(4) [OF ver'] that(1,2)
      by (simp_all add: list_all_iff row_sound_def)
    with ids assms(3) that(1,2) show "posting_identity_payload p = posting_identity_payload q" by metis
  qed
  have "list_all2 (=) (sort_key lp_posting_id ps) canonical"
    using eq by (rule list.rel_mono_strong) (simp add: same)
  then have "sort_key lp_posting_id ps = canonical"
    by (simp add: list.rel_eq)
  then show ?thesis
    by (metis mset_sort)
qed

lemma verification_only_canonical_witness:
  "\<exists>ps. length ps = 6 \<and> sort_key lp_posting_id ps = ps \<and>
     verify_live_conservation example_digests ps [example_intent] [example_trade] [example_economics] = Inr ()"
proof (rule example_booking_Inr)
  fix ps assume run: "postings_for_confirmed_trades example_digests [example_intent] [example_trade]
      [example_economics] = Inr ps" and len: "length ps = 6"
  have ver: "verify_structural_conservation example_digests ps = Inr ()"
    using run by (rule postings_economics)
  have acc: "verify_live_conservation example_digests ps [example_intent] [example_trade]
      [example_economics] = Inr ()"
  proof -
    have "case example_booking of Inr qs \<Rightarrow> verify_live_conservation example_digests qs [example_intent]
        [example_trade] [example_economics] = Inr () | _ \<Rightarrow> False" by code_simp
    with run show ?thesis by (simp add: example_booking_def)
  qed
  have inj: "p = q" if "p \<in> set ps" "q \<in> set ps" "canonical_posting_id example_digests p =
      canonical_posting_id example_digests q" for p q
  proof -
    have "lp_posting_id p = lp_posting_id q"
      using verify_structural_Inr(4) [OF ver] that by (simp add: list_all_iff row_sound_def)
    then show ?thesis
      using verify_structural_Inr(3) [OF ver] that(1,2) by (auto simp: distinct_map dest: inj_onD)
  qed
  have "sort_key lp_posting_id ps = ps \<and> mset ps = mset ps"
    by (rule verification_only_canonical [OF acc run]) (auto dest: inj)
  with len acc show ?thesis by blast
qed

end
