(* ===== verification/Kill_Switch.thy ===== *)
theory Kill_Switch
  imports Exec_Models
begin

text \<open>
  The append-only execution kill switch (\<open>predictions/execution/kill_switch.py\<close>): the state is a
  replay of the kill events, and only a reviewed clearance of the newest kill, recorded at or after
  it, releases it.  A clearance is any object with the three fields of the code's protocol; the
  \<open>value\<close> of its result is what the code compares.
\<close>

section \<open>State and replay\<close>

record kill_clearance =
  kc_kill_event_id :: uuid
  kc_occurred_at :: timestamp
  kc_result :: string

record kill_state =
  ks_engaged :: bool
  ks_latest_event :: "kill_switch_event option"

definition validate_chronological_unique_events :: "kill_switch_event list \<Rightarrow> unit result" where
  "validate_chronological_unique_events events =
     (let event_ids = map ke_kill_event_id events;
          ordering = map (\<lambda>event. (ke_occurred_at event, ke_kill_event_id event)) events
      in if length event_ids \<noteq> length (py_set event_ids) \<or> ordering \<noteq> sort ordering
         then Inl (ExecutionAuthorityError ''KILL_EVENT_HISTORY_INVALID'') else Inr ())"

definition clears :: "kill_switch_event \<Rightarrow> kill_clearance \<Rightarrow> bool" where
  "clears latest c \<longleftrightarrow> kc_kill_event_id c = ke_kill_event_id latest \<and>
     ke_occurred_at latest \<le> kc_occurred_at c \<and> kc_result c = ''CLEARED''"

definition derive_kill_state ::
  "kill_switch_event list \<Rightarrow> bool \<Rightarrow> kill_clearance list \<Rightarrow> kill_state result" where
  "derive_kill_state events production clearances =
     (if production \<and> events = [] then Inr \<lparr>ks_engaged = True, ks_latest_event = None\<rparr>
      else bindE (validate_chronological_unique_events events) (\<lambda>_.
        let latest_event = (if events = [] then None else Some (last events))
        in case latest_event of
             None \<Rightarrow> Inr \<lparr>ks_engaged = True, ks_latest_event = None\<rparr>
           | Some latest \<Rightarrow>
               if clearances = [] then Inr \<lparr>ks_engaged = True, ks_latest_event = Some latest\<rparr>
               else let cleared = filter (clears latest) clearances
                    in Inr \<lparr>ks_engaged = (cleared = []), ks_latest_event = Some latest\<rparr>))"

definition require_mutation_allowed :: "kill_state \<Rightarrow> unit result" where
  "require_mutation_allowed state =
     (if ks_engaged state then Inl (ExecutionAuthorityError ''EXECUTION_KILL_ENGAGED'') else Inr ())"

section \<open>What the replay decides\<close>

definition kill_history :: "kill_switch_event list \<Rightarrow> bool" where
  "kill_history events \<longleftrightarrow> distinct (map ke_kill_event_id events) \<and>
     sorted (map (\<lambda>event. (ke_occurred_at event, ke_kill_event_id event)) events)"

lemma validate_history_iff:
  "validate_chronological_unique_events events = Inr u \<longleftrightarrow> kill_history events"
  "validate_chronological_unique_events events = Inl e \<longleftrightarrow>
     \<not> kill_history events \<and> e = ExecutionAuthorityError ''KILL_EVENT_HISTORY_INVALID''"
  by (auto simp: validate_chronological_unique_events_def kill_history_def Let_def py_simps
      length_py_set_distinct [of "map _ _", simplified])

lemma derive_kill_state_engaged:
  "derive_kill_state events production cs = Inr s \<longleftrightarrow> kill_history events \<and>
     ks_engaged s = (events = [] \<or> \<not> (\<exists>c \<in> set cs. clears (last events) c)) \<and>
     ks_latest_event s = (if events = [] then None else Some (last events))"
proof (cases "events = []")
  case True
  have "kill_history []"
    by (simp add: kill_history_def)
  moreover from this have "validate_chronological_unique_events [] = Inr ()"
    by (simp add: validate_history_iff)
  ultimately show ?thesis
    using True by (cases s) (auto simp: derive_kill_state_def)
next
  case False
  then show ?thesis
    by (cases s) (auto simp: derive_kill_state_def bindE_eq_Inr validate_history_iff filter_empty_conv)
qed

text \<open>
  C29: a mutation is allowed exactly when the kill history is well formed (unique events in time
  order), holds at least one kill, and some supplied clearance names its newest kill, was recorded
  at or after it and has the result \<open>CLEARED\<close>; in particular an empty history never allows one.
\<close>

theorem mutation_allowed_iff:
  "bindE (derive_kill_state events production cs) require_mutation_allowed = Inr () \<longleftrightarrow>
     kill_history events \<and> events \<noteq> [] \<and>
     (\<exists>c \<in> set cs. kc_kill_event_id c = ke_kill_event_id (last events) \<and>
        ke_occurred_at (last events) \<le> kc_occurred_at c \<and> kc_result c = ''CLEARED'')"
proof -
  have "(\<exists>s. ks_engaged s = b \<and> ks_latest_event s = v \<and> \<not> ks_engaged s) \<longleftrightarrow> \<not> b" for b v
    by (metis kill_state.select_convs(1,2))
  then show ?thesis
    unfolding bindE_eq_Inr derive_kill_state_engaged require_mutation_allowed_def clears_def
    by (simp add: if_distrib cong: conj_cong) blast
qed

lemma mutation_allowed_iff_witness:
  "\<exists>k c. bindE (derive_kill_state [k] True [c]) require_mutation_allowed = Inr () \<and>
     bindE (derive_kill_state [k] True [c\<lparr>kc_occurred_at := 4\<rparr>]) require_mutation_allowed \<noteq> Inr ()"
  by (rule exI [of _ "\<lparr>ke_lineage_hashes = [], ke_kill_event_id = Uuid 1, ke_trigger = ''operator'',
        ke_scope = ''account'', ke_source_intent_id = None, ke_source_order_id = None,
        ke_prior_state = False, ke_occurred_at = 5, ke_clearance_evidence_hashes = []\<rparr>"],
      rule exI [of _ "\<lparr>kc_kill_event_id = Uuid 1, kc_occurred_at = 5, kc_result = ''CLEARED''\<rparr>"])
     (simp add: mutation_allowed_iff kill_history_def)

text \<open>
  A kill re-engages.  Whatever was cleared before, once a newer kill is appended to a well-formed
  history the switch is engaged, with that kill as its latest event, until a clearance is supplied
  that names it: clearances of earlier kills, and clearances older than it, release nothing.
\<close>

lemma newer_kill_reengages:
  assumes "kill_history (events @ [k])"
    and "\<And>c. c \<in> set cs \<Longrightarrow> kc_kill_event_id c \<in> ke_kill_event_id ` set events \<or> kc_occurred_at c < ke_occurred_at k"
  shows "derive_kill_state (events @ [k]) production cs = Inr \<lparr>ks_engaged = True, ks_latest_event = Some k\<rparr> \<and>
    bindE (derive_kill_state (events @ [k]) production cs) require_mutation_allowed =
      Inl (ExecutionAuthorityError ''EXECUTION_KILL_ENGAGED'')"
proof -
  have "\<not> clears k c" if "c \<in> set cs" for c
    using assms(1) assms(2) [OF that] by (auto simp: clears_def kill_history_def) (metis imageI)
  then have "derive_kill_state (events @ [k]) production cs =
      Inr \<lparr>ks_engaged = True, ks_latest_event = Some k\<rparr>"
    using assms(1) by (simp add: derive_kill_state_engaged)
  then show ?thesis
    by (simp add: require_mutation_allowed_def)
qed

definition example_kill :: "nat \<Rightarrow> timestamp \<Rightarrow> kill_switch_event" where
  "example_kill n t = \<lparr>ke_lineage_hashes = [], ke_kill_event_id = Uuid n, ke_trigger = ''operator'',
     ke_scope = ''account'', ke_source_intent_id = None, ke_source_order_id = None,
     ke_prior_state = False, ke_occurred_at = t, ke_clearance_evidence_hashes = []\<rparr>"

lemma newer_kill_reengages_witness:
  "derive_kill_state [example_kill 1 5, example_kill 2 9] True
     [\<lparr>kc_kill_event_id = Uuid 1, kc_occurred_at = 6, kc_result = ''CLEARED''\<rparr>] =
     Inr \<lparr>ks_engaged = True, ks_latest_event = Some (example_kill 2 9)\<rparr>"
  using newer_kill_reengages [of "[example_kill 1 5]" "example_kill 2 9"
      "[\<lparr>kc_kill_event_id = Uuid 1, kc_occurred_at = 6, kc_result = ''CLEARED''\<rparr>]" True]
  by (simp add: example_kill_def kill_history_def less_eq_prod_def)

end
