(* ===== verification/Proof_Records.thy ===== *)
theory Proof_Records
  imports Prediction_Domain
begin

text \<open>
  The evidence records of the proof pipeline: typed propositions with their source spans
  (\<open>predictions/propositions.py\<close>), rule attestations (\<open>attestations.py\<close>), candidate relationships and
  their identity (\<open>candidates_models.py\<close>) and proof artifacts (\<open>proofs_models.py\<close>), with the
  validators that run when one is built.  A literal type is a datatype with its strings as values;
  a field whose literal has one value is left out.  The parts of an error message that print a
  value are left out of the message.
\<close>

section \<open>Propositions\<close>

datatype proposition_kind = Binary_condition | Threshold | Deadline | Scope | Outcome_membership

datatype proposition_status = Extracted | Not_extracted

record proposition_span =
  sp_start_char :: int
  sp_end_char :: int
  sp_exact_text :: string
  sp_rule_source_hash :: sha256

definition validate_span :: "proposition_span \<Rightarrow> proposition_span result" where
  "validate_span s =
     bindE (checkE
       [(\<not> nonempty_string (sp_exact_text s), ValueError ''exact_text''),
        (sp_start_char s < 0 \<or> sp_end_char s \<le> sp_start_char s,
         ValueError ''proposition span must have nonempty nonnegative bounds'')])
       (\<lambda>_. Inr s)"

record typed_proposition =
  tp_kind :: proposition_kind
  tp_subject :: string
  tp_predicate :: string
  tp_value :: "string option"
  tp_status :: proposition_status
  tp_supporting_spans :: "proposition_span list"

definition validate_proposition :: "typed_proposition \<Rightarrow> typed_proposition result" where
  "validate_proposition p =
     bindE (checkE
       [(\<not> (nonempty_string (tp_subject p) \<and> nonempty_string (tp_predicate p)),
         ValueError ''proposition field''),
        (tp_status p = Extracted \<and> tp_supporting_spans p = [],
         ValueError ''extracted proposition requires supporting spans''),
        (tp_status p \<noteq> Extracted \<and> tp_value p \<noteq> None,
         ValueError ''unknown proposition cannot have a value''),
        (tp_status p \<noteq> Extracted \<and> tp_supporting_spans p \<noteq> [],
         ValueError ''unknown proposition cannot have supporting spans'')])
       (\<lambda>_. Inr p)"

interpretation proposition_span: revalidation validate_span
  by unfold_locales (simp add: validate_span_def bindE_eq_Inr del: checkE.simps)

interpretation typed_proposition: revalidation validate_proposition
  by unfold_locales (simp add: validate_proposition_def bindE_eq_Inr del: checkE.simps)

section \<open>Attestations\<close>

datatype void_behavior = Refund_at_cost | Resolve_to_rules_price | Void_unknown

datatype payout_unit = Usdc_1_per_share | Usd_1_per_contract

record rule_attestation =
  at_attestation_id :: uuid
  at_venue :: prediction_venue
  at_market_id :: string
  at_rule_version_id :: uuid
  at_rule_source_hash :: sha256
  at_payout_unit :: payout_unit
  at_winner_payout_per_share :: dec
  at_loser_payout_per_share :: dec
  at_outcome_set_exhaustive :: bool
  at_void_or_invalid_possible :: bool
  at_void_behavior :: void_behavior
  at_tie_possible :: bool
  at_tie_behavior :: "string option"
  at_resolution_source_attested :: string
  at_deadline_utc :: "timestamp option"
  at_threshold_text :: "string option"
  at_threshold_inclusive :: "bool option"
  at_supporting_spans :: "proposition_span list"
  at_review_identity :: string
  at_reviewed_at :: timestamp

definition validate_attestation :: "rule_attestation \<Rightarrow> rule_attestation result" where
  "validate_attestation a =
     bindE (checkE
       [(\<not> (positive_decimal (at_winner_payout_per_share a) \<and>
            nonnegative_decimal (at_loser_payout_per_share a) \<and> nonempty_string (at_review_identity a)),
         ValueError ''attestation field''),
        (at_supporting_spans a = [], ValueError ''rule attestation requires at least one supporting span''),
        (at_tie_possible a \<and> at_tie_behavior a = None,
         ValueError ''tie_possible=True requires a non-None tie_behavior''),
        (list_ex (\<lambda>span. sp_rule_source_hash span \<noteq> at_rule_source_hash a) (at_supporting_spans a),
         ValueError ''every supporting span must be bound to this attestation's own rule_source_hash'')])
       (\<lambda>_. Inr a)"

interpretation attestation: revalidation validate_attestation
  by unfold_locales (simp add: validate_attestation_def bindE_eq_Inr del: checkE.simps)

lemma validate_attestation_payouts:
  "validate_attestation a = Inr b \<Longrightarrow>
     0 < dval (at_winner_payout_per_share a) \<and> 0 \<le> dval (at_loser_payout_per_share a)"
  unfolding validate_attestation_def bindE_eq_Inr checkE_Inr
  by (auto simp: positive_decimal_iff nonnegative_decimal_iff)

section \<open>Candidates\<close>

datatype relationship_type =
  Binary_complement | Exhaustive_outcome_set | Logical_implication | Cross_venue_equivalence

fun relationship_value :: "relationship_type \<Rightarrow> string" where
  "relationship_value Binary_complement = ''binary_complement''"
| "relationship_value Exhaustive_outcome_set = ''exhaustive_outcome_set''"
| "relationship_value Logical_implication = ''logical_implication''"
| "relationship_value Cross_venue_equivalence = ''cross_venue_equivalence''"

lemma relationship_value_inj [simp]: "relationship_value s = relationship_value t \<longleftrightarrow> s = t"
  by (cases s; cases t) simp_all

datatype candidate_disposition = Quarantined | Candidate_rejected | Candidate_proof_ready | Superseded

datatype review_status = Unreviewed | In_review | Reviewed

text \<open>\<open>DeterministicProvenance\<close> (generator, its version, code revision) and \<open>AIProvenance\<close> (model,
  version, feature version, prompt version, hash of the evaluation request).\<close>

datatype candidate_provenance =
    Deterministic_provenance string string string
  | AI_provenance string string string "string option" sha256

fun provenance_ok :: "candidate_provenance \<Rightarrow> bool" where
  "provenance_ok (Deterministic_provenance generator version revision) \<longleftrightarrow>
     nonempty_string generator \<and> nonempty_string version \<and> nonempty_string revision"
| "provenance_ok (AI_provenance _ _ _ _ _) \<longleftrightarrow> True"

fun is_ai :: "candidate_provenance \<Rightarrow> bool" where
  "is_ai (AI_provenance _ _ _ _ _) = True"
| "is_ai (Deterministic_provenance _ _ _) = False"

record candidate_leg =
  cl_venue :: prediction_venue
  cl_market_id :: string
  cl_outcome_index :: "int option"
  cl_outcome_token_id :: "string option"
  cl_rule_version_id :: uuid
  cl_rule_source_hash :: sha256

definition validate_leg :: "candidate_leg \<Rightarrow> candidate_leg result" where
  "validate_leg l =
     (if \<not> opt_all (\<lambda>i. 0 \<le> i) (cl_outcome_index l)
      then Inl (ValueError ''outcome_index must be non-negative when set'') else Inr l)"

record candidate_relationship =
  cd_candidate_id :: uuid
  cd_trial_family_id :: string
  cd_relationship_type :: relationship_type
  cd_legs :: "candidate_leg list"
  cd_information_cutoff :: timestamp
  cd_observed_at :: timestamp
  cd_provenance :: candidate_provenance
  cd_propositions :: "typed_proposition list"
  cd_unresolved_fields :: "string list"
  cd_contradictions :: "string list"
  cd_invalidation_conditions :: "string list"
  cd_review_status :: review_status
  cd_disposition :: candidate_disposition
  cd_superseded_by_candidate_id :: "uuid option"

definition validate_candidate :: "candidate_relationship \<Rightarrow> candidate_relationship result" where
  "validate_candidate c =
     (let distinct_venues = py_set (map cl_venue (cd_legs c))
      in bindE (mapE validate_leg (cd_legs c)) (\<lambda>_.
         bindE (checkE
       [(\<not> (nonempty_string (cd_trial_family_id c) \<and> provenance_ok (cd_provenance c)),
         ValueError ''candidate field''),
        (length (cd_legs c) < 2, ValueError ''a candidate relationship requires at least 2 legs''),
        (is_ai (cd_provenance c) \<and> cd_disposition c \<notin> {Quarantined, Candidate_rejected},
         ValueError (''AI provenance can never produce a proof-ready or superseded candidate; '' @
           ''an AI nomination may only be quarantined or rejected'')),
        (cd_disposition c = Candidate_proof_ready \<and>
           (cd_review_status c \<noteq> Reviewed \<or> cd_unresolved_fields c \<noteq> [] \<or> cd_contradictions c \<noteq> []),
         ValueError (''a proof-ready candidate requires review_status=='reviewed' and no '' @
           ''unresolved fields or contradictions'')),
        ((cd_disposition c = Superseded) \<noteq> (cd_superseded_by_candidate_id c \<noteq> None),
         ValueError (''disposition=='superseded' must correspond exactly to a set '' @
           ''superseded_by_candidate_id'')),
        (cd_relationship_type c = Cross_venue_equivalence \<and> length distinct_venues < 2,
         ValueError (''a cross-venue-equivalence relationship requires legs spanning at '' @
           ''least two distinct venues'')),
        (cd_relationship_type c \<noteq> Cross_venue_equivalence \<and> length distinct_venues \<noteq> 1,
         ValueError (''a '' @ relationship_value (cd_relationship_type c) @
           '' relationship requires all legs to share a single venue''))])
       (\<lambda>_. Inr c)))"

interpretation candidate: revalidation validate_candidate
  by unfold_locales (simp add: validate_candidate_def Let_def bindE_eq_Inr del: checkE.simps)

subsection \<open>Candidate identity\<close>

definition CANDIDATE_IDENTITY_NAMESPACE :: uuid where
  "CANDIDATE_IDENTITY_NAMESPACE = Uuid 0x5d41aa1ef68043bfb652939bc0dd239a"

type_synonym identity_tuple = "string \<times> string \<times> int option \<times> uuid"

definition leg_identity :: "candidate_leg \<Rightarrow> identity_tuple" where
  "leg_identity leg =
     (venue_value (cl_venue leg), cl_market_id leg, cl_outcome_index leg, cl_rule_version_id leg)"

text \<open>The sort key: a missing index sorts after the others, and \<open>item[2] or 0\<close> is zero for it.\<close>

definition identity_key :: "identity_tuple \<Rightarrow> string \<times> string \<times> bool \<times> int \<times> uuid" where
  "identity_key item =
     (case item of (venue, market, index, rule) \<Rightarrow>
        (venue, market, index = None, (case index of None \<Rightarrow> 0 | Some i \<Rightarrow> i), rule))"

definition identity_jval :: "identity_tuple \<Rightarrow> jval" where
  "identity_jval item =
     (case item of (venue, market, index, rule) \<Rightarrow>
        JList [JText venue, JText market, jopt JInt index, JUuid rule])"

definition candidate_content :: "relationship_type \<Rightarrow> candidate_leg list \<Rightarrow> jval" where
  "candidate_content rel legs =
     JList [JText (relationship_value rel),
            JList (map identity_jval (sort_key identity_key (map leg_identity legs)))]"

definition deterministic_candidate_id ::
  "digests \<Rightarrow> relationship_type \<Rightarrow> candidate_leg list \<Rightarrow> uuid" where
  "deterministic_candidate_id D rel legs =
     uuid5_of D CANDIDATE_IDENTITY_NAMESPACE (candidate_content rel legs)"

lemma identity_key_inj: "identity_key x = identity_key y \<Longrightarrow> x = y"
  by (auto simp: identity_key_def split: prod.splits option.splits)

lemma identity_jval_inj: "identity_jval x = identity_jval y \<longleftrightarrow> x = y"
  by (cases x; cases y) (auto simp: identity_jval_def)

text \<open>Sorting by a key that tells the elements apart depends on the multiset alone.\<close>

lemma sort_key_inj_mset:
  assumes "inj f"
  shows "sort_key f xs = sort_key f ys \<longleftrightarrow> mset xs = mset ys"
proof
  assume "mset xs = mset ys"
  moreover have "filter (\<lambda>x. f k = f x) zs = replicate (count (mset zs) k) k" for k zs
  proof -
    have "filter (\<lambda>x. f k = f x) zs = filter ((=) k) zs"
      using assms by (intro filter_cong) (auto dest: injD)
    then show ?thesis
      by (metis filter_eq_replicate_mset replicate_length_filter count_mset count_list_eq_length_filter)
  qed
  ultimately show "sort_key f xs = sort_key f ys"
    by (intro properties_for_sort_key) (simp_all add: mset_eq_length_filter)
next
  assume "sort_key f xs = sort_key f ys"
  then show "mset xs = mset ys" by (metis mset_sort)
qed

lemma candidate_content_eq:
  "candidate_content r ls = candidate_content r' ls' \<longleftrightarrow>
     r = r' \<and> mset (map leg_identity ls) = mset (map leg_identity ls')"
proof -
  have "inj identity_jval"
    by (simp add: inj_def identity_jval_inj)
  then have "map identity_jval xs = map identity_jval ys \<longleftrightarrow> xs = ys" for xs ys
    by (rule inj_map_eq_map)
  moreover have "inj identity_key"
    by (intro injI identity_key_inj)
  ultimately show ?thesis
    by (simp add: candidate_content_def sort_key_inj_mset)
qed

text \<open>
  C39: the identity of a candidate does not depend on the order of its legs, and as long as the UUID
  digest does not collide on the two contents, it changes with the relationship type and with any
  leg's venue, market, outcome index or rule version.
\<close>

theorem candidate_identity:
  assumes "uuid5_of D CANDIDATE_IDENTITY_NAMESPACE (candidate_content r ls) =
      uuid5_of D CANDIDATE_IDENTITY_NAMESPACE (candidate_content r' ls') \<Longrightarrow>
      candidate_content r ls = candidate_content r' ls'"
  shows "deterministic_candidate_id D r ls = deterministic_candidate_id D r' ls' \<longleftrightarrow>
      r = r' \<and> mset (map leg_identity ls) = mset (map leg_identity ls')"
  using assms candidate_content_eq [of r ls r' ls'] unfolding deterministic_candidate_id_def by auto

definition example_leg :: "string \<Rightarrow> int option \<Rightarrow> nat \<Rightarrow> candidate_leg" where
  "example_leg market index rule = \<lparr>cl_venue = Kalshi, cl_market_id = market, cl_outcome_index = index,
     cl_outcome_token_id = None, cl_rule_version_id = Uuid rule, cl_rule_source_hash = Sha256 rule\<rparr>"

lemma candidate_identity_witness:
  "deterministic_candidate_id example_digests Binary_complement
     [example_leg ''M'' (Some 1) 3, example_leg ''M'' (Some 0) 3] =
   deterministic_candidate_id example_digests Binary_complement
     [example_leg ''M'' (Some 0) 3, example_leg ''M'' (Some 1) 3]"
proof -
  have "candidate_content Binary_complement [example_leg ''M'' (Some 1) 3, example_leg ''M'' (Some 0) 3] =
      candidate_content Binary_complement [example_leg ''M'' (Some 0) 3, example_leg ''M'' (Some 1) 3]"
    by (subst candidate_content_eq) (simp add: add_mset_commute)
  with candidate_identity [of example_digests Binary_complement
      "[example_leg ''M'' (Some 1) 3, example_leg ''M'' (Some 0) 3]" Binary_complement
      "[example_leg ''M'' (Some 0) 3, example_leg ''M'' (Some 1) 3]"]
  show ?thesis by (simp add: add_mset_commute)
qed

section \<open>Proof artifacts\<close>

datatype proof_status = Proof_ready | Proof_rejected | Insufficient_evidence

datatype proof_rejection_reason =
    MISSING_ATTESTATION | OUTCOME_SET_NOT_EXHAUSTIVE | VOID_BEHAVIOR_UNKNOWN | TIE_UNMODELED
  | IMPLICATION_INVALID | EQUIVALENCE_DIMENSION_UNKNOWN | EQUIVALENCE_DIMENSION_INCOMPATIBLE
  | TEMPLATE_NOT_APPROVED | RULE_VERSION_CHANGED | PROPOSITIONS_NOT_EXTRACTED

datatype dimension_result = Compatible | Incompatible | Unknown_dimension

definition APPROVED_PROOF_TEMPLATES :: "string list" where
  "APPROVED_PROOF_TEMPLATES =
     [''binary_complement@1'', ''exhaustive_outcome_set@1'', ''logical_implication@1'',
      ''cross_venue_equivalence@1'']"

definition RULE_VERSION_CHANGE_CONDITION :: string where
  "RULE_VERSION_CHANGE_CONDITION = ''any participating rule_version change''"

record terminal_state =
  ts_state_id :: string
  ts_description :: string
  ts_leg_payouts :: "dec list"

definition validate_terminal_state :: "terminal_state \<Rightarrow> terminal_state result" where
  "validate_terminal_state s =
     (if \<not> (nonempty_string (ts_state_id s) \<and> list_all nonnegative_decimal (ts_leg_payouts s))
      then Inl (ValueError ''terminal state field'') else Inr s)"

record proof_assumption =
  as_claim :: string
  as_attestation_id :: uuid
  as_supporting_spans :: "proposition_span list"

record excluded_state =
  es_description :: string
  es_exclusion_reason :: string
  es_attestation_id :: uuid

record equivalence_matrix =
  eq_proposition_threshold_inclusivity :: dimension_result
  eq_observation_period_timezone :: dimension_result
  eq_resolution_sources :: dimension_result
  eq_void_dispute_behavior :: dimension_result
  eq_outcome_completeness :: dimension_result
  eq_denomination_collateral_rounding :: dimension_result
  eq_settlement_finality_timing :: dimension_result
  eq_venue_access_custody_rules :: dimension_result
  eq_basis_attestation_ids :: "uuid list"

record proof_artifact =
  pa_proof_id :: uuid
  pa_candidate_id :: uuid
  pa_template :: string
  pa_compiler_version :: string
  pa_status :: proof_status
  pa_rejection_reason :: "proof_rejection_reason option"
  pa_terminal_states :: "terminal_state list"
  pa_minimum_basket_payout :: "dec option"
  pa_maximum_basket_payout :: "dec option"
  pa_assumptions :: "proof_assumption list"
  pa_excluded_states :: "excluded_state list"
  pa_equivalence_matrix :: "equivalence_matrix option"
  pa_rule_version_ids :: "uuid list"
  pa_source_hashes :: "sha256 list"
  pa_review_identity :: string
  pa_invalidation_conditions :: "string list"
  pa_information_cutoff :: timestamp
  pa_observed_at :: timestamp

definition validate_proof :: "proof_artifact \<Rightarrow> proof_artifact result" where
  "validate_proof p =
     (let ready = (pa_status p = Proof_ready);
          no_bounds = (pa_minimum_basket_payout p = None \<and> pa_maximum_basket_payout p = None);
          missing_bound = (pa_minimum_basket_payout p = None \<or> pa_maximum_basket_payout p = None);
          payout_lengths = py_set (map (\<lambda>state. length (ts_leg_payouts state)) (pa_terminal_states p));
          state_ids = map ts_state_id (pa_terminal_states p)
      in bindE (checkE
       [(ready \<and> pa_rejection_reason p \<noteq> None,
         ValueError ''a proof_ready artifact must not carry a rejection_reason''),
        (ready \<and> pa_terminal_states p = [],
         ValueError ''a proof_ready artifact requires at least one terminal state''),
        (ready \<and> missing_bound,
         ValueError ''a proof_ready artifact requires both a minimum and maximum basket payout''),
        (ready \<and> pa_template p \<notin> set APPROVED_PROOF_TEMPLATES,
         ValueError ''a proof_ready artifact's template must be one of the approved proof templates''),
        (\<not> ready \<and> pa_rejection_reason p = None,
         ValueError ''an artifact that is not ready requires a rejection_reason''),
        (\<not> ready \<and> \<not> no_bounds,
         ValueError ''an artifact that is not ready must not carry a basket payout bound''),
        (1 < length payout_lengths,
         ValueError ''every terminal state's leg payout tuple must be the same length''),
        (length state_ids \<noteq> length (py_set state_ids),
         ValueError ''terminal state_id values must be unique within a proof''),
        ((pa_template p = ''cross_venue_equivalence@1'') \<noteq> (pa_equivalence_matrix p \<noteq> None),
         ValueError (''equivalence_matrix is required if and only if template is '' @
           ''cross_venue_equivalence@1'')),
        (RULE_VERSION_CHANGE_CONDITION \<notin> set (pa_invalidation_conditions p),
         ValueError ''invalidation_conditions must include the rule version change''),
        (py_sorted_set (pa_source_hashes p) \<noteq> pa_source_hashes p,
         ValueError ''source_hashes must be sorted and unique'')])
       (\<lambda>_. Inr p))"

interpretation terminal_state: revalidation validate_terminal_state
  by unfold_locales (auto simp: validate_terminal_state_def split: if_splits)

interpretation artifact: revalidation validate_proof
  by unfold_locales (simp add: validate_proof_def Let_def bindE_eq_Inr del: checkE.simps)

end
