(* ===== verification/Py_Text.thy ===== *)
theory Py_Text
  imports Py_Decimal
begin

text \<open>
  The text operations of Python's library the program uses: \<open>str.strip\<close>, \<open>str.casefold\<close>,
  \<open>repr\<close> of a string, \<open>str\<close> of an integer, a decimal and a UUID, and \<open>decimal.Decimal(text)\<close> with the
  comparison of what it returns.  Text is a list of characters below code point 256.  A decimal
  literal whose exponent is beyond the library's own limits is read here as the number it spells.
\<close>

section \<open>Stripping and case folding\<close>

definition py_space :: "char \<Rightarrow> bool" where
  "py_space c \<longleftrightarrow> (let n = (of_char c :: nat) in (9 \<le> n \<and> n \<le> 13) \<or> (28 \<le> n \<and> n \<le> 32) \<or> n = 133 \<or> n = 160)"

definition py_strip :: "string \<Rightarrow> string" where
  "py_strip s = rev (dropWhile py_space (rev (dropWhile py_space s)))"

definition casefold_char :: "char \<Rightarrow> string" where
  "casefold_char c =
     (let n = (of_char c :: nat)
      in if (65 \<le> n \<and> n \<le> 90) \<or> (192 \<le> n \<and> n \<le> 222 \<and> n \<noteq> 215) then [char_of (n + 32)]
         else if n = 223 then ''ss'' else [c])"

definition py_casefold :: "string \<Rightarrow> string" where
  "py_casefold s = concat (map casefold_char s)"

section \<open>Printing\<close>

definition digit_char :: "nat \<Rightarrow> char" where
  "digit_char n = char_of (48 + n)"

fun str_of_nat :: "nat \<Rightarrow> string" where
  "str_of_nat n = (if n < 10 then [digit_char n] else str_of_nat (n div 10) @ [digit_char (n mod 10)])"

declare str_of_nat.simps [simp del]

definition hex_char :: "nat \<Rightarrow> char" where
  "hex_char n = (if n < 10 then digit_char n else char_of (87 + n))"

definition repr_char :: "char \<Rightarrow> char \<Rightarrow> string" where
  "repr_char quot c =
     (let n = (of_char c :: nat)
      in if c = quot \<or> n = 92 then [CHR 0x5C, c]
         else if n = 9 then [CHR 0x5C, CHR ''t''] else if n = 10 then [CHR 0x5C, CHR ''n'']
         else if n = 13 then [CHR 0x5C, CHR ''r'']
         else if n < 32 \<or> (127 \<le> n \<and> n \<le> 160) \<or> n = 173
           then [CHR 0x5C, CHR ''x'', hex_char (n div 16), hex_char (n mod 16)]
         else [c])"

definition py_repr :: "string \<Rightarrow> string" where
  "py_repr s =
     (let quot = (if CHR 0x27 \<in> set s \<and> CHR 0x22 \<notin> set s then CHR 0x22 else CHR 0x27)
      in [quot] @ concat (map (repr_char quot) s) @ [quot])"

lemma char_inj: "n < 256 \<Longrightarrow> m < 256 \<Longrightarrow> (char_of (n::nat) :: char) = char_of m \<longleftrightarrow> n = m"
  by (metis of_char_of mod_less)

lemma digit_char_inj [simp]: "n < 10 \<Longrightarrow> m < 10 \<Longrightarrow> digit_char n = digit_char m \<longleftrightarrow> n = m"
  by (simp add: digit_char_def char_inj)

lemma str_of_nat_inj [simp]: "str_of_nat n = str_of_nat m \<longleftrightarrow> n = m"
proof (induction n arbitrary: m rule: str_of_nat.induct)
  case (1 n)
  have ne: "str_of_nat k \<noteq> []" for k
    by (subst str_of_nat.simps) simp
  consider "n < 10" "m < 10" | "n < 10" "\<not> m < 10" | "\<not> n < 10" "m < 10" | "\<not> n < 10" "\<not> m < 10"
    by blast
  then show ?case
  proof cases
    case 4
    with 1 [of "m div 10"] have "str_of_nat n = str_of_nat m \<longleftrightarrow> n div 10 = m div 10 \<and> n mod 10 = m mod 10"
      by (subst (1 2) str_of_nat.simps) simp
    also have "\<dots> \<longleftrightarrow> n = m"
      by (metis div_mult_mod_eq)
    finally show ?thesis .
  qed (use ne ne [symmetric] in \<open>auto simp: str_of_nat.simps [of n] str_of_nat.simps [of m]\<close>)
qed

text \<open>\<open>str(d)\<close> of a finite decimal: plain while the exponent is not positive and the number not tiny, else scientific.\<close>

definition sign_text :: "bool \<Rightarrow> string" where
  "sign_text negative = (if negative then ''-'' else '''')"

definition str_of_dec :: "dec \<Rightarrow> string" where
  "str_of_dec d =
     (let digits = str_of_nat (dcoef d); n = length digits;
          leftdigits = dexp d + int n;
          dotplace = (if dexp d \<le> 0 \<and> - 6 < leftdigits then leftdigits else 1);
          body = (if dotplace \<le> 0 then ''0.'' @ replicate (nat (- dotplace)) (CHR ''0'') @ digits
                  else if int n \<le> dotplace then digits @ replicate (nat dotplace - n) (CHR ''0'')
                  else take (nat dotplace) digits @ ''.'' @ drop (nat dotplace) digits);
          power = leftdigits - dotplace
      in sign_text (dneg d) @ body @
         (if power = 0 then ''''
          else ''E'' @ (if power < 0 then ''-'' else ''+'') @ str_of_nat (nat \<bar>power\<bar>)))"

text \<open>\<open>str(u)\<close> of a UUID: 32 hexadecimal digits, grouped 8-4-4-4-12.\<close>

fun hex_digits :: "nat \<Rightarrow> nat \<Rightarrow> string" where
  "hex_digits 0 n = []"
| "hex_digits (Suc k) n = hex_digits k (n div 16) @ [hex_char (n mod 16)]"

definition str_of_uuid :: "uuid \<Rightarrow> string" where
  "str_of_uuid u =
     (let h = hex_digits 32 (uuid_int u)
      in take 8 h @ ''-'' @ take 4 (drop 8 h) @ ''-'' @ take 4 (drop 12 h) @ ''-'' @
         take 4 (drop 16 h) @ ''-'' @ drop 20 h)"

lemma str_of_dec_examples:
  "str_of_dec (Dec False 1250 (-2)) = ''12.50''" "str_of_dec (Dec True 5 (-3)) = ''-0.005''"
  "str_of_dec (Dec False 12 3) = ''1.2E+4''" "str_of_dec (Dec False 1 (-8)) = ''1E-8''" "str_of_dec (Dec False 0 0) = ''0''"
  by code_simp+

section \<open>Reading decimals\<close>

definition is_digit :: "char \<Rightarrow> bool" where
  "is_digit c \<longleftrightarrow> CHR ''0'' \<le> c \<and> c \<le> CHR ''9''"

definition digits_value :: "string \<Rightarrow> nat" where
  "digits_value s = foldl (\<lambda>n c. 10 * n + (of_char c - 48)) 0 s"

definition split_sign :: "string \<Rightarrow> bool \<times> string" where
  "split_sign s = (case s of [] \<Rightarrow> (False, []) | c # t \<Rightarrow>
     if c = CHR ''-'' then (True, t) else if c = CHR ''+'' then (False, t) else (False, s))"

text \<open>A decimal that was read: finite, infinite (with its sign), or not a number (signaling or not).\<close>

datatype ext_decimal = Finite dec | Infinite bool | Not_a_number bool

definition read_exponent :: "string \<Rightarrow> int option" where
  "read_exponent s =
     (case s of [] \<Rightarrow> Some 0
      | c # t \<Rightarrow>
          if c = CHR ''e'' \<or> c = CHR ''E'' then
            (case split_sign t of (neg, ds) \<Rightarrow>
               if ds \<noteq> [] \<and> list_all is_digit ds
               then Some (if neg then - int (digits_value ds) else int (digits_value ds)) else None)
          else None)"

definition read_finite :: "bool \<Rightarrow> string \<Rightarrow> dec option" where
  "read_finite neg s =
     (let whole = takeWhile is_digit s; rest = dropWhile is_digit s;
          dotted = (rest \<noteq> [] \<and> hd rest = CHR ''.'');
          part = (if dotted then takeWhile is_digit (tl rest) else []);
          suffix = (if dotted then dropWhile is_digit (tl rest) else rest)
      in if whole = [] \<and> part = [] then None
         else map_option (\<lambda>e. Dec neg (digits_value (whole @ part)) (e - int (length part)))
                (read_exponent suffix))"

definition decimal_of_text :: "string \<Rightarrow> ext_decimal option" where
  "decimal_of_text s =
     (case split_sign (filter (\<lambda>c. c \<noteq> CHR ''_'') (py_strip s)) of (neg, t) \<Rightarrow>
       let word = py_casefold t
       in if word = ''inf'' \<or> word = ''infinity'' then Some (Infinite neg)
          else if take 3 word = ''nan'' \<and> list_all is_digit (drop 3 word) then Some (Not_a_number False)
          else if take 4 word = ''snan'' \<and> list_all is_digit (drop 4 word) then Some (Not_a_number True)
          else map_option Finite (read_finite neg t))"

text \<open>
  Ordering a value that is not a number signals an invalid operation; testing it for equality does so
  only when it is signaling.
\<close>

fun ext_lt :: "ext_decimal \<Rightarrow> ext_decimal \<Rightarrow> bool result" where
  "ext_lt (Not_a_number _) _ = Inl InvalidOperation"
| "ext_lt _ (Not_a_number _) = Inl InvalidOperation"
| "ext_lt (Finite a) (Finite b) = Inr (dlt a b)"
| "ext_lt (Infinite s) (Finite _) = Inr s"
| "ext_lt (Finite _) (Infinite t) = Inr (\<not> t)"
| "ext_lt (Infinite s) (Infinite t) = Inr (s \<and> \<not> t)"

fun ext_le :: "ext_decimal \<Rightarrow> ext_decimal \<Rightarrow> bool result" where
  "ext_le (Not_a_number _) _ = Inl InvalidOperation"
| "ext_le _ (Not_a_number _) = Inl InvalidOperation"
| "ext_le (Finite a) (Finite b) = Inr (dle a b)"
| "ext_le (Infinite s) (Finite _) = Inr s"
| "ext_le (Finite _) (Infinite t) = Inr (\<not> t)"
| "ext_le (Infinite s) (Infinite t) = Inr (s \<or> \<not> t)"

fun ext_eq :: "ext_decimal \<Rightarrow> ext_decimal \<Rightarrow> bool result" where
  "ext_eq (Not_a_number s) (Not_a_number t) = (if s \<or> t then Inl InvalidOperation else Inr False)"
| "ext_eq (Not_a_number s) _ = (if s then Inl InvalidOperation else Inr False)"
| "ext_eq _ (Not_a_number t) = (if t then Inl InvalidOperation else Inr False)"
| "ext_eq (Finite a) (Finite b) = Inr (deq a b)"
| "ext_eq (Infinite s) (Infinite t) = Inr (s = t)"
| "ext_eq (Infinite _) (Finite _) = Inr False"
| "ext_eq (Finite _) (Infinite _) = Inr False"

end
