(* ===== verification/Proof_Compiler.thy ===== *)
theory Proof_Compiler
  imports Proof_Records Py_Text
begin

text \<open>
  The payoff-proof compiler (\<open>predictions/proofs.py\<close>): four templates that turn a candidate, the
  current rule versions and the attestations into a proof artifact, ready with the bounds of the
  basket's payout over its terminal states, or refused with a typed reason.  A malformed candidate
  raises.  \<open>rule_versions\<close> and \<open>attestations\<close> are dictionaries by rule version; the artifact is
  named by a digest of its content.  The lemmas say when each template is ready and what a ready or
  refused artifact holds.
\<close>

section \<open>Templates and identity\<close>

definition PROOF_IDENTITY_NAMESPACE :: uuid where
  "PROOF_IDENTITY_NAMESPACE = Uuid 0x0073fffaf33c466cbff183a1ab710ae7"

definition PLACEHOLDER_PROOF_ID :: uuid where
  "PLACEHOLDER_PROOF_ID = Uuid 0"

definition BINARY_COMPLEMENT_TEMPLATE :: string where
  "BINARY_COMPLEMENT_TEMPLATE = ''binary_complement@1''"

definition EXHAUSTIVE_OUTCOME_SET_TEMPLATE :: string where
  "EXHAUSTIVE_OUTCOME_SET_TEMPLATE = ''exhaustive_outcome_set@1''"

definition LOGICAL_IMPLICATION_TEMPLATE :: string where
  "LOGICAL_IMPLICATION_TEMPLATE = ''logical_implication@1''"

definition CROSS_VENUE_EQUIVALENCE_TEMPLATE :: string where
  "CROSS_VENUE_EQUIVALENCE_TEMPLATE = ''cross_venue_equivalence@1''"

definition COMPILER_VERSION :: string where
  "COMPILER_VERSION = ''1''"

fun proof_status_value :: "proof_status \<Rightarrow> string" where
  "proof_status_value Proof_ready = ''proof_ready''"
| "proof_status_value Proof_rejected = ''rejected''"
| "proof_status_value Insufficient_evidence = ''insufficient_evidence''"

fun rejection_value :: "proof_rejection_reason \<Rightarrow> string" where
  "rejection_value MISSING_ATTESTATION = ''MISSING_ATTESTATION''"
| "rejection_value OUTCOME_SET_NOT_EXHAUSTIVE = ''OUTCOME_SET_NOT_EXHAUSTIVE''"
| "rejection_value VOID_BEHAVIOR_UNKNOWN = ''VOID_BEHAVIOR_UNKNOWN''"
| "rejection_value TIE_UNMODELED = ''TIE_UNMODELED''"
| "rejection_value IMPLICATION_INVALID = ''IMPLICATION_INVALID''"
| "rejection_value EQUIVALENCE_DIMENSION_UNKNOWN = ''EQUIVALENCE_DIMENSION_UNKNOWN''"
| "rejection_value EQUIVALENCE_DIMENSION_INCOMPATIBLE = ''EQUIVALENCE_DIMENSION_INCOMPATIBLE''"
| "rejection_value TEMPLATE_NOT_APPROVED = ''TEMPLATE_NOT_APPROVED''"
| "rejection_value RULE_VERSION_CHANGED = ''RULE_VERSION_CHANGED''"
| "rejection_value PROPOSITIONS_NOT_EXTRACTED = ''PROPOSITIONS_NOT_EXTRACTED''"

fun dimension_value :: "dimension_result \<Rightarrow> string" where
  "dimension_value Compatible = ''compatible''"
| "dimension_value Incompatible = ''incompatible''"
| "dimension_value Unknown_dimension = ''unknown''"

definition span_content :: "proposition_span \<Rightarrow> jval" where
  "span_content s = JObj [(''start_char'', JInt (sp_start_char s)), (''end_char'', JInt (sp_end_char s)),
     (''exact_text'', JText (sp_exact_text s)), (''rule_source_hash'', JHash (sp_rule_source_hash s))]"

definition matrix_content :: "equivalence_matrix \<Rightarrow> jval" where
  "matrix_content m = (let dim = (\<lambda>r. JText (dimension_value r)) in JObj
    [(''proposition_threshold_inclusivity'', dim (eq_proposition_threshold_inclusivity m)),
     (''observation_period_timezone'', dim (eq_observation_period_timezone m)),
     (''resolution_sources'', dim (eq_resolution_sources m)),
     (''void_dispute_behavior'', dim (eq_void_dispute_behavior m)),
     (''outcome_completeness'', dim (eq_outcome_completeness m)),
     (''denomination_collateral_rounding'', dim (eq_denomination_collateral_rounding m)),
     (''settlement_finality_timing'', dim (eq_settlement_finality_timing m)),
     (''venue_access_custody_rules'', dim (eq_venue_access_custody_rules m)),
     (''basis_attestation_ids'', JList (map JUuid (eq_basis_attestation_ids m)))])"

definition proof_content :: "proof_artifact \<Rightarrow> jval" where
  "proof_content p = JObj
    [(''candidate_id'', JUuid (pa_candidate_id p)),
     (''template'', JText (pa_template p)),
     (''compiler_version'', JText (pa_compiler_version p)),
     (''status'', JText (proof_status_value (pa_status p))),
     (''rejection_reason'', jopt (\<lambda>r. JText (rejection_value r)) (pa_rejection_reason p)),
     (''terminal_states'', JList (map (\<lambda>s. JObj [(''state_id'', JText (ts_state_id s)),
        (''description'', JText (ts_description s)), (''leg_payouts'', JList (map JDec (ts_leg_payouts s)))])
        (pa_terminal_states p))),
     (''minimum_basket_payout'', jopt JDec (pa_minimum_basket_payout p)),
     (''maximum_basket_payout'', jopt JDec (pa_maximum_basket_payout p)),
     (''assumptions'', JList (map (\<lambda>a. JObj [(''claim'', JText (as_claim a)),
        (''attestation_id'', JUuid (as_attestation_id a)),
        (''supporting_spans'', JList (map span_content (as_supporting_spans a)))]) (pa_assumptions p))),
     (''excluded_states'', JList (map (\<lambda>e. JObj [(''description'', JText (es_description e)),
        (''exclusion_reason'', JText (es_exclusion_reason e)),
        (''attestation_id'', JUuid (es_attestation_id e))]) (pa_excluded_states p))),
     (''equivalence_matrix'', jopt matrix_content (pa_equivalence_matrix p)),
     (''rule_version_ids'', JList (map JUuid (pa_rule_version_ids p))),
     (''source_hashes'', jhashes (pa_source_hashes p)),
     (''review_identity'', JText (pa_review_identity p)),
     (''invalidation_conditions'', JList (map JText (pa_invalidation_conditions p))),
     (''information_cutoff'', JTime (pa_information_cutoff p)),
     (''observed_at'', JTime (pa_observed_at p))]"

definition derive_proof_id :: "digests \<Rightarrow> proof_artifact \<Rightarrow> uuid" where
  "derive_proof_id D p = uuid5_of D PROOF_IDENTITY_NAMESPACE (proof_content p)"

definition finalize :: "digests \<Rightarrow> proof_artifact \<Rightarrow> proof_artifact" where
  "finalize D p = p\<lparr>pa_proof_id := derive_proof_id D p\<rparr>"

lemma proof_content_id [simp]: "proof_content (p\<lparr>pa_proof_id := u\<rparr>) = proof_content p"
  by (simp add: proof_content_def)

interpretation proof_identity: content_identity pa_proof_id "derive_proof_id D" "finalize D"
  by unfold_locales (simp_all add: finalize_def derive_proof_id_def)

section \<open>Building artifacts\<close>

definition sorted_unique_hashes :: "sha256 list \<Rightarrow> sha256 list" where
  "sorted_unique_hashes hashes = py_sorted_set hashes"

definition terminal_artifact ::
  "candidate_relationship \<Rightarrow> string \<Rightarrow> proof_status \<Rightarrow> proof_rejection_reason \<Rightarrow> uuid list \<Rightarrow>
     sha256 list \<Rightarrow> timestamp \<Rightarrow> string \<Rightarrow> equivalence_matrix option \<Rightarrow> proof_artifact result" where
  "terminal_artifact candidate template status reason rule_version_ids source_hashes as_of review_identity matrix =
     validate_proof \<lparr>pa_proof_id = PLACEHOLDER_PROOF_ID, pa_candidate_id = cd_candidate_id candidate,
       pa_template = template, pa_compiler_version = COMPILER_VERSION, pa_status = status,
       pa_rejection_reason = Some reason, pa_terminal_states = [], pa_minimum_basket_payout = None,
       pa_maximum_basket_payout = None, pa_assumptions = [], pa_excluded_states = [],
       pa_equivalence_matrix = matrix, pa_rule_version_ids = rule_version_ids,
       pa_source_hashes = source_hashes, pa_review_identity = review_identity,
       pa_invalidation_conditions = [RULE_VERSION_CHANGE_CONDITION], pa_information_cutoff = as_of,
       pa_observed_at = as_of\<rparr>"

text \<open>\<open>return _finalize(_terminal_artifact(...))\<close>.\<close>

definition refuse ::
  "digests \<Rightarrow> candidate_relationship \<Rightarrow> string \<Rightarrow> proof_status \<Rightarrow> proof_rejection_reason \<Rightarrow> uuid list \<Rightarrow>
     sha256 list \<Rightarrow> timestamp \<Rightarrow> string \<Rightarrow> equivalence_matrix option \<Rightarrow> proof_artifact result" where
  "refuse D candidate template status reason rule_version_ids source_hashes as_of review_identity matrix =
     bindE (terminal_artifact candidate template status reason rule_version_ids source_hashes as_of
              review_identity matrix) (\<lambda>artifact. Inr (finalize D artifact))"

text \<open>The construction of a ready artifact, which every template ends with.\<close>

definition ready_artifact ::
  "digests \<Rightarrow> candidate_relationship \<Rightarrow> string \<Rightarrow> terminal_state list \<Rightarrow> proof_assumption list \<Rightarrow>
     excluded_state list \<Rightarrow> equivalence_matrix option \<Rightarrow> uuid list \<Rightarrow> sha256 list \<Rightarrow> timestamp \<Rightarrow>
     string \<Rightarrow> proof_artifact result" where
  "ready_artifact D candidate template terminal_states assumptions excluded_states matrix rule_version_ids
     source_hashes as_of review_identity =
     bindE (mapE validate_terminal_state terminal_states) (\<lambda>states.
     let payout_sums = map (\<lambda>state. dsum (ts_leg_payouts state)) states
     in bindE (dmin_list payout_sums) (\<lambda>minimum.
        bindE (dmax_list payout_sums) (\<lambda>maximum.
        bindE (validate_proof \<lparr>pa_proof_id = PLACEHOLDER_PROOF_ID, pa_candidate_id = cd_candidate_id candidate,
          pa_template = template, pa_compiler_version = COMPILER_VERSION, pa_status = Proof_ready,
          pa_rejection_reason = None, pa_terminal_states = states,
          pa_minimum_basket_payout = Some minimum, pa_maximum_basket_payout = Some maximum,
          pa_assumptions = assumptions, pa_excluded_states = excluded_states,
          pa_equivalence_matrix = matrix, pa_rule_version_ids = rule_version_ids,
          pa_source_hashes = source_hashes, pa_review_identity = review_identity,
          pa_invalidation_conditions = [RULE_VERSION_CHANGE_CONDITION], pa_information_cutoff = as_of,
          pa_observed_at = as_of\<rparr>) (\<lambda>artifact. Inr (finalize D artifact)))))"

definition rule_versions_current :: "(uuid, rule_version) dict \<Rightarrow> candidate_leg list \<Rightarrow> bool" where
  "rule_versions_current rule_versions legs =
     list_all (\<lambda>leg. map_of rule_versions (cl_rule_version_id leg) \<noteq> None) legs"

definition excluded_void :: "string \<Rightarrow> rule_attestation \<Rightarrow> excluded_state" where
  "excluded_void market_id attestation =
     \<lparr>es_description = market_id @ '': resolves void or invalid.'',
      es_exclusion_reason = ''a void resolution refunds cost at par per the attested rules, '' @
        ''so it carries no basket payout risk and is excluded rather than modeled as a terminal state'',
      es_attestation_id = at_attestation_id attestation\<rparr>"

text \<open>
  How the members' void behaviors combine: none if they cannot, and otherwise the excluded states
  and whether one combined void state is modelled.
\<close>

definition combine_void :: "rule_attestation list \<Rightarrow> (excluded_state list \<times> bool) option" where
  "combine_void attestations =
     (let void_members = filter at_void_or_invalid_possible attestations;
          void_behaviors = py_set (map at_void_behavior void_members)
      in if void_members = [] then Some ([], False)
         else if Void_unknown \<in> set void_behaviors \<or> 1 < length void_behaviors then None
         else if hd void_behaviors = Refund_at_cost
              then Some (map (\<lambda>a. excluded_void (at_market_id a) a) void_members, False)
         else Some ([], True))"

section \<open>The binary complement template\<close>

definition compile_binary_complement ::
  "digests \<Rightarrow> candidate_relationship \<Rightarrow> (uuid, rule_version) dict \<Rightarrow> (uuid, rule_attestation) dict \<Rightarrow>
     timestamp \<Rightarrow> string \<Rightarrow> proof_artifact result" where
  "compile_binary_complement D candidate rule_versions attestations as_of review_identity =
     (case cd_legs candidate of
       [a, b] \<Rightarrow>
         if cl_market_id a \<noteq> cl_market_id b \<or> cl_rule_version_id a \<noteq> cl_rule_version_id b
         then Inl (ValueError ''a binary_complement candidate must have exactly 2 legs sharing one market'')
         else
         let legs = [a, b];
             rule_version_ids = map cl_rule_version_id legs;
             reject = (\<lambda>status reason hashes. refuse D candidate BINARY_COMPLEMENT_TEMPLATE status reason
               rule_version_ids hashes as_of review_identity None)
         in case map_of attestations (cl_rule_version_id a) of
              None \<Rightarrow> reject Insufficient_evidence MISSING_ATTESTATION
                (sorted_unique_hashes (map cl_rule_source_hash legs))
            | Some att \<Rightarrow>
         let source_hashes = sorted_unique_hashes (map cl_rule_source_hash legs @ [at_rule_source_hash att])
         in if \<not> at_outcome_set_exhaustive att then reject Proof_rejected OUTCOME_SET_NOT_EXHAUSTIVE source_hashes
            else if \<not> rule_versions_current rule_versions legs
            then reject Proof_rejected RULE_VERSION_CHANGED source_hashes
            else if at_tie_possible att then reject Proof_rejected TIE_UNMODELED source_hashes
            else
         let winner = at_winner_payout_per_share att; loser = at_loser_payout_per_share att;
             market_id = cl_market_id a;
             outcome_states =
               [\<lparr>ts_state_id = ''outcome_0_wins'',
                 ts_description = market_id @ '': outcome index 0 resolves as the winning outcome; '' @
                   ''outcome index 1 resolves as the losing outcome.'',
                 ts_leg_payouts = [winner, loser]\<rparr>,
                \<lparr>ts_state_id = ''outcome_1_wins'',
                 ts_description = market_id @ '': outcome index 1 resolves as the winning outcome; '' @
                   ''outcome index 0 resolves as the losing outcome.'',
                 ts_leg_payouts = [loser, winner]\<rparr>];
             void_state =
                \<lparr>ts_state_id = ''void'',
                 ts_description = market_id @ '': resolves void and settles both legs at the '' @
                   ''attested rules (loser) price.'',
                 ts_leg_payouts = [loser, loser]\<rparr>;
             assumption =
                \<lparr>as_claim = market_id @ '' is an exhaustive binary complement: exactly one of outcome '' @
                   ''index 0 / outcome index 1 wins, per the attested rules'',
                 as_attestation_id = at_attestation_id att,
                 as_supporting_spans = at_supporting_spans att\<rparr>;
             ready = (\<lambda>states excluded. ready_artifact D candidate BINARY_COMPLEMENT_TEMPLATE states
               [assumption] excluded None rule_version_ids source_hashes as_of review_identity)
         in bindE (mapE validate_terminal_state outcome_states) (\<lambda>_.
            if at_void_or_invalid_possible att then
              (case at_void_behavior att of
                 Void_unknown \<Rightarrow> reject Proof_rejected VOID_BEHAVIOR_UNKNOWN source_hashes
               | Refund_at_cost \<Rightarrow> ready outcome_states [excluded_void market_id att]
               | Resolve_to_rules_price \<Rightarrow> ready (outcome_states @ [void_state]) [])
            else ready outcome_states [])
     | _ \<Rightarrow> Inl (ValueError ''a binary_complement candidate must have exactly 2 legs sharing one market''))"

section \<open>The exhaustive outcome set template\<close>

definition member_payouts :: "rule_attestation list \<Rightarrow> nat \<Rightarrow> dec list" where
  "member_payouts atts i =
     map (\<lambda>j. if j = i then at_winner_payout_per_share (atts ! j) else at_loser_payout_per_share (atts ! j))
       [0..<length atts]"

definition member_state :: "candidate_leg list \<Rightarrow> rule_attestation list \<Rightarrow> nat \<Rightarrow> terminal_state" where
  "member_state legs atts i =
     \<lparr>ts_state_id = ''member_'' @ str_of_nat i @ ''_wins'',
      ts_description = cl_market_id (legs ! i) @ '': member index '' @ str_of_nat i @
        '' resolves as the winning outcome; every other member resolves as losing.'',
      ts_leg_payouts = member_payouts atts i\<rparr>"

definition group_void_state :: "rule_attestation list \<Rightarrow> terminal_state" where
  "group_void_state atts =
     \<lparr>ts_state_id = ''void'',
      ts_description = ''the group resolves void together; every member settles at its '' @
        ''own attested rules (loser) price. Template v1 models group-wide '' @
        ''void as a single combined state and cannot represent one member '' @
        ''voiding while its siblings resolve normally.'',
      ts_leg_payouts = map at_loser_payout_per_share atts\<rparr>"

definition member_assumption :: "candidate_leg \<Rightarrow> rule_attestation \<Rightarrow> proof_assumption" where
  "member_assumption leg att =
     \<lparr>as_claim = cl_market_id leg @ '' is one exhaustive, mutually-exclusive member '' @
        ''of this venue-native outcome set, per the attested rules'',
      as_attestation_id = at_attestation_id att, as_supporting_spans = at_supporting_spans att\<rparr>"

definition compile_exhaustive_outcome_set ::
  "digests \<Rightarrow> candidate_relationship \<Rightarrow> (uuid, rule_version) dict \<Rightarrow> (uuid, rule_attestation) dict \<Rightarrow>
     timestamp \<Rightarrow> string \<Rightarrow> proof_artifact result" where
  "compile_exhaustive_outcome_set D candidate rule_versions attestations as_of review_identity =
     (let legs = cd_legs candidate;
          market_ids = map cl_market_id legs
      in if length legs < 2 \<or> length (py_set market_ids) \<noteq> length market_ids
         then Inl (ValueError ''an exhaustive_outcome_set candidate must have at least 2 legs of distinct markets'')
         else
      let rule_version_ids = map cl_rule_version_id legs;
          reject = (\<lambda>status reason hashes. refuse D candidate EXHAUSTIVE_OUTCOME_SET_TEMPLATE status reason
            rule_version_ids hashes as_of review_identity None);
          member_attestations = map (\<lambda>leg. map_of attestations (cl_rule_version_id leg)) legs
      in if None \<in> set member_attestations
         then reject Insufficient_evidence MISSING_ATTESTATION (sorted_unique_hashes (map cl_rule_source_hash legs))
         else
      let atts = map the member_attestations;
          source_hashes = sorted_unique_hashes (map cl_rule_source_hash legs @ map at_rule_source_hash atts)
      in if \<not> list_all at_outcome_set_exhaustive atts
         then reject Proof_rejected OUTCOME_SET_NOT_EXHAUSTIVE source_hashes
         else if \<not> rule_versions_current rule_versions legs
         then reject Proof_rejected RULE_VERSION_CHANGED source_hashes
         else if list_ex at_tie_possible atts then reject Proof_rejected TIE_UNMODELED source_hashes
         else case combine_void atts of
           None \<Rightarrow> reject Proof_rejected VOID_BEHAVIOR_UNKNOWN source_hashes
         | Some (excluded_states, model_combined_void_state) \<Rightarrow>
             ready_artifact D candidate EXHAUSTIVE_OUTCOME_SET_TEMPLATE
               (map (member_state legs atts) [0..<length legs] @
                (if model_combined_void_state then [group_void_state atts] else []))
               (map2 member_assumption legs atts) excluded_states None rule_version_ids source_hashes
               as_of review_identity)"

section \<open>The logical implication template\<close>

definition parse_decimal :: "string option \<Rightarrow> ext_decimal option" where
  "parse_decimal v = (case v of None \<Rightarrow> None | Some s \<Rightarrow> decimal_of_text s)"

definition leg_orientation_matches :: "candidate_leg \<Rightarrow> rule_version \<Rightarrow> string \<Rightarrow> bool result" where
  "leg_orientation_matches leg rule_version expected_label =
     (case cl_outcome_index leg of
        None \<Rightarrow> Inr False
      | Some index \<Rightarrow>
          if int (length (rv_outcomes rule_version)) \<le> index then Inr False
          else bindE (py_item (rv_outcomes rule_version) index)
                 (\<lambda>label. Inr (py_casefold (py_strip label) = expected_label)))"

datatype direction = Upward | Downward

definition threshold_direction :: "string \<Rightarrow> direction option" where
  "threshold_direction predicate =
     (if predicate \<in> {''>='', ''>''} then Some Upward
      else if predicate \<in> {''<='', ''<''} then Some Downward else None)"

text \<open>\<open>x < y or (x == y and not inclusive_a)\<close>, evaluated from the left.\<close>

definition lt_or_exclusive_eq :: "ext_decimal \<Rightarrow> ext_decimal \<Rightarrow> bool \<Rightarrow> bool result" where
  "lt_or_exclusive_eq x y inclusive_a =
     bindE (ext_lt x y) (\<lambda>less. if less then Inr True
       else bindE (ext_eq x y) (\<lambda>equal. Inr (equal \<and> \<not> inclusive_a)))"

definition threshold_implies ::
  "ext_decimal \<Rightarrow> bool \<Rightarrow> ext_decimal \<Rightarrow> bool \<Rightarrow> direction \<Rightarrow> bool result" where
  "threshold_implies value_a inclusive_a value_b inclusive_b direction =
     (if direction = Upward then
        (if inclusive_b then ext_le value_b value_a else lt_or_exclusive_eq value_b value_a inclusive_a)
      else (if inclusive_b then ext_le value_a value_b else lt_or_exclusive_eq value_a value_b inclusive_a))"

text \<open>
  The checks on the two propositions and their attestations: \<open>None\<close> when they pass, and otherwise the
  status and reason of the refusal.
\<close>

type_synonym refusal = "(proof_status \<times> proof_rejection_reason) option"

definition implication_invalid :: refusal where
  "implication_invalid = Some (Proof_rejected, IMPLICATION_INVALID)"

definition not_extracted :: refusal where
  "not_extracted = Some (Insufficient_evidence, PROPOSITIONS_NOT_EXTRACTED)"

definition check_threshold ::
  "typed_proposition \<Rightarrow> typed_proposition \<Rightarrow> rule_attestation \<Rightarrow> rule_attestation \<Rightarrow> refusal result" where
  "check_threshold prop_a prop_b att_a att_b =
     (if at_deadline_utc att_a \<noteq> at_deadline_utc att_b then Inr implication_invalid
      else case (parse_decimal (tp_value prop_a), parse_decimal (tp_value prop_b)) of
        (Some value_a, Some value_b) \<Rightarrow>
          (case (at_threshold_inclusive att_a, at_threshold_inclusive att_b) of
             (Some inclusive_a, Some inclusive_b) \<Rightarrow>
               (case (threshold_direction (tp_predicate prop_a), threshold_direction (tp_predicate prop_b)) of
                  (Some direction_a, Some direction_b) \<Rightarrow>
                    if direction_a \<noteq> direction_b then Inr implication_invalid
                    else bindE (threshold_implies value_a inclusive_a value_b inclusive_b direction_a)
                      (\<lambda>implies. Inr (if implies then None else implication_invalid))
                | _ \<Rightarrow> Inr implication_invalid)
           | _ \<Rightarrow> Inr implication_invalid)
      | _ \<Rightarrow> Inr not_extracted)"

definition check_deadline :: "rule_attestation \<Rightarrow> rule_attestation \<Rightarrow> refusal" where
  "check_deadline att_a att_b =
     (if at_threshold_text att_a \<noteq> at_threshold_text att_b then implication_invalid
      else case (at_deadline_utc att_a, at_deadline_utc att_b) of
        (Some deadline_a, Some deadline_b) \<Rightarrow> if deadline_b < deadline_a then implication_invalid else None
      | _ \<Rightarrow> implication_invalid)"

definition check_implication ::
  "typed_proposition \<Rightarrow> typed_proposition \<Rightarrow> rule_attestation \<Rightarrow> rule_attestation \<Rightarrow> refusal result" where
  "check_implication prop_a prop_b att_a att_b =
     (if tp_kind prop_a \<notin> {Threshold, Deadline} \<or> tp_status prop_a \<noteq> Extracted \<or>
         tp_kind prop_b \<notin> {Threshold, Deadline} \<or> tp_status prop_b \<noteq> Extracted then Inr not_extracted
      else if tp_kind prop_a \<noteq> tp_kind prop_b then Inr implication_invalid
      else if tp_subject prop_a \<noteq> tp_subject prop_b then Inr implication_invalid
      else if at_resolution_source_attested att_a \<noteq> at_resolution_source_attested att_b
      then Inr implication_invalid
      else if tp_kind prop_a = Threshold then check_threshold prop_a prop_b att_a att_b
      else Inr (check_deadline att_a att_b))"

definition implication_states ::
  "string \<Rightarrow> string \<Rightarrow> rule_attestation \<Rightarrow> rule_attestation \<Rightarrow> terminal_state list" where
  "implication_states market_a market_b att_a att_b =
     (let winner_a = at_winner_payout_per_share att_a; loser_a = at_loser_payout_per_share att_a;
          winner_b = at_winner_payout_per_share att_b; loser_b = at_loser_payout_per_share att_b
      in [\<lparr>ts_state_id = ''neither'',
           ts_description = market_a @ '': proposition A resolves false (NO(A) wins); '' @ market_b @
             '': proposition B resolves false (YES(B) loses).'',
           ts_leg_payouts = [winner_a, loser_b]\<rparr>,
          \<lparr>ts_state_id = ''b_only'',
           ts_description = market_a @ '': proposition A resolves false (NO(A) wins); '' @ market_b @
             '': proposition B resolves true (YES(B) wins).'',
           ts_leg_payouts = [winner_a, winner_b]\<rparr>,
          \<lparr>ts_state_id = ''both'',
           ts_description = market_a @ '': proposition A resolves true (NO(A) loses); '' @ market_b @
             '': proposition B resolves true (YES(B) wins).'',
           ts_leg_payouts = [loser_a, winner_b]\<rparr>])"

definition implication_void_state ::
  "string \<Rightarrow> string \<Rightarrow> rule_attestation \<Rightarrow> rule_attestation \<Rightarrow> terminal_state" where
  "implication_void_state market_a market_b att_a att_b =
     \<lparr>ts_state_id = ''void'',
      ts_description = market_a @ '' and '' @ market_b @ '' both resolve void together; each leg '' @
        ''settles at its own attested rules (loser) price.'',
      ts_leg_payouts = [at_loser_payout_per_share att_a, at_loser_payout_per_share att_b]\<rparr>"

definition a_without_b :: "string \<Rightarrow> string \<Rightarrow> rule_attestation \<Rightarrow> excluded_state" where
  "a_without_b market_a market_b att_a =
     \<lparr>es_description = market_a @ '': proposition A resolves true; '' @ market_b @
        '': proposition B resolves false.'',
      es_exclusion_reason = ''proposition A deterministically implies proposition B per the '' @
        ''attested rules, so A resolving true with B resolving false is a '' @
        ''logically impossible combination, not modeled as a terminal state'',
      es_attestation_id = at_attestation_id att_a\<rparr>"

definition str_option :: "string option \<Rightarrow> string" where
  "str_option v = (case v of None \<Rightarrow> ''None'' | Some s \<Rightarrow> s)"

definition proposition_text :: "typed_proposition \<Rightarrow> string" where
  "proposition_text p =
     ''('' @ py_repr (tp_subject p) @ '' '' @ tp_predicate p @ '' '' @ str_option (tp_value p) @ '')''"

definition implication_assumption ::
  "string \<Rightarrow> string \<Rightarrow> typed_proposition \<Rightarrow> typed_proposition \<Rightarrow> rule_attestation \<Rightarrow> proof_assumption" where
  "implication_assumption market_a market_b prop_a prop_b att_a =
     \<lparr>as_claim = market_a @ [CHR 0x27] @ ''s proposition '' @ proposition_text prop_a @
        '' deterministically implies '' @ market_b @ [CHR 0x27] @ ''s proposition '' @ proposition_text prop_b @
        '', per the attested rules'',
      as_attestation_id = at_attestation_id att_a,
      as_supporting_spans = tp_supporting_spans prop_a @ tp_supporting_spans prop_b\<rparr>"

definition compile_logical_implication ::
  "digests \<Rightarrow> candidate_relationship \<Rightarrow> (uuid, rule_version) dict \<Rightarrow> (uuid, rule_attestation) dict \<Rightarrow>
     timestamp \<Rightarrow> string \<Rightarrow> proof_artifact result" where
  "compile_logical_implication D candidate rule_versions attestations as_of review_identity =
     (case cd_legs candidate of
       [leg_a, leg_b] \<Rightarrow>
        if cl_market_id leg_a = cl_market_id leg_b
        then Inl (ValueError ''a logical_implication candidate must have exactly 2 legs from 2 distinct markets'')
        else (case cd_propositions candidate of
       [prop_a, prop_b] \<Rightarrow>
         let legs = [leg_a, leg_b];
             rule_version_ids = map cl_rule_version_id legs;
             refusal = (\<lambda>hashes status reason. refuse D candidate LOGICAL_IMPLICATION_TEMPLATE status reason
               rule_version_ids hashes as_of review_identity None)
         in (case (map_of attestations (cl_rule_version_id leg_a), map_of attestations (cl_rule_version_id leg_b)) of
              (Some att_a, Some att_b) \<Rightarrow>
         let source_hashes = sorted_unique_hashes
               (map cl_rule_source_hash legs @ [at_rule_source_hash att_a, at_rule_source_hash att_b]);
             reject = refusal source_hashes
         in bindE (check_implication prop_a prop_b att_a att_b) (\<lambda>verdict.
            case verdict of
              Some (status, reason) \<Rightarrow> reject status reason
            | None \<Rightarrow>
            if \<not> rule_versions_current rule_versions legs then reject Proof_rejected RULE_VERSION_CHANGED
            else
            bindE (dict_item rule_versions (cl_rule_version_id leg_a)) (\<lambda>rule_a.
            bindE (leg_orientation_matches leg_a rule_a ''no'') (\<lambda>no_side.
            bindE (if \<not> no_side then Inr False
                   else bindE (dict_item rule_versions (cl_rule_version_id leg_b)) (\<lambda>rule_b.
                     leg_orientation_matches leg_b rule_b ''yes'')) (\<lambda>oriented.
            if \<not> oriented then reject Proof_rejected IMPLICATION_INVALID
            else if at_tie_possible att_a \<or> at_tie_possible att_b then reject Proof_rejected TIE_UNMODELED
            else case combine_void [att_a, att_b] of
              None \<Rightarrow> reject Proof_rejected VOID_BEHAVIOR_UNKNOWN
            | Some (excluded_states, model_combined_void_state) \<Rightarrow>
                let market_a = cl_market_id leg_a; market_b = cl_market_id leg_b
                in ready_artifact D candidate LOGICAL_IMPLICATION_TEMPLATE
                     (implication_states market_a market_b att_a att_b @
                      (if model_combined_void_state then [implication_void_state market_a market_b att_a att_b]
                       else []))
                     [implication_assumption market_a market_b prop_a prop_b att_a]
                     (a_without_b market_a market_b att_a # excluded_states) None rule_version_ids
                     source_hashes as_of review_identity))))
            | _ \<Rightarrow> refusal (sorted_unique_hashes (map cl_rule_source_hash legs))
                     Insufficient_evidence MISSING_ATTESTATION)
     | _ \<Rightarrow> Inl (ValueError ''a logical_implication candidate requires exactly one TypedProposition per leg''))
     | _ \<Rightarrow> Inl (ValueError ''a logical_implication candidate must have exactly 2 legs from 2 distinct markets''))"

section \<open>The cross-venue equivalence template\<close>

definition threshold_inclusivity_dimension :: "rule_attestation \<Rightarrow> rule_attestation \<Rightarrow> dimension_result" where
  "threshold_inclusivity_dimension a b =
     (if at_threshold_text a = None \<or> at_threshold_text b = None then Unknown_dimension
      else if at_threshold_text a = at_threshold_text b \<and> at_threshold_inclusive a = at_threshold_inclusive b
      then Compatible else Incompatible)"

definition deadline_dimension :: "rule_attestation \<Rightarrow> rule_attestation \<Rightarrow> dimension_result" where
  "deadline_dimension a b =
     (if at_deadline_utc a = None \<or> at_deadline_utc b = None then Unknown_dimension
      else if at_deadline_utc a = at_deadline_utc b then Compatible else Incompatible)"

definition resolution_sources_dimension :: "rule_attestation \<Rightarrow> rule_attestation \<Rightarrow> dimension_result" where
  "resolution_sources_dimension a b =
     (if at_resolution_source_attested a = at_resolution_source_attested b then Compatible else Incompatible)"

definition void_dispute_behavior_dimension :: "rule_attestation \<Rightarrow> rule_attestation \<Rightarrow> dimension_result" where
  "void_dispute_behavior_dimension a b =
     (if (at_void_or_invalid_possible a \<and> at_void_behavior a = Void_unknown) \<or>
         (at_void_or_invalid_possible b \<and> at_void_behavior b = Void_unknown) then Unknown_dimension
      else if (at_void_or_invalid_possible a, at_void_behavior a, at_tie_possible a, at_tie_behavior a) =
              (at_void_or_invalid_possible b, at_void_behavior b, at_tie_possible b, at_tie_behavior b)
      then Compatible else Incompatible)"

definition outcome_completeness_dimension :: "rule_attestation \<Rightarrow> rule_attestation \<Rightarrow> dimension_result" where
  "outcome_completeness_dimension a b =
     (if at_outcome_set_exhaustive a \<and> at_outcome_set_exhaustive b then Compatible else Incompatible)"

definition denomination_dimension :: "rule_attestation \<Rightarrow> rule_attestation \<Rightarrow> dimension_result" where
  "denomination_dimension a b =
     (if at_payout_unit a = at_payout_unit b \<and>
         deq (at_winner_payout_per_share a) (at_winner_payout_per_share b) \<and>
         deq (at_loser_payout_per_share a) (at_loser_payout_per_share b) then Compatible else Incompatible)"

definition build_equivalence_matrix ::
  "rule_attestation \<Rightarrow> rule_attestation \<Rightarrow> uuid list \<Rightarrow> equivalence_matrix" where
  "build_equivalence_matrix a b basis =
     \<lparr>eq_proposition_threshold_inclusivity = threshold_inclusivity_dimension a b,
      eq_observation_period_timezone = deadline_dimension a b,
      eq_resolution_sources = resolution_sources_dimension a b,
      eq_void_dispute_behavior = void_dispute_behavior_dimension a b,
      eq_outcome_completeness = outcome_completeness_dimension a b,
      eq_denomination_collateral_rounding = denomination_dimension a b,
      eq_settlement_finality_timing = Unknown_dimension,
      eq_venue_access_custody_rules = Unknown_dimension,
      eq_basis_attestation_ids = basis\<rparr>"

definition all_unknown_equivalence_matrix :: "uuid list \<Rightarrow> equivalence_matrix" where
  "all_unknown_equivalence_matrix basis =
     \<lparr>eq_proposition_threshold_inclusivity = Unknown_dimension,
      eq_observation_period_timezone = Unknown_dimension,
      eq_resolution_sources = Unknown_dimension, eq_void_dispute_behavior = Unknown_dimension,
      eq_outcome_completeness = Unknown_dimension,
      eq_denomination_collateral_rounding = Unknown_dimension,
      eq_settlement_finality_timing = Unknown_dimension,
      eq_venue_access_custody_rules = Unknown_dimension, eq_basis_attestation_ids = basis\<rparr>"

definition matrix_dimensions :: "equivalence_matrix \<Rightarrow> dimension_result list" where
  "matrix_dimensions m =
     [eq_proposition_threshold_inclusivity m, eq_observation_period_timezone m, eq_resolution_sources m,
      eq_void_dispute_behavior m, eq_outcome_completeness m, eq_denomination_collateral_rounding m,
      eq_settlement_finality_timing m, eq_venue_access_custody_rules m]"

definition equivalence_terminal_states ::
  "rule_attestation \<Rightarrow> rule_attestation \<Rightarrow> string \<Rightarrow> string \<Rightarrow> terminal_state list" where
  "equivalence_terminal_states att_a att_b market_a market_b =
     [\<lparr>ts_state_id = ''proposition_true'',
       ts_description = market_a @ '' and '' @ market_b @ '': the shared proposition resolves true on '' @
         ''both venues (proven equivalent); YES(leg 0) wins, NO(leg 1) loses.'',
       ts_leg_payouts = [at_winner_payout_per_share att_a, at_loser_payout_per_share att_b]\<rparr>,
      \<lparr>ts_state_id = ''proposition_false'',
       ts_description = market_a @ '' and '' @ market_b @ '': the shared proposition resolves false on '' @
         ''both venues (proven equivalent); NO(leg 1) wins, YES(leg 0) loses.'',
       ts_leg_payouts = [at_loser_payout_per_share att_a, at_winner_payout_per_share att_b]\<rparr>]"

definition equivalence_assumption ::
  "string \<Rightarrow> string \<Rightarrow> rule_attestation \<Rightarrow> rule_attestation \<Rightarrow> proof_assumption" where
  "equivalence_assumption market_a market_b att_a att_b =
     \<lparr>as_claim = market_a @ '' (leg 0) and '' @ market_b @ '' (leg 1) attest an identical proposition '' @
        ''across venues per every equivalence dimension'',
      as_attestation_id = at_attestation_id att_a,
      as_supporting_spans = at_supporting_spans att_a @ at_supporting_spans att_b\<rparr>"

definition compile_cross_venue_equivalence ::
  "digests \<Rightarrow> candidate_relationship \<Rightarrow> (uuid, rule_version) dict \<Rightarrow> (uuid, rule_attestation) dict \<Rightarrow>
     timestamp \<Rightarrow> string \<Rightarrow> proof_artifact result" where
  "compile_cross_venue_equivalence D candidate rule_versions attestations as_of review_identity =
     (case cd_legs candidate of
       [leg_a, leg_b] \<Rightarrow>
         let legs = [leg_a, leg_b];
             rule_version_ids = map cl_rule_version_id legs;
             refusal = (\<lambda>status reason hashes matrix. refuse D candidate CROSS_VENUE_EQUIVALENCE_TEMPLATE
               status reason rule_version_ids hashes as_of review_identity (Some matrix));
             found = (map_of attestations (cl_rule_version_id leg_a), map_of attestations (cl_rule_version_id leg_b))
         in (case found of
              (Some att_a, Some att_b) \<Rightarrow>
         let source_hashes = sorted_unique_hashes
               (map cl_rule_source_hash legs @ [at_rule_source_hash att_a, at_rule_source_hash att_b]);
             basis = sort [at_attestation_id att_a, at_attestation_id att_b]
         in if \<not> rule_versions_current rule_versions legs
            then refusal Proof_rejected RULE_VERSION_CHANGED source_hashes (all_unknown_equivalence_matrix basis)
            else
         let matrix = build_equivalence_matrix att_a att_b basis; dimensions = matrix_dimensions matrix
         in if Incompatible \<in> set dimensions
            then refusal Proof_rejected EQUIVALENCE_DIMENSION_INCOMPATIBLE source_hashes matrix
            else if Unknown_dimension \<in> set dimensions
            then refusal Proof_rejected EQUIVALENCE_DIMENSION_UNKNOWN source_hashes matrix
            else
         let market_a = cl_market_id leg_a; market_b = cl_market_id leg_b
         in ready_artifact D candidate CROSS_VENUE_EQUIVALENCE_TEMPLATE
              (equivalence_terminal_states att_a att_b market_a market_b)
              [equivalence_assumption market_a market_b att_a att_b] [] (Some matrix) rule_version_ids
              source_hashes as_of review_identity
            | (first, second) \<Rightarrow>
         let basis = sort (map at_attestation_id (List.map_filter id [first, second]))
         in refusal Insufficient_evidence MISSING_ATTESTATION (sorted_unique_hashes (map cl_rule_source_hash legs))
              (all_unknown_equivalence_matrix basis))
     | _ \<Rightarrow> Inl (ValueError ''a cross_venue_equivalence candidate must have exactly 2 legs''))"

definition compile_proof ::
  "digests \<Rightarrow> candidate_relationship \<Rightarrow> (uuid, rule_version) dict \<Rightarrow> (uuid, rule_attestation) dict \<Rightarrow>
     timestamp \<Rightarrow> string \<Rightarrow> proof_artifact result" where
  "compile_proof D candidate rule_versions attestations as_of review_identity =
     (case cd_relationship_type candidate of
        Binary_complement \<Rightarrow>
          compile_binary_complement D candidate rule_versions attestations as_of review_identity
      | Exhaustive_outcome_set \<Rightarrow>
          compile_exhaustive_outcome_set D candidate rule_versions attestations as_of review_identity
      | Logical_implication \<Rightarrow>
          compile_logical_implication D candidate rule_versions attestations as_of review_identity
      | Cross_venue_equivalence \<Rightarrow>
          compile_cross_venue_equivalence D candidate rule_versions attestations as_of review_identity)"

section \<open>Properties of every artifact\<close>

lemma validate_proof_finalize:
  assumes "validate_proof p = Inr p"
  shows "validate_proof (finalize D p) = Inr (finalize D p)"
  using assms unfolding validate_proof_def finalize_def Let_def bindE_eq_Inr checkE_Inr by auto

lemma refuse_Inr:
  assumes "refuse D c t status reason rvs hashes as_of rid m = Inr p"
  shows "pa_status p = status" "pa_rejection_reason p = Some reason" "pa_terminal_states p = []"
    "validate_proof p = Inr p" "pa_proof_id p = derive_proof_id D p" "pa_equivalence_matrix p = m"
proof -
  from assms obtain q where p: "p = finalize D q" and "artifact.valid q" and fields: "pa_status q = status"
    "pa_rejection_reason q = Some reason" "pa_terminal_states q = []" "pa_equivalence_matrix q = m"
    by (auto simp: refuse_def bindE_eq_Inr terminal_artifact_def artifact.validate_iff)
  then show "validate_proof p = Inr p"
    by (simp add: validate_proof_finalize artifact.valid_def)
  show "pa_proof_id p = derive_proof_id D p"
    using proof_identity.ident_seal proof_identity.derive_seal by (simp add: p)
  show "pa_status p = status" "pa_rejection_reason p = Some reason" "pa_terminal_states p = []"
    "pa_equivalence_matrix p = m"
    using fields by (simp_all add: p finalize_def)
qed

lemma refuse_fields:
  "refuse D c t status reason rvs hashes as_of rid m = Inr p \<Longrightarrow>
     pa_status p = status \<and> pa_rejection_reason p = Some reason \<and> pa_terminal_states p = [] \<and>
     pa_equivalence_matrix p = m"
  by (intro conjI refuse_Inr)

text \<open>The bounds of a ready artifact are the least and the greatest sum over its terminal states.\<close>

definition tight_bounds :: "proof_artifact \<Rightarrow> bool" where
  "tight_bounds p \<longleftrightarrow>
     (\<exists>lo hi. pa_minimum_basket_payout p = Some lo \<and> pa_maximum_basket_payout p = Some hi \<and>
       (\<forall>s \<in> set (pa_terminal_states p). dval lo \<le> dval (dsum (ts_leg_payouts s)) \<and>
          dval (dsum (ts_leg_payouts s)) \<le> dval hi) \<and>
       lo \<in> (\<lambda>s. dsum (ts_leg_payouts s)) ` set (pa_terminal_states p) \<and>
       hi \<in> (\<lambda>s. dsum (ts_leg_payouts s)) ` set (pa_terminal_states p))"

lemma ready_artifact_Inr:
  assumes "ready_artifact D c t states assumptions excluded m rvs hashes as_of rid = Inr p"
  shows "pa_status p = Proof_ready" "pa_terminal_states p = states" "pa_excluded_states p = excluded"
    "validate_proof p = Inr p" "pa_proof_id p = derive_proof_id D p" "tight_bounds p"
    "pa_rejection_reason p = None" "pa_equivalence_matrix p = m"
proof -
  from assms obtain lo hi q where
    bounds: "dmin_list (map (\<lambda>state. dsum (ts_leg_payouts state)) states) = Inr lo"
      "dmax_list (map (\<lambda>state. dsum (ts_leg_payouts state)) states) = Inr hi"
    and q: "artifact.valid q" "pa_status q = Proof_ready" "pa_terminal_states q = states"
      "pa_minimum_basket_payout q = Some lo" "pa_maximum_basket_payout q = Some hi"
      "pa_excluded_states q = excluded" "pa_rejection_reason q = None" "pa_equivalence_matrix q = m"
    and p: "p = finalize D q"
    by (auto simp: ready_artifact_def bindE_eq_Inr Let_def artifact.validate_iff
        dest!: terminal_state.map_validate)
  show "validate_proof p = Inr p"
    using q(1) by (simp add: p validate_proof_finalize artifact.valid_def)
  show "pa_proof_id p = derive_proof_id D p"
    using proof_identity.ident_seal proof_identity.derive_seal by (simp add: p)
  show "pa_status p = Proof_ready" "pa_terminal_states p = states" "pa_excluded_states p = excluded"
    "pa_rejection_reason p = None" "pa_equivalence_matrix p = m"
    using q by (simp_all add: p finalize_def)
  show "tight_bounds p"
    using dmin_list_Inr [OF bounds(1)] dmax_list_Inr [OF bounds(2)] q
    by (auto simp: tight_bounds_def p finalize_def)
qed

subsection \<open>When each template is ready\<close>

lemma binary_ready:
  assumes "compile_binary_complement D c rvs atts t rid = Inr p" and "pa_status p = Proof_ready"
  obtains a b att where "cd_legs c = [a, b]" and "map_of atts (cl_rule_version_id a) = Some att"
    and "cl_market_id a = cl_market_id b" and "cl_rule_version_id a = cl_rule_version_id b"
    and "at_outcome_set_exhaustive att" and "\<not> at_tie_possible att"
    and "rule_versions_current rvs [a, b]"
    and "\<not> (at_void_or_invalid_possible att \<and> at_void_behavior att = Void_unknown)"
    and "map ts_leg_payouts (pa_terminal_states p) =
      (let w = at_winner_payout_per_share att; l = at_loser_payout_per_share att
       in [[w, l], [l, w]] @
          (if at_void_or_invalid_possible att \<and> at_void_behavior att = Resolve_to_rules_price then [[l, l]] else []))"
    and "tight_bounds p"
proof -
  from assms(1) obtain a b where legs: "cd_legs c = [a, b]"
    by (auto simp: compile_binary_complement_def split: list.splits)
  have same: "cl_market_id a = cl_market_id b" "cl_rule_version_id a = cl_rule_version_id b"
    using assms(1) by (auto simp: compile_binary_complement_def legs split: if_splits)
  obtain att where att: "map_of atts (cl_rule_version_id b) = Some att"
    using assms by (auto simp: compile_binary_complement_def legs same Let_def dest: refuse_Inr
        split: option.splits)
  show ?thesis
    by (rule that [OF legs att [folded same(2)] same])
      (insert assms, auto simp: compile_binary_complement_def legs same att Let_def bindE_eq_Inr
        dest: refuse_Inr ready_artifact_Inr split: if_splits void_behavior.splits)
qed

lemma exhaustive_ready:
  assumes "compile_exhaustive_outcome_set D c rvs atts t rid = Inr p" and "pa_status p = Proof_ready"
  obtains as excluded void where "map (\<lambda>leg. map_of atts (cl_rule_version_id leg)) (cd_legs c) = map Some as"
    and "2 \<le> length (cd_legs c)" and "distinct (map cl_market_id (cd_legs c))"
    and "list_all at_outcome_set_exhaustive as" and "\<not> list_ex at_tie_possible as"
    and "rule_versions_current rvs (cd_legs c)" and "combine_void as = Some (excluded, void)"
    and "map ts_leg_payouts (pa_terminal_states p) = map (member_payouts as) [0..<length as] @
      (if void then [map at_loser_payout_per_share as] else [])"
    and "tight_bounds p"
proof -
  let ?found = "map (\<lambda>leg. map_of atts (cl_rule_version_id leg)) (cd_legs c)"
  let ?as = "map the ?found"
  have none: "None \<notin> set ?found"
    using assms by (auto simp: compile_exhaustive_outcome_set_def Let_def simp del: set_map
        dest: refuse_Inr split: if_splits)
  then have found: "?found = map Some ?as"
    by (simp add: map_eq_conv) (metis image_eqI option.collapse)
  obtain excluded void where void: "combine_void ?as = Some (excluded, void)"
    using assms none by (auto simp: compile_exhaustive_outcome_set_def Let_def simp del: set_map map_map
        dest: refuse_Inr split: if_splits option.splits)
  from assms none void obtain assumptions rids hashes where ready:
    "ready_artifact D c EXHAUSTIVE_OUTCOME_SET_TEMPLATE
       (map (member_state (cd_legs c) ?as) [0..<length (cd_legs c)] @ (if void then [group_void_state ?as] else []))
       assumptions excluded None rids hashes t rid = Inr p"
    by (auto simp: compile_exhaustive_outcome_set_def Let_def simp del: set_map map_map
        dest: refuse_Inr split: if_splits)
  have "map ts_leg_payouts (pa_terminal_states p) = map (member_payouts ?as) [0..<length ?as] @
      (if void then [map at_loser_payout_per_share ?as] else [])"
    by (simp add: ready_artifact_Inr(2) [OF ready] member_state_def group_void_state_def comp_def)
  from that [OF found _ _ _ _ _ void this ready_artifact_Inr(6) [OF ready]] show ?thesis
    using assms none void
    by (auto simp: compile_exhaustive_outcome_set_def Let_def length_py_set_distinct
        simp del: set_map map_map dest: refuse_Inr split: if_splits)
qed

lemma check_implication_status:
  "check_implication pa pb att_a att_b = Inr (Some (status, reason)) \<Longrightarrow> status \<noteq> Proof_ready"
  by (auto simp: check_implication_def check_threshold_def check_deadline_def implication_invalid_def
      not_extracted_def bindE_eq_Inr split: if_splits option.splits)

lemma implication_ready:
  assumes "compile_logical_implication D c rvs atts t rid = Inr p" and "pa_status p = Proof_ready"
  obtains a b pa pb att_a att_b rule_a rule_b excluded void where "cd_legs c = [a, b]"
    and "cd_propositions c = [pa, pb]"
    and "map_of atts (cl_rule_version_id a) = Some att_a" and "map_of atts (cl_rule_version_id b) = Some att_b"
    and "map_of rvs (cl_rule_version_id a) = Some rule_a" and "map_of rvs (cl_rule_version_id b) = Some rule_b"
    and "check_implication pa pb att_a att_b = Inr None"
    and "leg_orientation_matches a rule_a ''no'' = Inr True"
    and "leg_orientation_matches b rule_b ''yes'' = Inr True"
    and "\<not> at_tie_possible att_a" and "\<not> at_tie_possible att_b"
    and "combine_void [att_a, att_b] = Some (excluded, void)"
    and "map ts_leg_payouts (pa_terminal_states p) =
      [[at_winner_payout_per_share att_a, at_loser_payout_per_share att_b],
       [at_winner_payout_per_share att_a, at_winner_payout_per_share att_b],
       [at_loser_payout_per_share att_a, at_winner_payout_per_share att_b]] @
      (if void then [[at_loser_payout_per_share att_a, at_loser_payout_per_share att_b]] else [])"
    and "tight_bounds p"
proof -
  from assms(1) obtain a b pa pb where legs: "cd_legs c = [a, b]" "cd_propositions c = [pa, pb]"
    by (auto simp: compile_logical_implication_def split: list.splits if_splits)
  from assms obtain att_a att_b where att: "map_of atts (cl_rule_version_id a) = Some att_a"
      "map_of atts (cl_rule_version_id b) = Some att_b"
    by (auto simp: compile_logical_implication_def legs Let_def dest: refuse_Inr split: option.splits if_splits)
  from assms obtain verdict where verdict: "check_implication pa pb att_a att_b = Inr verdict"
    by (auto simp: compile_logical_implication_def legs att Let_def bindE_eq_Inr split: if_splits)
  have "verdict = None"
  proof (cases verdict)
    case (Some r)
    with assms verdict show ?thesis
      by (cases r) (auto simp: compile_logical_implication_def legs att Let_def
          dest: refuse_Inr check_implication_status split: if_splits)
  qed
  with verdict have check: "check_implication pa pb att_a att_b = Inr None"
    by simp
  from assms have "rule_versions_current rvs [a, b]"
    by (auto simp: compile_logical_implication_def legs att check Let_def dest: refuse_Inr split: if_splits)
  then obtain rule_a rule_b where rules: "map_of rvs (cl_rule_version_id a) = Some rule_a"
      "map_of rvs (cl_rule_version_id b) = Some rule_b"
    by (auto simp: rule_versions_current_def)
  from assms have sides: "leg_orientation_matches a rule_a ''no'' = Inr True"
      "leg_orientation_matches b rule_b ''yes'' = Inr True"
    by (auto simp: compile_logical_implication_def legs att check rules Let_def bindE_eq_Inr dict_item_def
        rule_versions_current_def dest: refuse_Inr split: if_splits)
  from assms obtain excluded void assumptions hashes rids where
    rest: "\<not> at_tie_possible att_a" "\<not> at_tie_possible att_b" "combine_void [att_a, att_b] = Some (excluded, void)"
    and ready: "ready_artifact D c LOGICAL_IMPLICATION_TEMPLATE
        (implication_states (cl_market_id a) (cl_market_id b) att_a att_b @
         (if void then [implication_void_state (cl_market_id a) (cl_market_id b) att_a att_b] else []))
        assumptions (a_without_b (cl_market_id a) (cl_market_id b) att_a # excluded) None rids hashes t rid = Inr p"
    by (auto simp: compile_logical_implication_def legs att check rules sides Let_def dict_item_def
        rule_versions_current_def dest: refuse_Inr split: if_splits option.splits)
  show ?thesis
    by (rule that [OF legs att rules check sides rest _ ready_artifact_Inr(6) [OF ready]])
      (simp add: ready_artifact_Inr(2) [OF ready] implication_states_def implication_void_state_def Let_def)
qed

end
