(* ===== verification/Proof_Guarantees.thy ===== *)
theory Proof_Guarantees
  imports Proof_Compiler
begin

text \<open>
  What a proof artifact of \<open>predictions/proofs.py\<close> promises: for each template, what the resolutions of
  the markets pay, and that a ready artifact's bounds hold for every resolution the attestations
  admit; that every artifact is valid, bounded tightly and named by its content; that the compiler
  returns on well-shaped evidence; and that cross-venue equivalence is never ready.
\<close>

section \<open>What a ready proof guarantees\<close>

text \<open>
  A list of payouts is on a grid when they are multiples of \<open>10 ^ s\<close> and their sizes add up within the
  28 digits of the decimal context, so that the code's sums are exact.
\<close>

definition on_grid :: "int \<Rightarrow> dec list \<Rightarrow> bool" where
  "on_grid s xs \<longleftrightarrow> s \<le> 0 \<and> (\<forall>x \<in> set xs. s \<le> dexp x) \<and> (\<Sum>x\<leftarrow>xs. \<bar>dval x\<bar>) < 10 powi (28 + s)"

text \<open>The artifact's bounds enclose what the legs pay.\<close>

definition floor_holds :: "proof_artifact \<Rightarrow> dec list \<Rightarrow> bool" where
  "floor_holds p payouts \<longleftrightarrow>
     (\<exists>lo hi. pa_minimum_basket_payout p = Some lo \<and> pa_maximum_basket_payout p = Some hi \<and>
        dval lo \<le> (\<Sum>x\<leftarrow>payouts. dval x) \<and> (\<Sum>x\<leftarrow>payouts. dval x) \<le> dval hi)"

lemma floor_holdsI:
  assumes "tight_bounds p" and "payouts \<in> set (map ts_leg_payouts (pa_terminal_states p))" and "on_grid s payouts"
  shows "floor_holds p payouts"
proof -
  have "dval (dsum payouts) = (\<Sum>x\<leftarrow>payouts. dval x)"
    using assms(3) by (intro dsum_exact [of s]) (auto simp: on_grid_def)
  then show ?thesis
    using assms(1,2) by (auto simp: tight_bounds_def floor_holds_def)
qed

subsection \<open>Binary complements\<close>

text \<open>How a binary market resolves: one of its outcomes wins, or it is void.\<close>

datatype resolution = Winner int | Void_resolution

definition outcome_payout :: "rule_attestation \<Rightarrow> resolution \<Rightarrow> candidate_leg \<Rightarrow> dec" where
  "outcome_payout att res leg =
     (case res of
        Winner w \<Rightarrow> if cl_outcome_index leg = Some w then at_winner_payout_per_share att
                    else at_loser_payout_per_share att
      | Void_resolution \<Rightarrow> at_loser_payout_per_share att)"

text \<open>What the attestation leaves possible, a void that refunds the cost at par aside.\<close>

definition binary_resolutions :: "rule_attestation \<Rightarrow> resolution set" where
  "binary_resolutions att = {Winner 0, Winner 1} \<union>
     (if at_void_or_invalid_possible att \<and> at_void_behavior att \<noteq> Refund_at_cost then {Void_resolution} else {})"

text \<open>The voids left aside are exactly the states the artifact names as excluded.\<close>

lemma binary_excluded:
  assumes "compile_binary_complement D c rvs atts t rid = Inr p" and "pa_status p = Proof_ready"
    and "cd_legs c = [a, b]" and "map_of atts (cl_rule_version_id a) = Some att"
  shows "map es_attestation_id (pa_excluded_states p) =
    (if at_void_or_invalid_possible att \<and> at_void_behavior att = Refund_at_cost then [at_attestation_id att] else [])"
proof -
  have same: "cl_market_id a = cl_market_id b" "cl_rule_version_id a = cl_rule_version_id b"
    using assms(1) by (auto simp: compile_binary_complement_def assms(3) split: if_splits)
  show ?thesis
    using assms(1,2,4)
    by (auto simp: compile_binary_complement_def assms(3) same Let_def bindE_eq_Inr excluded_void_def
        dest: refuse_Inr dest!: ready_artifact_Inr(3) split: if_splits void_behavior.splits)
qed

text \<open>
  C30: a ready binary-complement proof whose legs are the market's outcomes 0 and 1 (in either order) bounds what
  the legs pay: whatever outcome wins, or if the market voids at the rules price, the two legs together
  pay at least the artifact's minimum and at most its maximum, as long as the payouts fit the
  decimal context.  A void that refunds at cost is not bounded: when the attestation admits one it is the
  artifact's one excluded state, and otherwise nothing is excluded.  The artifact rests on an attestation of
  the legs' rule version that calls the outcome set exhaustive and excludes ties, and both legs' rule
  versions are current.
\<close>

theorem binary_complement_floor:
  assumes "compile_proof D c rvs atts t rid = Inr p" and "pa_status p = Proof_ready"
    and "cd_relationship_type c = Binary_complement"
    and "map cl_outcome_index (cd_legs c) \<in> {[Some 0, Some 1], [Some 1, Some 0]}"
    and "map_of atts (cl_rule_version_id (hd (cd_legs c))) = Some att" and "res \<in> binary_resolutions att"
    and "on_grid s [at_winner_payout_per_share att, at_loser_payout_per_share att]"
    and "on_grid s [at_loser_payout_per_share att, at_loser_payout_per_share att]"
  shows "floor_holds p (map (outcome_payout att res) (cd_legs c)) \<and>
    map es_attestation_id (pa_excluded_states p) =
      (if at_void_or_invalid_possible att \<and> at_void_behavior att = Refund_at_cost then [at_attestation_id att] else []) \<and>
    at_outcome_set_exhaustive att \<and> \<not> at_tie_possible att \<and> rule_versions_current rvs (cd_legs c)"
proof -
  have compiled: "compile_binary_complement D c rvs atts t rid = Inr p"
    using assms(1,3) by (simp add: compile_proof_def)
  from binary_ready [OF this assms(2)] obtain a b where legs: "cd_legs c = [a, b]"
    and ok: "at_outcome_set_exhaustive att" "\<not> at_tie_possible att" "rule_versions_current rvs [a, b]"
    and void: "\<not> (at_void_or_invalid_possible att \<and> at_void_behavior att = Void_unknown)"
    and states: "map ts_leg_payouts (pa_terminal_states p) =
      (let w = at_winner_payout_per_share att; l = at_loser_payout_per_share att
       in [[w, l], [l, w]] @
          (if at_void_or_invalid_possible att \<and> at_void_behavior att = Resolve_to_rules_price then [[l, l]] else []))"
    and bounds: "tight_bounds p"
    using assms(5) by (metis list.sel(1) option.sel)
  have grid: "on_grid s [at_loser_payout_per_share att, at_winner_payout_per_share att]"
    using assms(7) by (auto simp: on_grid_def add.commute)
  have "map (outcome_payout att res) [a, b] \<in> set (map ts_leg_payouts (pa_terminal_states p))"
    using assms(4,6) void by (cases "at_void_behavior att")
      (auto simp: legs states Let_def binary_resolutions_def outcome_payout_def split: if_splits)
  moreover have "on_grid s (map (outcome_payout att res) [a, b])"
    using assms(4,6,7,8) grid
    by (auto simp: legs binary_resolutions_def outcome_payout_def split: if_splits)
  moreover have "map_of atts (cl_rule_version_id a) = Some att" using assms(5) legs by simp
  note excluded = binary_excluded [OF compiled assms(2) legs this]
  ultimately show ?thesis
    using floor_holdsI [OF bounds] ok excluded by (simp add: legs)
qed


lemma combine_void_flag:
  assumes "combine_void as = Some (excluded, void)"
  shows "void \<longleftrightarrow> (\<exists>a \<in> set as. at_void_or_invalid_possible a \<and> at_void_behavior a \<noteq> Refund_at_cost)"
    and "map es_attestation_id excluded =
      map at_attestation_id (filter (\<lambda>a. at_void_or_invalid_possible a \<and> at_void_behavior a = Refund_at_cost) as)"
proof -
  have "(void \<longleftrightarrow> (\<exists>a \<in> set as. at_void_or_invalid_possible a \<and> at_void_behavior a \<noteq> Refund_at_cost)) \<and>
    map es_attestation_id excluded =
      map at_attestation_id (filter (\<lambda>a. at_void_or_invalid_possible a \<and> at_void_behavior a = Refund_at_cost) as)"
    (is "?flag \<and> ?excluded")
  proof -
    let ?members = "filter at_void_or_invalid_possible as"
    let ?behaviors = "py_set (map at_void_behavior ?members)"
    show ?thesis
    proof (cases "?members = []")
      case True
      then have none: "\<not> at_void_or_invalid_possible a" if "a \<in> set as" for a
        using that by (auto simp: filter_empty_conv)
      from True assms have "excluded = []" "\<not> void" by (simp_all add: combine_void_def Let_def)
      then show ?thesis using none by (auto intro!: filter_False)
    next
      case False
      then obtain m where m: "m \<in> set ?members" by (cases ?members) auto
      with assms False have "length ?behaviors \<le> 1"
        by (simp add: combine_void_def Let_def split: if_splits)
      moreover have "at_void_behavior m \<in> set ?behaviors" using m by auto
      ultimately have one: "?behaviors = [at_void_behavior m]"
        by (cases ?behaviors) auto
      then have "set (map at_void_behavior ?members) = {at_void_behavior m}"
        by (metis set_py_set list.set(1,2))
      then have all: "at_void_behavior a = at_void_behavior m" if "a \<in> set as" "at_void_or_invalid_possible a" for a
        using that by (force simp: image_iff)
      have flag: "void \<longleftrightarrow> at_void_behavior m \<noteq> Refund_at_cost"
        and excluded: "excluded = (if at_void_behavior m = Refund_at_cost
          then map (\<lambda>a. excluded_void (at_market_id a) a) ?members else [])"
        using assms False by (auto simp: combine_void_def Let_def one split: if_splits)
      have "filter (\<lambda>a. at_void_or_invalid_possible a \<and> at_void_behavior a = Refund_at_cost) as =
          (if at_void_behavior m = Refund_at_cost then ?members else [])"
        using all by (cases "at_void_behavior m = Refund_at_cost") (auto simp: filter_empty_conv intro: filter_cong)
      then have ?excluded by (simp add: excluded excluded_void_def comp_def)
      moreover have ?flag
      proof
        assume void
        then show "\<exists>a \<in> set as. at_void_or_invalid_possible a \<and> at_void_behavior a \<noteq> Refund_at_cost"
          using flag m by auto
      next
        assume "\<exists>a \<in> set as. at_void_or_invalid_possible a \<and> at_void_behavior a \<noteq> Refund_at_cost"
        then obtain a where "a \<in> set as" "at_void_or_invalid_possible a" "at_void_behavior a \<noteq> Refund_at_cost" by blast
        with all [of a] flag show void by simp
      qed
      ultimately show ?thesis by blast
    qed
  qed
  then show "void \<longleftrightarrow> (\<exists>a \<in> set as. at_void_or_invalid_possible a \<and> at_void_behavior a \<noteq> Refund_at_cost)"
    "map es_attestation_id excluded =
      map at_attestation_id (filter (\<lambda>a. at_void_or_invalid_possible a \<and> at_void_behavior a = Refund_at_cost) as)"
    by blast+
qed

text \<open>A ready outcome-set proof excludes the voids that refund at cost, one state per such member.\<close>

lemma exhaustive_excluded:
  assumes "compile_exhaustive_outcome_set D c rvs atts t rid = Inr p" and "pa_status p = Proof_ready"
    and "map (\<lambda>leg. map_of atts (cl_rule_version_id leg)) (cd_legs c) = map Some as"
  shows "map es_attestation_id (pa_excluded_states p) =
    map at_attestation_id (filter (\<lambda>a. at_void_or_invalid_possible a \<and> at_void_behavior a = Refund_at_cost) as)"
proof -
  have the: "map the (map Some as) = as" by (simp add: comp_def)
  obtain excluded void where void: "combine_void as = Some (excluded, void)"
    using assms(1,2) unfolding compile_exhaustive_outcome_set_def Let_def assms(3) the
    by (auto dest: refuse_Inr split: if_splits option.splits)
  then have "pa_excluded_states p = excluded"
    using assms(1,2) unfolding compile_exhaustive_outcome_set_def Let_def assms(3) the
    by (auto dest: refuse_Inr dest!: ready_artifact_Inr(3) split: if_splits)
  then show ?thesis using combine_void_flag(2) [OF void] by simp
qed

subsection \<open>Exhaustive outcome sets\<close>

text \<open>Member \<open>w\<close> of the group wins, or the group is void together; every leg is a YES side.\<close>

definition group_payouts :: "rule_attestation list \<Rightarrow> resolution \<Rightarrow> dec list" where
  "group_payouts as res =
     (case res of
        Winner w \<Rightarrow> map2 (\<lambda>j att. if int j = w then at_winner_payout_per_share att
                             else at_loser_payout_per_share att) [0..<length as] as
      | Void_resolution \<Rightarrow> map at_loser_payout_per_share as)"

definition group_resolutions :: "rule_attestation list \<Rightarrow> resolution set" where
  "group_resolutions as = (Winner \<circ> int) ` {..<length as} \<union>
     (if \<exists>a \<in> set as. at_void_or_invalid_possible a \<and> at_void_behavior a \<noteq> Refund_at_cost
      then {Void_resolution} else {})"

text \<open>
  C31: a ready exhaustive-outcome-set proof bounds what its members pay: whichever member of the group wins, or if
  the group voids at its rules prices, one share of every member together pays at least the
  artifact's minimum and at most its maximum, each leg priced from its own attestation.  A void that refunds
  at cost is not bounded: the artifact excludes it, with one excluded state for each member whose attestation
  admits one and for no other.  Every member is attested exhaustive and free of ties, the members are
  distinct markets and their rule versions are current.
\<close>

theorem exhaustive_outcome_floor:
  assumes "compile_proof D c rvs atts t rid = Inr p" and "pa_status p = Proof_ready"
    and "cd_relationship_type c = Exhaustive_outcome_set"
    and "map (\<lambda>leg. map_of atts (cl_rule_version_id leg)) (cd_legs c) = map Some as"
    and "res \<in> group_resolutions as" and "on_grid s (group_payouts as res)"
  shows "floor_holds p (group_payouts as res) \<and>
    map es_attestation_id (pa_excluded_states p) =
      map at_attestation_id (filter (\<lambda>a. at_void_or_invalid_possible a \<and> at_void_behavior a = Refund_at_cost) as) \<and>
    list_all at_outcome_set_exhaustive as \<and>
    \<not> list_ex at_tie_possible as \<and> distinct (map cl_market_id (cd_legs c)) \<and> rule_versions_current rvs (cd_legs c)"
proof -
  have compiled: "compile_exhaustive_outcome_set D c rvs atts t rid = Inr p"
    using assms(1,3) by (simp add: compile_proof_def)
  from exhaustive_ready [OF this assms(2)] obtain bs excluded void where
    "map (\<lambda>leg. map_of atts (cl_rule_version_id leg)) (cd_legs c) = map Some bs"
    and ok: "list_all at_outcome_set_exhaustive bs" "\<not> list_ex at_tie_possible bs"
      "distinct (map cl_market_id (cd_legs c))" "rule_versions_current rvs (cd_legs c)"
    and void: "combine_void bs = Some (excluded, void)"
    and states: "map ts_leg_payouts (pa_terminal_states p) = map (member_payouts bs) [0..<length bs] @
      (if void then [map at_loser_payout_per_share bs] else [])"
    and bounds: "tight_bounds p"
    by metis
  then have bs: "bs = as"
    using assms(4) by (metis inj_map_eq_map inj_Some)
  have "member_payouts as i = group_payouts as (Winner (int i))" for i
    by (rule nth_equalityI) (simp_all add: member_payouts_def group_payouts_def)
  then have "group_payouts as res \<in> set (map ts_leg_payouts (pa_terminal_states p))"
    using assms(5) combine_void_flag(1) [OF void]
    by (auto simp: states bs group_resolutions_def group_payouts_def split: if_splits)
  from floor_holdsI [OF bounds this assms(6)] ok bs exhaustive_excluded [OF compiled assms(2,4)] show ?thesis by simp
qed

subsection \<open>Logical implications\<close>

text \<open>
  A threshold is met by a measured value, and an infinite bound by every value or none; a deadline is
  met by an event that happens no later than it.
\<close>

definition threshold_holds :: "direction \<Rightarrow> bool \<Rightarrow> ext_decimal \<Rightarrow> rat \<Rightarrow> bool" where
  "threshold_holds dir inclusive v x =
     (case v of
        Finite d \<Rightarrow> (case dir of
            Upward \<Rightarrow> (if inclusive then dval d \<le> x else dval d < x)
          | Downward \<Rightarrow> (if inclusive then x \<le> dval d else x < dval d))
      | Infinite negative \<Rightarrow> (dir = Upward) = negative
      | Not_a_number _ \<Rightarrow> False)"

lemma threshold_decides:
  "threshold_implies (Finite a) ia (Finite b) ib dir =
     Inr (\<forall>x. threshold_holds dir ia (Finite a) x \<longrightarrow> threshold_holds dir ib (Finite b) x)"
proof -
  have up: "(\<forall>x. (if ia then u \<le> x else u < x) \<longrightarrow> (if ib then v \<le> x else v < x)) \<longleftrightarrow>
      (if ib then v \<le> u else v < u \<or> (v = u \<and> \<not> ia))" for u v :: rat
    using dense [of u v] by (cases "u < v"; cases ia; cases ib) (auto simp: not_le dest: spec [of _ u])
  have down: "(\<forall>x. (if ia then x \<le> u else x < u) \<longrightarrow> (if ib then x \<le> v else x < v)) \<longleftrightarrow>
      (if ib then u \<le> v else u < v \<or> (u = v \<and> \<not> ia))" for u v :: rat
    using dense [of v u] by (cases "v < u"; cases ia; cases ib) (auto simp: not_le dest: spec [of _ u])
  show ?thesis
    using up [of "dval a" "dval b"] down [of "dval a" "dval b"]
    by (cases dir) (simp_all add: threshold_implies_def lt_or_exclusive_eq_def threshold_holds_def dec_compare)
qed

text \<open>
  C33: the threshold comparison decides interval inclusion: for finite thresholds it answers yes
  exactly when every value that meets proposition A's bound (with A's attested inclusivity) meets
  proposition B's, in both directions.
\<close>

theorem threshold_implies_inclusion:
  "threshold_implies (Finite a) ia (Finite b) ib dir =
     Inr ({x. threshold_holds dir ia (Finite a) x} \<subseteq> {x. threshold_holds dir ib (Finite b) x})"
  by (simp add: threshold_decides Collect_mono_iff)

datatype observation = Measured rat | Happened timestamp | Never_happened

definition proposition_holds :: "typed_proposition \<Rightarrow> rule_attestation \<Rightarrow> observation \<Rightarrow> bool" where
  "proposition_holds p att obs =
     (case tp_kind p of
        Threshold \<Rightarrow>
          (case (parse_decimal (tp_value p), at_threshold_inclusive att, threshold_direction (tp_predicate p), obs) of
             (Some v, Some inclusive, Some dir, Measured x) \<Rightarrow> threshold_holds dir inclusive v x
           | _ \<Rightarrow> False)
      | Deadline \<Rightarrow>
          (case (at_deadline_utc att, obs) of (Some d, Happened t) \<Rightarrow> t \<le> d | _ \<Rightarrow> False)
      | _ \<Rightarrow> False)"

lemma threshold_implies_sound:
  assumes "threshold_implies va ia vb ib dir = Inr True" and "threshold_holds dir ia va x"
  shows "threshold_holds dir ib vb x"
proof (cases "\<exists>a b. va = Finite a \<and> vb = Finite b")
  case True
  then obtain a b where "va = Finite a" "vb = Finite b" by blast
  with assms show ?thesis using threshold_decides [of a ia b ib dir] by simp
next
  case False
  with assms show ?thesis
    by (cases va; cases vb; cases dir)
      (auto simp: threshold_implies_def lt_or_exclusive_eq_def threshold_holds_def split: if_splits)
qed

text \<open>The checks on the two propositions establish the implication on everything that can be observed.\<close>

lemma check_implication_sound:
  assumes "check_implication pa pb aa ab = Inr None" and "proposition_holds pa aa obs"
  shows "proposition_holds pb ab obs"
proof (cases "tp_kind pa = Threshold")
  case True
  with assms(1) have kind: "tp_kind pb = Threshold" and "check_threshold pa pb aa ab = Inr None"
    by (auto simp: check_implication_def not_extracted_def implication_invalid_def split: if_splits)
  then obtain va vb ia ib dir where parts: "parse_decimal (tp_value pa) = Some va" "parse_decimal (tp_value pb) = Some vb"
    "at_threshold_inclusive aa = Some ia" "at_threshold_inclusive ab = Some ib"
    "threshold_direction (tp_predicate pa) = Some dir" "threshold_direction (tp_predicate pb) = Some dir"
    "threshold_implies va ia vb ib dir = Inr True"
    by (auto simp: check_threshold_def not_extracted_def implication_invalid_def bindE_eq_Inr
        split: option.splits if_splits)
  with assms(2) True kind show ?thesis
    by (auto simp: proposition_holds_def split: observation.splits intro: threshold_implies_sound)
next
  case False
  with assms(1) have kind: "tp_kind pa = Deadline" "tp_kind pb = Deadline" and "check_deadline aa ab = None"
    by (auto simp: check_implication_def not_extracted_def implication_invalid_def split: if_splits)
  then obtain da db where "at_deadline_utc aa = Some da" "at_deadline_utc ab = Some db" "da \<le> db"
    by (auto simp: check_deadline_def implication_invalid_def split: option.splits if_splits)
  with assms(2) kind show ?thesis
    by (auto simp: proposition_holds_def split: observation.splits)
qed

text \<open>The label of the outcome a leg holds, and what its side pays when the proposition is true or false.\<close>

definition leg_label :: "candidate_leg \<Rightarrow> rule_version \<Rightarrow> string" where
  "leg_label leg rule =
     (case cl_outcome_index leg of
        None \<Rightarrow> []
      | Some i \<Rightarrow> (case py_item (rv_outcomes rule) i of Inl _ \<Rightarrow> [] | Inr label \<Rightarrow> py_casefold (py_strip label)))"

definition side_payout :: "string \<Rightarrow> bool \<Rightarrow> rule_attestation \<Rightarrow> dec" where
  "side_payout label truth att =
     (if (label = ''yes'') = truth then at_winner_payout_per_share att else at_loser_payout_per_share att)"

lemma orientation_label: "leg_orientation_matches leg rule label = Inr True \<Longrightarrow> leg_label leg rule = label"
  by (auto simp: leg_orientation_matches_def leg_label_def bindE_eq_Inr split: option.splits if_splits)

text \<open>
  C32: a ready logical-implication proof is a guarantee: whatever value is measured, whenever the event
  happens or if it never does, each market resolves its own proposition, each leg pays by the label
  of the outcome it holds, and the two together pay at least the artifact's minimum and at most its
  maximum; likewise when both markets void at the rules prices.
\<close>

theorem logical_implication_floor:
  assumes "compile_proof D c rvs atts t rid = Inr p" and "pa_status p = Proof_ready"
    and "cd_relationship_type c = Logical_implication"
    and "cd_legs c = [a, b]" and "cd_propositions c = [pa, pb]"
    and "map_of atts (cl_rule_version_id a) = Some aa" and "map_of atts (cl_rule_version_id b) = Some ab"
    and "map_of rvs (cl_rule_version_id a) = Some ra" and "map_of rvs (cl_rule_version_id b) = Some rb"
    and grid: "\<And>x y. x \<in> {at_winner_payout_per_share aa, at_loser_payout_per_share aa} \<Longrightarrow>
      y \<in> {at_winner_payout_per_share ab, at_loser_payout_per_share ab} \<Longrightarrow> on_grid s [x, y]"
  shows "floor_holds p [side_payout (leg_label a ra) (proposition_holds pa aa obs) aa,
                        side_payout (leg_label b rb) (proposition_holds pb ab obs) ab] \<and>
    ((\<exists>m \<in> {aa, ab}. at_void_or_invalid_possible m \<and> at_void_behavior m \<noteq> Refund_at_cost) \<longrightarrow>
       floor_holds p [at_loser_payout_per_share aa, at_loser_payout_per_share ab])"
proof -
  have "compile_logical_implication D c rvs atts t rid = Inr p"
    using assms(1,3) by (simp add: compile_proof_def)
  then obtain excluded void where
    check: "check_implication pa pb aa ab = Inr None"
    and orient: "leg_orientation_matches a ra ''no'' = Inr True" "leg_orientation_matches b rb ''yes'' = Inr True"
    and void: "combine_void [aa, ab] = Some (excluded, void)"
    and states: "map ts_leg_payouts (pa_terminal_states p) =
      [[at_winner_payout_per_share aa, at_loser_payout_per_share ab],
       [at_winner_payout_per_share aa, at_winner_payout_per_share ab],
       [at_loser_payout_per_share aa, at_winner_payout_per_share ab]] @
      (if void then [[at_loser_payout_per_share aa, at_loser_payout_per_share ab]] else [])"
    and bounds: "tight_bounds p"
    by (rule implication_ready [OF _ assms(2)]) (use assms(4-9) in simp)
  note sides = orient [THEN orientation_label]
  have "proposition_holds pa aa obs \<longrightarrow> proposition_holds pb ab obs"
    using check_implication_sound [OF check] by blast
  then have "[side_payout (leg_label a ra) (proposition_holds pa aa obs) aa,
      side_payout (leg_label b rb) (proposition_holds pb ab obs) ab] \<in> set (map ts_leg_payouts (pa_terminal_states p))"
    by (auto simp: states sides side_payout_def)
  moreover have "on_grid s [side_payout (leg_label a ra) (proposition_holds pa aa obs) aa,
      side_payout (leg_label b rb) (proposition_holds pb ab obs) ab]"
    by (rule grid) (auto simp: side_payout_def)
  moreover have "on_grid s [at_loser_payout_per_share aa, at_loser_payout_per_share ab]"
    by (rule grid) auto
  ultimately show ?thesis
    using floor_holdsI [OF bounds] combine_void_flag [OF void] states by auto
qed

subsection \<open>Cross-venue equivalence\<close>

text \<open>
  C36: cross-venue equivalence fails closed: whatever the evidence, no artifact of this template is
  ready; each carries a matrix, and when both attestations exist and the rule versions are current
  the reason is an incompatible dimension if there is one and an unknown dimension otherwise.
\<close>

theorem cross_venue_never_ready:
  assumes "compile_proof D c rvs atts t rid = Inr p" and "cd_relationship_type c = Cross_venue_equivalence"
  shows "pa_status p \<noteq> Proof_ready \<and>
    (\<exists>m. pa_equivalence_matrix p = Some m \<and>
      (pa_rejection_reason p \<in> {Some EQUIVALENCE_DIMENSION_INCOMPATIBLE, Some EQUIVALENCE_DIMENSION_UNKNOWN} \<longrightarrow>
        (pa_rejection_reason p = Some EQUIVALENCE_DIMENSION_INCOMPATIBLE \<longleftrightarrow>
         Incompatible \<in> set (matrix_dimensions m))))"
proof -
  have compiled: "compile_cross_venue_equivalence D c rvs atts t rid = Inr p"
    using assms by (simp add: compile_proof_def)
  then obtain a b where legs: "cd_legs c = [a, b]"
    by (auto simp: compile_cross_venue_equivalence_def split: list.splits)
  have "Unknown_dimension \<in> set (matrix_dimensions (build_equivalence_matrix x y basis))" for x y basis
    by (simp add: matrix_dimensions_def build_equivalence_matrix_def)
  then show ?thesis
    using compiled unfolding compile_cross_venue_equivalence_def legs
    by (auto simp: Let_def dest!: refuse_fields split: option.splits if_splits)
qed

section \<open>Every artifact\<close>

definition artifact_ok :: "digests \<Rightarrow> proof_artifact \<Rightarrow> bool" where
  "artifact_ok D p \<longleftrightarrow> validate_proof p = Inr p \<and> pa_proof_id p = derive_proof_id D p \<and>
     (pa_status p = Proof_ready \<longrightarrow> tight_bounds p \<and> pa_rejection_reason p = None) \<and>
     (pa_status p \<noteq> Proof_ready \<longrightarrow> pa_terminal_states p = [] \<and> pa_rejection_reason p \<noteq> None)"

lemma refuse_ok:
  "refuse D c t status reason rvs hashes as_of rid m = Inr p \<Longrightarrow> status \<noteq> Proof_ready \<Longrightarrow> artifact_ok D p"
  using refuse_Inr [of D c t status reason rvs hashes as_of rid m p] by (simp add: artifact_ok_def)

lemma ready_ok:
  "ready_artifact D c t states assumptions excluded m rvs hashes as_of rid = Inr p \<Longrightarrow> artifact_ok D p"
  using ready_artifact_Inr [of D c t states assumptions excluded m rvs hashes as_of rid p]
  by (simp add: artifact_ok_def)

lemma binary_ok: "compile_binary_complement D c rvs atts t rid = Inr p \<Longrightarrow> artifact_ok D p"
  by (auto simp: compile_binary_complement_def Let_def bindE_eq_Inr dest: refuse_ok ready_ok
      split: list.splits option.splits if_splits void_behavior.splits)

lemma exhaustive_ok: "compile_exhaustive_outcome_set D c rvs atts t rid = Inr p \<Longrightarrow> artifact_ok D p"
  by (auto simp: compile_exhaustive_outcome_set_def Let_def simp del: set_map map_map
      dest: refuse_ok ready_ok split: option.splits if_splits)

lemma implication_ok: "compile_logical_implication D c rvs atts t rid = Inr p \<Longrightarrow> artifact_ok D p"
  by (auto simp: compile_logical_implication_def Let_def bindE_eq_Inr
      dest: refuse_ok ready_ok check_implication_status split: list.splits option.splits if_splits)

lemma equivalence_ok: "compile_cross_venue_equivalence D c rvs atts t rid = Inr p \<Longrightarrow> artifact_ok D p"
  by (auto simp: compile_cross_venue_equivalence_def Let_def dest: refuse_ok ready_ok
      split: list.splits option.splits if_splits)

text \<open>
  C34: whatever the compiler returns is a valid artifact named by the digest of its own content; a
  ready one carries the least and greatest payout sum over its terminal states as its bounds, both
  attained, and no reason; any other one carries a reason, no terminal state and no bound.
\<close>

theorem compiled_artifact_sound:
  assumes "compile_proof D c rvs atts t rid = Inr p"
  shows "validate_proof p = Inr p \<and> pa_proof_id p = derive_proof_id D p \<and>
    (if pa_status p = Proof_ready then tight_bounds p \<and> pa_rejection_reason p = None
     else pa_terminal_states p = [] \<and> pa_rejection_reason p \<noteq> None \<and>
       pa_minimum_basket_payout p = None \<and> pa_maximum_basket_payout p = None)"
proof -
  have "artifact_ok D p"
    using assms by (auto simp: compile_proof_def dest: binary_ok exhaustive_ok implication_ok equivalence_ok
        split: relationship_type.splits)
  then show ?thesis
    unfolding artifact_ok_def validate_proof_def Let_def bindE_eq_Inr checkE_Inr by auto
qed

section \<open>The compiler returns\<close>

lemma same_length_py_set:
  assumes "\<And>x. x \<in> set xs \<Longrightarrow> x = k"
  shows "length (py_set xs) \<le> 1"
proof -
  have "card (set xs) \<le> card {k}" using assms by (intro card_mono) auto
  then show ?thesis by (simp add: length_py_set)
qed

lemma sorted_hashes [simp]: "py_sorted_set (sorted_unique_hashes hs) = sorted_unique_hashes hs"
  using sorted_unique_py_sorted_set [of hs] by (simp add: sorted_unique_hashes_def sorted_unique_def)

lemma refuse_total:
  assumes "status \<noteq> Proof_ready" and "t = CROSS_VENUE_EQUIVALENCE_TEMPLATE \<longleftrightarrow> m \<noteq> None"
  shows "\<exists>p. refuse D c t status reason rvs (sorted_unique_hashes hs) as_of rid m = Inr p"
  using assms by (auto simp: refuse_def terminal_artifact_def validate_proof_def Let_def bindE_eq_Inr
      py_set_def CROSS_VENUE_EQUIVALENCE_TEMPLATE_def)

lemma ready_total:
  assumes "states \<noteq> []" and "\<And>s. s \<in> set states \<Longrightarrow> validate_terminal_state s = Inr s"
    and "\<And>s. s \<in> set states \<Longrightarrow> length (ts_leg_payouts s) = k" and "distinct (map ts_state_id states)"
    and "t \<in> set APPROVED_PROOF_TEMPLATES" and "t = CROSS_VENUE_EQUIVALENCE_TEMPLATE \<longleftrightarrow> m \<noteq> None"
  shows "\<exists>p. ready_artifact D c t states assumptions excluded m rvs (sorted_unique_hashes hs) as_of rid = Inr p"
proof -
  have "mapE validate_terminal_state states = Inr states"
    using assms(2) by (induction states) simp_all
  moreover obtain lo hi where "dmin_list (map (\<lambda>s. dsum (ts_leg_payouts s)) states) = Inr lo"
    "dmax_list (map (\<lambda>s. dsum (ts_leg_payouts s)) states) = Inr hi"
    using assms(1) dminmax_list_total [of "map (\<lambda>s. dsum (ts_leg_payouts s)) states"] by auto
  moreover have "length (py_set (map (\<lambda>s. length (ts_leg_payouts s)) states)) \<le> 1"
    using assms(3) by (intro same_length_py_set [of _ k]) auto
  moreover have "length states = length (py_set (map ts_state_id states))"
    using assms(4) length_py_set_distinct(1) [of "map ts_state_id states"] by simp
  ultimately show ?thesis
    using assms(1,5,6) by (auto simp: ready_artifact_def validate_proof_def Let_def CROSS_VENUE_EQUIVALENCE_TEMPLATE_def)
qed

definition well_shaped :: "candidate_relationship \<Rightarrow> bool" where
  "well_shaped c =
     (let legs = cd_legs c; markets = map cl_market_id legs
      in case cd_relationship_type c of
           Binary_complement \<Rightarrow> length legs = 2 \<and> length (py_set markets) = 1 \<and>
             length (py_set (map cl_rule_version_id legs)) = 1
         | Exhaustive_outcome_set \<Rightarrow> 2 \<le> length legs \<and> distinct markets
         | Logical_implication \<Rightarrow> length legs = 2 \<and> distinct markets \<and> length (cd_propositions c) = 2
         | Cross_venue_equivalence \<Rightarrow> length legs = 2)"

text \<open>No threshold spells a value that cannot be ordered.\<close>

fun is_nan :: "ext_decimal \<Rightarrow> bool" where
  "is_nan (Not_a_number _) = True"
| "is_nan _ = False"

definition orderable :: "candidate_relationship \<Rightarrow> bool" where
  "orderable c = list_all (\<lambda>p. \<not> opt_all is_nan (parse_decimal (tp_value p)) \<or>
     parse_decimal (tp_value p) = None) (cd_propositions c)"

definition attested :: "(uuid, rule_attestation) dict \<Rightarrow> bool" where
  "attested atts = list_all (\<lambda>(_, att). attestation.valid att) atts"

lemma attested_payouts:
  assumes "attested atts" and "map_of atts k = Some att"
  shows "nonnegative_decimal (at_winner_payout_per_share att)" "nonnegative_decimal (at_loser_payout_per_share att)"
proof -
  have "validate_attestation att = Inr att"
    using assms by (auto simp: attested_def list_all_iff attestation.valid_def dest: map_of_SomeD)
  from validate_attestation_payouts [OF this]
  show "nonnegative_decimal (at_winner_payout_per_share att)" "nonnegative_decimal (at_loser_payout_per_share att)"
    by (simp_all add: nonnegative_decimal_iff)
qed

lemma state_valid:
  "ts_state_id s \<noteq> [] \<Longrightarrow> (\<And>d. d \<in> set (ts_leg_payouts s) \<Longrightarrow> nonnegative_decimal d) \<Longrightarrow>
     validate_terminal_state s = Inr s"
  by (auto simp: validate_terminal_state_def nonempty_string_def list_all_iff)

lemma two_list: "length xs = 2 \<longleftrightarrow> (\<exists>a b. xs = [a, b])"
  by (auto simp: numeral_2_eq_2 length_Suc_conv)

lemma binary_total:
  assumes "well_shaped c" and "cd_relationship_type c = Binary_complement" and "attested atts"
  shows "\<exists>p. compile_binary_complement D c rvs atts t rid = Inr p"
proof -
  obtain a b where legs: "cd_legs c = [a, b]" and same: "cl_market_id a = cl_market_id b"
      "cl_rule_version_id a = cl_rule_version_id b"
    using assms(1,2) by (auto simp: well_shaped_def Let_def two_list py_set_def split: if_splits)
  note [simp] = BINARY_COMPLEMENT_TEMPLATE_def CROSS_VENUE_EQUIVALENCE_TEMPLATE_def
  show ?thesis
  proof (cases "map_of atts (cl_rule_version_id b)")
    case None
    then show ?thesis
      by (auto simp: compile_binary_complement_def legs same Let_def intro!: refuse_total)
  next
    case (Some att)
    note pays = attested_payouts [OF assms(3) Some]
    then have valid: "\<And>i n d. validate_terminal_state \<lparr>ts_state_id = i # n, ts_description = d, ts_leg_payouts = [x, y]\<rparr> =
        Inr \<lparr>ts_state_id = i # n, ts_description = d, ts_leg_payouts = [x, y]\<rparr>"
      if "{x, y} \<subseteq> {at_winner_payout_per_share att, at_loser_payout_per_share att}" for x y
      using that by (intro state_valid) auto
    show ?thesis
      by (auto simp: compile_binary_complement_def legs same Some Let_def valid
          intro!: refuse_total ready_total [of _ 2] split: void_behavior.splits)
        (auto simp: APPROVED_PROOF_TEMPLATES_def valid)
  qed
qed

lemma exhaustive_total:
  assumes "well_shaped c" and "cd_relationship_type c = Exhaustive_outcome_set" and "attested atts"
  shows "\<exists>p. compile_exhaustive_outcome_set D c rvs atts t rid = Inr p"
proof -
  let ?found = "map (\<lambda>leg. map_of atts (cl_rule_version_id leg)) (cd_legs c)"
  let ?as = "map the ?found"
  have shape: "\<not> length (cd_legs c) < 2" "length (py_set (map cl_market_id (cd_legs c))) = length (map cl_market_id (cd_legs c))"
    using assms(1,2) length_py_set_distinct(1) [of "map cl_market_id (cd_legs c)"]
    by (simp_all add: well_shaped_def Let_def)
  show ?thesis
  proof (cases "None \<in> set ?found")
    case True
    then show ?thesis using shape
      by (auto simp: compile_exhaustive_outcome_set_def Let_def EXHAUSTIVE_OUTCOME_SET_TEMPLATE_def
          CROSS_VENUE_EQUIVALENCE_TEMPLATE_def simp del: set_map intro!: refuse_total)
  next
    case False
    have pays: "nonnegative_decimal (at_winner_payout_per_share a)" "nonnegative_decimal (at_loser_payout_per_share a)"
      if "a \<in> set ?as" for a
    proof -
      from that obtain leg where leg: "leg \<in> set (cd_legs c)" and a: "a = the (map_of atts (cl_rule_version_id leg))"
        by auto
      moreover from leg False have "map_of atts (cl_rule_version_id leg) \<noteq> None" by force
      ultimately have "map_of atts (cl_rule_version_id leg) = Some a" by simp
      from attested_payouts [OF assms(3) this] show "nonnegative_decimal (at_winner_payout_per_share a)"
        "nonnegative_decimal (at_loser_payout_per_share a)" .
    qed
    let ?states = "\<lambda>void. map (member_state (cd_legs c) ?as) [0..<length (cd_legs c)] @
        (if void then [group_void_state ?as] else [])"
    have "validate_terminal_state s = Inr s" if "s \<in> set (?states void)" for s void
      using that pays by (intro state_valid)
        (auto simp: member_state_def group_void_state_def member_payouts_def split: if_splits)
    moreover have "length (ts_leg_payouts s) = length (cd_legs c)" if "s \<in> set (?states void)" for s void
      using that by (auto simp: member_state_def group_void_state_def member_payouts_def split: if_splits)
    moreover have "distinct (map ts_state_id (?states void))" for void
      by (auto simp: distinct_map inj_on_def member_state_def group_void_state_def)
    moreover have "?states void \<noteq> []" for void
      using shape by (cases "cd_legs c") auto
    ultimately have ready: "\<exists>p. ready_artifact D c EXHAUSTIVE_OUTCOME_SET_TEMPLATE (?states void) assumptions
        excluded None rids (sorted_unique_hashes hs) t rid = Inr p" for void assumptions excluded rids hs
      by (intro ready_total [of _ "length (cd_legs c)"])
        (auto simp: APPROVED_PROOF_TEMPLATES_def EXHAUSTIVE_OUTCOME_SET_TEMPLATE_def CROSS_VENUE_EQUIVALENCE_TEMPLATE_def)
    show ?thesis
      using shape False unfolding compile_exhaustive_outcome_set_def Let_def
      by (auto simp del: set_map map_map map_append simp: EXHAUSTIVE_OUTCOME_SET_TEMPLATE_def [symmetric]
          split: option.split intro!: refuse_total ready [of True, unfolded if_True]
          ready [of False, unfolded if_False append_Nil2])
        (auto simp: EXHAUSTIVE_OUTCOME_SET_TEMPLATE_def CROSS_VENUE_EQUIVALENCE_TEMPLATE_def)
  qed
qed

lemma equivalence_total:
  assumes "well_shaped c" and "cd_relationship_type c = Cross_venue_equivalence"
  shows "\<exists>p. compile_cross_venue_equivalence D c rvs atts t rid = Inr p"
proof -
  obtain a b where legs: "cd_legs c = [a, b]"
    using assms by (auto simp: well_shaped_def Let_def two_list)
  have unknown: "Unknown_dimension \<in> set (matrix_dimensions (build_equivalence_matrix x y basis))" for x y basis
    by (simp add: matrix_dimensions_def build_equivalence_matrix_def)
  show ?thesis
    unfolding compile_cross_venue_equivalence_def legs
    by (auto simp: Let_def unknown split: option.split intro!: refuse_total)
qed

text \<open>A comparison raises only \<open>InvalidOperation\<close>, and only on a threshold that spells not-a-number.\<close>

lemma ext_error:
  "ext_lt x y = Inl e \<Longrightarrow> e = InvalidOperation \<and> (is_nan x \<or> is_nan y)"
  "ext_le x y = Inl e \<Longrightarrow> e = InvalidOperation \<and> (is_nan x \<or> is_nan y)"
  "ext_eq x y = Inl e \<Longrightarrow> e = InvalidOperation \<and> (is_nan x \<or> is_nan y)"
  by (cases x; cases y; simp split: if_splits)+

lemma lt_or_exclusive_eq_error:
  "lt_or_exclusive_eq x y i = Inl e \<Longrightarrow> e = InvalidOperation \<and> (is_nan x \<or> is_nan y)"
  by (cases "ext_lt x y"; cases "ext_eq x y") (auto simp: lt_or_exclusive_eq_def dest: ext_error split: if_splits)

lemma threshold_implies_error:
  "threshold_implies x ix y iy dir = Inl e \<Longrightarrow> e = InvalidOperation \<and> (is_nan x \<or> is_nan y)"
  by (auto simp: threshold_implies_def dest: ext_error lt_or_exclusive_eq_error split: if_splits)

lemma check_implication_error:
  assumes "check_implication pa pb aa ab = Inl e"
  shows "e = InvalidOperation \<and> (\<exists>v. is_nan v \<and> (parse_decimal (tp_value pa) = Some v \<or> parse_decimal (tp_value pb) = Some v))"
proof -
  have "check_threshold pa pb aa ab = Inl e"
    using assms by (auto simp: check_implication_def split: if_splits)
  then obtain x y ix iy dir where "parse_decimal (tp_value pa) = Some x" "parse_decimal (tp_value pb) = Some y"
    "threshold_implies x ix y iy dir = Inl e"
    by (auto simp: check_threshold_def bindE_def split: if_splits option.splits sum.splits)
  then show ?thesis using threshold_implies_error by blast
qed

lemma orientation_total:
  assumes "validate_leg leg = Inr leg"
  shows "\<exists>b. leg_orientation_matches leg rule label = Inr b"
  using assms by (auto simp: validate_leg_def leg_orientation_matches_def opt_all_def py_item_def
      split: option.splits if_splits)

lemma implication_total:
  assumes "well_shaped c" and "cd_relationship_type c = Logical_implication" and "attested atts"
    and "\<And>leg. leg \<in> set (cd_legs c) \<Longrightarrow> validate_leg leg = Inr leg"
  shows "(\<exists>p. compile_logical_implication D c rvs atts t rid = Inr p) \<or>
    \<not> orderable c \<and> compile_logical_implication D c rvs atts t rid = Inl InvalidOperation"
proof -
  obtain a b pa pb where legs: "cd_legs c = [a, b]" "cd_propositions c = [pa, pb]"
    and market: "cl_market_id a \<noteq> cl_market_id b"
    using assms(1,2) by (auto simp: well_shaped_def Let_def two_list)
  note templates = LOGICAL_IMPLICATION_TEMPLATE_def CROSS_VENUE_EQUIVALENCE_TEMPLATE_def
  show ?thesis
  proof (cases "map_of atts (cl_rule_version_id a) = None \<or> map_of atts (cl_rule_version_id b) = None")
    case True
    then show ?thesis using market
      by (auto simp: compile_logical_implication_def legs Let_def templates
          split: option.split intro!: refuse_total)
  next
    case False
    then obtain aa ab where att: "map_of atts (cl_rule_version_id a) = Some aa"
      "map_of atts (cl_rule_version_id b) = Some ab" by auto
    show ?thesis
    proof (cases "\<exists>verdict. check_implication pa pb aa ab = Inr verdict")
      case False
      then obtain e where "check_implication pa pb aa ab = Inl e" by (metis sum.exhaust)
      with check_implication_error [OF this] have "check_implication pa pb aa ab = Inl InvalidOperation" "\<not> orderable c"
        by (auto simp: orderable_def legs opt_all_def)
      then show ?thesis
        by (simp add: compile_logical_implication_def legs att market Let_def)
    next
    case True
    then obtain verdict where verdict: "check_implication pa pb aa ab = Inr verdict" by blast
    have orient: "\<exists>x. leg_orientation_matches a ra ''no'' = Inr x" "\<exists>x. leg_orientation_matches b rb ''yes'' = Inr x" for ra rb
      by (auto intro!: orientation_total assms(4) simp: legs)
    note pays = attested_payouts [OF assms(3) att(1)] attested_payouts [OF assms(3) att(2)]
    let ?states = "\<lambda>void. implication_states (cl_market_id a) (cl_market_id b) aa ab @
        (if void then [implication_void_state (cl_market_id a) (cl_market_id b) aa ab] else [])"
    have "validate_terminal_state s = Inr s" if "s \<in> set (?states void)" for s void
      using that pays by (intro state_valid)
        (auto simp: implication_states_def implication_void_state_def Let_def split: if_splits)
    moreover have "length (ts_leg_payouts s) = 2" if "s \<in> set (?states void)" for s void
      using that by (auto simp: implication_states_def implication_void_state_def Let_def split: if_splits)
    moreover have "distinct (map ts_state_id (?states void))" "?states void \<noteq> []" for void
      by (auto simp: implication_states_def implication_void_state_def Let_def)
    ultimately have ready: "\<exists>p. ready_artifact D c LOGICAL_IMPLICATION_TEMPLATE (?states void) assumptions
        excluded None rids (sorted_unique_hashes hs) t rid = Inr p" for void assumptions excluded rids hs
      by (intro ready_total [of _ 2]) (auto simp: APPROVED_PROOF_TEMPLATES_def templates)
    have refused: "\<exists>p. refuse D c LOGICAL_IMPLICATION_TEMPLATE status reason rids (sorted_unique_hashes hs) t rid None = Inr p"
      if "status \<noteq> Proof_ready" for status reason rids hs
      using that by (intro refuse_total) (simp_all add: templates)
    show ?thesis
    proof (cases verdict)
      case (Some r)
      with verdict check_implication_status [of pa pb aa ab] show ?thesis
        by (cases r) (auto simp: compile_logical_implication_def legs att market Let_def intro!: refused)
    next
      case None
      show ?thesis
      proof (cases "rule_versions_current rvs [a, b]")
        case False
        with None verdict show ?thesis
          by (auto simp: compile_logical_implication_def legs att market Let_def intro!: refused)
      next
        case True
        then obtain ra rb where rules: "map_of rvs (cl_rule_version_id a) = Some ra"
          "map_of rvs (cl_rule_version_id b) = Some rb" by (auto simp: rule_versions_current_def)
        obtain x y where sides: "leg_orientation_matches a ra ''no'' = Inr x" "leg_orientation_matches b rb ''yes'' = Inr y"
          using orient by blast
        show ?thesis
          using None verdict True rules sides market unfolding compile_logical_implication_def Let_def
          by (auto simp: legs att dict_item_def simp del: map_append
              split: option.split intro!: refused ready [of True, unfolded if_True]
                ready [of False, unfolded if_False append_Nil2])
      qed
    qed
    qed
  qed
qed

text \<open>
  C35: the compiler's outcome is decided by the candidate's shape: given validated legs and attestations, a
  candidate of the shape its template needs (two legs of one market and rule version; at least two
  distinct markets; two distinct markets with one proposition each; two legs) gets an artifact, and any
  other raises a \<open>ValueError\<close>.  The one exception is a well-shaped implication with a threshold that spells
  not-a-number, which gets an artifact or raises \<open>InvalidOperation\<close>.
\<close>

theorem compiler_total:
  assumes "attested atts" and "\<And>leg. leg \<in> set (cd_legs c) \<Longrightarrow> validate_leg leg = Inr leg"
  shows "if well_shaped c
    then (\<exists>p. compile_proof D c rvs atts t rid = Inr p) \<or>
      cd_relationship_type c = Logical_implication \<and> \<not> orderable c \<and>
      compile_proof D c rvs atts t rid = Inl InvalidOperation
    else \<exists>m. compile_proof D c rvs atts t rid = Inl (ValueError m)"
proof (cases "well_shaped c")
  case True
  then show ?thesis
    using assms binary_total exhaustive_total implication_total [OF True _ assms] equivalence_total
    by (auto simp: compile_proof_def split: relationship_type.split)
next
  case False
  show ?thesis
  proof (cases "cd_relationship_type c")
    case Binary_complement
    with False show ?thesis
      by (auto simp: compile_proof_def compile_binary_complement_def well_shaped_def py_set_def Let_def
          split: list.split)
  next
    case Exhaustive_outcome_set
    with False length_py_set_distinct(1) [of "map cl_market_id (cd_legs c)"] show ?thesis
      by (auto simp: compile_proof_def compile_exhaustive_outcome_set_def well_shaped_def Let_def)
  next
    case Logical_implication
    with False show ?thesis
      by (auto simp: compile_proof_def compile_logical_implication_def well_shaped_def Let_def split: list.split)
  next
    case Cross_venue_equivalence
    with False show ?thesis
      by (auto simp: compile_proof_def compile_cross_venue_equivalence_def well_shaped_def Let_def split: list.split)
  qed
qed

section \<open>Worked examples\<close>

definition example_span :: "nat \<Rightarrow> proposition_span" where
  "example_span rule = \<lparr>sp_start_char = 0, sp_end_char = 3, sp_exact_text = ''Yes'', sp_rule_source_hash = Sha256 rule\<rparr>"

definition example_attestation :: "nat \<Rightarrow> string \<Rightarrow> rule_attestation" where
  "example_attestation rule market = \<lparr>at_attestation_id = Uuid (rule + 100), at_venue = Kalshi, at_market_id = market,
     at_rule_version_id = Uuid rule, at_rule_source_hash = Sha256 rule, at_payout_unit = Usd_1_per_contract,
     at_winner_payout_per_share = Dec False 1 0, at_loser_payout_per_share = Dec False 0 0,
     at_outcome_set_exhaustive = True, at_void_or_invalid_possible = True,
     at_void_behavior = Refund_at_cost, at_tie_possible = False, at_tie_behavior = None,
     at_resolution_source_attested = ''S'', at_deadline_utc = Some 9, at_threshold_text = Some ''T'',
     at_threshold_inclusive = Some True, at_supporting_spans = [example_span rule],
     at_review_identity = ''R'', at_reviewed_at = 1\<rparr>"

definition example_rule :: "nat \<Rightarrow> string \<Rightarrow> rule_version" where
  "example_rule rule market = \<lparr>rv_rule_version_id = Uuid rule, rv_market_id = market, rv_venue = Kalshi,
     rv_question = ''Q'', rv_description = ''D'', rv_resolution_source = None, rv_outcomes = [''Yes'', ''No''],
     rv_superseded_rule_version_id = None, rv_effective_at = 0, rv_source_hash = Sha256 rule\<rparr>"

definition example_proposition :: "string \<Rightarrow> nat \<Rightarrow> typed_proposition" where
  "example_proposition v rule = \<lparr>tp_kind = Threshold, tp_subject = ''X'', tp_predicate = ''>='', tp_value = Some v,
     tp_status = Extracted, tp_supporting_spans = [example_span rule]\<rparr>"

definition example_candidate ::
  "relationship_type \<Rightarrow> candidate_leg list \<Rightarrow> typed_proposition list \<Rightarrow> candidate_relationship" where
  "example_candidate rel legs props = \<lparr>cd_candidate_id = Uuid 77, cd_trial_family_id = ''F'',
     cd_relationship_type = rel, cd_legs = legs, cd_information_cutoff = 1, cd_observed_at = 1,
     cd_provenance = Deterministic_provenance ''g'' ''1'' ''r'', cd_propositions = props,
     cd_unresolved_fields = [], cd_contradictions = [], cd_invalidation_conditions = [],
     cd_review_status = Reviewed, cd_disposition = Candidate_proof_ready, cd_superseded_by_candidate_id = None\<rparr>"

definition example_rules :: "(uuid, rule_version) dict" where
  "example_rules = [(Uuid 3, example_rule 3 ''M''), (Uuid 4, example_rule 4 ''N'')]"

definition example_attestations :: "(uuid, rule_attestation) dict" where
  "example_attestations = [(Uuid 3, example_attestation 3 ''M''), (Uuid 4, example_attestation 4 ''N'')]"

definition example_binary :: candidate_relationship where
  "example_binary = example_candidate Binary_complement
     [example_leg ''M'' (Some 0) 3, example_leg ''M'' (Some 1) 3] []"

definition example_set :: candidate_relationship where
  "example_set = example_candidate Exhaustive_outcome_set
     [example_leg ''M'' None 3, example_leg ''N'' None 4] []"

definition example_implication :: candidate_relationship where
  "example_implication = example_candidate Logical_implication
     [example_leg ''M'' (Some 1) 3, example_leg ''N'' (Some 0) 4]
     [example_proposition ''7.5'' 3, example_proposition ''5'' 4]"

definition example_proof :: "candidate_relationship \<Rightarrow> proof_artifact result" where
  "example_proof c = compile_proof example_digests c example_rules example_attestations 5 ''R''"

definition result_status :: "proof_artifact result \<Rightarrow> (proof_status \<times> dec option) option" where
  "result_status r = (case r of Inl _ \<Rightarrow> None | Inr p \<Rightarrow> Some (pa_status p, pa_minimum_basket_payout p))"

lemma result_statusD: "result_status r = Some (s, m) \<Longrightarrow> \<exists>p. r = Inr p \<and> pa_status p = s \<and> pa_minimum_basket_payout p = m"
  by (auto simp: result_status_def split: sum.splits)

lemma example_ready:
  "result_status (example_proof example_binary) = Some (Proof_ready, Some (Dec False 1 0))"
  "result_status (example_proof example_set) = Some (Proof_ready, Some (Dec False 1 0))"
  "result_status (example_proof example_implication) = Some (Proof_ready, Some (Dec False 1 0))"
  by code_simp+

lemma example_dvals [simp]: "dval (Dec False (Suc 0) 0) = 1" "dval (Dec False 0 0) = 0"
  by (simp_all add: dval_def dsigned_def)

lemma example_payouts [simp]:
  "at_winner_payout_per_share (example_attestation n m) = Dec False 1 0"
  "at_loser_payout_per_share (example_attestation n m) = Dec False 0 0"
  by (simp_all add: example_attestation_def)

lemma example_grid: "x \<in> {Dec False 1 0, Dec False 0 0} \<Longrightarrow> y \<in> {Dec False 1 0, Dec False 0 0} \<Longrightarrow> on_grid 0 [x, y]"
  by (auto simp: on_grid_def)

lemma example_attested: "map_of example_attestations (Uuid 3) = Some (example_attestation 3 ''M'')"
    "map_of example_attestations (Uuid 4) = Some (example_attestation 4 ''N'')"
    "map_of example_rules (Uuid 3) = Some (example_rule 3 ''M'')"
    "map_of example_rules (Uuid 4) = Some (example_rule 4 ''N'')"
  by (simp_all add: example_attestations_def example_rules_def)

lemmas example_defs = example_candidate_def example_leg_def

lemma binary_complement_floor_witness:
  "\<exists>p. example_proof example_binary = Inr p \<and> pa_status p = Proof_ready \<and>
     floor_holds p (map (outcome_payout (example_attestation 3 ''M'') (Winner 1)) (cd_legs example_binary))"
proof -
  from result_statusD [OF example_ready(1)] obtain p where p: "example_proof example_binary = Inr p"
    "pa_status p = Proof_ready" by blast
  from binary_complement_floor [OF p(1) [unfolded example_proof_def] p(2), of "example_attestation 3 ''M''" "Winner 1" 0] p
  show ?thesis
    by (simp add: example_binary_def example_defs example_attested binary_resolutions_def example_grid)
qed

lemma exhaustive_outcome_floor_witness:
  "\<exists>p. example_proof example_set = Inr p \<and> pa_status p = Proof_ready \<and>
     floor_holds p (group_payouts [example_attestation 3 ''M'', example_attestation 4 ''N''] (Winner 1))"
proof -
  from result_statusD [OF example_ready(2)] obtain p where p: "example_proof example_set = Inr p"
    "pa_status p = Proof_ready" by blast
  have "Winner 1 \<in> group_resolutions [example_attestation 3 ''M'', example_attestation 4 ''N'']"
    by (auto simp: group_resolutions_def image_iff intro!: bexI [of _ 1])
  moreover have "on_grid 0 (group_payouts [example_attestation 3 ''M'', example_attestation 4 ''N''] (Winner 1))"
    by (simp add: group_payouts_def upt_rec example_grid)
  ultimately show ?thesis
    using exhaustive_outcome_floor [OF p(1) [unfolded example_proof_def] p(2), of "[example_attestation 3 ''M'', example_attestation 4 ''N'']" "Winner 1" 0] p
    by (simp add: example_set_def example_defs example_attested)
qed

lemma logical_implication_floor_witness:
  "\<exists>p. example_proof example_implication = Inr p \<and> pa_status p = Proof_ready \<and>
     floor_holds p [side_payout (leg_label (example_leg ''M'' (Some 1) 3) (example_rule 3 ''M''))
         (proposition_holds (example_proposition ''7.5'' 3) (example_attestation 3 ''M'') (Measured 6)) (example_attestation 3 ''M''),
       side_payout (leg_label (example_leg ''N'' (Some 0) 4) (example_rule 4 ''N''))
         (proposition_holds (example_proposition ''5'' 4) (example_attestation 4 ''N'') (Measured 6)) (example_attestation 4 ''N'')]"
proof -
  from result_statusD [OF example_ready(3)] obtain p where p: "example_proof example_implication = Inr p"
    "pa_status p = Proof_ready" by blast
  from logical_implication_floor [OF p(1) [unfolded example_proof_def] p(2),
      of "example_leg ''M'' (Some 1) 3" "example_leg ''N'' (Some 0) 4" "example_proposition ''7.5'' 3" "example_proposition ''5'' 4"
        "example_attestation 3 ''M''" "example_attestation 4 ''N''" "example_rule 3 ''M''" "example_rule 4 ''N''" 0 "Measured 6"] p
  show ?thesis
    by (simp add: example_implication_def example_defs example_attested example_grid)
qed

lemma compiled_artifact_sound_witness:
  "\<exists>p. example_proof example_set = Inr p \<and> validate_proof p = Inr p \<and> tight_bounds p"
proof -
  from result_statusD [OF example_ready(2)] obtain p where p: "example_proof example_set = Inr p"
    "pa_status p = Proof_ready" by blast
  from compiled_artifact_sound [OF p(1) [unfolded example_proof_def]] p show ?thesis by simp
qed

definition example_cross :: candidate_relationship where
  "example_cross = example_candidate Cross_venue_equivalence
     [example_leg ''M'' None 3, example_leg ''N'' None 4] []"

lemma cross_venue_never_ready_witness:
  "\<exists>p. example_proof example_cross = Inr p \<and> pa_status p \<noteq> Proof_ready"
proof -
  have "result_status (example_proof example_cross) = Some (Proof_rejected, None)"
    by code_simp
  then obtain p where p: "example_proof example_cross = Inr p" using result_statusD by blast
  from cross_venue_never_ready [OF p [unfolded example_proof_def]] p show ?thesis
    by (simp add: example_cross_def example_candidate_def)
qed

lemma example_valid: "attested example_attestations" "validate_leg (example_leg m (Some 1) n) = Inr (example_leg m (Some 1) n)"
    "validate_leg (example_leg m (Some 0) n) = Inr (example_leg m (Some 0) n)" "orderable example_implication"
     apply (simp add: attested_def example_attestations_def attestation.valid_def, code_simp)
    apply (simp add: validate_leg_def example_leg_def opt_all_def)
   apply (simp add: validate_leg_def example_leg_def opt_all_def)
  apply code_simp
  done

lemma compiler_total_witness: "\<exists>p. example_proof example_implication = Inr p"
proof -
  have "validate_leg leg = Inr leg" if "leg \<in> set (cd_legs example_implication)" for leg
    using that example_valid by (auto simp: example_implication_def example_candidate_def)
  moreover have "well_shaped example_implication" by code_simp
  ultimately show ?thesis
    using compiler_total [of example_attestations example_implication example_digests example_rules 5 "''R''"] example_valid
    by (auto simp: example_proof_def)
qed

section \<open>A gap: both legs on one outcome\<close>

text \<open>
  The binary-complement compiler never looks at the legs' outcome indices. Whenever a ready proof has both legs
  on one outcome, its floor is wrong as soon as the loser pays less than the winner and voids are not modelled at
  the rules price: if the other outcome wins, the legs pay less than the artifact's minimum.
\<close>

lemma same_outcome_legs_unsound:
  assumes "compile_proof D c rvs atts t rid = Inr p" and "pa_status p = Proof_ready"
    and "cd_relationship_type c = Binary_complement" and "map cl_outcome_index (cd_legs c) = [Some k, Some k]"
    and "map_of atts (cl_rule_version_id (hd (cd_legs c))) = Some att" and "w \<noteq> k"
    and "dval (at_loser_payout_per_share att) < dval (at_winner_payout_per_share att)"
    and "\<not> (at_void_or_invalid_possible att \<and> at_void_behavior att = Resolve_to_rules_price)"
    and grid: "on_grid s [at_winner_payout_per_share att, at_loser_payout_per_share att]"
  shows "\<not> floor_holds p (map (outcome_payout att (Winner w)) (cd_legs c))"
proof -
  have "compile_binary_complement D c rvs atts t rid = Inr p"
    using assms(1,3) by (simp add: compile_proof_def)
  from binary_ready [OF this assms(2)] obtain a b att' where legs: "cd_legs c = [a, b]"
    and att: "map_of atts (cl_rule_version_id a) = Some att'"
    and payouts: "map ts_leg_payouts (pa_terminal_states p) =
      (let w = at_winner_payout_per_share att'; l = at_loser_payout_per_share att'
       in [[w, l], [l, w]] @
          (if at_void_or_invalid_possible att' \<and> at_void_behavior att' = Resolve_to_rules_price then [[l, l]] else []))"
    and bounds: "tight_bounds p"
    by metis
  have "att' = att" using att assms(5) legs by simp
  with payouts assms(8) have states: "map ts_leg_payouts (pa_terminal_states p) =
      [[at_winner_payout_per_share att, at_loser_payout_per_share att], [at_loser_payout_per_share att, at_winner_payout_per_share att]]"
    by (auto simp: Let_def)
  have grid': "on_grid s [at_loser_payout_per_share att, at_winner_payout_per_share att]"
    using grid by (auto simp: on_grid_def add.commute)
  have exact: "dval (dsum xs) = (\<Sum>x\<leftarrow>xs. dval x)" if "on_grid s xs" for xs
    using that by (intro dsum_exact [of s]) (auto simp: on_grid_def)
  obtain lo x where lo: "pa_minimum_basket_payout p = Some lo" "lo = dsum (ts_leg_payouts x)" "x \<in> set (pa_terminal_states p)"
    using bounds unfolding tight_bounds_def by auto
  have "ts_leg_payouts x \<in> set (map ts_leg_payouts (pa_terminal_states p))" using lo(3) by simp
  then have "dval lo = dval (at_winner_payout_per_share att) + dval (at_loser_payout_per_share att)"
    unfolding states lo(2) using exact [OF grid] exact [OF grid'] by auto
  then show ?thesis
    using assms(4,6,7) lo(1) by (auto simp: floor_holds_def legs outcome_payout_def)
qed

text \<open>Such proofs exist: a valid candidate with both legs on outcome 0, attested to pay 1 or 0, is proof-ready.\<close>

lemma same_outcome_legs_ready:
  "\<exists>c p. validate_candidate c = Inr c \<and> map cl_outcome_index (cd_legs c) = [Some 0, Some 0] \<and>
     example_proof c = Inr p \<and> pa_status p = Proof_ready \<and>
     \<not> floor_holds p (map (outcome_payout (example_attestation 3 ''M'') (Winner 1)) (cd_legs c))"
proof -
  let ?c = "example_candidate Binary_complement [example_leg ''M'' (Some 0) 3, example_leg ''M'' (Some 0) 3] []"
  have "validate_candidate ?c = Inr ?c"
    by code_simp
  moreover have "result_status (example_proof ?c) = Some (Proof_ready, Some (Dec False 1 0))"
    by code_simp
  then obtain p where p: "example_proof ?c = Inr p" "pa_status p = Proof_ready" using result_statusD by blast
  moreover have "\<not> floor_holds p (map (outcome_payout (example_attestation 3 ''M'') (Winner 1)) (cd_legs ?c))"
  proof (rule same_outcome_legs_unsound [OF p(1) [unfolded example_proof_def] p(2), where k = 0 and s = 0])
    show "\<not> (at_void_or_invalid_possible (example_attestation 3 ''M'') \<and>
        at_void_behavior (example_attestation 3 ''M'') = Resolve_to_rules_price)"
      by (simp add: example_attestation_def)
  qed (simp_all add: example_defs example_attested example_grid)
  moreover have "map cl_outcome_index (cd_legs ?c) = [Some 0, Some 0]"
    by (simp add: example_defs)
  ultimately show ?thesis by (intro exI [of _ ?c] exI [of _ p] conjI)
qed

end
