(* ===== verification/Decimal_Rounding.thy ===== *)
theory Decimal_Rounding
  imports Py_Decimal
begin

text \<open>
  The rounding of the decimal context, half to even at 28 digits, never crosses a number of at most
  28 digits: a rounded product or quotient lies on the same side of every such limit as the exact
  one, so comparing it with a limit errs at most by calling the limit reached.
\<close>

section \<open>Rounding a coefficient\<close>

lemma grid_le:
  assumes "\<not> dneg L" and "dcoef L < 10 ^ 28" and "dval L \<le> of_nat c / of_nat d * 10 powi e"
    and "10 ^ 27 \<le> c div d" and "0 < d"
  shows "dval L \<le> of_nat (c div d) * 10 powi e"
proof (cases "e \<le> dexp L")
  case True
  let ?N = "dcoef L * 10 ^ nat (dexp L - e)"
  have L: "dval L = of_nat ?N * 10 powi e"
    using True powi_shift [of e "dexp L"] assms(1) by (simp add: dval_def dsigned_def mult.assoc)
  have "of_nat ?N \<le> (of_nat c / of_nat d :: rat)"
    using assms(3) by (simp only: L mult_le_cancel_right_pos powi_pos)
  then have "of_nat (?N * d) \<le> (of_nat c :: rat)"
    using assms(5) by (simp add: pos_le_divide_eq)
  then have "?N * d \<le> c"
    by (simp only: of_nat_le_iff)
  then have "?N \<le> c div d"
    using assms(5) by (simp add: less_eq_div_iff_mult_less_eq)
  then show ?thesis
    unfolding L by (intro mult_right_mono) (simp_all only: of_nat_le_iff powi_nonneg)
next
  case False
  then have "(10::rat) powi dexp L \<le> 10 powi (e - 1)"
    by (intro power_int_increasing) auto
  moreover have "of_nat (dcoef L) \<le> (10::rat) ^ 28"
    using assms(2) by (metis less_imp_le of_nat_le_iff of_nat_numeral of_nat_power)
  ultimately have "dval L \<le> 10 ^ 28 * 10 powi (e - 1)"
    using assms(1) by (simp add: dval_def dsigned_def mult_mono)
  also have "\<dots> = 10 ^ 27 * 10 powi e"
    by (simp add: power_int_diff)
  also have "\<dots> \<le> of_nat (c div d) * 10 powi e"
    using assms(4) by (intro mult_right_mono) (metis of_nat_le_iff of_nat_numeral of_nat_power, simp)
  finally show ?thesis .
qed

lemma grid_ge:
  assumes "\<not> dneg U" and "dcoef U < 10 ^ 28" and "of_nat c / of_nat d * 10 powi e \<le> dval U"
    and "10 ^ 27 \<le> c div d" and "0 < d" and "q * d < c + d"
  shows "of_nat q * 10 powi e \<le> dval U"
proof (cases "e \<le> dexp U")
  case True
  let ?N = "dcoef U * 10 ^ nat (dexp U - e)"
  have U: "dval U = of_nat ?N * 10 powi e"
    using True powi_shift [of e "dexp U"] assms(1) by (simp add: dval_def dsigned_def mult.assoc)
  have "(of_nat c / of_nat d :: rat) \<le> of_nat ?N"
    using assms(3) by (simp only: U mult_le_cancel_right_pos powi_pos)
  then have "(of_nat c :: rat) \<le> of_nat (?N * d)"
    using assms(5) by (simp add: pos_divide_le_eq)
  then have "c \<le> ?N * d"
    by (simp only: of_nat_le_iff)
  with assms(6) have "q * d < (?N + 1) * d"
    by (simp only: add_mult_distrib)
  then have "q \<le> ?N"
    by (simp only: mult_less_cancel2) simp
  then show ?thesis
    unfolding U by (intro mult_right_mono) (simp_all only: of_nat_le_iff powi_nonneg)
next
  case False
  then have "(10::rat) powi dexp U \<le> 10 powi (e - 1)"
    by (intro power_int_increasing) auto
  moreover have "of_nat (dcoef U) < (10::rat) ^ 28"
    using assms(2) by (metis of_nat_less_iff of_nat_numeral of_nat_power)
  ultimately have "dval U < 10 ^ 28 * 10 powi (e - 1)"
    using assms(1) by (simp add: dval_def dsigned_def mult_less_le_imp_less)
  also have "\<dots> = 10 ^ 27 * 10 powi e"
    by (simp add: power_int_diff)
  also have "\<dots> \<le> of_nat (c div d) * 10 powi e"
    using assms(4) by (intro mult_right_mono) (metis of_nat_le_iff of_nat_numeral of_nat_power, simp)
  also have "\<dots> \<le> of_nat c / of_nat d * 10 powi e"
    by (intro mult_right_mono of_nat_div_le_of_nat) simp
  finally show ?thesis using assms(3) by simp
qed

lemma half_even_near: "half_even c k * 10 ^ k < c + 10 ^ k"
proof (cases "c mod 10 ^ k = 0")
  case True
  then have "half_even c k = c div 10 ^ k" by (simp add: half_even_def Let_def)
  moreover have "c div 10 ^ k * 10 ^ k < c + 10 ^ k"
    by (rule le_less_trans [of _ c]) simp_all
  ultimately show ?thesis by (simp only:)
next
  case False
  have "c div 10 ^ k * 10 ^ k + c mod 10 ^ k = c" by (rule div_mult_mod_eq)
  moreover have "half_even c k \<le> c div 10 ^ k + 1" by (simp add: half_even_def Let_def)
  then have "half_even c k * 10 ^ k \<le> (c div 10 ^ k + 1) * 10 ^ k" by (rule mult_le_mono1)
  ultimately show ?thesis using False unfolding add_mult_distrib by linarith
qed

lemma many_digits: "28 < num_digits c \<Longrightarrow> 10 ^ 27 \<le> c div 10 ^ (num_digits c - 28)"
proof -
  assume nd: "28 < num_digits c"
  then have "0 < c" by (cases c) (simp_all add: num_digits.simps)
  moreover have "num_digits c - 1 = 27 + (num_digits c - 28)" using nd by simp
  ultimately have "10 ^ (27 + (num_digits c - 28)) \<le> c"
    using num_digits_lower [of c] by metis
  then show ?thesis
    by (simp add: less_eq_div_iff_mult_less_eq power_add)
qed

lemma dec_fix_val:
  "28 < num_digits c \<Longrightarrow> dval (dec_fix False c e) =
     of_nat (half_even c (num_digits c - 28)) * 10 powi (e + int (num_digits c - 28))"
proof -
  assume nd: "28 < num_digits c"
  let ?k = "num_digits c - 28"
  have "(10::rat) powi (e + int ?k + 1) = 10 * 10 powi (e + int ?k)"
    by (simp add: power_int_add)
  then show ?thesis
    using nd by (simp add: dec_fix_def Let_def dval_Dec_False)
qed

lemma shift_down: "of_nat c * 10 powi e = of_nat c / of_nat (10 ^ k) * (10::rat) powi (e + int k)"
  by (simp add: power_int_add)

lemma dec_fix_lower:
  assumes "\<not> dneg L" and "dcoef L < 10 ^ 28" and "dval L \<le> of_nat c * 10 powi e"
  shows "dval L \<le> dval (dec_fix False c e)"
proof (cases "28 < num_digits c")
  case True
  let ?k = "num_digits c - 28"
  have "dval L \<le> of_nat (c div 10 ^ ?k) * 10 powi (e + int ?k)"
    by (rule grid_le [OF assms(1,2) _ many_digits [OF True]]) (use assms(3) shift_down [of c e ?k] in simp_all)
  also have "\<dots> \<le> of_nat (half_even c ?k) * 10 powi (e + int ?k)"
    using half_even_ge by (intro mult_right_mono) (simp_all only: of_nat_le_iff powi_nonneg)
  finally show ?thesis by (simp add: dec_fix_val [OF True])
next
  case False
  with assms(3) show ?thesis by (simp add: dec_fix_def dval_Dec_False)
qed

lemma dec_fix_upper:
  assumes "\<not> dneg U" and "dcoef U < 10 ^ 28" and "of_nat c * 10 powi e \<le> dval U"
  shows "dval (dec_fix False c e) \<le> dval U"
proof (cases "28 < num_digits c")
  case True
  let ?k = "num_digits c - 28"
  have "of_nat (half_even c ?k) * 10 powi (e + int ?k) \<le> dval U"
    by (rule grid_ge [OF assms(1,2) _ many_digits [OF True] _ half_even_near])
      (use assms(3) shift_down [of c e ?k] in simp_all)
  then show ?thesis by (simp only: dec_fix_val [OF True])
next
  case False
  with assms(3) show ?thesis by (simp add: dec_fix_def dval_Dec_False)
qed

section \<open>Products and quotients\<close>

lemma dmul_lower:
  assumes "\<not> dneg a" and "\<not> dneg b" and "\<not> dneg L" and "dcoef L < 10 ^ 28" and "dval L \<le> dval a * dval b"
  shows "dval L \<le> dval (dmul a b)"
  unfolding dmul_def using assms
  by (simp, intro dec_fix_lower) (simp_all add: dval_def dsigned_def power_int_add mult_ac)

lemma dmul_upper:
  assumes "\<not> dneg a" and "\<not> dneg b" and "\<not> dneg U" and "dcoef U < 10 ^ 28" and "dval a * dval b \<le> dval U"
  shows "dval (dmul a b) \<le> dval U"
  unfolding dmul_def using assms
  by (simp, intro dec_fix_upper) (simp_all add: dval_def dsigned_def power_int_add mult_ac)

lemma strip_zeros_val:
  "strip_zeros c e ideal = (c', e') \<Longrightarrow> of_nat c' * (10::rat) powi e' = of_nat c * 10 powi e"
proof (induction c e ideal rule: strip_zeros.induct)
  case (1 c e ideal)
  show ?case
  proof (cases "e < ideal \<and> c mod 10 = 0")
    case True
    with "1.prems" have "strip_zeros (c div 10) (e + 1) ideal = (c', e')"
      by (subst (asm) strip_zeros.simps) simp
    from "1.IH" [OF True this] have "of_nat c' * (10::rat) powi e' = of_nat (c div 10) * 10 powi (e + 1)" .
    also have "\<dots> = of_nat (c div 10 * 10) * 10 powi e"
      by (simp add: power_int_add)
    also have "c div 10 * 10 = c" using True by (simp add: mult.commute dvd_mult_div_cancel mod_0_imp_dvd)
    finally show ?thesis .
  next
    case False
    with "1.prems" show ?thesis by (subst (asm) strip_zeros.simps) auto
  qed
qed

lemma quotient_digits:
  assumes "0 < a" and "0 < b" and "shift = int (num_digits b) - int (num_digits a) + 29"
  shows "10 ^ 28 \<le> (a * 10 ^ nat shift) div (b * 10 ^ nat (- shift))"
proof -
  have a: "10 ^ (num_digits a - 1) \<le> a" and b: "b \<le> 10 ^ num_digits b"
    using num_digits_lower [OF assms(1)] num_digits_upper [of b] by simp_all
  have na: "0 < num_digits a" by (rule num_digits_pos)
  have "10 ^ 28 * (b * 10 ^ nat (- shift)) \<le> 10 ^ 28 * (10 ^ num_digits b * 10 ^ nat (- shift))"
    using b by (intro mult_le_mono) simp_all
  also have "\<dots> = 10 ^ (28 + num_digits b + nat (- shift))"
    by (simp only: power_add mult.assoc)
  also have "28 + num_digits b + nat (- shift) = num_digits a - 1 + nat shift"
    using na assms(3) by linarith
  also have "(10::nat) ^ (num_digits a - 1 + nat shift) \<le> a * 10 ^ nat shift"
    using a by (simp only: power_add mult_le_mono1)
  finally show ?thesis
    using assms(2) by (simp add: less_eq_div_iff_mult_less_eq)
qed

text \<open>A quotient of nonnegative decimals, before the final rounding, is exact or nudged off the grid.\<close>

lemma ddiv_rounds:
  assumes "ddiv a b = Inr r" and "\<not> dneg a" and "\<not> dneg b"
  shows "\<exists>c e. r = dec_fix False c e \<and>
    (\<forall>L. \<not> dneg L \<longrightarrow> dcoef L < 10 ^ 28 \<longrightarrow> dval L \<le> dval a / dval b \<longrightarrow> dval L \<le> of_nat c * 10 powi e) \<and>
    (\<forall>U. \<not> dneg U \<longrightarrow> dcoef U < 10 ^ 28 \<longrightarrow> dval a / dval b \<le> dval U \<longrightarrow> of_nat c * 10 powi e \<le> dval U)"
proof -
  have b: "0 < dcoef b" using assms(1) by (auto simp: ddiv_def split: if_splits)
  let ?ideal = "dexp a - dexp b"
  show ?thesis
  proof (cases "dcoef a = 0")
    case True
    then have "r = dec_fix False 0 ?ideal" and "dval a = 0"
      using assms b by (auto simp: ddiv_def dval_def dsigned_def)
    then show ?thesis by (intro exI [of _ 0] exI [of _ ?ideal]) auto
  next
    case False
    define shift where "shift = int (num_digits (dcoef b)) - int (num_digits (dcoef a)) + 29"
    define n where "n = dcoef a * 10 ^ nat shift"
    define m where "m = dcoef b * 10 ^ nat (- shift)"
    define e where "e = ?ideal - shift"
    have m: "0 < m" using b by (simp add: m_def)
    have digits: "10 ^ 28 \<le> n div m"
      unfolding n_def m_def using False b by (intro quotient_digits) (simp_all add: shift_def)
    have quot: "dval a / dval b = of_nat n / of_nat m * 10 powi e"
    proof -
      have "(10::rat) ^ nat shift = 10 powi shift * 10 ^ nat (- shift)"
        by (cases "0 \<le> shift") (simp_all add: power_int_def power_mult_distrib [symmetric])
      then show ?thesis
        using assms(2,3) b by (simp add: dval_def dsigned_def n_def m_def e_def power_int_diff power_int_add field_simps)
    qed
    have r: "r = (if n mod m \<noteq> 0
        then dec_fix False (if n div m mod 5 = 0 then n div m + 1 else n div m) e
        else case strip_zeros (n div m) e ?ideal of (c, e) \<Rightarrow> dec_fix False c e)"
      using assms(1) b False assms(2,3)
      unfolding ddiv_def Let_def shift_def [symmetric] n_def [symmetric] m_def [symmetric] e_def [symmetric]
      by (simp split: if_splits)
    show ?thesis
    proof (cases "n mod m = 0")
      case True
      obtain c e' where strip: "strip_zeros (n div m) e ?ideal = (c, e')" by force
      have "of_nat (n div m) = (of_nat n / of_nat m :: rat)"
      proof -
        have "n div m * m = n" using True by (metis add.right_neutral div_mult_mod_eq)
        then have "of_nat n = (of_nat (n div m) * of_nat m :: rat)" by (metis of_nat_mult)
        then show ?thesis using m by (simp add: nonzero_eq_divide_eq)
      qed
      then have "of_nat c * 10 powi e' = dval a / dval b"
        using strip_zeros_val [OF strip] by (simp add: quot)
      then show ?thesis using True strip by (auto simp: r intro!: exI [of _ c] exI [of _ e'])
    next
      case False
      let ?q = "if n div m mod 5 = 0 then n div m + 1 else n div m"
      have "(n div m + 1) * m < n + m" and "n div m * m < n + m"
        using False m div_mult_mod_eq [of n m] unfolding add_mult_distrib by linarith+
      then have near: "?q * m < n + m" by auto
      have ge: "of_nat (n div m) * 10 powi e \<le> of_nat ?q * (10::rat) powi e"
        by (intro mult_right_mono) auto
      have big: "10 ^ 27 \<le> n div m" using digits by simp
      show ?thesis
      proof (intro exI conjI allI impI)
        show "r = dec_fix False ?q e" using False by (simp add: r)
      next
        fix L assume "\<not> dneg L" "dcoef L < 10 ^ 28" "dval L \<le> dval a / dval b"
        then have "dval L \<le> of_nat (n div m) * 10 powi e"
          by (intro grid_le big m) (simp_all add: quot)
        from this ge show "dval L \<le> of_nat ?q * 10 powi e" by (rule order_trans)
      next
        fix U assume "\<not> dneg U" "dcoef U < 10 ^ 28" "dval a / dval b \<le> dval U"
        then show "of_nat ?q * 10 powi e \<le> dval U"
          by (intro grid_ge [OF _ _ _ big m near]) (simp_all add: quot)
      qed
    qed
  qed
qed

lemma ddiv_lower:
  assumes "ddiv a b = Inr r" and "\<not> dneg a" and "\<not> dneg b" and "\<not> dneg L" and "dcoef L < 10 ^ 28"
    and "dval L \<le> dval a / dval b"
  shows "dval L \<le> dval r"
  using ddiv_rounds [OF assms(1-3)] assms(4-6) by (auto intro: dec_fix_lower)

lemma ddiv_upper:
  assumes "ddiv a b = Inr r" and "\<not> dneg a" and "\<not> dneg b" and "\<not> dneg U" and "dcoef U < 10 ^ 28"
    and "dval a / dval b \<le> dval U"
  shows "dval r \<le> dval U"
  using ddiv_rounds [OF assms(1-3)] assms(4-6) by (auto intro: dec_fix_upper)

section \<open>Results have at most 28 digits\<close>

lemma dec_fix_digits: "dcoef (dec_fix s c e) < 10 ^ 28"
proof (cases "num_digits c \<le> 28")
  case True
  then show ?thesis using num_digits_le_iff [of 28 c] by (simp add: dec_fix_def)
next
  case False
  define k where "k = num_digits c - 28"
  have "c < 10 ^ (28 + k)" using num_digits_upper [of c] False by (simp add: k_def)
  then have "c div 10 ^ k < 10 ^ 28" by (simp add: less_mult_imp_div_less power_add)
  then have "half_even c k \<le> 10 ^ 28" by (auto simp: half_even_def Let_def)
  with False show ?thesis by (auto simp: dec_fix_def Let_def k_def)
qed

lemma dadd_digits: "dcoef (dadd a b) < 10 ^ 28"
  unfolding dadd_def Let_def by (rule dec_fix_digits)

lemma dsub_digits: "dcoef (dsub a b) < 10 ^ 28"
  unfolding dsub_def by (rule dadd_digits)

end
