(* ===== verification/Risk.thy ===== *)
theory Risk
  imports Prediction_Domain Decimal_Rounding
begin

text \<open>
  The risk gate of shadow proposals (\<open>predictions/risk.py\<close>): a frozen policy that may only be more
  conservative than the defaults, a portfolio snapshot, and a decision with one reason, taken in a
  fixed order.  The frozen mapping of cluster exposures is an association list; its copy and
  serialisation hooks have no counterpart in a logic of values.
\<close>

section \<open>Policy and portfolio\<close>

record risk_policy =
  rp_policy_version :: string
  rp_max_basket_fraction_of_equity :: dec
  rp_max_event_cluster_fraction :: dec
  rp_max_incomplete_loss_fraction :: dec
  rp_drawdown_halt_new_entries :: dec
  rp_drawdown_halve_size :: dec
  rp_drawdown_stop_all :: dec
  rp_drawdown_close_nonguaranteed :: dec
  rp_drawdown_capital_preservation :: dec
  rp_max_live_venues :: int
  rp_pilot_cap_usd :: dec
  rp_starting_equity_usd :: dec

definition positive_fraction :: "dec \<Rightarrow> bool" where
  "positive_fraction d \<longleftrightarrow> dlt dec0 d \<and> dle d (dec_of_int 1)"

definition policy_fields_ok :: "risk_policy \<Rightarrow> bool" where
  "policy_fields_ok p \<longleftrightarrow> nonempty_string (rp_policy_version p) \<and>
     list_all positive_fraction
       [rp_max_basket_fraction_of_equity p, rp_max_event_cluster_fraction p,
        rp_max_incomplete_loss_fraction p, rp_drawdown_halt_new_entries p, rp_drawdown_halve_size p,
        rp_drawdown_stop_all p, rp_drawdown_close_nonguaranteed p, rp_drawdown_capital_preservation p] \<and>
     1 \<le> rp_max_live_venues p \<and> positive_decimal (rp_pilot_cap_usd p) \<and>
     positive_decimal (rp_starting_equity_usd p)"

text \<open>The ceilings, in the order they are checked; an integer limit compares as a decimal.\<close>

definition policy_limit_ceilings :: "risk_policy \<Rightarrow> (string \<times> dec \<times> dec) list" where
  "policy_limit_ceilings p =
    [(''max_basket_fraction_of_equity'', rp_max_basket_fraction_of_equity p, Dec False 5 (-2)),
     (''max_event_cluster_fraction'', rp_max_event_cluster_fraction p, Dec False 10 (-2)),
     (''max_incomplete_loss_fraction'', rp_max_incomplete_loss_fraction p, Dec False 25 (-4)),
     (''drawdown_halt_new_entries'', rp_drawdown_halt_new_entries p, Dec False 2 (-2)),
     (''drawdown_halve_size'', rp_drawdown_halve_size p, Dec False 5 (-2)),
     (''drawdown_stop_all'', rp_drawdown_stop_all p, Dec False 8 (-2)),
     (''drawdown_close_nonguaranteed'', rp_drawdown_close_nonguaranteed p, Dec False 12 (-2)),
     (''drawdown_capital_preservation'', rp_drawdown_capital_preservation p, Dec False 15 (-2)),
     (''max_live_venues'', dec_of_int (rp_max_live_venues p), Dec False 2 0),
     (''pilot_cap_usd'', rp_pilot_cap_usd p, Dec False 250 0)]"

definition validate_policy :: "risk_policy \<Rightarrow> risk_policy result" where
  "validate_policy p =
     bindE (checkE
       ((\<not> policy_fields_ok p, ValueError ''policy field'') #
        map (\<lambda>(name, v, maximum). (dlt maximum v,
               ValueError (name @ '' cannot be less conservative than the default limit'')))
          (policy_limit_ceilings p) @
        [(\<not> (dlt (rp_drawdown_halt_new_entries p) (rp_drawdown_halve_size p) \<and>
             dlt (rp_drawdown_halve_size p) (rp_drawdown_stop_all p) \<and>
             dlt (rp_drawdown_stop_all p) (rp_drawdown_close_nonguaranteed p) \<and>
             dlt (rp_drawdown_close_nonguaranteed p) (rp_drawdown_capital_preservation p)),
          ValueError ''drawdown limits must be strictly ordered from halt to preservation'')]))
       (\<lambda>_. Inr p)"

definition DEFAULT_RISK_POLICY :: risk_policy where
  "DEFAULT_RISK_POLICY =
    \<lparr>rp_policy_version = ''shadow-risk-v1'', rp_max_basket_fraction_of_equity = Dec False 5 (-2),
     rp_max_event_cluster_fraction = Dec False 10 (-2), rp_max_incomplete_loss_fraction = Dec False 25 (-4),
     rp_drawdown_halt_new_entries = Dec False 2 (-2), rp_drawdown_halve_size = Dec False 5 (-2),
     rp_drawdown_stop_all = Dec False 8 (-2), rp_drawdown_close_nonguaranteed = Dec False 12 (-2),
     rp_drawdown_capital_preservation = Dec False 15 (-2), rp_max_live_venues = 2,
     rp_pilot_cap_usd = Dec False 250 0, rp_starting_equity_usd = Dec False 10000 0\<rparr>"

record shadow_portfolio =
  po_total_equity_usd :: dec
  po_open_exposure_usd_by_cluster :: "(string, dec) dict"
  po_peak_equity_usd :: dec
  po_equity_24h_ago_usd :: dec
  po_open_proposal_count :: int

definition validate_portfolio :: "shadow_portfolio \<Rightarrow> shadow_portfolio result" where
  "validate_portfolio s =
     bindE (checkE
       [(\<not> (positive_decimal (po_total_equity_usd s) \<and>
            list_all (\<lambda>(_, v). nonnegative_decimal v) (po_open_exposure_usd_by_cluster s) \<and>
            positive_decimal (po_peak_equity_usd s) \<and> positive_decimal (po_equity_24h_ago_usd s) \<and>
            0 \<le> po_open_proposal_count s), ValueError ''portfolio field''),
        (dlt (po_peak_equity_usd s) (po_total_equity_usd s),
         ValueError ''peak_equity_usd must be at least total_equity_usd'')])
       (\<lambda>_. Inr s)"

interpretation policy: revalidation validate_policy
  by unfold_locales (simp add: validate_policy_def bindE_eq_Inr del: checkE.simps)

interpretation portfolio: revalidation validate_portfolio
  by unfold_locales (simp add: validate_portfolio_def bindE_eq_Inr del: checkE.simps)

section \<open>The gate\<close>

datatype risk_refusal_reason =
    BASKET_TOO_LARGE | CLUSTER_CONCENTRATION | INCOMPLETE_LOSS_TOO_LARGE
  | DRAWDOWN_HALT | DRAWDOWN_STOP_ALL | CAPITAL_PRESERVATION_MODE

record risk_decision =
  rd_allowed :: bool
  rd_reason :: "risk_refusal_reason option"
  rd_size_multiplier :: dec
  rd_policy_version :: string

definition refused :: "risk_refusal_reason \<Rightarrow> dec \<Rightarrow> risk_policy \<Rightarrow> risk_decision" where
  "refused reason size_multiplier policy =
     \<lparr>rd_allowed = False, rd_reason = Some reason, rd_size_multiplier = size_multiplier,
      rd_policy_version = rp_policy_version policy\<rparr>"

definition require_nonnegative_finite_decimal :: "py_number \<Rightarrow> string \<Rightarrow> dec result" where
  "require_nonnegative_finite_decimal v name =
     (case v of
        PyOther \<Rightarrow> Inl (TypeError (name @ '' must be a Decimal''))
      | PyNonFinite \<Rightarrow> Inl (ValueError (name @ '' must be a finite non-negative Decimal''))
      | PyDecimal d \<Rightarrow> if dlt d dec0 then Inl (ValueError (name @ '' must be a finite non-negative Decimal''))
                       else Inr d)"

definition evaluate_risk_gate ::
  "py_number \<Rightarrow> py_number \<Rightarrow> string \<Rightarrow> shadow_portfolio \<Rightarrow> risk_policy \<Rightarrow> risk_decision result" where
  "evaluate_risk_gate basket_cost_usd max_incomplete_loss_usd event_cluster_id portfolio policy =
     bindE (validate_policy policy) (\<lambda>policy.
     bindE (validate_portfolio portfolio) (\<lambda>portfolio.
     bindE (require_nonnegative_finite_decimal basket_cost_usd ''basket_cost_usd'') (\<lambda>basket_cost.
     bindE (require_nonnegative_finite_decimal max_incomplete_loss_usd ''max_incomplete_loss_usd'') (\<lambda>incomplete_loss.
     bindE (ddiv (dsub (po_peak_equity_usd portfolio) (po_total_equity_usd portfolio))
              (po_peak_equity_usd portfolio)) (\<lambda>peak_drawdown.
     bindE (ddiv (dsub (po_equity_24h_ago_usd portfolio) (po_total_equity_usd portfolio))
              (po_equity_24h_ago_usd portfolio)) (\<lambda>daily_loss.
     let size_multiplier = (if dle (rp_drawdown_halve_size policy) peak_drawdown then Dec False 5 (-1) else Dec False 1 0);
         equity = po_total_equity_usd portfolio
     in if dle (rp_drawdown_capital_preservation policy) peak_drawdown
        then Inr (refused CAPITAL_PRESERVATION_MODE size_multiplier policy)
        else if dle (rp_drawdown_stop_all policy) peak_drawdown
        then Inr (refused DRAWDOWN_STOP_ALL size_multiplier policy)
        else if dle (rp_drawdown_halt_new_entries policy) daily_loss
        then Inr (refused DRAWDOWN_HALT size_multiplier policy)
        else if dlt (dmul equity (rp_max_basket_fraction_of_equity policy)) basket_cost
        then Inr (refused BASKET_TOO_LARGE size_multiplier policy)
        else
        let cluster_exposure = (case map_of (po_open_exposure_usd_by_cluster portfolio) event_cluster_id of
              None \<Rightarrow> dec0 | Some exposure \<Rightarrow> exposure)
        in if dlt (dmul equity (rp_max_event_cluster_fraction policy)) (dadd cluster_exposure basket_cost)
           then Inr (refused CLUSTER_CONCENTRATION size_multiplier policy)
           else if dle (dmul equity (rp_max_incomplete_loss_fraction policy)) incomplete_loss
           then Inr (refused INCOMPLETE_LOSS_TOO_LARGE size_multiplier policy)
           else Inr \<lparr>rd_allowed = True, rd_reason = None, rd_size_multiplier = size_multiplier,
                     rd_policy_version = rp_policy_version policy\<rparr>))))))"

section \<open>What an allowed basket satisfies\<close>

lemma validate_policy_bounds:
  assumes "validate_policy p = Inr q"
  shows "q = p" and "policy_fields_ok p"
    and "dval (rp_max_basket_fraction_of_equity p) \<le> 5 / 100" "dval (rp_max_event_cluster_fraction p) \<le> 10 / 100"
    and "dval (rp_max_incomplete_loss_fraction p) \<le> 25 / 10000" "dval (rp_drawdown_halt_new_entries p) \<le> 2 / 100"
    and "dval (rp_drawdown_stop_all p) \<le> 8 / 100"
    and "dval (rp_drawdown_stop_all p) < dval (rp_drawdown_capital_preservation p)"
    and "dval (rp_drawdown_halve_size p) \<le> 5 / 100" "dval (rp_drawdown_close_nonguaranteed p) \<le> 12 / 100"
    and "dval (rp_drawdown_capital_preservation p) \<le> 15 / 100" "rp_max_live_venues p \<le> 2" "dval (rp_pilot_cap_usd p) \<le> 250"
proof -
  have checks: "\<not> policy_fields_ok p \<Longrightarrow> False"
    "list_all (\<lambda>(_, v, maximum). dval v \<le> dval maximum) (policy_limit_ceilings p)"
    "dval (rp_drawdown_stop_all p) < dval (rp_drawdown_close_nonguaranteed p)"
    "dval (rp_drawdown_close_nonguaranteed p) < dval (rp_drawdown_capital_preservation p)"
    using assms unfolding validate_policy_def bindE_eq_Inr checkE_Inr
    by (auto simp: dlt_iff list_all_iff not_less)
  then show "policy_fields_ok p" "dval (rp_drawdown_stop_all p) < dval (rp_drawdown_capital_preservation p)"
    by auto
  have "dval (Dec False 5 (-2)) = 5 / 100" "dval (Dec False 10 (-2)) = 10 / 100" "dval (Dec False 25 (-4)) = 25 / 10000"
    "dval (Dec False 2 (-2)) = 2 / 100" "dval (Dec False 8 (-2)) = 8 / 100" "dval (Dec False 12 (-2)) = 12 / 100"
    "dval (Dec False 15 (-2)) = 15 / 100" "dval (Dec False 250 0) = 250" "dval (Dec False 2 0) = 2"
    and venues: "dval (dec_of_int (rp_max_live_venues p)) = of_int (rp_max_live_venues p)"
    by (simp_all add: dec_of_int_def dval_def dsigned_def power_int_def eval_nat_numeral)
  with checks(2) show "dval (rp_max_basket_fraction_of_equity p) \<le> 5 / 100" "dval (rp_max_event_cluster_fraction p) \<le> 10 / 100"
    "dval (rp_max_incomplete_loss_fraction p) \<le> 25 / 10000" "dval (rp_drawdown_halt_new_entries p) \<le> 2 / 100"
    "dval (rp_drawdown_stop_all p) \<le> 8 / 100"
    "dval (rp_drawdown_halve_size p) \<le> 5 / 100" "dval (rp_drawdown_close_nonguaranteed p) \<le> 12 / 100"
    "dval (rp_drawdown_capital_preservation p) \<le> 15 / 100" "rp_max_live_venues p \<le> 2" "dval (rp_pilot_cap_usd p) \<le> 250"
    by (simp_all only: policy_limit_ceilings_def list.pred_inject prod.case venues of_int_le_numeral_iff)
  show "q = p" using assms policy.validate_id by blast
qed

lemma validate_portfolio_bounds:
  assumes "validate_portfolio s = Inr t"
  shows "t = s" "0 < dval (po_total_equity_usd s)" "0 < dval (po_peak_equity_usd s)"
    "0 < dval (po_equity_24h_ago_usd s)" "dval (po_total_equity_usd s) \<le> dval (po_peak_equity_usd s)"
  using assms unfolding validate_portfolio_def bindE_eq_Inr checkE_Inr
  by (auto simp: positive_decimal_iff dlt_iff not_less)

lemma ddiv_sign: "ddiv a b = Inr r \<Longrightarrow> dneg r = (dneg a \<noteq> dneg b)"
  by (auto simp: ddiv_def Let_def dec_fix_sign split: if_splits prod.splits)

lemma negative_value: "dneg d \<Longrightarrow> dval d \<le> 0"
  by (simp add: dval_def dsigned_def mult_le_0_iff)

lemma positive_sign: "0 < dval d \<Longrightarrow> \<not> dneg d"
  using negative_value [of d] by auto

text \<open>A loss ratio the gate finds below a limit of at most 28 digits is below it exactly.\<close>

lemma ratio_below:
  assumes "ddiv (dsub a b) a = Inr r" and "dval r < dval limit" and "0 < dval a" and "0 < dval limit"
    and "dcoef limit < 10 ^ 28" and "dval (dsub a b) = dval a - dval b"
  shows "dval a - dval b < dval limit * dval a"
proof (cases "dneg (dsub a b)")
  case True
  then have "dval a - dval b \<le> 0" using negative_value assms(6) by metis
  moreover have "0 < dval limit * dval a" using assms(3,4) by simp
  ultimately show ?thesis by linarith
next
  case False
  have "\<not> dval limit \<le> dval (dsub a b) / dval a"
    using ddiv_lower [OF assms(1) False positive_sign [OF assms(3)] positive_sign [OF assms(4)] assms(5)] assms(2)
    by linarith
  then show ?thesis using assms(3,6) by (simp add: not_le pos_divide_less_eq)
qed

lemma ratio_reached:
  assumes "ddiv (dsub a b) a = Inr r" and "dval limit * dval a \<le> dval a - dval b" and "0 < dval a" and "0 < dval limit"
    and "dcoef limit < 10 ^ 28" and "dval (dsub a b) = dval a - dval b"
  shows "dval limit \<le> dval r"
  using ratio_below [OF assms(1) _ assms(3-6)] assms(2) by (meson leD linorder_not_le)

text \<open>
  The inputs are exact: amounts on a common grid of 28 digits, limits of at most 28 digits and
  products of equity and fraction that need no rounding.
\<close>

definition exact_inputs :: "int \<Rightarrow> shadow_portfolio \<Rightarrow> risk_policy \<Rightarrow> dec \<Rightarrow> dec \<Rightarrow> bool" where
  "exact_inputs g s p exposure cost \<longleftrightarrow>
     fits g (po_total_equity_usd s) \<and> fits g (po_peak_equity_usd s) \<and> fits g (po_equity_24h_ago_usd s) \<and>
     g \<le> dexp exposure \<and> g \<le> dexp cost \<and> \<bar>dval exposure + dval cost\<bar> < 10 powi (28 + g) \<and>
     list_all (\<lambda>d. dcoef d < 10 ^ 28)
       [rp_drawdown_halt_new_entries p, rp_drawdown_halve_size p, rp_drawdown_stop_all p] \<and>
     list_all (\<lambda>f. dcoef (po_total_equity_usd s) * dcoef f < 10 ^ 28)
       [rp_max_basket_fraction_of_equity p, rp_max_event_cluster_fraction p, rp_max_incomplete_loss_fraction p]"

definition cluster_exposure :: "shadow_portfolio \<Rightarrow> string \<Rightarrow> dec" where
  "cluster_exposure s cluster =
     (case map_of (po_open_exposure_usd_by_cluster s) cluster of None \<Rightarrow> dec0 | Some e \<Rightarrow> e)"

lemma fits_difference:
  assumes "fits g a" and "fits g b" and "0 < dval a" and "0 < dval b"
  shows "dval (dsub a b) = dval a - dval b"
proof (rule dsub_exact(1))
  show "g \<le> dexp a" "g \<le> dexp b" using assms by (simp_all add: fits_def)
  have "\<bar>dval a\<bar> < 10 powi (28 + g)" "\<bar>dval b\<bar> < 10 powi (28 + g)" using assms by (simp_all add: fits_def)
  then show "\<bar>dval a - dval b\<bar> < 10 powi (28 + g)" using assms(3,4) by linarith
qed

text \<open>
  C15: whatever policy passes validation, a basket the gate allows satisfies the limits the gate reads, as exact
  inequalities although drawdowns are rounded quotients: the drawdown from the peak is below the stop
  limit, the loss over 24 hours below the halt limit, the basket costs at most its fraction of equity, its
  event cluster holds at most its fraction with it, and the incomplete loss stays below its fraction; each
  holds under the policy's own limit and under the default ceiling (8\%, 2\%, 5\%, 10\%, 0.25\%).  The size is
  one half once the drawdown reaches the halving limit, itself at most 5\%, and never other than one half or
  one.  The amounts are those of \<open>exact_inputs\<close>, which the 28-digit context represents exactly.  The closing
  limit, \<open>max_live_venues\<close> and \<open>pilot_cap_usd\<close> are at most their defaults in the policy, but the gate does not
  compare them with the basket, and nothing is promised of it in their terms.
\<close>

theorem risk_gate_conservative:
  assumes gate: "evaluate_risk_gate (PyDecimal cost) (PyDecimal loss) cluster s p = Inr d" and "rd_allowed d"
    and exact: "exact_inputs g s p (cluster_exposure s cluster) cost"
  shows "let equity = dval (po_total_equity_usd s); peak = dval (po_peak_equity_usd s); past = dval (po_equity_24h_ago_usd s)
    in peak - equity < min (dval (rp_drawdown_stop_all p)) (8 / 100) * peak \<and>
       past - equity < min (dval (rp_drawdown_halt_new_entries p)) (2 / 100) * past \<and>
       dval cost \<le> equity * min (dval (rp_max_basket_fraction_of_equity p)) (5 / 100) \<and>
       dval (cluster_exposure s cluster) + dval cost \<le> equity * min (dval (rp_max_event_cluster_fraction p)) (10 / 100) \<and>
       dval loss < equity * min (dval (rp_max_incomplete_loss_fraction p)) (25 / 10000) \<and>
       (dval (rp_drawdown_halve_size p) * peak \<le> peak - equity \<longrightarrow> rd_size_multiplier d = Dec False 5 (-1)) \<and>
       rd_size_multiplier d \<in> {Dec False 5 (-1), Dec False 1 0} \<and>
       dval (rp_drawdown_halve_size p) \<le> 5 / 100 \<and> dval (rp_drawdown_close_nonguaranteed p) \<le> 12 / 100 \<and>
       dval (rp_drawdown_capital_preservation p) \<le> 15 / 100 \<and> rp_max_live_venues p \<le> 2 \<and> dval (rp_pilot_cap_usd p) \<le> 250"
proof -
  from gate obtain p' s' where "validate_policy p = Inr p'" and "validate_portfolio s = Inr s'"
    by (auto simp: evaluate_risk_gate_def bindE_eq_Inr)
  then have policy: "validate_policy p = Inr p" and portfolio: "validate_portfolio s = Inr s"
    by (auto dest: policy.validate_id portfolio.validate_id)
  note gate' = gate [unfolded evaluate_risk_gate_def policy portfolio bindE_Inr]
  from gate' obtain dd dl where
    dd: "ddiv (dsub (po_peak_equity_usd s) (po_total_equity_usd s)) (po_peak_equity_usd s) = Inr dd"
    and dl: "ddiv (dsub (po_equity_24h_ago_usd s) (po_total_equity_usd s)) (po_equity_24h_ago_usd s) = Inr dl"
    by (auto simp only: bindE_eq_Inr)
  from gate' assms(2) have
    stop: "dval dd < dval (rp_drawdown_stop_all p)" and halt: "dval dl < dval (rp_drawdown_halt_new_entries p)"
    and basket: "dval cost \<le> dval (dmul (po_total_equity_usd s) (rp_max_basket_fraction_of_equity p))"
    and conc: "dval (dadd (cluster_exposure s cluster) cost) \<le> dval (dmul (po_total_equity_usd s) (rp_max_event_cluster_fraction p))"
    and inc: "dval loss < dval (dmul (po_total_equity_usd s) (rp_max_incomplete_loss_fraction p))"
    and size: "rd_size_multiplier d = (if dle (rp_drawdown_halve_size p) dd then Dec False 5 (-1) else Dec False 1 0)"
    unfolding dd dl bindE_Inr cluster_exposure_def [symmetric]
    by (auto simp: require_nonnegative_finite_decimal_def Let_def refused_def dlt_iff dle_iff not_le not_less
        split: if_splits)
  note pb = validate_policy_bounds [OF policy] and sb = validate_portfolio_bounds [OF portfolio]
  have pos: "0 < dval (rp_drawdown_stop_all p)" "0 < dval (rp_drawdown_halt_new_entries p)" "0 < dval (rp_drawdown_halve_size p)"
    using pb(2) by (simp_all add: policy_fields_ok_def positive_fraction_def dlt_iff)
  have coefs: "dcoef (rp_drawdown_stop_all p) < 10 ^ 28" "dcoef (rp_drawdown_halt_new_entries p) < 10 ^ 28"
    "dcoef (rp_drawdown_halve_size p) < 10 ^ 28"
    using exact by (simp_all add: exact_inputs_def)
  have diffs: "dval (dsub (po_peak_equity_usd s) (po_total_equity_usd s)) = dval (po_peak_equity_usd s) - dval (po_total_equity_usd s)"
    "dval (dsub (po_equity_24h_ago_usd s) (po_total_equity_usd s)) = dval (po_equity_24h_ago_usd s) - dval (po_total_equity_usd s)"
    using exact sb by (auto simp: exact_inputs_def intro!: fits_difference [of g])
  have products: "dval (dmul (po_total_equity_usd s) f) = dval (po_total_equity_usd s) * dval f"
    if "f \<in> {rp_max_basket_fraction_of_equity p, rp_max_event_cluster_fraction p, rp_max_incomplete_loss_fraction p}" for f
    using exact that by (intro dmul_exact) (auto simp: exact_inputs_def)
  have sum: "dval (dadd (cluster_exposure s cluster) cost) = dval (cluster_exposure s cluster) + dval cost"
    using exact by (intro dadd_exact(1) [of g]) (auto simp: exact_inputs_def)
  have stop': "dval (po_peak_equity_usd s) - dval (po_total_equity_usd s) < dval (rp_drawdown_stop_all p) * dval (po_peak_equity_usd s)"
    by (rule ratio_below [OF dd stop sb(3) pos(1) coefs(1) diffs(1)])
  have halt': "dval (po_equity_24h_ago_usd s) - dval (po_total_equity_usd s) < dval (rp_drawdown_halt_new_entries p) * dval (po_equity_24h_ago_usd s)"
    by (rule ratio_below [OF dl halt sb(4) pos(2) coefs(2) diffs(2)])
  have halve: "dval (rp_drawdown_halve_size p) \<le> dval dd"
    if "dval (rp_drawdown_halve_size p) * dval (po_peak_equity_usd s) \<le> dval (po_peak_equity_usd s) - dval (po_total_equity_usd s)"
    by (rule ratio_reached [OF dd that sb(3) pos(3) coefs(3) diffs(1)])
  show ?thesis
    using stop' halt' halve basket conc inc sb(2-4) pb(3-7) pb(9-13) size
    by (auto simp: Let_def min_def products sum dle_iff not_le)
qed

definition example_portfolio :: shadow_portfolio where
  "example_portfolio = \<lparr>po_total_equity_usd = Dec False 9900 0, po_open_exposure_usd_by_cluster = [(''rates'', Dec False 300 0)],
     po_peak_equity_usd = Dec False 10000 0, po_equity_24h_ago_usd = Dec False 9800 0, po_open_proposal_count = 1\<rparr>"

lemmas compute_quotient = ddiv_def Let_def num_digits.simps strip_zeros.simps dec_fix_def

lemmas compute_comparison = dle_def dlt_def min_exp_def at_exp_def dsigned_def dec_of_int_def

lemma example_ratios:
  "ddiv (dsub (Dec False 10000 0) (Dec False 9900 0)) (Dec False 10000 0) = Inr (Dec False 1 (-2))"
  "ddiv (dsub (Dec False 9800 0) (Dec False 9900 0)) (Dec False 9800 0) = Inr (Dec True 1020408163265306122448979592 (-29))"
  "ddiv (dsub (Dec False 20000 0) (Dec False 9900 0)) (Dec False 20000 0) = Inr (Dec False 505 (-3))"
proof -
  have "dsub (Dec False 10000 0) (Dec False 9900 0) = Dec False 100 0"
    "dsub (Dec False 9800 0) (Dec False 9900 0) = Dec True 100 0"
    "dsub (Dec False 20000 0) (Dec False 9900 0) = Dec False 10100 0"
    by code_simp+
  then show "ddiv (dsub (Dec False 10000 0) (Dec False 9900 0)) (Dec False 10000 0) = Inr (Dec False 1 (-2))"
    "ddiv (dsub (Dec False 9800 0) (Dec False 9900 0)) (Dec False 9800 0) = Inr (Dec True 1020408163265306122448979592 (-29))"
    "ddiv (dsub (Dec False 20000 0) (Dec False 9900 0)) (Dec False 20000 0) = Inr (Dec False 505 (-3))"
    by (simp_all add: compute_quotient half_even_def)
qed

lemma example_products:
  "dmul (Dec False 9900 0) (Dec False 5 (-2)) = Dec False 49500 (-2)"
  "dmul (Dec False 9900 0) (Dec False 10 (-2)) = Dec False 99000 (-2)"
  "dmul (Dec False 9900 0) (Dec False 25 (-4)) = Dec False 247500 (-4)"
  "dadd (Dec False 300 0) (Dec False 400 0) = Dec False 700 0"
  by code_simp+

lemma example_checks:
  "validate_policy DEFAULT_RISK_POLICY = Inr DEFAULT_RISK_POLICY"
  "validate_portfolio example_portfolio = Inr example_portfolio"
  "validate_portfolio (example_portfolio\<lparr>po_peak_equity_usd := Dec False 20000 0\<rparr>) =
     Inr (example_portfolio\<lparr>po_peak_equity_usd := Dec False 20000 0\<rparr>)"
  "require_nonnegative_finite_decimal (PyDecimal (Dec False 400 0)) ''basket_cost_usd'' = Inr (Dec False 400 0)"
  "require_nonnegative_finite_decimal (PyDecimal (Dec False 10 0)) ''max_incomplete_loss_usd'' = Inr (Dec False 10 0)"
      apply (simp add: validate_policy_def policy_fields_ok_def policy_limit_ceilings_def DEFAULT_RISK_POLICY_def
        nonempty_string_def positive_fraction_def positive_decimal_def compute_comparison)
     apply (simp_all add: validate_portfolio_def example_portfolio_def positive_decimal_def nonnegative_decimal_def
        require_nonnegative_finite_decimal_def compute_comparison)
  done

lemma example_allowed:
  "evaluate_risk_gate (PyDecimal (Dec False 400 0)) (PyDecimal (Dec False 10 0)) ''rates'' example_portfolio
      DEFAULT_RISK_POLICY = Inr \<lparr>rd_allowed = True, rd_reason = None, rd_size_multiplier = Dec False 1 0,
        rd_policy_version = ''shadow-risk-v1''\<rparr>"
  unfolding evaluate_risk_gate_def example_checks bindE_Inr
  by (simp add: example_portfolio_def DEFAULT_RISK_POLICY_def example_ratios example_products compute_comparison Let_def)

lemma example_refused:
  "evaluate_risk_gate (PyDecimal (Dec False 400 0)) (PyDecimal (Dec False 10 0)) ''rates''
      (example_portfolio\<lparr>po_peak_equity_usd := Dec False 20000 0\<rparr>) DEFAULT_RISK_POLICY =
    Inr (refused CAPITAL_PRESERVATION_MODE (Dec False 5 (-1)) DEFAULT_RISK_POLICY)"
  unfolding evaluate_risk_gate_def example_checks bindE_Inr
  by (simp add: example_portfolio_def DEFAULT_RISK_POLICY_def example_ratios compute_comparison Let_def)

lemma risk_gate_conservative_witness:
  "\<exists>d. evaluate_risk_gate (PyDecimal (Dec False 400 0)) (PyDecimal (Dec False 10 0)) ''rates'' example_portfolio
       DEFAULT_RISK_POLICY = Inr d \<and> rd_allowed d \<and>
     dval (cluster_exposure example_portfolio ''rates'') + dval (Dec False 400 0) \<le> dval (po_total_equity_usd example_portfolio) * (10 / 100)"
proof -
  have vals: "dval (Dec False 9900 0) = 9900" "dval (Dec False 10000 0) = 10000" "dval (Dec False 9800 0) = 9800"
    "dval (Dec False 300 0) = 300" "dval (Dec False 400 0) = 400" "dval (Dec False 10 (-2)) = 1 / 10"
    by (simp_all add: dval_def dsigned_def power_int_def eval_nat_numeral)
  have "exact_inputs 0 example_portfolio DEFAULT_RISK_POLICY (cluster_exposure example_portfolio ''rates'') (Dec False 400 0)"
    by (simp add: exact_inputs_def fits_def example_portfolio_def DEFAULT_RISK_POLICY_def cluster_exposure_def vals)
  from risk_gate_conservative [OF example_allowed _ this] show ?thesis
    using example_allowed by (simp add: Let_def DEFAULT_RISK_POLICY_def vals)
qed

text \<open>
  C16: the decision is fixed by the first breached limit in the order capital preservation, stop, daily halt,
  basket size, cluster concentration, incomplete loss: that limit is the reason, the proposal is allowed exactly
  when none of the six is breached, the size multiplier is one half from the halving limit on, and the
  version is the policy's.  The quotients, products and sum are those of the 28-digit context.  A deeper drawdown
  never weakens the reason: from the stop limit on it is the stop or capital preservation.
\<close>

theorem risk_gate_reason:
  assumes "evaluate_risk_gate (PyDecimal cost) (PyDecimal loss) cluster s p = Inr d"
    and "ddiv (dsub (po_peak_equity_usd s) (po_total_equity_usd s)) (po_peak_equity_usd s) = Inr drawdown"
    and "ddiv (dsub (po_equity_24h_ago_usd s) (po_total_equity_usd s)) (po_equity_24h_ago_usd s) = Inr daily_loss"
  defines "breaches \<equiv>
     [(CAPITAL_PRESERVATION_MODE, dval (rp_drawdown_capital_preservation p) \<le> dval drawdown),
      (DRAWDOWN_STOP_ALL, dval (rp_drawdown_stop_all p) \<le> dval drawdown),
      (DRAWDOWN_HALT, dval (rp_drawdown_halt_new_entries p) \<le> dval daily_loss),
      (BASKET_TOO_LARGE, dval (dmul (po_total_equity_usd s) (rp_max_basket_fraction_of_equity p)) < dval cost),
      (CLUSTER_CONCENTRATION, dval (dmul (po_total_equity_usd s) (rp_max_event_cluster_fraction p)) <
         dval (dadd (cluster_exposure s cluster) cost)),
      (INCOMPLETE_LOSS_TOO_LARGE, dval (dmul (po_total_equity_usd s) (rp_max_incomplete_loss_fraction p)) \<le> dval loss)]"
  shows "rd_reason d = map_option fst (find snd breaches) \<and>
    (rd_allowed d \<longleftrightarrow> \<not> list_ex snd breaches) \<and>
    (rd_allowed d \<longleftrightarrow> rd_reason d = None) \<and>
    rd_size_multiplier d = (if dval (rp_drawdown_halve_size p) \<le> dval drawdown then Dec False 5 (-1) else Dec False 1 0) \<and>
    rd_policy_version d = rp_policy_version p \<and>
    (rd_reason d \<in> {Some CAPITAL_PRESERVATION_MODE, Some DRAWDOWN_STOP_ALL} \<longleftrightarrow>
       dval (rp_drawdown_stop_all p) \<le> dval drawdown) \<and>
    (dval (rp_drawdown_stop_all p) \<le> dval drawdown \<longrightarrow> rd_size_multiplier d = Dec False 5 (-1))"
proof -
  from assms(1) obtain p' s' where "validate_policy p = Inr p'" and "validate_portfolio s = Inr s'"
    by (auto simp: evaluate_risk_gate_def bindE_eq_Inr)
  then have policy: "validate_policy p = Inr p" and portfolio: "validate_portfolio s = Inr s"
    by (auto dest: policy.validate_id portfolio.validate_id)
  have order: "dval (rp_drawdown_halve_size p) < dval (rp_drawdown_stop_all p)"
    "dval (rp_drawdown_stop_all p) < dval (rp_drawdown_capital_preservation p)"
    using policy unfolding validate_policy_def bindE_eq_Inr checkE_Inr by (auto simp: dlt_iff)
  note gate = assms(1) [unfolded evaluate_risk_gate_def policy portfolio bindE_Inr assms(2,3) cluster_exposure_def [symmetric]]
  have "require_nonnegative_finite_decimal (PyDecimal cost) ''basket_cost_usd'' = Inr cost"
    "require_nonnegative_finite_decimal (PyDecimal loss) ''max_incomplete_loss_usd'' = Inr loss"
    using gate unfolding bindE_eq_Inr require_nonnegative_finite_decimal_def by (auto split: if_splits)
  note gate' = gate [unfolded this bindE_Inr Let_def dle_iff dlt_iff]
  show ?thesis
    using gate' order unfolding breaches_def
    by (auto simp: refused_def split: if_splits)
qed

lemma risk_gate_reason_witness:
  "\<exists>d. evaluate_risk_gate (PyDecimal (Dec False 400 0)) (PyDecimal (Dec False 10 0)) ''rates''
       (example_portfolio\<lparr>po_peak_equity_usd := Dec False 20000 0\<rparr>) DEFAULT_RISK_POLICY = Inr d \<and>
     rd_reason d = Some CAPITAL_PRESERVATION_MODE \<and> rd_size_multiplier d = Dec False 5 (-1)"
proof -
  let ?s = "example_portfolio\<lparr>po_peak_equity_usd := Dec False 20000 0\<rparr>" and ?r = "Dec False 505 (-3)"
  have "ddiv (dsub (po_peak_equity_usd ?s) (po_total_equity_usd ?s)) (po_peak_equity_usd ?s) = Inr ?r"
    "ddiv (dsub (po_equity_24h_ago_usd ?s) (po_total_equity_usd ?s)) (po_equity_24h_ago_usd ?s) =
       Inr (Dec True 1020408163265306122448979592 (-29))"
    by (simp_all add: example_portfolio_def example_ratios)
  note decided = risk_gate_reason [OF example_refused this]
  have "dval ?r = 505 / 1000" "dval (rp_drawdown_capital_preservation DEFAULT_RISK_POLICY) = 15 / 100"
    "dval (rp_drawdown_halve_size DEFAULT_RISK_POLICY) = 5 / 100"
    by (simp_all add: DEFAULT_RISK_POLICY_def dval_def dsigned_def power_int_def eval_nat_numeral)
  then show ?thesis
    using decided example_refused by (auto intro!: exI [of _ "refused CAPITAL_PRESERVATION_MODE (Dec False 5 (-1)) DEFAULT_RISK_POLICY"])
qed

end
