(* ===== verification/Shadow_Models.thy ===== *)
theory Shadow_Models
  imports Prediction_Domain
begin

text \<open>
  The records of a shadow (paper) proposal (\<open>predictions/shadow_models.py\<close>): its frozen plan, the
  simulated fills, and the append-only chain of events that carries its state.  A literal field
  with one value is left out; \<open>event.from_state\<close> is an option, absent on the first event.
\<close>

section \<open>States\<close>

datatype shadow_state =
    Discovered | Proof_validated | Economics_validated | Shadow_planned | First_leg_simulated
  | Complete | Unwound | Expired | Unknown | Reconciled

fun shadow_state_value :: "shadow_state \<Rightarrow> string" where
  "shadow_state_value Discovered = ''discovered''"
| "shadow_state_value Proof_validated = ''proof_validated''"
| "shadow_state_value Economics_validated = ''economics_validated''"
| "shadow_state_value Shadow_planned = ''shadow_planned''"
| "shadow_state_value First_leg_simulated = ''first_leg_simulated''"
| "shadow_state_value Complete = ''complete''"
| "shadow_state_value Unwound = ''unwound''"
| "shadow_state_value Expired = ''expired''"
| "shadow_state_value Unknown = ''unknown''"
| "shadow_state_value Reconciled = ''reconciled''"

lemma shadow_state_value_inj [simp]: "shadow_state_value s = shadow_state_value t \<longleftrightarrow> s = t"
  by (cases s; cases t) simp_all

definition ALLOWED_TRANSITIONS :: "(shadow_state \<times> shadow_state) list" where
  "ALLOWED_TRANSITIONS =
    [(Discovered, Proof_validated),
     (Proof_validated, Economics_validated),
     (Economics_validated, Shadow_planned),
     (Shadow_planned, First_leg_simulated),
     (First_leg_simulated, Complete),
     (First_leg_simulated, Unwound),
     (First_leg_simulated, Expired),
     (First_leg_simulated, Unknown),
     (Complete, Reconciled),
     (Unwound, Reconciled),
     (Expired, Reconciled)]"

definition allowed_transition :: "shadow_state \<Rightarrow> shadow_state \<Rightarrow> bool" where
  "allowed_transition s t \<longleftrightarrow> (s, t) \<in> set ALLOWED_TRANSITIONS"

definition resting_state :: "shadow_state \<Rightarrow> bool" where
  "resting_state s \<longleftrightarrow> s = Unknown \<or> s = Reconciled"

text \<open>The distance of a state from the discovery; every transition adds one.\<close>

fun state_rank :: "shadow_state \<Rightarrow> nat" where
  "state_rank Discovered = 0"
| "state_rank Proof_validated = 1"
| "state_rank Economics_validated = 2"
| "state_rank Shadow_planned = 3"
| "state_rank First_leg_simulated = 4"
| "state_rank Complete = 5"
| "state_rank Unwound = 5"
| "state_rank Expired = 5"
| "state_rank Unknown = 5"
| "state_rank Reconciled = 6"

lemma allowed_transition_rank: "allowed_transition s t \<Longrightarrow> state_rank t = Suc (state_rank s)"
  by (auto simp: allowed_transition_def ALLOWED_TRANSITIONS_def)

lemma state_rank_le: "state_rank s \<le> 6"
  by (cases s) simp_all

interpretation shadow_machine: state_machine allowed_transition resting_state
  by unfold_locales (auto simp: allowed_transition_def ALLOWED_TRANSITIONS_def resting_state_def)

section \<open>Plans\<close>

type_synonym price_level = "dec \<times> dec"

definition positive_levels :: "price_level list \<Rightarrow> bool" where
  "positive_levels levels \<longleftrightarrow>
     levels \<noteq> [] \<and> \<not> list_ex (\<lambda>(price, size). dle price dec0 \<or> dle size dec0) levels"

record shadow_leg_plan =
  sl_leg_index :: int
  sl_venue :: prediction_venue
  sl_market_id :: string
  sl_outcome_token_id :: "string option"
  sl_sequence_position :: int
  sl_limit_price_levels :: "price_level list"
  sl_max_quantity :: dec

definition validate_leg_plan :: "shadow_leg_plan \<Rightarrow> shadow_leg_plan result" where
  "validate_leg_plan l =
     bindE (checkE
       [(\<not> (0 \<le> sl_leg_index l \<and> 0 \<le> sl_sequence_position l \<and> positive_decimal (sl_max_quantity l)),
         ValueError ''leg plan field''),
        (\<not> positive_levels (sl_limit_price_levels l),
         ValueError ''limit_price_levels must contain positive price and size pairs'')])
       (\<lambda>_. Inr l)"

record shadow_plan =
  pl_proposal_id :: uuid
  pl_candidate_id :: uuid
  pl_proof_id :: uuid
  pl_scan_report_id :: uuid
  pl_legs :: "shadow_leg_plan list"
  pl_bottleneck_leg_index :: int
  pl_max_quantity :: dec
  pl_expires_at :: timestamp
  pl_completion_path :: string
  pl_cancellation_path :: string
  pl_unwind_path :: string
  pl_max_incomplete_exposure_usd :: dec
  pl_max_incomplete_loss_usd :: dec
  pl_frozen_hashes :: "sha256 list"
  pl_policy_id :: string
  pl_policy_version :: string
  pl_risk_policy_version :: string
  pl_minimum_basket_payout :: dec
  pl_kill_conditions :: "string list"
  pl_information_cutoff :: timestamp
  pl_observed_at :: timestamp

definition shadow_plan_fields_ok :: "shadow_plan \<Rightarrow> bool" where
  "shadow_plan_fields_ok p \<longleftrightarrow> 2 \<le> length (pl_legs p) \<and> positive_decimal (pl_max_quantity p) \<and>
     list_all nonempty_string [pl_completion_path p, pl_cancellation_path p, pl_unwind_path p] \<and>
     nonnegative_decimal (pl_max_incomplete_exposure_usd p) \<and>
     nonnegative_decimal (pl_max_incomplete_loss_usd p) \<and>
     positive_decimal (pl_minimum_basket_payout p) \<and> 1 \<le> length (pl_kill_conditions p)"

definition validate_shadow_plan :: "shadow_plan \<Rightarrow> shadow_plan result" where
  "validate_shadow_plan p =
     bindE (mapE validate_leg_plan (pl_legs p)) (\<lambda>legs.
     bindE (checkE
       [(\<not> shadow_plan_fields_ok p, ValueError ''plan field''),
        (\<not> sorted_unique (pl_frozen_hashes p), ValueError ''frozen_hashes must be sorted and unique''),
        (length (py_set (map sl_leg_index legs)) \<noteq> length legs,
         ValueError ''leg_index values must be unique within a plan''),
        (pl_bottleneck_leg_index p \<notin> set (map sl_leg_index legs),
         ValueError ''bottleneck_leg_index must identify a leg in the plan''),
        (set (map sl_sequence_position legs) \<noteq> set (map int [0..<length legs]),
         ValueError ''leg sequence_positions must be a permutation of 0..N-1''),
        (list_ex (\<lambda>leg. \<not> deq (sl_max_quantity leg) (pl_max_quantity p)) legs,
         ValueError ''every leg max_quantity must equal the plan max_quantity''),
        (pl_expires_at p \<le> pl_observed_at p, ValueError ''expires_at must be after observed_at'')])
       (\<lambda>_. Inr p))"

interpretation shadow_legs: revalidation validate_leg_plan
  by unfold_locales (simp add: validate_leg_plan_def bindE_eq_Inr del: checkE.simps)

interpretation shadow_plans: revalidation validate_shadow_plan
  by unfold_locales (auto simp: validate_shadow_plan_def bindE_eq_Inr simp del: checkE.simps)

section \<open>Fills and events\<close>

record shadow_fill =
  sf_leg_index :: int
  sf_side :: side
  sf_price_levels :: "price_level list"
  sf_quantity :: dec

definition validate_shadow_fill :: "shadow_fill \<Rightarrow> shadow_fill result" where
  "validate_shadow_fill f =
     bindE (checkE
       [(\<not> (0 \<le> sf_leg_index f \<and> positive_decimal (sf_quantity f)), ValueError ''fill field''),
        (\<not> positive_levels (sf_price_levels f),
         ValueError ''price_levels must contain positive price and quantity pairs''),
        (\<not> deq (sf_quantity f) (dsum (map snd (sf_price_levels f))),
         ValueError ''quantity must equal the sum of price_levels quantities'')])
       (\<lambda>_. Inr f)"

record shadow_event =
  se_event_id :: uuid
  se_proposal_id :: uuid
  se_sequence :: int
  se_from_state :: "shadow_state option"
  se_to_state :: shadow_state
  se_occurred_at :: timestamp
  se_detail :: string
  se_quantity_filled :: "dec option"
  se_leg_index :: "int option"
  se_scenario_id :: "string option"
  se_fills :: "shadow_fill list"
  se_evidence_hashes :: "sha256 list"

definition validate_shadow_event :: "shadow_event \<Rightarrow> shadow_event result" where
  "validate_shadow_event e =
     bindE (mapE validate_shadow_fill (se_fills e)) (\<lambda>_.
     bindE (checkE
       [(\<not> 0 \<le> se_sequence e, ValueError ''event field''),
        (\<not> sorted_unique (se_evidence_hashes e),
         ValueError ''evidence_hashes must be sorted and unique'')]) (\<lambda>_.
     if se_sequence e = 0
     then if se_from_state e \<noteq> None \<or> se_to_state e \<noteq> Discovered
          then Inl (ValueError ''sequence 0 must have no from_state and transition to discovered'')
          else Inr e
     else case se_from_state e of
            None \<Rightarrow> Inl (ValueError ''only sequence 0 may have no from_state'')
          | Some from_state \<Rightarrow>
              if \<not> allowed_transition from_state (se_to_state e)
              then Inl (ValueError ''shadow event contains an illegal state transition'')
              else Inr e))"

interpretation shadow_fills: revalidation validate_shadow_fill
  by unfold_locales (simp add: validate_shadow_fill_def bindE_eq_Inr del: checkE.simps)

interpretation shadow_events: revalidation validate_shadow_event
  by unfold_locales
    (auto simp: validate_shadow_event_def bindE_eq_Inr simp del: checkE.simps split: if_splits option.splits)

section \<open>The state of a chain\<close>

text \<open>One turn of the loop of \<open>derive_current_state\<close>: the expected sequence and the previous state.\<close>

definition chain_step :: "nat \<times> shadow_state option \<Rightarrow> shadow_event \<Rightarrow> (nat \<times> shadow_state option) result" where
  "chain_step acc event =
     (case acc of (expected_sequence, previous_state) \<Rightarrow>
        bindE (checkE
          [(se_sequence event \<noteq> int expected_sequence,
            ValueError ''shadow event sequences must be contiguous from zero''),
           (expected_sequence = 0 \<and> (se_from_state event \<noteq> None \<or> se_to_state event \<noteq> Discovered),
            ValueError ''shadow event sequence zero must begin at discovered''),
           (expected_sequence \<noteq> 0 \<and> se_from_state event \<noteq> previous_state,
            ValueError ''shadow event chain is not contiguous'')])
          (\<lambda>_. Inr (Suc expected_sequence, Some (se_to_state event))))"

definition derive_current_state :: "shadow_event list \<Rightarrow> shadow_state result" where
  "derive_current_state events =
     (if events = [] then Inl (ValueError ''cannot derive a state from an empty event chain'')
      else bindE (foldE chain_step (0, None) events) (\<lambda>(_, previous_state). Inr (the previous_state)))"

section \<open>Identity\<close>

definition SHADOW_PROPOSAL_IDENTITY_NAMESPACE :: uuid where
  "SHADOW_PROPOSAL_IDENTITY_NAMESPACE = Uuid 0x95d2e83fb9614adcb2e3c8a1f46fd50f"

text \<open>\<open>plan_content\<close> is the mapping the caller froze.\<close>

definition deterministic_proposal_id :: "digests \<Rightarrow> uuid \<Rightarrow> jval \<Rightarrow> uuid" where
  "deterministic_proposal_id D scan_report_id plan_content =
     uuid5_of D SHADOW_PROPOSAL_IDENTITY_NAMESPACE (JList [JUuid scan_report_id, plan_content])"

section \<open>Chains are runs of the machine\<close>

text \<open>
  A run of valid events from a state: every event starts where the one before it ended.  The
  specification of a chain that \<open>derive_current_state\<close> accepts.
\<close>

inductive shadow_run :: "nat \<Rightarrow> shadow_event list \<Rightarrow> shadow_state \<Rightarrow> bool" where
  run_discovered: "se_sequence e = 0 \<Longrightarrow> se_from_state e = None \<Longrightarrow> se_to_state e = Discovered \<Longrightarrow>
    shadow_run 1 [e] Discovered"
| run_event: "shadow_run n es s \<Longrightarrow> se_sequence e = int n \<Longrightarrow> se_from_state e = Some s \<Longrightarrow>
    allowed_transition s (se_to_state e) \<Longrightarrow> shadow_run (Suc n) (es @ [e]) (se_to_state e)"

lemma shadow_run_length: "shadow_run n es s \<Longrightarrow> length es = n \<and> state_rank s = n - 1 \<and> 0 < n"
  by (induction rule: shadow_run.induct) (auto dest: allowed_transition_rank)

lemma shadow_run_states:
  "shadow_run n es s \<Longrightarrow> successively allowed_transition (map se_to_state es) \<and>
     se_to_state (last es) = s \<and> es \<noteq> []"
  by (induction rule: shadow_run.induct) (auto simp: successively_append_iff last_map)

lemma shadow_run_single:
  "shadow_run n [e] s \<longleftrightarrow> n = 1 \<and> s = Discovered \<and> se_sequence e = 0 \<and> se_from_state e = None \<and>
     se_to_state e = Discovered"
  using shadow_run_states [of _ "[]"] by (auto simp: shadow_run.simps [of n "[e]"])

lemma shadow_run_snoc:
  "es \<noteq> [] \<Longrightarrow> shadow_run m (es @ [e]) t \<longleftrightarrow> (\<exists>n s. m = Suc n \<and> t = se_to_state e \<and> shadow_run n es s \<and>
     se_sequence e = int n \<and> se_from_state e = Some s \<and> allowed_transition s t)"
  by (auto simp: shadow_run.simps [of m "es @ [e]"])

lemma shadow_run_resting:
  "shadow_run n es s \<Longrightarrow> e \<in> set es \<Longrightarrow> resting_state (se_to_state e) \<Longrightarrow> se_to_state e = s"
  using shadow_machine.final_history_last [of "map se_to_state es" "se_to_state e"] shadow_run_states [of n es s]
  by (auto simp: last_map)

text \<open>The loop of \<open>derive_current_state\<close> on valid events builds exactly the runs.\<close>

lemma validate_shadow_event_Inr:
  "validate_shadow_event e = Inr e' \<Longrightarrow> (\<forall>f \<in> set (se_fills e). validate_shadow_fill f = Inr f) \<and>
     0 \<le> se_sequence e \<and> sorted_unique (se_evidence_hashes e) \<and>
     (se_sequence e = 0 \<longrightarrow> se_from_state e = None \<and> se_to_state e = Discovered) \<and>
     (se_sequence e \<noteq> 0 \<longrightarrow> (\<exists>s. se_from_state e = Some s \<and> allowed_transition s (se_to_state e)))"
  unfolding validate_shadow_event_def bindE_eq_Inr checkE_Inr
  by (auto split: if_splits option.splits dest!: shadow_fills.map_validate)

lemma chain_step_Inr:
  "chain_step (n, p) e = Inr q \<longleftrightarrow> q = (Suc n, Some (se_to_state e)) \<and> se_sequence e = int n \<and>
     (n = 0 \<longrightarrow> se_from_state e = None \<and> se_to_state e = Discovered) \<and> (n \<noteq> 0 \<longrightarrow> se_from_state e = p)"
  unfolding chain_step_def prod.case bindE_eq_Inr checkE_Inr by auto

lemma chain_step_valid:
  assumes "validate_shadow_event e = Inr e'" and "n \<noteq> 0"
  shows "chain_step (n, Some s) e = Inr q \<longleftrightarrow> q = (Suc n, Some (se_to_state e)) \<and>
    se_sequence e = int n \<and> se_from_state e = Some s \<and> allowed_transition s (se_to_state e)"
proof -
  have "se_sequence e = int n \<Longrightarrow> \<exists>t. se_from_state e = Some t \<and> allowed_transition t (se_to_state e)"
    using validate_shadow_event_Inr [OF assms(1)] assms(2) by simp
  then show ?thesis
    using assms(2) by (auto simp: chain_step_Inr)
qed

lemma chain_loop:
  assumes "\<And>e. e \<in> set es \<Longrightarrow> \<exists>e'. validate_shadow_event e = Inr e'" and "es \<noteq> []"
  shows "foldE chain_step (0, None) es = Inr q \<longleftrightarrow> (\<exists>n s. q = (n, Some s) \<and> shadow_run n es s)"
  using assms
proof (induction es arbitrary: q rule: rev_induct)
  case Nil
  then show ?case by simp
next
  case (snoc e es)
  from snoc.prems(1) [of e] have valid: "\<exists>e'. validate_shadow_event e = Inr e'" by simp
  show ?case
  proof (cases "es = []")
    case True
    then show ?thesis by (auto simp: bindE_eq_Inr chain_step_Inr shadow_run_single)
  next
    case False
    have IH: "foldE chain_step (0, None) es = Inr r \<longleftrightarrow> (\<exists>n s. r = (n, Some s) \<and> shadow_run n es s)" for r
      using snoc.prems(1) by (intro snoc.IH [OF _ False]) simp
    from valid obtain e' where valid: "validate_shadow_event e = Inr e'" ..
    have "foldE chain_step (0, None) (es @ [e]) = Inr q \<longleftrightarrow>
        (\<exists>n s. shadow_run n es s \<and> chain_step (n, Some s) e = Inr q)"
      by (cases q) (auto simp: foldE_append bindE_eq_Inr IH)
    also have "\<dots> \<longleftrightarrow> (\<exists>n s. shadow_run n es s \<and> q = (Suc n, Some (se_to_state e)) \<and>
        se_sequence e = int n \<and> se_from_state e = Some s \<and> allowed_transition s (se_to_state e))"
      by (intro iff_exI conj_cong refl chain_step_valid [OF valid]) (auto dest: shadow_run_length)
    also have "\<dots> \<longleftrightarrow> (\<exists>n s. q = (n, Some s) \<and> shadow_run n (es @ [e]) s)"
      unfolding shadow_run_snoc [OF False] by blast
    finally show ?thesis .
  qed
qed

lemma derive_current_state_run:
  assumes "\<And>e. e \<in> set es \<Longrightarrow> \<exists>e'. validate_shadow_event e = Inr e'"
  shows "derive_current_state es = Inr s \<longleftrightarrow> (\<exists>n. shadow_run n es s)"
proof (cases "es = []")
  case True
  then show ?thesis by (auto simp: derive_current_state_def dest: shadow_run_states)
next
  case False
  then show ?thesis
    using chain_loop [OF assms False]
    by (simp add: derive_current_state_def bindE_eq_Inr case_prod_beta) (metis fst_conv option.sel snd_conv)
qed

lemma shadow_run_ranks:
  "shadow_run n es s \<Longrightarrow> i < n \<Longrightarrow> state_rank (se_to_state (es ! i)) = i \<and> se_sequence (es ! i) = int i"
proof (induction arbitrary: i rule: shadow_run.induct)
  case (run_discovered e)
  then show ?case by simp
next
  case (run_event n es s e)
  then show ?case
    using shadow_run_length [OF run_event.hyps(1)] allowed_transition_rank [OF run_event.hyps(4)]
    by (auto simp: nth_append less_Suc_eq)
qed

text \<open>
  C22: on records that pass their own validators, \<open>derive_current_state\<close> accepts exactly the runs of
  the shadow state machine that start at the discovery, and returns the state the run ends in; such
  a chain has at most seven events, the i-th event is at distance i from the discovery, and only the
  last one can be in a state with no way out.
\<close>

theorem derive_state_refines_runs:
  assumes "\<And>e. e \<in> set es \<Longrightarrow> validate_shadow_event e = Inr e"
  shows "(derive_current_state es = Inr s \<longleftrightarrow> (\<exists>n. shadow_run n es s)) \<and>
    (derive_current_state es = Inr s \<longrightarrow>
       length es \<le> 7 \<and> se_to_state (last es) = s \<and>
       (\<forall>i < length es. state_rank (se_to_state (es ! i)) = i) \<and>
       (\<forall>e \<in> set es. resting_state (se_to_state e) \<longrightarrow> e = last es))"
proof -
  have run: "derive_current_state es = Inr s \<longleftrightarrow> (\<exists>n. shadow_run n es s)"
    using assms by (intro derive_current_state_run) blast
  have "length es \<le> 7 \<and> se_to_state (last es) = s \<and>
       (\<forall>i < length es. state_rank (se_to_state (es ! i)) = i) \<and>
       (\<forall>e \<in> set es. resting_state (se_to_state e) \<longrightarrow> e = last es)" if r: "shadow_run n es s" for n
  proof (intro conjI)
    have n: "length es = n" "state_rank s = n - 1"
      using shadow_run_length [OF r] by auto
    show "length es \<le> 7" using n state_rank_le [of s] by simp
    show "se_to_state (last es) = s" using shadow_run_states [OF r] by simp
    show ranks: "\<forall>i < length es. state_rank (se_to_state (es ! i)) = i"
      using shadow_run_ranks [OF r] n by simp
    show "\<forall>e \<in> set es. resting_state (se_to_state e) \<longrightarrow> e = last es"
    proof (intro ballI impI)
      fix e assume e: "e \<in> set es" "resting_state (se_to_state e)"
      then have "se_to_state e = s" by (rule shadow_run_resting [OF r])
      moreover obtain i where "i < length es" "e = es ! i" using e(1) by (auto simp: in_set_conv_nth)
      ultimately have "i = n - 1" using ranks n by auto
      with \<open>e = es ! i\<close> n show "e = last es"
        using shadow_run_states [OF r] by (simp add: last_conv_nth)
    qed
  qed
  with run show ?thesis by blast
qed

definition example_event :: "nat \<Rightarrow> shadow_state option \<Rightarrow> shadow_state \<Rightarrow> shadow_fill list \<Rightarrow> shadow_event" where
  "example_event n from_state to_state fills =
     \<lparr>se_event_id = Uuid (100 + n), se_proposal_id = Uuid 1, se_sequence = int n,
      se_from_state = from_state, se_to_state = to_state, se_occurred_at = 20, se_detail = ''step'',
      se_quantity_filled = (if to_state = First_leg_simulated then map_option sf_quantity (next_iter fills) else None),
      se_leg_index = map_option sf_leg_index (next_iter fills), se_scenario_id = None,
      se_fills = fills, se_evidence_hashes = []\<rparr>"

definition example_chain :: "shadow_state \<Rightarrow> shadow_fill list \<Rightarrow> shadow_fill list \<Rightarrow> shadow_event list" where
  "example_chain terminal first_fills terminal_fills =
     [example_event 0 None Discovered [], example_event 1 (Some Discovered) Proof_validated [],
      example_event 2 (Some Proof_validated) Economics_validated [],
      example_event 3 (Some Economics_validated) Shadow_planned [],
      example_event 4 (Some Shadow_planned) First_leg_simulated first_fills,
      example_event 5 (Some First_leg_simulated) terminal terminal_fills]"

lemma derive_state_refines_runs_witness:
  "(\<exists>n. shadow_run n (example_chain Expired [] []) Expired) \<and>
     \<not> (\<exists>n. shadow_run n (tl (example_chain Expired [] [])) Expired)"
proof -
  have valid: "validate_shadow_event e = Inr e" if "e \<in> set (example_chain Expired [] [])" for e
  proof -
    have "list_all (\<lambda>e. validate_shadow_event e = Inr e) (example_chain Expired [] [])"
      by code_simp
    with that show ?thesis by (auto simp: list_all_iff)
  qed
  have "derive_current_state (example_chain Expired [] []) = Inr Expired"
    "derive_current_state (tl (example_chain Expired [] [])) \<noteq> Inr Expired"
    by code_simp+
  moreover have "validate_shadow_event e = Inr e" if "e \<in> set (tl (example_chain Expired [] []))" for e
    using valid that by (simp add: example_chain_def)
  ultimately show ?thesis
    using derive_state_refines_runs [where s = Expired, OF valid]
      derive_state_refines_runs [of "tl (example_chain Expired [] [])" Expired] by metis
qed

end
