(* ===== verification/Shadow_Ledger.thy ===== *)
theory Shadow_Ledger
  imports Shadow_Models Py_Text
begin

text \<open>
  The double-entry paper ledger of a shadow proposal (\<open>predictions/shadow_ledger.py\<close>): postings
  booked from the simulated fills, their conservation, the lifecycle a fill history must follow, and
  the reconciliation that closes a proposal.  A default dictionary is an association list read with
  the default; the iteration order of the one Python set that is summed over is a parameter.
\<close>

section \<open>Postings\<close>

datatype paper_account = Venue_cash | Venue_position | Fees_paid | Reserve | Opportunity_cost

fun paper_account_value :: "paper_account \<Rightarrow> string" where
  "paper_account_value Venue_cash = ''venue_cash''"
| "paper_account_value Venue_position = ''venue_position''"
| "paper_account_value Fees_paid = ''fees_paid''"
| "paper_account_value Reserve = ''reserve''"
| "paper_account_value Opportunity_cost = ''opportunity_cost''"

lemma paper_account_value_inj [simp]: "paper_account_value a = paper_account_value b \<longleftrightarrow> a = b"
  by (cases a; cases b) simp_all

definition PAPER_POSTING_NAMESPACE :: uuid where
  "PAPER_POSTING_NAMESPACE = Uuid 0x2b243b3d1d944f28a73714bd593f59b1"

definition PAPER_RECONCILIATION_NAMESPACE :: uuid where
  "PAPER_RECONCILIATION_NAMESPACE = Uuid 0x6bcb978ac9324136a56c1abaad7a1820"

definition RECONCILED_EVENT_NAMESPACE :: uuid where
  "RECONCILED_EVENT_NAMESPACE = Uuid 0xa20e622fec124d3cb0d922c6a3869859"

definition execution_terminal :: "shadow_state \<Rightarrow> bool" where
  "execution_terminal s \<longleftrightarrow> s \<in> {Complete, Unwound, Expired, Unknown}"

record paper_posting =
  pp_posting_id :: uuid
  pp_proposal_id :: uuid
  pp_event_id :: uuid
  pp_venue :: "prediction_venue option"
  pp_account :: paper_account
  pp_debit_usd :: dec
  pp_credit_usd :: dec
  pp_occurred_at :: timestamp
  pp_detail :: string

definition validate_paper_posting :: "paper_posting \<Rightarrow> paper_posting result" where
  "validate_paper_posting p =
     bindE (checkE
       [(\<not> (nonnegative_decimal (pp_debit_usd p) \<and> nonnegative_decimal (pp_credit_usd p) \<and>
            nonempty_string (pp_detail p)), ValueError ''posting field''),
        (dlt dec0 (pp_debit_usd p) = dlt dec0 (pp_credit_usd p),
         ValueError ''exactly one posting side must be non-zero'')])
       (\<lambda>_. Inr p)"

interpretation paper_postings: revalidation validate_paper_posting
  by unfold_locales (simp add: validate_paper_posting_def bindE_eq_Inr del: checkE.simps)

definition posting_content :: "paper_posting \<Rightarrow> jval" where
  "posting_content p =
     JList [JUuid (pp_proposal_id p), JUuid (pp_event_id p),
            jopt JText (map_option venue_value (pp_venue p)), JText (paper_account_value (pp_account p)),
            JDec (pp_debit_usd p), JDec (pp_credit_usd p), JTime (pp_occurred_at p), JText (pp_detail p)]"

definition paper_posting_id :: "digests \<Rightarrow> paper_posting \<Rightarrow> uuid" where
  "paper_posting_id D p = uuid5_of D PAPER_POSTING_NAMESPACE (posting_content p)"

text \<open>The signature spells the identity before the content, and a missing venue as empty text.\<close>

definition posting_signature :: "paper_posting \<Rightarrow> jval" where
  "posting_signature p =
     JList [JUuid (pp_posting_id p), JUuid (pp_proposal_id p), JUuid (pp_event_id p),
            JText (case pp_venue p of None \<Rightarrow> '''' | Some v \<Rightarrow> venue_value v),
            JText (paper_account_value (pp_account p)), JDec (pp_debit_usd p), JDec (pp_credit_usd p),
            JTime (pp_occurred_at p), JText (pp_detail p)]"

text \<open>\<open>_add_posting\<close> and \<open>_add_pair\<close> append to the list they are given.\<close>

definition add_posting ::
  "digests \<Rightarrow> shadow_event \<Rightarrow> prediction_venue option \<Rightarrow> paper_account \<Rightarrow> dec \<Rightarrow> dec \<Rightarrow> string \<Rightarrow>
     paper_posting list \<Rightarrow> paper_posting list result" where
  "add_posting D event venue account debit credit detail postings =
     (if deq debit dec0 \<and> deq credit dec0 then Inr postings
      else bindE (validate_paper_posting
             \<lparr>pp_posting_id = Uuid 0, pp_proposal_id = se_proposal_id event, pp_event_id = se_event_id event,
              pp_venue = venue, pp_account = account, pp_debit_usd = debit, pp_credit_usd = credit,
              pp_occurred_at = se_occurred_at event, pp_detail = detail\<rparr>) (\<lambda>prototype.
           Inr (postings @ [prototype\<lparr>pp_posting_id := paper_posting_id D prototype\<rparr>])))"

definition add_pair ::
  "digests \<Rightarrow> shadow_event \<Rightarrow> prediction_venue \<Rightarrow> paper_account \<Rightarrow> paper_account \<Rightarrow> dec \<Rightarrow> string \<Rightarrow>
     paper_posting list \<Rightarrow> paper_posting list result" where
  "add_pair D event venue debit_account credit_account amount detail postings =
     bindE (add_posting D event (Some venue) debit_account amount dec0 detail postings)
       (add_posting D event (Some venue) credit_account dec0 amount detail)"

definition post_residual :: "digests \<Rightarrow> shadow_event \<Rightarrow> dec \<Rightarrow> paper_posting list \<Rightarrow> paper_posting list result" where
  "post_residual D event residual postings =
     (if dlt dec0 residual
      then add_posting D event None Reserve dec0 residual ''conservative floor surplus'' postings
      else if dlt residual dec0
      then add_posting D event None Opportunity_cost (dminus residual) dec0 ''conservative floor deficit'' postings
      else Inr postings)"

section \<open>Conservation\<close>

definition verify_event_group :: "uuid \<times> paper_posting list \<Rightarrow> unit result" where
  "verify_event_group entry =
     (case entry of (_, group_postings) \<Rightarrow>
        if \<not> deq (dsum (map pp_debit_usd group_postings)) (dsum (map pp_credit_usd group_postings))
        then Inl (ValueError ''ledger event is not conserved'') else Inr ())"

definition verify_conservation :: "digests \<Rightarrow> paper_posting list \<Rightarrow> unit result" where
  "verify_conservation D postings =
     (if postings = [] then Inl (ValueError ''postings must contain at least one balanced event group'')
      else bindE (mapE validate_paper_posting postings) (\<lambda>validated.
        bindE (checkE
          [(length (py_set (map pp_proposal_id validated)) \<noteq> 1,
            ValueError ''postings must belong to one proposal''),
           (length (py_set (map pp_posting_id validated)) \<noteq> length validated,
            ValueError ''posting identities must be unique'')]) (\<lambda>_.
        bindE (mapE verify_event_group (group_by pp_event_id validated)) (\<lambda>_.
        if list_ex (\<lambda>p. pp_posting_id p \<noteq> paper_posting_id D p) validated
        then Inl (ValueError ''posting identity does not match canonical content'') else Inr ()))))"

section \<open>Validated inputs\<close>

definition terminal_event :: "shadow_event list \<Rightarrow> shadow_event result" where
  "terminal_event events =
     (case filter (\<lambda>e. execution_terminal (se_to_state e)) events of
        [terminal] \<Rightarrow>
          if last events \<noteq> terminal \<and>
             \<not> (2 \<le> length events \<and> events ! (length events - 2) = terminal \<and>
                se_to_state (last events) = Reconciled \<and> se_fills (last events) = [])
          then Inl (ValueError ''execution terminal must end the chain or precede reconciliation'')
          else Inr terminal
      | _ \<Rightarrow> Inl (ValueError ''event chain must contain exactly one execution terminal''))"

text \<open>\<open>_validated_events\<close>, and \<open>_validated_reconciliation_events\<close>, which differ in the owner's message.\<close>

definition validated_owner_events ::
  "uuid \<Rightarrow> string \<Rightarrow> bool \<Rightarrow> shadow_event list \<Rightarrow> shadow_event list result" where
  "validated_owner_events proposal owner require_terminal value =
     (if value = [] then Inl (ValueError ''events must be a non-empty sequence'')
      else bindE (mapE validate_shadow_event value) (\<lambda>events.
        bindE (checkE
          [(list_ex (\<lambda>e. se_proposal_id e \<noteq> proposal) events,
            ValueError (''events do not belong to the '' @ owner)),
           (length (py_set (map se_event_id events)) \<noteq> length events,
            ValueError ''event identities must be unique'')]) (\<lambda>_.
        bindE (derive_current_state events) (\<lambda>_.
        if require_terminal then bindE (terminal_event events) (\<lambda>_. Inr events) else Inr events))))"

definition validated_events :: "shadow_plan \<Rightarrow> bool \<Rightarrow> shadow_event list \<Rightarrow> shadow_event list result" where
  "validated_events plan require_terminal value =
     validated_owner_events (pl_proposal_id plan) ''plan proposal'' require_terminal value"

definition leg_table :: "shadow_plan \<Rightarrow> (int, shadow_leg_plan) dict" where
  "leg_table plan = map (\<lambda>leg. (sl_leg_index leg, leg)) (pl_legs plan)"

definition validated_fee :: "shadow_plan \<Rightarrow> int \<times> fee_rate \<Rightarrow> (int \<times> fee_rate) result" where
  "validated_fee plan entry =
     (case entry of (index, supplied) \<Rightarrow>
        bindE (validate_fee_rate supplied) (\<lambda>fee.
        bindE (dict_item (leg_table plan) index) (\<lambda>leg.
        bindE (checkE
          [(fr_venue fee \<noteq> sl_venue leg \<or> (fr_market_id fee \<noteq> None \<and> fr_market_id fee \<noteq> Some (sl_market_id leg)),
            ValueError ''fee evidence does not match its planned leg''),
           (fr_source_hash fee \<notin> set (pl_frozen_hashes plan),
            ValueError ''fee evidence is not frozen on the plan'')])
          (\<lambda>_. Inr (index, fee)))))"

definition validated_fees :: "shadow_plan \<Rightarrow> (int, fee_rate) dict \<Rightarrow> (int, fee_rate) dict result" where
  "validated_fees plan value =
     (if set (map fst value) \<noteq> set (map sl_leg_index (pl_legs plan))
      then Inl (ValueError ''fees must exactly cover planned leg indices'')
      else mapE (validated_fee plan) value)"

section \<open>Fills against the frozen limits\<close>

fun consume_limits :: "dec \<Rightarrow> dec \<Rightarrow> price_level list \<Rightarrow> dec \<times> price_level list" where
  "consume_limits price remaining [] = (remaining, [])"
| "consume_limits price remaining ((limit_price, capacity) # limits) =
     (if dlt limit_price price \<or> dle capacity dec0
      then (case consume_limits price remaining limits of
              (r, limits') \<Rightarrow> (r, (limit_price, capacity) # limits'))
      else let take_quantity = dmin remaining capacity;
               r = dsub remaining take_quantity;
               level = (limit_price, dsub capacity take_quantity)
           in if deq r dec0 then (r, level # limits)
              else (case consume_limits price r limits of (r', limits') \<Rightarrow> (r', level # limits')))"

definition limit_step :: "price_level list \<Rightarrow> price_level \<Rightarrow> price_level list result" where
  "limit_step capacities level =
     (case consume_limits (fst level) (snd level) capacities of (remaining, capacities') \<Rightarrow>
        if \<not> deq remaining dec0 then Inl (ValueError ''buy fill exceeds its frozen limit schedule'')
        else Inr capacities')"

definition validate_buy_against_limits :: "shadow_fill \<Rightarrow> price_level list \<Rightarrow> dec \<Rightarrow> unit result" where
  "validate_buy_against_limits fill limits max_quantity =
     (if dlt max_quantity (sf_quantity fill) \<or>
         any_adjacent (\<lambda>left right. dle (fst right) (fst left)) (sf_price_levels fill)
      then Inl (ValueError ''buy fill exceeds its frozen limit schedule'')
      else bindE (foldE limit_step limits (sf_price_levels fill)) (\<lambda>_. Inr ()))"

section \<open>The lifecycle of fills\<close>

definition lifecycle_event_ok :: "shadow_event option \<Rightarrow> shadow_event \<Rightarrow> unit result" where
  "lifecycle_event_ok terminal event =
     checkE
       [(se_fills event \<noteq> [] \<and> se_to_state event \<noteq> First_leg_simulated \<and> \<not> execution_terminal (se_to_state event),
         ValueError ''fills may only appear on simulated or terminal events''),
        (terminal \<noteq> Some event \<and> list_ex (\<lambda>f. sf_side f = Sell) (se_fills event),
         ValueError ''sell fills may only appear on the execution terminal'')]"

definition first_leg :: "shadow_plan \<Rightarrow> shadow_leg_plan" where
  "first_leg plan = foldl (\<lambda>m leg. if sl_sequence_position leg < sl_sequence_position m then leg else m)
     (hd (pl_legs plan)) (tl (pl_legs plan))"

text \<open>\<open>m.get(k, Decimal("0"))\<close>, and storing a sum in a default dictionary.\<close>

definition dict_amount :: "(int, dec) dict \<Rightarrow> int \<Rightarrow> dec" where
  "dict_amount d k = (case map_of d k of None \<Rightarrow> dec0 | Some v \<Rightarrow> v)"

definition dict_add :: "int \<Rightarrow> dec \<Rightarrow> (int, dec) dict \<Rightarrow> (int, dec) dict" where
  "dict_add k v d = AList.update k (dadd (dict_amount d k) v) d"

definition first_event_checks ::
  "shadow_event \<Rightarrow> int \<Rightarrow> shadow_event option \<Rightarrow> (int, dec) dict \<Rightarrow> (bool \<times> py_error) list" where
  "first_event_checks first_event first_leg_index terminal buys =
     [(list_ex (\<lambda>f. sf_side f \<noteq> Buy \<or> sf_leg_index f \<noteq> first_leg_index) (se_fills first_event),
       ValueError ''first-leg event may only confirm a buy of the first planned leg''),
      (se_fills first_event = [] \<and> se_quantity_filled first_event \<noteq> None,
       ValueError ''empty first-leg event metadata must not claim filled quantity''),
      (buys \<noteq> [] \<and> se_fills first_event = [],
       ValueError ''confirmed buys require a first-leg acquisition on the first-leg event''),
      (se_fills first_event \<noteq> [] \<and>
         (length (se_fills first_event) \<noteq> 1 \<or>
          se_leg_index first_event \<noteq> Some (sf_leg_index (hd (se_fills first_event))) \<or>
          \<not> (case se_quantity_filled first_event of None \<Rightarrow> False
             | Some q \<Rightarrow> deq q (sf_quantity (hd (se_fills first_event))))),
       ValueError ''first-leg event metadata must match its structured fill''),
      ((case terminal of None \<Rightarrow> False
        | Some t \<Rightarrow> list_ex (\<lambda>f. sf_side f = Buy \<and> sf_leg_index f = first_leg_index) (se_fills t)),
       ValueError ''terminal buys must be subsequent planned legs, not the first leg'')]"

definition inventory_checks ::
  "shadow_plan \<Rightarrow> (int, dec) dict \<Rightarrow> (int, dec) dict \<Rightarrow> (bool \<times> py_error) list" where
  "inventory_checks plan buys sells =
     (let position = map_of (map (\<lambda>leg. (sl_leg_index leg, sl_sequence_position leg)) (pl_legs plan));
          acquired_positions = map (\<lambda>(index, _). the (position index)) buys
      in [(\<not> set (map fst sells) \<subseteq> set (map fst buys),
           ValueError ''sell fills must reference confirmed buy inventory''),
          (buys \<noteq> [] \<and> set acquired_positions \<noteq>
             set (map int [0..<nat (foldl max (hd acquired_positions) (tl acquired_positions) + 1)]),
           ValueError ''confirmed buys must follow a contiguous planned execution prefix'')])"

definition terminal_checks ::
  "shadow_plan \<Rightarrow> shadow_state \<Rightarrow> (int, dec) dict \<Rightarrow> (int, dec) dict \<Rightarrow> (bool \<times> py_error) list" where
  "terminal_checks plan state buys sells =
     (case state of
        Complete \<Rightarrow>
          [(sells \<noteq> [] \<or> set (map fst buys) \<noteq> set (map sl_leg_index (pl_legs plan)),
            ValueError ''complete event stream must buy every leg and contain no sells''),
           (list_ex (\<lambda>(_, q). \<not> deq q (snd (hd buys))) buys \<or> dle (snd (hd buys)) dec0,
            ValueError ''complete event stream must have one positive common quantity'')]
      | Unwound \<Rightarrow>
          [(list_ex (\<lambda>(index, q). \<not> deq (dict_amount sells index) q) buys,
            ValueError ''unwound event stream must sell every confirmed acquisition'')]
      | Expired \<Rightarrow>
          [(sells \<noteq> [], ValueError ''expired event stream cannot contain confirmed sells'')]
      | _ \<Rightarrow>
          [(list_ex (\<lambda>(index, q). dlt q (dict_amount sells index)) buys,
            ValueError ''unknown event stream cannot sell more than confirmed acquisitions'')])"

definition validate_fill_lifecycle ::
  "shadow_plan \<Rightarrow> shadow_event list \<Rightarrow> shadow_event option \<Rightarrow> (int, dec) dict \<Rightarrow> (int, dec) dict \<Rightarrow> unit result" where
  "validate_fill_lifecycle plan events terminal buys sells =
     bindE (mapE (lifecycle_event_ok terminal) events) (\<lambda>_.
     case find (\<lambda>e. se_to_state e = First_leg_simulated) events of
       None \<Rightarrow> if buys \<noteq> [] \<or> sells \<noteq> []
               then Inl (ValueError ''confirmed fills require a first-leg simulation'') else Inr ()
     | Some first_event \<Rightarrow>
         bindE (checkE (first_event_checks first_event (sl_leg_index (first_leg plan)) terminal buys)) (\<lambda>_.
         bindE (checkE (inventory_checks plan buys sells)) (\<lambda>_.
         case terminal of
           None \<Rightarrow> Inr ()
         | Some t \<Rightarrow> checkE (terminal_checks plan (se_to_state t) buys sells))))"

section \<open>Booking\<close>

record booking =
  bo_postings :: "paper_posting list"
  bo_acquisition_costs :: "(int, dec) dict"
  bo_acquisition_quantities :: "(int, dec) dict"
  bo_sale_proceeds :: "(int, dec) dict"
  bo_sale_quantities :: "(int, dec) dict"
  bo_seen_fills :: "(int \<times> side) list"

definition empty_booking :: booking where
  "empty_booking = \<lparr>bo_postings = [], bo_acquisition_costs = [], bo_acquisition_quantities = [],
     bo_sale_proceeds = [], bo_sale_quantities = [], bo_seen_fills = []\<rparr>"

definition notional_of :: "price_level list \<Rightarrow> dec" where
  "notional_of levels = dsum (map (\<lambda>(price, quantity). dmul price quantity) levels)"

definition leg_text :: "int \<Rightarrow> string" where
  "leg_text index = str_of_nat (nat index)"

text \<open>One fill of one event: a leg index is a non-negative integer, which \<open>leg_text\<close> prints.\<close>

definition book_fill ::
  "digests \<Rightarrow> shadow_plan \<Rightarrow> (int, fee_rate) dict \<Rightarrow> shadow_event \<Rightarrow> booking \<Rightarrow> shadow_fill \<Rightarrow> booking result" where
  "book_fill D plan fees event b supplied =
     bindE (validate_shadow_fill supplied) (\<lambda>fill.
     let index = sf_leg_index fill; key = (index, sf_side fill)
     in if key \<in> set (bo_seen_fills b) then Inl (ValueError ''duplicate fill side for a planned leg'')
     else case map_of (leg_table plan) index of
       None \<Rightarrow> Inl (ValueError ''fill references an unknown planned leg'')
     | Some leg \<Rightarrow>
         bindE (if sf_side fill = Buy
                then validate_buy_against_limits fill (sl_limit_price_levels leg) (sl_max_quantity leg)
                else Inr ()) (\<lambda>_.
         bindE (dict_item fees index) (\<lambda>rate.
         let notional = notional_of (sf_price_levels fill);
             fee = dmul notional (fr_taker_rate rate);
             seen = bo_seen_fills b @ [key]
         in bindE (case sf_side fill of
              Buy \<Rightarrow>
                bindE (add_pair D event (sl_venue leg) Venue_position Venue_cash notional
                         (''buy leg '' @ leg_text index) (bo_postings b)) (\<lambda>postings.
                Inr (b\<lparr>bo_postings := postings,
                       bo_acquisition_costs := dict_add index notional (bo_acquisition_costs b),
                       bo_acquisition_quantities := dict_add index (sf_quantity fill) (bo_acquisition_quantities b),
                       bo_seen_fills := seen\<rparr>))
            | Sell \<Rightarrow>
                bindE (add_pair D event (sl_venue leg) Venue_cash Venue_position notional
                         (''sell leg '' @ leg_text index) (bo_postings b)) (\<lambda>postings.
                Inr (b\<lparr>bo_postings := postings,
                       bo_sale_proceeds := dict_add index notional (bo_sale_proceeds b),
                       bo_sale_quantities := dict_add index (sf_quantity fill) (bo_sale_quantities b),
                       bo_seen_fills := seen\<rparr>))) (\<lambda>b.
            if dlt dec0 fee
            then bindE (add_pair D event (sl_venue leg) Fees_paid Venue_cash fee
                          (''taker fee leg '' @ leg_text index @ '' '' @ side_value (sf_side fill)) (bo_postings b))
                   (\<lambda>postings. Inr (b\<lparr>bo_postings := postings\<rparr>))
            else Inr b))))"

definition book_event ::
  "digests \<Rightarrow> shadow_plan \<Rightarrow> (int, fee_rate) dict \<Rightarrow> booking \<Rightarrow> shadow_event \<Rightarrow> booking result" where
  "book_event D plan fees b event = foldE (book_fill D plan fees event) b (se_fills event)"

definition leg_venue :: "shadow_plan \<Rightarrow> int \<Rightarrow> prediction_venue option" where
  "leg_venue plan index = map_option sl_venue (map_of (leg_table plan) index)"

definition close_completed_leg ::
  "digests \<Rightarrow> shadow_plan \<Rightarrow> shadow_event \<Rightarrow> (int, dec) dict \<Rightarrow> paper_posting list \<Rightarrow> int \<Rightarrow> paper_posting list result" where
  "close_completed_leg D plan terminal costs postings index =
     add_posting D terminal (leg_venue plan index) Venue_position dec0 (dict_amount costs index)
       (''close completed position leg '' @ leg_text index) postings"

definition close_residual_leg ::
  "digests \<Rightarrow> shadow_plan \<Rightarrow> shadow_event \<Rightarrow> (int, dec) dict \<Rightarrow> (int, dec) dict \<Rightarrow>
     paper_posting list \<times> dec \<Rightarrow> int \<Rightarrow> (paper_posting list \<times> dec) result" where
  "close_residual_leg D plan terminal costs proceeds acc index =
     (case acc of (postings, aggregate) \<Rightarrow>
        let residual = dsub (dict_amount costs index) (dict_amount proceeds index);
            aggregate' = dadd aggregate residual
        in if dlt dec0 residual
           then bindE (add_posting D terminal (leg_venue plan index) Venue_position dec0 residual
                         (''close loss leg '' @ leg_text index) postings) (\<lambda>ps. Inr (ps, aggregate'))
           else if dlt residual dec0
           then bindE (add_posting D terminal (leg_venue plan index) Venue_position (dminus residual) dec0
                         (''close gain leg '' @ leg_text index) postings) (\<lambda>ps. Inr (ps, aggregate'))
           else Inr (postings, aggregate'))"

definition post_aggregate ::
  "digests \<Rightarrow> shadow_event \<Rightarrow> paper_posting list \<times> dec \<Rightarrow> paper_posting list result" where
  "post_aggregate D terminal acc =
     (case acc of (postings, aggregate) \<Rightarrow>
        if dlt dec0 aggregate
        then add_posting D terminal None Opportunity_cost aggregate dec0 ''aggregate acquisition-versus-unwind loss'' postings
        else if dlt aggregate dec0
        then add_posting D terminal None Reserve dec0 (dminus aggregate) ''aggregate acquisition-versus-unwind gain'' postings
        else Inr postings)"

definition close_complete ::
  "digests \<Rightarrow> shadow_plan \<Rightarrow> shadow_event \<Rightarrow> booking \<Rightarrow> paper_posting list result" where
  "close_complete D plan terminal b =
     (let quantity = snd (hd (bo_acquisition_quantities b));
          payout = dmul quantity (pl_minimum_basket_payout plan);
          total_cost = dsum (map snd (bo_acquisition_costs b))
      in bindE (add_posting D terminal None Venue_cash payout dec0 ''conservative proof-floor payout'' (bo_postings b)) (\<lambda>postings.
         bindE (foldE (close_completed_leg D plan terminal (bo_acquisition_costs b)) postings
                  (sort (map fst (bo_acquisition_costs b))))
           (post_residual D terminal (dsub payout total_cost))))"

definition close_unfinished ::
  "digests \<Rightarrow> shadow_plan \<Rightarrow> shadow_event \<Rightarrow> booking \<Rightarrow> paper_posting list result" where
  "close_unfinished D plan terminal b =
     bindE (foldE (close_residual_leg D plan terminal (bo_acquisition_costs b) (bo_sale_proceeds b))
              (bo_postings b, dec0) (sort (map fst (bo_acquisition_costs b))))
       (post_aggregate D terminal)"

definition terminal_if_any :: "shadow_event list \<Rightarrow> shadow_event option result" where
  "terminal_if_any events =
     (if list_ex (\<lambda>e. execution_terminal (se_to_state e)) events
      then bindE (terminal_event events) (\<lambda>t. Inr (Some t)) else Inr None)"

definition close_terminal ::
  "digests \<Rightarrow> shadow_plan \<Rightarrow> shadow_event option \<Rightarrow> booking \<Rightarrow> paper_posting list result" where
  "close_terminal D plan terminal b =
     (case terminal of
        None \<Rightarrow> Inr (bo_postings b)
      | Some t \<Rightarrow>
          if se_to_state t = Complete then close_complete D plan t b
          else if se_to_state t \<in> {Unwound, Expired} then close_unfinished D plan t b
          else Inr (bo_postings b))"

definition postings_for_events ::
  "digests \<Rightarrow> shadow_plan \<Rightarrow> shadow_event list \<Rightarrow> (int, fee_rate) dict \<Rightarrow> paper_posting list result" where
  "postings_for_events D plan events fees =
     bindE (validate_shadow_plan plan) (\<lambda>plan.
     bindE (validated_events plan False events) (\<lambda>events.
     bindE (validated_fees plan fees) (\<lambda>fees.
     bindE (terminal_if_any events) (\<lambda>terminal.
     bindE (foldE (book_event D plan fees) empty_booking events) (\<lambda>b.
     bindE (validate_fill_lifecycle plan events terminal (bo_acquisition_quantities b) (bo_sale_quantities b)) (\<lambda>_.
     bindE (close_terminal D plan terminal b) (\<lambda>result.
     bindE (if result \<noteq> [] then verify_conservation D result else Inr ()) (\<lambda>_. Inr result))))))))"

section \<open>Reconciliation\<close>

record shadow_reconciliation =
  sr_reconciliation_id :: uuid
  sr_proposal_id :: uuid
  sr_terminal_event_id :: uuid
  sr_terminal_state :: shadow_state
  sr_venues_reconciled :: "prediction_venue list"
  sr_complete :: bool
  sr_unexplained_difference_usd :: dec
  sr_observed_at :: timestamp

text \<open>\<open>sorted(set(venues), key=lambda venue: venue.value)\<close>\<close>

definition sorted_venues :: "prediction_venue list \<Rightarrow> prediction_venue list" where
  "sorted_venues vs = sort_key venue_value (remdups vs)"

definition validate_shadow_reconciliation :: "shadow_reconciliation \<Rightarrow> shadow_reconciliation result" where
  "validate_shadow_reconciliation r =
     bindE (checkE
       [(\<not> nonnegative_decimal (sr_unexplained_difference_usd r), ValueError ''unexplained_difference_usd''),
        (sr_venues_reconciled r \<noteq> sorted_venues (sr_venues_reconciled r),
         ValueError ''venues_reconciled must be sorted and unique''),
        (\<not> execution_terminal (sr_terminal_state r),
         ValueError ''terminal_state must identify an execution terminal''),
        (sr_complete r \<and> \<not> deq (sr_unexplained_difference_usd r) dec0,
         ValueError ''complete reconciliation cannot have an unexplained difference''),
        (sr_complete r \<and> sr_venues_reconciled r = [],
         ValueError ''complete reconciliation must identify reconciled venues''),
        (sr_complete r \<and> sr_terminal_state r = Unknown,
         ValueError ''unknown terminal state cannot have complete reconciliation'')])
       (\<lambda>_. Inr r)"

interpretation shadow_reconciliations: revalidation validate_shadow_reconciliation
  by unfold_locales (simp add: validate_shadow_reconciliation_def bindE_eq_Inr del: checkE.simps)

definition paper_reconciliation_id ::
  "digests \<Rightarrow> uuid \<Rightarrow> uuid \<Rightarrow> shadow_state \<Rightarrow> paper_posting list \<Rightarrow> prediction_venue list \<Rightarrow> bool \<Rightarrow>
     dec \<Rightarrow> timestamp \<Rightarrow> uuid" where
  "paper_reconciliation_id D proposal terminal_id terminal_state postings venues completed unexplained observed_at =
     uuid5_of D PAPER_RECONCILIATION_NAMESPACE
       (JList [JUuid proposal, JUuid terminal_id, JText (shadow_state_value terminal_state),
               JList (map posting_signature (sort_key pp_posting_id postings)),
               JList (map (JText \<circ> venue_value) venues), JBool completed, JDec unexplained, JTime observed_at])"

type_synonym balance_key = "uuid \<times> prediction_venue option \<times> paper_account"

definition posting_key :: "paper_posting \<Rightarrow> balance_key" where
  "posting_key p = (pp_event_id p, pp_venue p, pp_account p)"

definition add_balance :: "(balance_key, dec) dict \<Rightarrow> paper_posting \<Rightarrow> (balance_key, dec) dict" where
  "add_balance d p =
     (let previous = (case map_of d (posting_key p) of None \<Rightarrow> dec0 | Some v \<Rightarrow> v)
      in AList.update (posting_key p) (dadd previous (dsub (pp_debit_usd p) (pp_credit_usd p))) d)"

definition balances :: "paper_posting list \<Rightarrow> (balance_key, dec) dict" where
  "balances items = foldl add_balance [] items"

definition balance_of :: "(balance_key, dec) dict \<Rightarrow> balance_key \<Rightarrow> dec" where
  "balance_of d k = (case map_of d k of None \<Rightarrow> dec0 | Some v \<Rightarrow> v)"

text \<open>
  The sum runs over a Python set of keys, whose order the language leaves open: \<open>set_order\<close> is that
  order, a function of the keys without duplicates.
\<close>

definition unexplained_difference ::
  "(balance_key list \<Rightarrow> balance_key list) \<Rightarrow> paper_posting list \<Rightarrow> paper_posting list \<Rightarrow> dec result" where
  "unexplained_difference set_order expected actual =
     (let e = balances expected; a = balances actual;
          keys = set_order (remdups (map fst e @ map fst a))
      in ddiv (dsum (map (\<lambda>k. dabs (dsub (balance_of e k) (balance_of a k))) keys)) (Dec False 2 0))"

definition reconcile_proposal ::
  "digests \<Rightarrow> (balance_key list \<Rightarrow> balance_key list) \<Rightarrow> shadow_plan \<Rightarrow> shadow_event list \<Rightarrow>
     paper_posting list \<Rightarrow> (int, fee_rate) dict \<Rightarrow> shadow_reconciliation result" where
  "reconcile_proposal D set_order plan events postings fees =
     bindE (validate_shadow_plan plan) (\<lambda>plan.
     bindE (validated_events plan True events) (\<lambda>events.
     bindE (validated_fees plan fees) (\<lambda>fees.
     bindE (terminal_event events) (\<lambda>t.
     let execution_events = filter (\<lambda>e. se_sequence e \<le> se_sequence t) events
     in bindE (mapE validate_paper_posting postings) (\<lambda>actual.
     bindE (if actual \<noteq> []
            then bindE (verify_conservation D actual) (\<lambda>_.
                 if list_ex (\<lambda>p. pp_proposal_id p \<noteq> pl_proposal_id plan) actual
                 then Inl (ValueError ''postings do not belong to the reconciled proposal'') else Inr ())
            else Inr ()) (\<lambda>_.
     bindE (postings_for_events D plan execution_events fees) (\<lambda>expected.
     let exact = (mset (map posting_signature actual) = mset (map posting_signature expected))
     in bindE (unexplained_difference set_order expected actual) (\<lambda>unexplained.
     let terminal = se_to_state t;
         completed = (exact \<and> terminal \<in> {Complete, Unwound, Expired});
         venues = (if exact \<and> terminal \<noteq> Unknown then sorted_venues (map sl_venue (pl_legs plan)) else []);
         observed_at = se_occurred_at t
     in validate_shadow_reconciliation
          \<lparr>sr_reconciliation_id = paper_reconciliation_id D (pl_proposal_id plan) (se_event_id t) terminal actual
             venues completed unexplained observed_at,
           sr_proposal_id = pl_proposal_id plan, sr_terminal_event_id = se_event_id t,
           sr_terminal_state = terminal, sr_venues_reconciled = venues, sr_complete = completed,
           sr_unexplained_difference_usd = unexplained, sr_observed_at = observed_at\<rparr>))))))))"

section \<open>Profit and loss\<close>

definition net_credit :: "paper_posting list \<Rightarrow> paper_account \<Rightarrow> dec" where
  "net_credit postings account =
     dsum (map (\<lambda>p. dsub (pp_credit_usd p) (pp_debit_usd p)) (filter (\<lambda>p. pp_account p = account) postings))"

definition matches_event :: "(uuid, shadow_event) dict \<Rightarrow> paper_posting \<Rightarrow> bool" where
  "matches_event events_by_id p =
     (case map_of events_by_id (pp_event_id p) of None \<Rightarrow> False | Some e \<Rightarrow> pp_occurred_at p = se_occurred_at e)"

definition proposal_paper_pnl ::
  "digests \<Rightarrow> paper_posting list \<Rightarrow> shadow_reconciliation \<Rightarrow> shadow_event list \<Rightarrow> dec option result" where
  "proposal_paper_pnl D postings reconciliation events =
     bindE (validate_shadow_reconciliation reconciliation) (\<lambda>r.
     bindE (validated_owner_events (sr_proposal_id r) ''reconciliation proposal'' True events) (\<lambda>events.
     bindE (terminal_event events) (\<lambda>t.
     bindE (if sr_terminal_event_id r \<noteq> se_event_id t \<or> sr_terminal_state r \<noteq> se_to_state t \<or>
               sr_observed_at r \<noteq> se_occurred_at t
            then Inl (ValueError ''reconciliation does not match authoritative terminal evidence'')
            else Inr ()) (\<lambda>_.
     bindE (mapE validate_paper_posting postings) (\<lambda>validated.
     bindE (if validated \<noteq> [] then verify_conservation D validated else Inr ()) (\<lambda>_.
     bindE (checkE
       [(list_ex (\<lambda>p. pp_proposal_id p \<noteq> sr_proposal_id r) validated,
         ValueError ''postings do not belong to the reconciliation''),
        (list_ex (\<lambda>p. \<not> matches_event (map (\<lambda>e. (se_event_id e, e)) events) p) validated,
         ValueError ''postings do not match the authoritative event chain''),
        (sr_reconciliation_id r \<noteq> paper_reconciliation_id D (sr_proposal_id r) (sr_terminal_event_id r)
           (sr_terminal_state r) validated (sr_venues_reconciled r) (sr_complete r)
           (sr_unexplained_difference_usd r) (sr_observed_at r),
         ValueError ''reconciliation identity does not match supplied postings and fields'')]) (\<lambda>_.
     if se_to_state t = Unknown then Inr None
     else if \<not> sr_complete r then Inr None
     else Inr (Some (dadd (dadd (net_credit validated Reserve) (net_credit validated Opportunity_cost))
                          (net_credit validated Fees_paid))))))))))"

section \<open>The reconciled event\<close>

definition fill_content :: "shadow_fill \<Rightarrow> jval" where
  "fill_content f =
     JObj [(''leg_index'', JInt (sf_leg_index f)), (''side'', JText (side_value (sf_side f))),
           (''price_levels'', JList (map (\<lambda>(p, q). JList [JDec p, JDec q]) (sf_price_levels f))),
           (''quantity'', JDec (sf_quantity f))]"

text \<open>\<open>event.model_dump(mode="json", exclude={"event_id"})\<close>\<close>

definition event_content :: "shadow_event \<Rightarrow> jval" where
  "event_content e =
     JObj [(''schema_version'', JInt 1), (''proposal_id'', JUuid (se_proposal_id e)),
           (''sequence'', JInt (se_sequence e)),
           (''from_state'', jopt (JText \<circ> shadow_state_value) (se_from_state e)),
           (''to_state'', JText (shadow_state_value (se_to_state e))),
           (''occurred_at'', JTime (se_occurred_at e)), (''detail'', JText (se_detail e)),
           (''quantity_filled'', jopt JDec (se_quantity_filled e)),
           (''leg_index'', jopt JInt (se_leg_index e)), (''scenario_id'', jopt JText (se_scenario_id e)),
           (''fills'', JList (map fill_content (se_fills e))),
           (''evidence_hashes'', jhashes (se_evidence_hashes e))]"

definition reconciled_event_for ::
  "digests \<Rightarrow> shadow_plan \<Rightarrow> shadow_event list \<Rightarrow> shadow_reconciliation \<Rightarrow> shadow_event result" where
  "reconciled_event_for D plan events reconciliation =
     bindE (validate_shadow_plan plan) (\<lambda>plan.
     bindE (validated_events plan True events) (\<lambda>events.
     bindE (validate_shadow_reconciliation reconciliation) (\<lambda>r.
     bindE (terminal_event events) (\<lambda>t.
     bindE (checkE
       [(last events \<noteq> t,
         ValueError ''reconciled event derivation requires the execution-terminal prefix''),
        (sr_proposal_id r \<noteq> pl_proposal_id plan \<or> sr_terminal_event_id r \<noteq> se_event_id t \<or>
           sr_terminal_state r \<noteq> se_to_state t \<or> sr_observed_at r \<noteq> se_occurred_at t,
         ValueError ''reconciliation does not match terminal evidence''),
        (\<not> sr_complete r,
         ValueError ''only a complete reconciliation may derive a reconciled event'')]) (\<lambda>_.
     let fields =
           \<lparr>se_event_id = Uuid 0, se_proposal_id = pl_proposal_id plan, se_sequence = se_sequence t + 1,
            se_from_state = Some (se_to_state t), se_to_state = Reconciled,
            se_occurred_at = sr_observed_at r, se_detail = ''all participating venues reconciled'',
            se_quantity_filled = None, se_leg_index = None, se_scenario_id = se_scenario_id t,
            se_fills = [], se_evidence_hashes = []\<rparr>
     in bindE (validate_shadow_event fields) (\<lambda>provisional.
        validate_shadow_event
          (fields\<lparr>se_event_id := uuid5_of D RECONCILED_EVENT_NAMESPACE
             (JList [JUuid (sr_reconciliation_id r), event_content provisional])\<rparr>)))))))"

end
