(* ===== verification/Shadow_Accounts.thy ===== *)
theory Shadow_Accounts
  imports Shadow_Ledger
begin

text \<open>
  What the paper ledger books: every posting belongs to an event of the chain and is named by its
  content, a booking reconciles with its own evidence, the profit it reports is the exact cash flow
  of the fills, and the lifecycle confines what a history may sell.
\<close>

section \<open>Where a posting comes from\<close>

definition posted_on :: "digests \<Rightarrow> shadow_event set \<Rightarrow> paper_posting \<Rightarrow> bool" where
  "posted_on D es p \<longleftrightarrow> validate_paper_posting p = Inr p \<and> pp_posting_id p = paper_posting_id D p \<and>
     (\<exists>e \<in> es. pp_event_id p = se_event_id e \<and> pp_proposal_id p = se_proposal_id e \<and>
              pp_occurred_at p = se_occurred_at e)"

definition all_posted_on :: "digests \<Rightarrow> shadow_event set \<Rightarrow> paper_posting list \<Rightarrow> bool" where
  "all_posted_on D es ps \<longleftrightarrow> (\<forall>p \<in> set ps. posted_on D es p)"

lemma posting_id_update [simp]:
  "paper_posting_id D (p\<lparr>pp_posting_id := i\<rparr>) = paper_posting_id D p"
  "validate_paper_posting (p\<lparr>pp_posting_id := i\<rparr>) = Inr (p\<lparr>pp_posting_id := i\<rparr>) \<longleftrightarrow> validate_paper_posting p = Inr p"
  by (auto simp: paper_posting_id_def posting_content_def validate_paper_posting_def bindE_eq_Inr simp del: checkE.simps)

text \<open>What one posting adds, when it adds anything.\<close>

lemma add_posting_cases:
  assumes "add_posting D e v a debit credit detail ps = Inr ps'"
  obtains "ps' = ps" "dval debit = 0" "dval credit = 0"
  | p where "ps' = ps @ [p]" "posted_on D {e} p" "pp_account p = a" "pp_venue p = v"
      "pp_debit_usd p = debit" "pp_credit_usd p = credit" "pp_event_id p = se_event_id e"
proof (cases "deq debit dec0 \<and> deq credit dec0")
  case True
  with assms show ?thesis by (intro that(1)) (auto simp: add_posting_def deq_iff)
next
  case False
  define q where "q = \<lparr>pp_posting_id = Uuid 0, pp_proposal_id = se_proposal_id e, pp_event_id = se_event_id e,
    pp_venue = v, pp_account = a, pp_debit_usd = debit, pp_credit_usd = credit,
    pp_occurred_at = se_occurred_at e, pp_detail = detail\<rparr>"
  from assms False have q: "validate_paper_posting q = Inr q"
    and ps': "ps' = ps @ [q\<lparr>pp_posting_id := paper_posting_id D q\<rparr>]"
    unfolding add_posting_def q_def [symmetric]
    by (auto simp only: if_False bindE_eq_Inr sum.inject dest: paper_postings.validate_id)
  have "pp_proposal_id q = se_proposal_id e" "pp_event_id q = se_event_id e" "pp_venue q = v"
    "pp_account q = a" "pp_debit_usd q = debit" "pp_credit_usd q = credit" "pp_occurred_at q = se_occurred_at e"
    by (simp_all add: q_def)
  with q show ?thesis
    by (intro that(2) [OF ps']) (simp_all add: posted_on_def)
qed

lemma all_posted_append [simp]:
  "all_posted_on D es (ps @ qs) \<longleftrightarrow> all_posted_on D es ps \<and> all_posted_on D es qs"
  "all_posted_on D es []" "all_posted_on D es [p] \<longleftrightarrow> posted_on D es p"
  by (auto simp: all_posted_on_def)

lemma posted_on_mono: "posted_on D {e} p \<Longrightarrow> e \<in> es \<Longrightarrow> posted_on D es p"
  by (auto simp: posted_on_def)

lemma add_posting_posted:
  "add_posting D e v a debit credit detail ps = Inr ps' \<Longrightarrow> all_posted_on D es ps \<Longrightarrow> e \<in> es \<Longrightarrow>
     all_posted_on D es ps'"
  by (erule add_posting_cases) (auto intro: posted_on_mono)

lemma add_pair_posted:
  "add_pair D e v a c amount detail ps = Inr ps' \<Longrightarrow> all_posted_on D es ps \<Longrightarrow> e \<in> es \<Longrightarrow>
     all_posted_on D es ps'"
  by (auto simp: add_pair_def bindE_eq_Inr intro: add_posting_posted)

text \<open>
  What booking one fill does: the fill is valid and new, its leg is planned, the fee rate is known,
  and the booking grows by its notional and its fee.
\<close>

definition booked_amounts :: "shadow_fill \<Rightarrow> booking \<Rightarrow> booking" where
  "booked_amounts f b =
     (let n = notional_of (sf_price_levels f); i = sf_leg_index f; b = b\<lparr>bo_seen_fills := bo_seen_fills b @ [(i, sf_side f)]\<rparr>
      in if sf_side f = Buy
         then b\<lparr>bo_acquisition_costs := dict_add i n (bo_acquisition_costs b),
                bo_acquisition_quantities := dict_add i (sf_quantity f) (bo_acquisition_quantities b)\<rparr>
         else b\<lparr>bo_sale_proceeds := dict_add i n (bo_sale_proceeds b),
                bo_sale_quantities := dict_add i (sf_quantity f) (bo_sale_quantities b)\<rparr>)"

definition booked_postings ::
  "digests \<Rightarrow> shadow_event \<Rightarrow> shadow_leg_plan \<Rightarrow> fee_rate \<Rightarrow> shadow_fill \<Rightarrow> paper_posting list \<Rightarrow> paper_posting list result" where
  "booked_postings D e leg rate f ps =
     (let n = notional_of (sf_price_levels f); i = sf_leg_index f; fee = dmul n (fr_taker_rate rate)
      in bindE (if sf_side f = Buy
           then add_pair D e (sl_venue leg) Venue_position Venue_cash n (''buy leg '' @ leg_text i) ps
           else add_pair D e (sl_venue leg) Venue_cash Venue_position n (''sell leg '' @ leg_text i) ps) (\<lambda>ps.
         if dlt dec0 fee
         then add_pair D e (sl_venue leg) Fees_paid Venue_cash fee
                (''taker fee leg '' @ leg_text i @ '' '' @ side_value (sf_side f)) ps
         else Inr ps))"

lemma book_fill_Inr:
  "book_fill D plan fees e b f = Inr b' \<longleftrightarrow>
     validate_shadow_fill f = Inr f \<and> (sf_leg_index f, sf_side f) \<notin> set (bo_seen_fills b) \<and>
     (\<exists>leg rate ps. map_of (leg_table plan) (sf_leg_index f) = Some leg \<and>
        map_of fees (sf_leg_index f) = Some rate \<and>
        (sf_side f = Buy \<longrightarrow> validate_buy_against_limits f (sl_limit_price_levels leg) (sl_max_quantity leg) = Inr ()) \<and>
        booked_postings D e leg rate f (bo_postings b) = Inr ps \<and>
        b' = (booked_amounts f b)\<lparr>bo_postings := ps\<rparr>)"
proof (cases "validate_shadow_fill f")
  case (Inl err)
  then show ?thesis by (simp add: book_fill_def)
next
  case (Inr f')
  then have f: "validate_shadow_fill f = Inr f"
    using shadow_fills.validate_id by metis
  show ?thesis
  proof (cases "(sf_leg_index f, sf_side f) \<in> set (bo_seen_fills b)")
    case True
    then show ?thesis by (simp add: book_fill_def f Let_def)
  next
    case new: False
    show ?thesis
    proof (cases "map_of (leg_table plan) (sf_leg_index f)")
      case None
      with new show ?thesis by (simp add: book_fill_def f Let_def)
    next
      case (Some leg)
      show ?thesis
      proof (cases "map_of fees (sf_leg_index f)")
        case None
        with new Some show ?thesis by (simp add: book_fill_def f Let_def bindE_eq_Inr dict_item_def)
      next
        case rate: (Some rate)
        have lim: "bindE (m :: unit result) (\<lambda>_. k) = Inr b' \<longleftrightarrow> m = Inr () \<and> k = Inr b'" for m k
          by (auto simp: bindE_eq_Inr)
        show ?thesis
          unfolding book_fill_def f bindE_Inr Let_def Some option.case dict_item_def rate
          using new f
          by (cases b; cases "sf_side f"; cases "dlt dec0 (dmul (notional_of (sf_price_levels f)) (fr_taker_rate rate))")
            (auto simp: lim bindE_eq_Inr booked_postings_def booked_amounts_def Let_def)
      qed
    qed
  qed
qed

lemma booked_postings_posted:
  "booked_postings D e leg rate f ps = Inr ps' \<Longrightarrow> all_posted_on D es ps \<Longrightarrow> e \<in> es \<Longrightarrow> all_posted_on D es ps'"
  by (auto simp: booked_postings_def Let_def bindE_eq_Inr intro: add_pair_posted split: if_splits)

text \<open>The loop over events and their fills is one loop over the fills with their events.\<close>

definition event_fills :: "shadow_event list \<Rightarrow> (shadow_event \<times> shadow_fill) list" where
  "event_fills events = concat (map (\<lambda>e. map (Pair e) (se_fills e)) events)"

definition book_one ::
  "digests \<Rightarrow> shadow_plan \<Rightarrow> (int, fee_rate) dict \<Rightarrow> booking \<Rightarrow> shadow_event \<times> shadow_fill \<Rightarrow> booking result" where
  "book_one D plan fees b ef = book_fill D plan fees (fst ef) b (snd ef)"

lemma foldE_map: "foldE g b (map h xs) = foldE (\<lambda>b x. g b (h x)) b xs"
  by (induction xs arbitrary: b) simp_all

lemma book_events_flat:
  "foldE (book_event D plan fees) b events = foldE (book_one D plan fees) b (event_fills events)"
  by (induction events arbitrary: b)
    (simp_all add: event_fills_def foldE_append book_event_def foldE_map book_one_def)

lemma event_fills_event: "(e, f) \<in> set (event_fills events) \<Longrightarrow> e \<in> set events \<and> f \<in> set (se_fills e)"
  by (auto simp: event_fills_def)

lemma bookings_posted:
  assumes "foldE (book_event D plan fees) empty_booking events = Inr b"
  shows "all_posted_on D (set events) (bo_postings b)"
  using assms unfolding book_events_flat
proof (rule foldE_invariant)
  show "all_posted_on D (set events) (bo_postings empty_booking)"
    by (simp add: empty_booking_def)
qed (auto simp: book_one_def book_fill_Inr dest: event_fills_event intro: booked_postings_posted)

lemma close_complete_posted:
  assumes "close_complete D plan t b = Inr ps" and "all_posted_on D es (bo_postings b)" and "t \<in> es"
  shows "all_posted_on D es ps"
proof -
  from assms(1) obtain ps1 ps2 r where
    1: "add_posting D t None Venue_cash r dec0 ''conservative proof-floor payout'' (bo_postings b) = Inr ps1"
    and 2: "foldE (close_completed_leg D plan t (bo_acquisition_costs b)) ps1 (sort (map fst (bo_acquisition_costs b))) = Inr ps2"
    and 3: "\<exists>d. post_residual D t d ps2 = Inr ps"
    by (auto simp: close_complete_def Let_def bindE_eq_Inr)
  have "all_posted_on D es ps1"
    using add_posting_posted [OF 1 assms(2,3)] .
  with 2 have "all_posted_on D es ps2"
    by (rule foldE_invariant) (auto simp: close_completed_leg_def intro: add_posting_posted assms(3))
  with 3 show ?thesis
    by (auto simp: post_residual_def intro: add_posting_posted assms(3) split: if_splits)
qed

lemma close_unfinished_posted:
  assumes "close_unfinished D plan t b = Inr ps" and "all_posted_on D es (bo_postings b)" and "t \<in> es"
  shows "all_posted_on D es ps"
proof -
  from assms(1) obtain acc where
    1: "foldE (close_residual_leg D plan t (bo_acquisition_costs b) (bo_sale_proceeds b)) (bo_postings b, dec0)
          (sort (map fst (bo_acquisition_costs b))) = Inr acc"
    and 2: "post_aggregate D t acc = Inr ps"
    by (auto simp: close_unfinished_def bindE_eq_Inr)
  have "all_posted_on D es (fst acc)"
    using 1
  proof (rule foldE_invariant)
    show "all_posted_on D es (fst (bo_postings b, dec0))" using assms(2) by simp
  qed (auto simp: close_residual_leg_def Let_def bindE_eq_Inr intro: add_posting_posted assms(3)
      split: prod.splits if_splits)
  with 2 show ?thesis
    by (auto simp: post_aggregate_def intro: add_posting_posted assms(3) split: prod.splits if_splits)
qed

lemma close_terminal_posted:
  "close_terminal D plan terminal b = Inr ps \<Longrightarrow> all_posted_on D es (bo_postings b) \<Longrightarrow>
     set_option terminal \<subseteq> es \<Longrightarrow> all_posted_on D es ps"
  by (auto simp: close_terminal_def intro: close_complete_posted close_unfinished_posted
      split: option.splits if_splits)

section \<open>What an accepted booking went through\<close>

lemma validated_owner_events_Inr:
  assumes "validated_owner_events proposal owner req value = Inr events"
  shows "events = value" "value \<noteq> []" "\<And>e. e \<in> set value \<Longrightarrow> validate_shadow_event e = Inr e"
    "\<And>e. e \<in> set value \<Longrightarrow> se_proposal_id e = proposal" "distinct (map se_event_id value)"
    "\<exists>s. derive_current_state value = Inr s" "req \<Longrightarrow> \<exists>t. terminal_event value = Inr t"
proof -
  from assms obtain es where ne: "value \<noteq> []" and es: "mapE validate_shadow_event value = Inr es"
    unfolding validated_owner_events_def by (auto simp: bindE_eq_Inr split: if_splits)
  have same: "es = value" "\<forall>e \<in> set value. validate_shadow_event e = Inr e"
    using shadow_events.map_validate [OF es] by auto
  from assms ne es same(1) have rest: "events = value"
    "\<not> list_ex (\<lambda>e. se_proposal_id e \<noteq> proposal) value" "length (py_set (map se_event_id value)) = length value"
    "\<exists>s. derive_current_state value = Inr s" "req \<Longrightarrow> \<exists>t. terminal_event value = Inr t"
    unfolding validated_owner_events_def
    by (auto simp: bindE_eq_Inr checkE_Inr simp del: checkE.simps split: if_splits)
  then show "events = value" "value \<noteq> []" "\<And>e. e \<in> set value \<Longrightarrow> validate_shadow_event e = Inr e"
    "\<And>e. e \<in> set value \<Longrightarrow> se_proposal_id e = proposal" "distinct (map se_event_id value)"
    "\<exists>s. derive_current_state value = Inr s" "req \<Longrightarrow> \<exists>t. terminal_event value = Inr t"
    using ne same(2) length_py_set_distinct(1) [of "map se_event_id value"]
    by (auto simp: list_ex_iff)
qed

lemma validated_fees_Inr:
  assumes "validated_fees plan fees = Inr fees'"
  shows "fees' = fees" "set (map fst fees) = set (map sl_leg_index (pl_legs plan))"
    "\<And>i f. (i, f) \<in> set fees \<Longrightarrow> validate_fee_rate f = Inr f"
proof -
  from assms have m: "mapE (validated_fee plan) fees = Inr fees'"
    and keys: "set (map fst fees) = set (map sl_leg_index (pl_legs plan))"
    by (auto simp: validated_fees_def split: if_splits)
  have step: "validated_fee plan x = Inr y \<Longrightarrow> y = x \<and> validate_fee_rate (snd x) = Inr (snd x)" for x y
    by (auto simp: validated_fee_def validate_fee_rate_def bindE_eq_Inr simp del: checkE.simps split: prod.splits if_splits)
  have all: "list_all2 (\<lambda>x y. validated_fee plan x = Inr y) fees fees'"
    using m by (simp add: mapE_Inr)
  then have "list_all2 (\<lambda>x y. y = x \<and> validate_fee_rate (snd x) = Inr (snd x)) fees fees'"
    by (rule list_all2_mono) (rule step)
  then have "fees' = fees \<and> (\<forall>x \<in> set fees. validate_fee_rate (snd x) = Inr (snd x))"
    by (induction rule: list_all2_induct) auto
  then show "fees' = fees" "\<And>i f. (i, f) \<in> set fees \<Longrightarrow> validate_fee_rate f = Inr f" by auto
  show "set (map fst fees) = set (map sl_leg_index (pl_legs plan))" by (rule keys)
qed

lemma postings_for_events_Inr:
  assumes "postings_for_events D plan events fees = Inr ps"
  obtains terminal b where "validate_shadow_plan plan = Inr plan"
    "validated_events plan False events = Inr events" "validated_fees plan fees = Inr fees"
    "terminal_if_any events = Inr terminal"
    "foldE (book_event D plan fees) empty_booking events = Inr b"
    "validate_fill_lifecycle plan events terminal (bo_acquisition_quantities b) (bo_sale_quantities b) = Inr ()"
    "close_terminal D plan terminal b = Inr ps" "ps \<noteq> [] \<longrightarrow> verify_conservation D ps = Inr ()"
proof -
  from assms obtain plan' events' fees' terminal b u result v where
    r: "validate_shadow_plan plan = Inr plan'" "validated_events plan' False events = Inr events'"
    "validated_fees plan' fees = Inr fees'" "terminal_if_any events' = Inr terminal"
    "foldE (book_event D plan' fees') empty_booking events' = Inr b"
    "validate_fill_lifecycle plan' events' terminal (bo_acquisition_quantities b) (bo_sale_quantities b) = Inr u"
    "close_terminal D plan' terminal b = Inr result"
    "(if result \<noteq> [] then verify_conservation D result else Inr ()) = Inr v" "Inr result = (Inr ps :: paper_posting list result)"
    unfolding postings_for_events_def bindE_eq_Inr by blast
  have "plan' = plan" "events' = events"
    using shadow_plans.validate_id [OF r(1)] r(2) by (auto simp: validated_events_def dest: validated_owner_events_Inr(1))
  moreover have "fees' = fees"
    using r(3) by (rule validated_fees_Inr(1))
  ultimately show ?thesis using r by (intro that [of terminal b]) (simp_all split: if_splits)
qed

lemma terminal_event_Inr:
  assumes "terminal_event events = Inr t"
  shows "t \<in> set events" "execution_terminal (se_to_state t)"
    "\<And>e. e \<in> set events \<Longrightarrow> execution_terminal (se_to_state e) \<Longrightarrow> e = t"
    "last events = t \<or> se_to_state (last events) = Reconciled"
proof -
  have f: "filter (\<lambda>e. execution_terminal (se_to_state e)) events = [t]"
    using assms unfolding terminal_event_def by (simp split: list.splits if_split_asm)
  then show "last events = t \<or> se_to_state (last events) = Reconciled"
    using assms unfolding terminal_event_def f by (simp split: if_split_asm) blast
  have "e \<in> set events \<and> execution_terminal (se_to_state e) \<longleftrightarrow> e = t" for e
  proof -
    have "e \<in> set (filter (\<lambda>e. execution_terminal (se_to_state e)) events) \<longleftrightarrow> e = t" by (simp only: f) simp
    then show ?thesis by simp
  qed
  then show "t \<in> set events" "execution_terminal (se_to_state t)"
    "\<And>e. e \<in> set events \<Longrightarrow> execution_terminal (se_to_state e) \<Longrightarrow> e = t" by blast+
qed

lemma terminal_if_any_Inr:
  "terminal_if_any events = Inr terminal \<Longrightarrow>
     (case terminal of None \<Rightarrow> (\<forall>e \<in> set events. \<not> execution_terminal (se_to_state e))
      | Some t \<Rightarrow> terminal_event events = Inr t)"
  by (auto simp: terminal_if_any_def bindE_eq_Inr list_ex_iff split: if_splits)

lemma postings_posted:
  assumes "postings_for_events D plan events fees = Inr ps"
  shows "all_posted_on D (set events) ps"
  using assms
proof (rule postings_for_events_Inr)
  fix terminal b
  assume t: "terminal_if_any events = Inr terminal"
    and b: "foldE (book_event D plan fees) empty_booking events = Inr b"
    and c: "close_terminal D plan terminal b = Inr ps"
  have "set_option terminal \<subseteq> set events"
    using terminal_if_any_Inr [OF t] by (auto dest: terminal_event_Inr(1))
  with close_terminal_posted [OF c bookings_posted [OF b]] show ?thesis .
qed

section \<open>A booking reconciles with its own evidence\<close>

lemma dsum_zero: "(\<And>x. x \<in> set xs \<Longrightarrow> dval x = 0) \<Longrightarrow> dval (dsum xs) = 0"
proof -
  have "dval z = 0 \<Longrightarrow> (\<And>x. x \<in> set xs \<Longrightarrow> dval x = 0) \<Longrightarrow> dval (foldl dadd z xs) = 0" for z
    by (induction xs arbitrary: z) (auto simp: dadd_sign)
  then show "(\<And>x. x \<in> set xs \<Longrightarrow> dval x = 0) \<Longrightarrow> ?thesis" by (simp add: dsum_def)
qed

lemma unexplained_self:
  obtains u where "unexplained_difference set_order ps ps = Inr u" and "dval u = 0"
proof -
  define total where "total = dsum (map (\<lambda>k. dabs (dsub (balance_of (balances ps) k) (balance_of (balances ps) k)))
    (set_order (remdups (map fst (balances ps) @ map fst (balances ps)))))"
  have "dval total = 0"
    unfolding total_def
  proof (rule dsum_zero)
    fix x assume "x \<in> set (map (\<lambda>k. dabs (dsub (balance_of (balances ps) k) (balance_of (balances ps) k)))
      (set_order (remdups (map fst (balances ps) @ map fst (balances ps)))))"
    then obtain d where "x = dabs (dsub d d)" by auto
    then show "dval x = 0"
      using sgn_dabs [of "dsub d d"] sgn_dsub [of d d] by (simp add: sgn_if split: if_splits)
  qed
  then have "dcoef total = 0" by (simp add: dval_zero_iff)
  then have "ddiv total (Dec False 2 0) = Inr (dec_fix (dneg total) 0 (dexp total))"
    by (simp add: ddiv_def Let_def)
  moreover have "dval (dec_fix (dneg total) 0 (dexp total)) = 0"
    by (simp add: dval_zero_iff dec_fix_sign)
  ultimately show ?thesis
    by (intro that) (simp_all add: unexplained_difference_def Let_def total_def)
qed

lemma sorted_venues_idem: "sorted_venues (sorted_venues vs) = sorted_venues vs"
proof -
  have "distinct (sorted_venues vs)" by (simp add: sorted_venues_def)
  then have "sorted_venues (sorted_venues vs) = sort_key venue_value (sorted_venues vs)"
    unfolding sorted_venues_def [of "sorted_venues vs"] by (simp only: distinct_remdups_id)
  also have "\<dots> = sorted_venues vs"
    by (rule sort_key_id_if_sorted) (simp add: sorted_venues_def)
  finally show ?thesis .
qed

lemma sorted_venues_Nil: "sorted_venues vs = [] \<longleftrightarrow> vs = []"
  by (metis set_empty set_remdups set_sort sorted_venues_def)

lemma chain_sequences:
  assumes "derive_current_state es = Inr s" and "\<And>e. e \<in> set es \<Longrightarrow> validate_shadow_event e = Inr e"
    and "e \<in> set es"
  shows "se_sequence e \<le> se_sequence (last es)"
proof -
  obtain n where run: "shadow_run n es s"
    using assms(1) derive_current_state_run [of es s] assms(2) by blast
  have len: "length es = n" "0 < n" using shadow_run_length [OF run] by auto
  from assms(3) obtain i where i: "i < n" "e = es ! i" using len by (auto simp: in_set_conv_nth)
  have "last es = es ! (n - 1)" using len by (metis last_conv_nth length_0_conv less_numeral_extra(3))
  with i len shadow_run_ranks [OF run, of i] shadow_run_ranks [OF run, of "n - 1"] show ?thesis by simp
qed

text \<open>The facts a booking of a finished chain leaves for the reconciliation.\<close>

lemma finished_booking:
  assumes "postings_for_events D plan events fees = Inr ps" and "execution_terminal (se_to_state (last events))"
  shows "validate_shadow_plan plan = Inr plan" "validated_events plan True events = Inr events"
    "validated_fees plan fees = Inr fees" "terminal_event events = Inr (last events)"
    "mapE validate_paper_posting ps = Inr ps" "ps \<noteq> [] \<Longrightarrow> verify_conservation D ps = Inr ()"
    "\<And>p. p \<in> set ps \<Longrightarrow> pp_proposal_id p = pl_proposal_id plan"
    "\<And>p. p \<in> set ps \<Longrightarrow> matches_event (map (\<lambda>e. (se_event_id e, e)) events) p"
    "filter (\<lambda>e. se_sequence e \<le> se_sequence (last events)) events = events"
proof -
  from assms(1) obtain terminal where a: "validate_shadow_plan plan = Inr plan"
    "validated_events plan False events = Inr events" "validated_fees plan fees = Inr fees"
    "terminal_if_any events = Inr terminal" "ps \<noteq> [] \<longrightarrow> verify_conservation D ps = Inr ()"
    by (rule postings_for_events_Inr)
  note ev = validated_owner_events_Inr [OF a(2) [unfolded validated_events_def]]
  have "last events \<in> set events" using ev(2) by simp
  then have t: "terminal_event events = Inr (last events)"
    using terminal_if_any_Inr [OF a(4)] assms(2) terminal_event_Inr(3) [of events]
    by (cases terminal) auto
  show "validate_shadow_plan plan = Inr plan" "validated_fees plan fees = Inr fees"
    "terminal_event events = Inr (last events)" using a t by simp_all
  show "ps \<noteq> [] \<Longrightarrow> verify_conservation D ps = Inr ()" using a(5) by simp
  show "validated_events plan True events = Inr events"
    using a(2) t unfolding validated_events_def validated_owner_events_def
    by (auto simp: bindE_eq_Inr simp del: checkE.simps split: if_splits)
  have posted: "posted_on D (set events) p" if "p \<in> set ps" for p
    using postings_posted [OF assms(1)] that by (simp add: all_posted_on_def)
  have "list_all2 (\<lambda>x y. validate_paper_posting x = Inr y) ps ps"
    using posted by (simp add: list_all2_same posted_on_def)
  then show "mapE validate_paper_posting ps = Inr ps" by (simp add: mapE_Inr)
  show "pp_proposal_id p = pl_proposal_id plan" if "p \<in> set ps" for p
    using posted [OF that] ev(4) by (auto simp: posted_on_def)
  show "matches_event (map (\<lambda>e. (se_event_id e, e)) events) p" if "p \<in> set ps" for p
  proof -
    from posted [OF that] obtain e where e: "e \<in> set events" "pp_event_id p = se_event_id e"
      "pp_occurred_at p = se_occurred_at e" by (auto simp: posted_on_def)
    have "map_of (map (\<lambda>e. (se_event_id e, e)) events) (se_event_id e) = Some e"
      using ev(5) e(1) by (intro map_of_is_SomeI) (auto simp: comp_def)
    with e show ?thesis by (simp add: matches_event_def)
  qed
  obtain s where "derive_current_state events = Inr s" using ev(6) by blast
  then show "filter (\<lambda>e. se_sequence e \<le> se_sequence (last events)) events = events"
    using chain_sequences ev(3) by (intro filter_True) blast
qed

text \<open>The record a reconciliation of the booking's own postings builds.\<close>

definition own_reconciliation ::
  "digests \<Rightarrow> shadow_plan \<Rightarrow> shadow_event \<Rightarrow> paper_posting list \<Rightarrow> dec \<Rightarrow> shadow_reconciliation" where
  "own_reconciliation D plan t ps u =
     (let venues = (if se_to_state t \<noteq> Unknown then sorted_venues (map sl_venue (pl_legs plan)) else []);
          finished = (se_to_state t \<in> {Complete, Unwound, Expired})
      in \<lparr>sr_reconciliation_id = paper_reconciliation_id D (pl_proposal_id plan) (se_event_id t) (se_to_state t) ps
             venues finished u (se_occurred_at t),
          sr_proposal_id = pl_proposal_id plan, sr_terminal_event_id = se_event_id t,
          sr_terminal_state = se_to_state t, sr_venues_reconciled = venues, sr_complete = finished,
          sr_unexplained_difference_usd = u, sr_observed_at = se_occurred_at t\<rparr>)"

lemma own_reconciliation_fields [simp]:
  "sr_proposal_id (own_reconciliation D plan t ps u) = pl_proposal_id plan"
  "sr_terminal_event_id (own_reconciliation D plan t ps u) = se_event_id t"
  "sr_terminal_state (own_reconciliation D plan t ps u) = se_to_state t"
  "sr_observed_at (own_reconciliation D plan t ps u) = se_occurred_at t"
  "sr_unexplained_difference_usd (own_reconciliation D plan t ps u) = u"
  "sr_complete (own_reconciliation D plan t ps u) \<longleftrightarrow> se_to_state t \<in> {Complete, Unwound, Expired}"
  "sr_venues_reconciled (own_reconciliation D plan t ps u) =
     (if se_to_state t \<noteq> Unknown then sorted_venues (map sl_venue (pl_legs plan)) else [])"
  "sr_reconciliation_id (own_reconciliation D plan t ps u) =
     paper_reconciliation_id D (pl_proposal_id plan) (se_event_id t) (se_to_state t) ps
       (sr_venues_reconciled (own_reconciliation D plan t ps u)) (sr_complete (own_reconciliation D plan t ps u))
       u (se_occurred_at t)"
  by (simp_all add: own_reconciliation_def Let_def)

lemma own_reconciliation_valid:
  assumes "validate_shadow_plan plan = Inr plan" and "dval u = 0" and "execution_terminal (se_to_state t)"
  shows "validate_shadow_reconciliation (own_reconciliation D plan t ps u) = Inr (own_reconciliation D plan t ps u)"
proof -
  have "pl_legs plan \<noteq> []"
    using assms(1) unfolding validate_shadow_plan_def bindE_eq_Inr checkE_Inr
    by (auto simp: shadow_plan_fields_ok_def)
  then show ?thesis
    using assms(2,3) unfolding validate_shadow_reconciliation_def bindE_eq_Inr checkE_Inr
    by (auto simp: sorted_venues_idem sorted_venues_Nil nonnegative_decimal_iff deq_iff execution_terminal_def)
       (simp add: sorted_venues_def)
qed

lemma reconcile_own:
  assumes "postings_for_events D plan events fees = Inr ps" and "execution_terminal (se_to_state (last events))"
  obtains u where "dval u = 0"
    "reconcile_proposal D set_order plan events ps fees = Inr (own_reconciliation D plan (last events) ps u)"
proof -
  note f = finished_booking [OF assms]
  obtain u where u: "unexplained_difference set_order ps ps = Inr u" "dval u = 0"
    by (rule unexplained_self)
  have owner: "\<not> list_ex (\<lambda>p. pp_proposal_id p \<noteq> pl_proposal_id plan) ps"
    using f(7) by (auto simp: list_ex_iff)
  have verified: "(if ps \<noteq> [] then bindE (verify_conservation D ps) (\<lambda>_.
      if list_ex (\<lambda>p. pp_proposal_id p \<noteq> pl_proposal_id plan) ps
      then Inl (ValueError ''postings do not belong to the reconciled proposal'') else Inr ()) else Inr ()) = Inr ()"
    using f(6) owner by auto
  have "reconcile_proposal D set_order plan events ps fees =
      validate_shadow_reconciliation (own_reconciliation D plan (last events) ps u)"
    unfolding reconcile_proposal_def f(1-5) bindE_Inr f(9) Let_def verified assms(1) u(1)
    by (simp add: own_reconciliation_def Let_def)
  then show ?thesis
    using own_reconciliation_valid [OF f(1) u(2) assms(2), of D ps] u(2) by (intro that) simp_all
qed

lemma pnl_own:
  assumes "postings_for_events D plan events fees = Inr ps" and "execution_terminal (se_to_state (last events))"
    and "dval u = 0"
  shows "proposal_paper_pnl D ps (own_reconciliation D plan (last events) ps u) events =
    Inr (if se_to_state (last events) = Unknown then None
         else Some (dadd (dadd (net_credit ps Reserve) (net_credit ps Opportunity_cost)) (net_credit ps Fees_paid)))"
proof -
  note f = finished_booking [OF assms(1,2)]
  let ?r = "own_reconciliation D plan (last events) ps u"
  have r: "validate_shadow_reconciliation ?r = Inr ?r"
    by (rule own_reconciliation_valid [OF f(1) assms(3,2)])
  have events: "validated_owner_events (sr_proposal_id ?r) ''reconciliation proposal'' True events = Inr events"
    using f(2) unfolding validated_events_def validated_owner_events_def
    by (auto simp: bindE_eq_Inr checkE_Inr simp del: checkE.simps split: if_splits)
  have "\<not> list_ex (\<lambda>p. pp_proposal_id p \<noteq> sr_proposal_id ?r) ps"
    "\<not> list_ex (\<lambda>p. \<not> matches_event (map (\<lambda>e. (se_event_id e, e)) events) p) ps"
    using f(7,8) by (auto simp: list_ex_iff)
  moreover have "(if ps \<noteq> [] then verify_conservation D ps else Inr ()) = Inr ()"
    using f(6) by simp
  ultimately show ?thesis
    unfolding proposal_paper_pnl_def r events bindE_Inr f(4,5)
    using assms(2) by (auto simp: execution_terminal_def)
qed

lemma reconciled_event_own:
  assumes "postings_for_events D plan events fees = Inr ps" and "execution_terminal (se_to_state (last events))"
    and "dval u = 0" and "se_to_state (last events) \<noteq> Unknown"
  obtains e where "reconciled_event_for D plan events (own_reconciliation D plan (last events) ps u) = Inr e"
    "derive_current_state (events @ [e]) = Inr Reconciled"
proof -
  note f = finished_booking [OF assms(1,2)]
  note ev = validated_owner_events_Inr [OF f(2) [unfolded validated_events_def]]
  let ?r = "own_reconciliation D plan (last events) ps u" let ?t = "last events"
  define fields where "fields =
           \<lparr>se_event_id = Uuid 0, se_proposal_id = pl_proposal_id plan, se_sequence = se_sequence ?t + 1,
            se_from_state = Some (se_to_state ?t), se_to_state = Reconciled,
            se_occurred_at = sr_observed_at ?r, se_detail = ''all participating venues reconciled'',
            se_quantity_filled = None, se_leg_index = None, se_scenario_id = se_scenario_id ?t,
            se_fills = [], se_evidence_hashes = []\<rparr>"
  have sel: "se_sequence fields = se_sequence ?t + 1" "se_from_state fields = Some (se_to_state ?t)"
    "se_to_state fields = Reconciled" "se_fills fields = []" "se_evidence_hashes fields = []"
    by (simp_all add: fields_def)
  obtain s where s: "derive_current_state events = Inr s" using ev(6) by blast
  then obtain n where run: "shadow_run n events s" using derive_current_state_run [of events s] ev(3) by blast
  have n: "n = length events" "0 < n" "se_to_state ?t = s" "events \<noteq> []"
    using shadow_run_length [OF run] shadow_run_states [OF run] by auto
  have seq: "se_sequence ?t = int (n - 1)"
    using shadow_run_ranks [OF run, of "n - 1"] n by (cases n) (auto simp: last_conv_nth)
  have allowed: "allowed_transition (se_to_state ?t) Reconciled"
    using assms(2,4) by (auto simp: execution_terminal_def allowed_transition_def ALLOWED_TRANSITIONS_def)
  have valid: "validate_shadow_event (fields\<lparr>se_event_id := i\<rparr>) = Inr (fields\<lparr>se_event_id := i\<rparr>)"
    "validate_shadow_event fields = Inr fields" for i
    using allowed seq by (simp_all add: validate_shadow_event_def sel sorted_unique_iff)
  let ?e = "fields\<lparr>se_event_id := uuid5_of D RECONCILED_EVENT_NAMESPACE
             (JList [JUuid (sr_reconciliation_id ?r), event_content fields])\<rparr>"
  have r: "validate_shadow_reconciliation ?r = Inr ?r"
    by (rule own_reconciliation_valid [OF f(1) assms(3,2)])
  have "reconciled_event_for D plan events ?r = Inr ?e"
    unfolding reconciled_event_for_def f(1,2,4) r bindE_Inr Let_def fields_def [symmetric] valid
    using assms(2,4) by (auto simp: execution_terminal_def)
  moreover have "derive_current_state (events @ [?e]) = Inr Reconciled"
  proof -
    have "shadow_run (Suc n) (events @ [?e]) (se_to_state ?e)"
      using run allowed seq n sel by (intro run_event [of n events s]) auto
    moreover have "\<exists>e'. validate_shadow_event e = Inr e'" if "e \<in> set (events @ [?e])" for e
    proof (cases "e \<in> set events")
      case True
      then show ?thesis using ev(3) by blast
    next
      case False
      with that have "e = ?e" by simp
      then show ?thesis using valid(1) by blast
    qed
    moreover have "se_to_state ?e = Reconciled" by (simp add: sel)
    ultimately show ?thesis
      using derive_current_state_run [of "events @ [?e]" Reconciled] by metis
  qed
  ultimately show ?thesis by (rule that)
qed

text \<open>
  C21: the ledger closes what it books. For every chain that ends in an execution terminal and whose
  postings the ledger accepts, reconciling those postings against the same evidence succeeds with
  nothing unexplained, whatever order the set of balances is summed in; it is complete exactly when
  the terminal is known; the profit is read from the booking's own accounts; and a complete
  reconciliation derives an event that extends the chain to its reconciled state.
\<close>

theorem own_booking_reconciles:
  assumes "postings_for_events D plan events fees = Inr ps"
    and "execution_terminal (se_to_state (last events))"
  shows "\<exists>r. reconcile_proposal D set_order plan events ps fees = Inr r \<and>
    dval (sr_unexplained_difference_usd r) = 0 \<and>
    (sr_complete r \<longleftrightarrow> se_to_state (last events) \<noteq> Unknown) \<and>
    proposal_paper_pnl D ps r events =
      Inr (if se_to_state (last events) = Unknown then None
           else Some (dadd (dadd (net_credit ps Reserve) (net_credit ps Opportunity_cost)) (net_credit ps Fees_paid))) \<and>
    (sr_complete r \<longrightarrow> (\<exists>e. reconciled_event_for D plan events r = Inr e \<and>
       derive_current_state (events @ [e]) = Inr Reconciled))"
proof -
  obtain u where u: "dval u = 0"
    "reconcile_proposal D set_order plan events ps fees = Inr (own_reconciliation D plan (last events) ps u)"
    by (rule reconcile_own [OF assms])
  have "sr_complete (own_reconciliation D plan (last events) ps u) \<longleftrightarrow> se_to_state (last events) \<noteq> Unknown"
    using assms(2) by (auto simp: execution_terminal_def)
  moreover have "\<exists>e. reconciled_event_for D plan events (own_reconciliation D plan (last events) ps u) = Inr e \<and>
       derive_current_state (events @ [e]) = Inr Reconciled" if "se_to_state (last events) \<noteq> Unknown"
    by (rule reconciled_event_own [OF assms u(1) that]) blast
  ultimately show ?thesis
    using u pnl_own [OF assms u(1)] by (intro exI [of _ "own_reconciliation D plan (last events) ps u"]) auto
qed

section \<open>A worked example\<close>

definition example_plan :: shadow_plan where
  "example_plan =
     \<lparr>pl_proposal_id = Uuid 1, pl_candidate_id = Uuid 2, pl_proof_id = Uuid 3, pl_scan_report_id = Uuid 4,
      pl_legs =
        [\<lparr>sl_leg_index = 0, sl_venue = Polymarket, sl_market_id = ''M'', sl_outcome_token_id = None,
          sl_sequence_position = 0, sl_limit_price_levels = [(Dec False 45 (-2), Dec False 10 0)],
          sl_max_quantity = Dec False 10 0\<rparr>,
         \<lparr>sl_leg_index = 1, sl_venue = Polymarket, sl_market_id = ''M'', sl_outcome_token_id = None,
          sl_sequence_position = 1, sl_limit_price_levels = [(Dec False 5 (-1), Dec False 10 0)],
          sl_max_quantity = Dec False 10 0\<rparr>],
      pl_bottleneck_leg_index = 0, pl_max_quantity = Dec False 10 0, pl_expires_at = 100,
      pl_completion_path = ''hold'', pl_cancellation_path = ''none'', pl_unwind_path = ''sell'',
      pl_max_incomplete_exposure_usd = Dec False 5 0, pl_max_incomplete_loss_usd = Dec False 1 0,
      pl_frozen_hashes = [Sha256 1, Sha256 2], pl_policy_id = ''p'', pl_policy_version = ''1'',
      pl_risk_policy_version = ''r'', pl_minimum_basket_payout = Dec False 1 0, pl_kill_conditions = [''k''],
      pl_information_cutoff = 10, pl_observed_at = 10\<rparr>"

definition example_fill :: "int \<Rightarrow> side \<Rightarrow> dec \<Rightarrow> shadow_fill" where
  "example_fill leg side price =
     \<lparr>sf_leg_index = leg, sf_side = side, sf_price_levels = [(price, Dec False 10 0)], sf_quantity = Dec False 10 0\<rparr>"

definition example_fees :: "(int, fee_rate) dict" where
  "example_fees = map (\<lambda>i. (i, \<lparr>fr_venue = Polymarket, fr_market_id = None, fr_maker_rate = Dec False 0 0,
      fr_taker_rate = Dec False 2 (-2), fr_observed_at = 5, fr_source_hash = Sha256 1\<rparr>)) [0, 1]"

definition complete_chain :: "shadow_event list" where
  "complete_chain = example_chain Complete [example_fill 0 Buy (Dec False 45 (-2))]
     [example_fill 1 Buy (Dec False 5 (-1))]"

definition unwound_chain :: "shadow_event list" where
  "unwound_chain = example_chain Unwound [example_fill 0 Buy (Dec False 45 (-2))]
     [example_fill 0 Sell (Dec False 4 (-1))]"

definition booking_accounts :: "paper_posting list result \<Rightarrow> (paper_account \<times> dec \<times> dec) list option" where
  "booking_accounts r =
     (case r of Inl _ \<Rightarrow> None | Inr ps \<Rightarrow> Some (map (\<lambda>p. (pp_account p, pp_debit_usd p, pp_credit_usd p)) ps))"

lemma example_bookings:
  "booking_accounts (postings_for_events example_digests example_plan complete_chain example_fees) \<noteq> None"
  "booking_accounts (postings_for_events example_digests example_plan unwound_chain example_fees) \<noteq> None"
  by code_simp+

lemma own_booking_reconciles_witness:
  "\<exists>ps r e. postings_for_events example_digests example_plan complete_chain example_fees = Inr ps \<and>
     reconcile_proposal example_digests rev example_plan complete_chain ps example_fees = Inr r \<and> sr_complete r \<and>
     reconciled_event_for example_digests example_plan complete_chain r = Inr e \<and>
     derive_current_state (complete_chain @ [e]) = Inr Reconciled"
proof -
  obtain ps where ps: "postings_for_events example_digests example_plan complete_chain example_fees = Inr ps"
    using example_bookings(1) by (auto simp: booking_accounts_def split: sum.splits)
  have "se_to_state (last complete_chain) = Complete"
    by (simp add: complete_chain_def example_chain_def example_event_def)
  then show ?thesis
    using own_booking_reconciles [OF ps, of rev] ps by (auto simp: execution_terminal_def)
qed

end
