(* ===== verification/Shadow_Pnl.thy ===== *)
theory Shadow_Pnl
  imports Shadow_Accounts Decimal_Rounding
begin

text \<open>
  The profit the paper ledger reports, in exact arithmetic: how each posting moves an account, what a
  whole booking adds up to, and why the rounded sums of the code are exact when the amounts fit 28
  digits on a common grid.
\<close>

section \<open>Account totals\<close>

definition posting_net :: "paper_posting \<Rightarrow> rat" where
  "posting_net p = dval (pp_credit_usd p) - dval (pp_debit_usd p)"

definition account_net :: "paper_account \<Rightarrow> paper_posting list \<Rightarrow> rat" where
  "account_net a ps = (\<Sum>p\<leftarrow>filter (\<lambda>p. pp_account p = a) ps. posting_net p)"

definition account_gross :: "paper_account \<Rightarrow> paper_posting list \<Rightarrow> rat" where
  "account_gross a ps = (\<Sum>p\<leftarrow>filter (\<lambda>p. pp_account p = a) ps. \<bar>posting_net p\<bar>)"

definition postings_on_grid :: "int \<Rightarrow> paper_posting list \<Rightarrow> bool" where
  "postings_on_grid g ps \<longleftrightarrow> (\<forall>p \<in> set ps. g \<le> dexp (pp_debit_usd p) \<and> g \<le> dexp (pp_credit_usd p))"

lemma totals_simps [simp]:
  "account_net a [] = 0" "account_gross a [] = 0" "postings_on_grid g []"
  by (simp_all add: account_net_def account_gross_def postings_on_grid_def)

text \<open>One posting, and a pair of postings.\<close>

lemma add_posting_totals:
  assumes "add_posting D e v a d c s ps = Inr ps'"
  shows "account_net acct ps' = account_net acct ps + (if acct = a then dval c - dval d else 0)"
    and "account_gross acct ps' = account_gross acct ps + (if acct = a then \<bar>dval c - dval d\<bar> else 0)"
    and "g \<le> dexp d \<Longrightarrow> g \<le> dexp c \<Longrightarrow> postings_on_grid g ps \<Longrightarrow> postings_on_grid g ps'"
  using assms
  by (auto elim!: add_posting_cases simp: account_net_def account_gross_def postings_on_grid_def posting_net_def)

lemma add_pair_totals:
  assumes "add_pair D e v a b x s ps = Inr ps'"
  shows "account_net acct ps' = account_net acct ps + (if acct = a then - dval x else 0) + (if acct = b then dval x else 0)"
    and "account_gross acct ps' = account_gross acct ps + (if acct = a then \<bar>dval x\<bar> else 0) + (if acct = b then \<bar>dval x\<bar> else 0)"
    and "g \<le> dexp x \<Longrightarrow> g \<le> 0 \<Longrightarrow> postings_on_grid g ps \<Longrightarrow> postings_on_grid g ps'"
proof -
  from assms obtain ps1 where
    1: "add_posting D e (Some v) a x dec0 s ps = Inr ps1" and 2: "add_posting D e (Some v) b dec0 x s ps1 = Inr ps'"
    by (auto simp: add_pair_def bindE_eq_Inr)
  show "account_net acct ps' = account_net acct ps + (if acct = a then - dval x else 0) + (if acct = b then dval x else 0)"
    "account_gross acct ps' = account_gross acct ps + (if acct = a then \<bar>dval x\<bar> else 0) + (if acct = b then \<bar>dval x\<bar> else 0)"
    using add_posting_totals [OF 1] add_posting_totals [OF 2] by simp_all
  show "g \<le> dexp x \<Longrightarrow> g \<le> 0 \<Longrightarrow> postings_on_grid g ps \<Longrightarrow> postings_on_grid g ps'"
    using add_posting_totals(3) [OF 1] add_posting_totals(3) [OF 2] by simp
qed

section \<open>Exact fills\<close>

definition fill_cash :: "shadow_fill \<Rightarrow> rat" where
  "fill_cash f = (\<Sum>(p, q)\<leftarrow>sf_price_levels f. dval p * dval q)"

definition fill_rate :: "(int, fee_rate) dict \<Rightarrow> shadow_fill \<Rightarrow> dec" where
  "fill_rate fees f = (case map_of fees (sf_leg_index f) of None \<Rightarrow> dec0 | Some r \<Rightarrow> fr_taker_rate r)"

definition fill_fee :: "(int, fee_rate) dict \<Rightarrow> shadow_fill \<Rightarrow> rat" where
  "fill_fee fees f = fill_cash f * dval (fill_rate fees f)"

text \<open>
  The amounts of a fill are exact: each product fits 28 digits and lies on the grid of step
  \<open>10 ^ g\<close>, and so does its fee.
\<close>

definition exact_product_on :: "int \<Rightarrow> dec \<Rightarrow> dec \<Rightarrow> bool" where
  "exact_product_on g a b \<longleftrightarrow> dcoef a * dcoef b < 10 ^ 28 \<and> g \<le> dexp a + dexp b"

definition exact_fill :: "int \<Rightarrow> (int, fee_rate) dict \<Rightarrow> shadow_fill \<Rightarrow> bool" where
  "exact_fill g fees f \<longleftrightarrow> (\<forall>(p, q) \<in> set (sf_price_levels f). exact_product_on g p q) \<and>
     exact_product_on g (notional_of (sf_price_levels f)) (fill_rate fees f)"

lemma dmul_on_grid:
  "exact_product_on g a b \<Longrightarrow> dval (dmul a b) = dval a * dval b \<and> g \<le> dexp (dmul a b)"
  using dmul_exact [of a b] by (auto simp: exact_product_on_def dmul_def dec_fix_small)

lemma fill_levels_pos:
  assumes "validate_shadow_fill f = Inr f"
  shows "sf_price_levels f \<noteq> []" "\<And>p q. (p, q) \<in> set (sf_price_levels f) \<Longrightarrow> 0 < dval p \<and> 0 < dval q"
  using assms unfolding validate_shadow_fill_def bindE_eq_Inr checkE_Inr
  by (auto simp: positive_levels_def list_ex_iff dle_iff not_le)

lemma sum_list_pos: "xs \<noteq> [] \<Longrightarrow> (\<And>x. x \<in> set xs \<Longrightarrow> 0 < f x) \<Longrightarrow> 0 < (\<Sum>x\<leftarrow>xs. (f x :: rat))"
proof (cases xs)
  case (Cons y ys)
  assume pos: "\<And>x. x \<in> set xs \<Longrightarrow> 0 < f x"
  have "0 \<le> (\<Sum>x\<leftarrow>ys. f x)"
  proof (rule sum_list_nonneg)
    fix z assume "z \<in> set (map f ys)"
    then obtain x where "x \<in> set xs" "z = f x" using Cons by auto
    with pos [of x] show "0 \<le> z" by simp
  qed
  with pos [of y] Cons show ?thesis by simp
qed simp

lemma fill_cash_pos: "validate_shadow_fill f = Inr f \<Longrightarrow> 0 < fill_cash f"
  unfolding fill_cash_def using fill_levels_pos [of f] by (intro sum_list_pos) (auto split: prod.splits)

lemma notional_exact:
  assumes "exact_fill g fees f" and "g \<le> 0" and "validate_shadow_fill f = Inr f"
    and "fill_cash f < 10 powi (28 + g)"
  shows "dval (notional_of (sf_price_levels f)) = fill_cash f" and "g \<le> dexp (notional_of (sf_price_levels f))"
proof -
  let ?xs = "map (\<lambda>(p, q). dmul p q) (sf_price_levels f)"
  note pos = fill_levels_pos(2) [OF assms(3)]
  have each: "dval (dmul p q) = dval p * dval q" "g \<le> dexp (dmul p q)" if "(p, q) \<in> set (sf_price_levels f)" for p q
    using assms(1) dmul_on_grid that by (auto simp: exact_fill_def)
  have vals: "(\<Sum>x\<leftarrow>?xs. dval x) = fill_cash f" "(\<Sum>x\<leftarrow>?xs. \<bar>dval x\<bar>) = fill_cash f"
    using each(1) pos unfolding fill_cash_def map_map
    by (auto intro!: arg_cong [of _ _ sum_list] map_cong split: prod.splits)
       (metis abs_of_pos mult_pos_pos)
  have "dval (foldl dadd dec0 ?xs) = dval dec0 + (\<Sum>x\<leftarrow>?xs. dval x) \<and> g \<le> dexp (foldl dadd dec0 ?xs)"
    using assms(2,4) each(2) vals by (intro foldl_dadd_exact) auto
  then show "dval (notional_of (sf_price_levels f)) = fill_cash f" "g \<le> dexp (notional_of (sf_price_levels f))"
    unfolding vals by (simp_all add: notional_of_def dsum_def)
qed

section \<open>What the loop over the fills leaves\<close>

definition fills_of :: "side \<Rightarrow> (shadow_event \<times> shadow_fill) list \<Rightarrow> shadow_fill list" where
  "fills_of s efs = filter (\<lambda>f. sf_side f = s) (map snd efs)"

definition amounts :: "(shadow_fill \<Rightarrow> dec) \<Rightarrow> shadow_fill list \<Rightarrow> (int, dec) dict" where
  "amounts h fs = map (\<lambda>f. (sf_leg_index f, dadd dec0 (h f))) fs"

definition fill_notional :: "shadow_fill \<Rightarrow> dec" where
  "fill_notional f = notional_of (sf_price_levels f)"

definition booked :: "(shadow_event \<times> shadow_fill) list \<Rightarrow> booking \<Rightarrow> bool" where
  "booked efs b \<longleftrightarrow>
     bo_acquisition_costs b = amounts fill_notional (fills_of Buy efs) \<and>
     bo_acquisition_quantities b = amounts sf_quantity (fills_of Buy efs) \<and>
     bo_sale_proceeds b = amounts fill_notional (fills_of Sell efs) \<and>
     bo_sale_quantities b = amounts sf_quantity (fills_of Sell efs) \<and>
     bo_seen_fills b = map (\<lambda>(_, f). (sf_leg_index f, sf_side f)) efs \<and>
     distinct (map (\<lambda>(_, f). (sf_leg_index f, sf_side f)) efs)"

lemma update_fresh: "k \<notin> set (map fst d) \<Longrightarrow> AList.update k v d = d @ [(k, v)]"
  by (induction d) auto

lemma dict_add_fresh: "k \<notin> set (map fst d) \<Longrightarrow> dict_add k v d = d @ [(k, dadd dec0 v)]"
proof -
  assume k: "k \<notin> set (map fst d)"
  then have "map_of d k = None" by (simp add: map_of_eq_None_iff)
  with k show ?thesis by (simp add: dict_add_def dict_amount_def update_fresh)
qed

lemma keys_amounts: "set (map fst (amounts h fs)) = sf_leg_index ` set fs"
  by (auto simp: amounts_def)

lemma fills_of_snoc: "fills_of s (efs @ [(e, f)]) = fills_of s efs @ (if sf_side f = s then [f] else [])"
  by (simp add: fills_of_def)

lemma booked_step:
  assumes "booked efs b" and "(sf_leg_index f, sf_side f) \<notin> set (bo_seen_fills b)"
  shows "booked (efs @ [(e, f)]) ((booked_amounts f b)\<lparr>bo_postings := ps\<rparr>)"
proof -
  have fresh: "sf_leg_index f \<notin> set (map fst (amounts h (fills_of (sf_side f) efs)))" for h
    unfolding keys_amounts using assms by (auto simp: fills_of_def booked_def image_iff split: prod.splits)
  show ?thesis
    using assms fresh
    by (cases "sf_side f") (auto simp: booked_def booked_amounts_def Let_def fills_of_snoc dict_add_fresh
        amounts_def fill_notional_def simp del: map_map)
qed

lemma book_one_pair: "book_one D plan fees b (e, f) = book_fill D plan fees e b f"
  by (simp add: book_one_def)

lemma booked_loop:
  "foldE (book_one D plan fees) empty_booking efs = Inr b \<Longrightarrow> booked efs b"
proof (induction efs arbitrary: b rule: rev_induct)
  case Nil
  then show ?case by (auto simp: booked_def empty_booking_def amounts_def fills_of_def)
next
  case (snoc ef efs)
  obtain e f where ef: "ef = (e, f)" by (cases ef)
  from snoc.prems ef obtain b1 where b1: "foldE (book_one D plan fees) empty_booking efs = Inr b1"
    and one: "book_fill D plan fees e b1 f = Inr b"
    by (auto simp: foldE_append bindE_eq_Inr book_one_pair)
  with snoc.IH [OF b1] show ?case
    by (auto simp: ef book_fill_Inr intro: booked_step)
qed

text \<open>Every fill of an accepted loop was valid, planned, priced and within its limits.\<close>

definition fill_accepted :: "shadow_plan \<Rightarrow> (int, fee_rate) dict \<Rightarrow> shadow_fill \<Rightarrow> bool" where
  "fill_accepted plan fees f \<longleftrightarrow> validate_shadow_fill f = Inr f \<and>
     (\<exists>leg rate. map_of (leg_table plan) (sf_leg_index f) = Some leg \<and> map_of fees (sf_leg_index f) = Some rate \<and>
        (sf_side f = Buy \<longrightarrow> validate_buy_against_limits f (sl_limit_price_levels leg) (sl_max_quantity leg) = Inr ()))"

lemma fills_accepted:
  "foldE (book_one D plan fees) b0 efs = Inr b \<Longrightarrow> (e, f) \<in> set efs \<Longrightarrow> fill_accepted plan fees f"
proof (induction efs arbitrary: b0)
  case Nil
  then show ?case by simp
next
  case (Cons ef efs)
  then show ?case
    by (auto simp: bindE_eq_Inr book_one_def book_fill_Inr fill_accepted_def)
qed

section \<open>Account totals of the loop\<close>

definition fill_net :: "(int, fee_rate) dict \<Rightarrow> paper_account \<Rightarrow> shadow_fill \<Rightarrow> rat" where
  "fill_net fees a f =
     (case a of Fees_paid \<Rightarrow> - fill_fee fees f
      | Venue_position \<Rightarrow> (if sf_side f = Buy then - fill_cash f else fill_cash f)
      | Venue_cash \<Rightarrow> (if sf_side f = Buy then fill_cash f else - fill_cash f) + fill_fee fees f
      | _ \<Rightarrow> 0)"

lemma booked_postings_totals:
  assumes "booked_postings D e leg rate f ps = Inr ps'" and "map_of fees (sf_leg_index f) = Some rate"
    and "exact_fill g fees f" and "g \<le> 0" and "validate_shadow_fill f = Inr f"
    and "fill_cash f < 10 powi (28 + g)" and "0 \<le> dval (fr_taker_rate rate)"
  shows "account_net a ps' = account_net a ps + fill_net fees a f"
    and "account_gross Fees_paid ps' = account_gross Fees_paid ps + fill_fee fees f"
    and "a \<in> {Reserve, Opportunity_cost} \<Longrightarrow> account_gross a ps' = account_gross a ps"
    and "postings_on_grid g ps \<Longrightarrow> postings_on_grid g ps'"
proof -
  let ?n = "notional_of (sf_price_levels f)" let ?fee = "dmul ?n (fr_taker_rate rate)"
  note n = notional_exact [OF assms(3-6)]
  have fee: "dval ?fee = fill_fee fees f" "g \<le> dexp ?fee"
    using dmul_on_grid [of g ?n "fr_taker_rate rate"] assms(2,3) n(1)
    by (auto simp: exact_fill_def fill_rate_def fill_fee_def)
  have fee0: "0 \<le> fill_fee fees f" and cash: "0 < fill_cash f"
    using fill_cash_pos [OF assms(5)] assms(2,7) by (auto simp: fill_fee_def fill_rate_def)
  obtain ps1 where
    1: "(if sf_side f = Buy
         then add_pair D e (sl_venue leg) Venue_position Venue_cash ?n (''buy leg '' @ leg_text (sf_leg_index f)) ps
         else add_pair D e (sl_venue leg) Venue_cash Venue_position ?n (''sell leg '' @ leg_text (sf_leg_index f)) ps) = Inr ps1"
    and 2: "(if dlt dec0 ?fee then add_pair D e (sl_venue leg) Fees_paid Venue_cash ?fee
         (''taker fee leg '' @ leg_text (sf_leg_index f) @ '' '' @ side_value (sf_side f)) ps1 else Inr ps1) = Inr ps'"
    using assms(1) by (auto simp only: booked_postings_def Let_def bindE_eq_Inr)
  have first: "account_net a ps1 = account_net a ps +
      (if a = Venue_position then (if sf_side f = Buy then - fill_cash f else fill_cash f) else 0) +
      (if a = Venue_cash then (if sf_side f = Buy then fill_cash f else - fill_cash f) else 0)"
    "account_gross Fees_paid ps1 = account_gross Fees_paid ps"
    "a \<in> {Reserve, Opportunity_cost} \<Longrightarrow> account_gross a ps1 = account_gross a ps"
    "postings_on_grid g ps \<Longrightarrow> postings_on_grid g ps1" for a
    using 1 n assms(4)
    by (auto simp: add_pair_totals(1,2) dest: add_pair_totals(3) [of _ _ _ _ _ _ _ _ _ g] split: if_splits)
  have second: "account_net a ps' = account_net a ps1 +
      (if a = Fees_paid then - fill_fee fees f else 0) + (if a = Venue_cash then fill_fee fees f else 0)"
    "account_gross Fees_paid ps' = account_gross Fees_paid ps1 + fill_fee fees f"
    "a \<in> {Reserve, Opportunity_cost} \<Longrightarrow> account_gross a ps' = account_gross a ps1"
    "postings_on_grid g ps1 \<Longrightarrow> postings_on_grid g ps'" for a
    using 2 fee fee0 assms(4)
    by (auto simp: add_pair_totals(1,2) dlt_iff dest: add_pair_totals(3) [of _ _ _ _ _ _ _ _ _ g] split: if_splits)
  show "account_net a ps' = account_net a ps + fill_net fees a f"
    using first(1) second(1) by (simp add: fill_net_def split: paper_account.splits)
  show "account_gross Fees_paid ps' = account_gross Fees_paid ps + fill_fee fees f"
    using first(2) second(2) by simp
  show "a \<in> {Reserve, Opportunity_cost} \<Longrightarrow> account_gross a ps' = account_gross a ps"
    using first(3) [of a] second(3) [of a] by simp
  show "postings_on_grid g ps \<Longrightarrow> postings_on_grid g ps'" using first(4) second(4) by simp
qed

text \<open>
  The amounts of a history are exact on the grid of step \<open>10 ^ g\<close>: every fill is, its
  quantity fits and so does the payout it could earn, and all of them together stay in range.
\<close>

definition exact_history :: "int \<Rightarrow> shadow_plan \<Rightarrow> (int, fee_rate) dict \<Rightarrow> (shadow_event \<times> shadow_fill) list \<Rightarrow> bool" where
  "exact_history g plan fees efs \<longleftrightarrow> g \<le> 0 \<and>
     (\<forall>(_, f) \<in> set efs. exact_fill g fees f \<and> fits g (sf_quantity f) \<and>
        exact_product_on g (dadd dec0 (sf_quantity f)) (pl_minimum_basket_payout plan)) \<and>
     (\<Sum>(_, f)\<leftarrow>efs. fill_cash f + fill_fee fees f + dval (sf_quantity f) * dval (pl_minimum_basket_payout plan))
       < 10 powi (28 + g)"

definition cash_total :: "shadow_fill list \<Rightarrow> rat" where
  "cash_total fs = (\<Sum>f\<leftarrow>fs. fill_cash f)"

definition fee_total :: "(int, fee_rate) dict \<Rightarrow> shadow_fill list \<Rightarrow> rat" where
  "fee_total fees fs = (\<Sum>f\<leftarrow>fs. fill_fee fees f)"

lemma sum_list_member_le:
  "x \<in> set xs \<Longrightarrow> (\<And>y. y \<in> set xs \<Longrightarrow> 0 \<le> h y) \<Longrightarrow> (h x :: rat) \<le> (\<Sum>y\<leftarrow>xs. h y)"
proof (induction xs)
  case Nil
  then show ?case by simp
next
  case (Cons z zs)
  have "0 \<le> (\<Sum>y\<leftarrow>zs. h y)"
    using Cons.prems(2) by (intro sum_list_nonneg) auto
  with Cons show ?case by (cases "x = z") (auto intro: add_increasing)
qed

lemma fills_of_total: "(\<Sum>f\<leftarrow>fills_of Buy efs. h f) + (\<Sum>f\<leftarrow>fills_of Sell efs. h f) = (\<Sum>f\<leftarrow>map snd efs. (h f :: rat))"
proof (induction efs)
  case Nil
  then show ?case by (simp add: fills_of_def)
next
  case (Cons ef efs)
  then show ?case by (cases "sf_side (snd ef)") (simp_all add: fills_of_def)
qed

lemma loop_totals:
  assumes "foldE (book_one D plan fees) empty_booking efs = Inr b"
    and "\<forall>(e, f) \<in> set efs. exact_fill g fees f \<and> fill_cash f < 10 powi (28 + g)" and "g \<le> 0"
    and "\<forall>i r. map_of fees i = Some r \<longrightarrow> 0 \<le> dval (fr_taker_rate r)"
  shows "account_net a (bo_postings b) = (\<Sum>f\<leftarrow>map snd efs. fill_net fees a f) \<and>
    account_gross Fees_paid (bo_postings b) = fee_total fees (map snd efs) \<and>
    (a \<in> {Reserve, Opportunity_cost} \<longrightarrow> account_gross a (bo_postings b) = 0) \<and> postings_on_grid g (bo_postings b)"
  using assms(1,2)
proof (induction efs arbitrary: b rule: rev_induct)
  case Nil
  then show ?case by (auto simp: empty_booking_def fee_total_def)
next
  case (snoc ef efs)
  obtain e f where ef: "ef = (e, f)" by (cases ef)
  from snoc.prems(1) ef obtain b1 where b1: "foldE (book_one D plan fees) empty_booking efs = Inr b1"
    and one: "book_fill D plan fees e b1 f = Inr b"
    by (auto simp: foldE_append bindE_eq_Inr book_one_pair)
  from one obtain leg rate ps where valid: "validate_shadow_fill f = Inr f"
    and rate: "map_of fees (sf_leg_index f) = Some rate"
    and ps: "booked_postings D e leg rate f (bo_postings b1) = Inr ps" "bo_postings b = ps"
    by (auto simp: book_fill_Inr)
  have f: "exact_fill g fees f" "fill_cash f < 10 powi (28 + g)"
    using snoc.prems(2) ef by auto
  note t = booked_postings_totals [OF ps(1) rate f(1) assms(3) valid f(2) assms(4) [rule_format, OF rate]]
  have "account_net a (bo_postings b1) = (\<Sum>f\<leftarrow>map snd efs. fill_net fees a f) \<and>
    account_gross Fees_paid (bo_postings b1) = fee_total fees (map snd efs) \<and>
    (a \<in> {Reserve, Opportunity_cost} \<longrightarrow> account_gross a (bo_postings b1) = 0) \<and> postings_on_grid g (bo_postings b1)"
    using snoc.prems(2) by (intro snoc.IH [OF b1]) auto
  with t ps(2) show ?case by (auto simp: ef fee_total_def)
qed

text \<open>Summing a dictionary's values over any list of keys that covers it.\<close>

lemma sum_over_keys:
  assumes "distinct ks" and "distinct (map fst d)" and "set (map fst d) \<subseteq> set ks"
  shows "(\<Sum>k\<leftarrow>ks. dval (dict_amount d k)) = (\<Sum>(_, v)\<leftarrow>d. dval v)"
proof -
  have "(\<Sum>k\<leftarrow>ks. dval (dict_amount d k)) = (\<Sum>k\<in>set ks. dval (dict_amount d k))"
    using assms(1) by (simp add: sum_list_distinct_conv_sum_set)
  also have "\<dots> = (\<Sum>k\<in>set (map fst d). dval (dict_amount d k))"
    using assms(3) by (intro sum.mono_neutral_right)
      (force simp: dict_amount_def split: option.splits dest!: map_of_SomeD)+
  also have "\<dots> = (\<Sum>k\<leftarrow>map fst d. dval (dict_amount d k))"
    using assms(2) by (rule sum_list_distinct_conv_sum_set [symmetric])
  also have "\<dots> = (\<Sum>(k, v)\<leftarrow>d. dval v)"
    using assms(2) unfolding map_map
    by (intro arg_cong [of _ _ sum_list] map_cong refl) (auto simp: dict_amount_def map_of_eq_Some_iff)
  finally show ?thesis .
qed

text \<open>A sum kept in the ledger's rounded arithmetic is exact while it stays on the grid.\<close>

lemma dadd_dec0_fits: "fits g x \<Longrightarrow> g \<le> 0 \<Longrightarrow> dval (dadd dec0 x) = dval x \<and> g \<le> dexp (dadd dec0 x)"
  using dadd_exact [of g dec0 x] by (simp add: fits_def)

lemma net_credit_exact:
  assumes "postings_on_grid g ps" and "account_gross a ps < 10 powi (28 + g)" and "g \<le> 0"
  shows "dval (net_credit ps a) = account_net a ps" and "g \<le> dexp (net_credit ps a)"
    and "\<bar>dval (net_credit ps a)\<bar> \<le> account_gross a ps"
proof -
  let ?qs = "filter (\<lambda>p. pp_account p = a) ps"
  let ?xs = "map (\<lambda>p. dsub (pp_credit_usd p) (pp_debit_usd p)) ?qs"
  have each: "dval (dsub (pp_credit_usd p) (pp_debit_usd p)) = posting_net p \<and>
      g \<le> dexp (dsub (pp_credit_usd p) (pp_debit_usd p))" if "p \<in> set ?qs" for p
  proof -
    have "\<bar>posting_net p\<bar> \<le> account_gross a ps"
      unfolding account_gross_def using that by (intro sum_list_member_le) auto
    then show ?thesis
      using assms(1,2) that dsub_exact [of g "pp_credit_usd p" "pp_debit_usd p"]
      by (auto simp: postings_on_grid_def posting_net_def fits_def)
  qed
  then have vals: "(\<Sum>x\<leftarrow>?xs. dval x) = account_net a ps" "(\<Sum>x\<leftarrow>?xs. \<bar>dval x\<bar>) = account_gross a ps"
    unfolding account_net_def account_gross_def map_map
    by (auto intro!: arg_cong [of _ _ sum_list] map_cong)
  have "dval (foldl dadd dec0 ?xs) = dval dec0 + (\<Sum>x\<leftarrow>?xs. dval x) \<and> g \<le> dexp (foldl dadd dec0 ?xs)"
    using assms(2,3) each vals(2) by (intro foldl_dadd_exact) auto
  then show net: "dval (net_credit ps a) = account_net a ps" and "g \<le> dexp (net_credit ps a)"
    unfolding vals(1) by (simp_all add: net_credit_def dsum_def)
  have "\<bar>account_net a ps\<bar> \<le> account_gross a ps"
    unfolding account_net_def account_gross_def
    using sum_list_abs [of "map posting_net ?qs"] by (simp add: comp_def)
  then show "\<bar>dval (net_credit ps a)\<bar> \<le> account_gross a ps" by (simp only: net)
qed

section \<open>Closing the positions\<close>

lemma dminus_exact: "dcoef a < 10 ^ 28 \<Longrightarrow> dval (dminus a) = - dval a \<and> dexp (dminus a) = dexp a"
  by (auto simp: dminus_def dec_fix_small dval_def dsigned_def)

definition outcome_accounts :: "paper_account set" where
  "outcome_accounts = {Reserve, Opportunity_cost, Fees_paid}"

lemma close_legs_totals:
  assumes "foldE (close_completed_leg D plan t costs) ps ks = Inr ps'"
  shows "account_net a ps' = account_net a ps + (if a = Venue_position then (\<Sum>k\<leftarrow>ks. dval (dict_amount costs k)) else 0)"
    and "a \<in> outcome_accounts \<Longrightarrow> account_gross a ps' = account_gross a ps"
    and "(\<And>k. k \<in> set ks \<Longrightarrow> g \<le> dexp (dict_amount costs k)) \<Longrightarrow> g \<le> 0 \<Longrightarrow> postings_on_grid g ps \<Longrightarrow> postings_on_grid g ps'"
proof -
  have "account_net a ps' = account_net a ps + (if a = Venue_position then (\<Sum>k\<leftarrow>ks. dval (dict_amount costs k)) else 0) \<and>
    (a \<in> outcome_accounts \<longrightarrow> account_gross a ps' = account_gross a ps) \<and>
    ((\<forall>k \<in> set ks. g \<le> dexp (dict_amount costs k)) \<longrightarrow> g \<le> 0 \<longrightarrow> postings_on_grid g ps \<longrightarrow> postings_on_grid g ps')"
    using assms
  proof (induction ks arbitrary: ps)
    case Nil
    then show ?case by simp
  next
    case (Cons k ks)
    then obtain ps1 where 1: "close_completed_leg D plan t costs ps k = Inr ps1"
      and 2: "foldE (close_completed_leg D plan t costs) ps1 ks = Inr ps'"
      by (auto simp: bindE_eq_Inr)
    note 1 = 1 [unfolded close_completed_leg_def]
    show ?case
      using Cons.IH [OF 2] add_posting_totals(1,2) [OF 1] add_posting_totals(3) [OF 1, of g]
      by (auto simp: outcome_accounts_def)
  qed
  then show "account_net a ps' = account_net a ps + (if a = Venue_position then (\<Sum>k\<leftarrow>ks. dval (dict_amount costs k)) else 0)"
    "a \<in> outcome_accounts \<Longrightarrow> account_gross a ps' = account_gross a ps"
    "(\<And>k. k \<in> set ks \<Longrightarrow> g \<le> dexp (dict_amount costs k)) \<Longrightarrow> g \<le> 0 \<Longrightarrow> postings_on_grid g ps \<Longrightarrow> postings_on_grid g ps'"
    by blast+
qed

definition outcome_net :: "paper_posting list \<Rightarrow> rat" where
  "outcome_net ps = account_net Reserve ps + account_net Opportunity_cost ps"

definition outcome_gross :: "paper_posting list \<Rightarrow> rat" where
  "outcome_gross ps = account_gross Reserve ps + account_gross Opportunity_cost ps"

lemma post_residual_totals:
  assumes "post_residual D t r ps = Inr ps'" and "dcoef r < 10 ^ 28"
  shows "outcome_net ps' = outcome_net ps + dval r"
    and "outcome_gross ps' = outcome_gross ps + \<bar>dval r\<bar>"
    and "a \<in> {Fees_paid, Venue_position} \<Longrightarrow> account_net a ps' = account_net a ps"
    and "account_gross Fees_paid ps' = account_gross Fees_paid ps"
    and "g \<le> dexp r \<Longrightarrow> g \<le> 0 \<Longrightarrow> postings_on_grid g ps \<Longrightarrow> postings_on_grid g ps'"
  using assms(1) dminus_exact [OF assms(2)]
  by (auto simp: post_residual_def outcome_net_def outcome_gross_def dlt_iff add_posting_totals(1,2)
      dest: add_posting_totals(3) [of _ _ _ _ _ _ _ _ _ g] split: if_splits)

lemma post_aggregate_totals:
  assumes "post_aggregate D t (ps, r) = Inr ps'" and "dcoef r < 10 ^ 28"
  shows "outcome_net ps' = outcome_net ps - dval r"
    and "outcome_gross ps' = outcome_gross ps + \<bar>dval r\<bar>"
    and "a \<in> {Fees_paid, Venue_position} \<Longrightarrow> account_net a ps' = account_net a ps"
    and "account_gross Fees_paid ps' = account_gross Fees_paid ps"
    and "g \<le> dexp r \<Longrightarrow> g \<le> 0 \<Longrightarrow> postings_on_grid g ps \<Longrightarrow> postings_on_grid g ps'"
  using assms(1) dminus_exact [OF assms(2)]
  by (auto simp: post_aggregate_def outcome_net_def outcome_gross_def dlt_iff add_posting_totals(1,2)
      dest: add_posting_totals(3) [of _ _ _ _ _ _ _ _ _ g] split: if_splits)

definition leg_residual :: "(int, dec) dict \<Rightarrow> (int, dec) dict \<Rightarrow> int \<Rightarrow> dec" where
  "leg_residual costs proceeds k = dsub (dict_amount costs k) (dict_amount proceeds k)"

lemma close_residuals_totals:
  assumes "foldE (close_residual_leg D plan t costs proceeds) (ps, acc) ks = Inr (ps', acc')"
  shows "acc' = foldl dadd acc (map (leg_residual costs proceeds) ks)"
    and "account_net a ps' = account_net a ps +
      (if a = Venue_position then (\<Sum>k\<leftarrow>ks. dval (leg_residual costs proceeds k)) else 0)"
    and "a \<in> outcome_accounts \<Longrightarrow> account_gross a ps' = account_gross a ps"
    and "(\<And>k. k \<in> set ks \<Longrightarrow> g \<le> dexp (leg_residual costs proceeds k)) \<Longrightarrow> g \<le> 0 \<Longrightarrow> postings_on_grid g ps \<Longrightarrow> postings_on_grid g ps'"
proof -
  have "acc' = foldl dadd acc (map (leg_residual costs proceeds) ks) \<and>
    account_net a ps' = account_net a ps +
      (if a = Venue_position then (\<Sum>k\<leftarrow>ks. dval (leg_residual costs proceeds k)) else 0) \<and>
    (a \<in> outcome_accounts \<longrightarrow> account_gross a ps' = account_gross a ps) \<and>
    ((\<forall>k \<in> set ks. g \<le> dexp (leg_residual costs proceeds k)) \<longrightarrow> g \<le> 0 \<longrightarrow> postings_on_grid g ps \<longrightarrow> postings_on_grid g ps')"
    using assms
  proof (induction ks arbitrary: ps acc)
    case Nil
    then show ?case by simp
  next
    case (Cons k ks)
    let ?r = "leg_residual costs proceeds k"
    from Cons.prems obtain ps1 acc1 where 1: "close_residual_leg D plan t costs proceeds (ps, acc) k = Inr (ps1, acc1)"
      and 2: "foldE (close_residual_leg D plan t costs proceeds) (ps1, acc1) ks = Inr (ps', acc')"
      by (auto simp: bindE_eq_Inr)
    have small: "dcoef ?r < 10 ^ 28" unfolding leg_residual_def by (rule dsub_digits)
    have step: "acc1 = dadd acc ?r"
      "account_net a ps1 = account_net a ps + (if a = Venue_position then dval ?r else 0)"
      "a \<in> outcome_accounts \<Longrightarrow> account_gross a ps1 = account_gross a ps"
      "g \<le> dexp ?r \<Longrightarrow> g \<le> 0 \<Longrightarrow> postings_on_grid g ps \<Longrightarrow> postings_on_grid g ps1"
      using 1 dminus_exact [OF small]
      by (auto simp: close_residual_leg_def Let_def bindE_eq_Inr dlt_iff add_posting_totals(1,2) outcome_accounts_def
          leg_residual_def [symmetric] dest: add_posting_totals(3) [of _ _ _ _ _ _ _ _ _ g] split: if_splits)
    show ?case
      using Cons.IH [OF 2] step by auto
  qed
  then show "acc' = foldl dadd acc (map (leg_residual costs proceeds) ks)"
    "account_net a ps' = account_net a ps +
      (if a = Venue_position then (\<Sum>k\<leftarrow>ks. dval (leg_residual costs proceeds k)) else 0)"
    "a \<in> outcome_accounts \<Longrightarrow> account_gross a ps' = account_gross a ps"
    "(\<And>k. k \<in> set ks \<Longrightarrow> g \<le> dexp (leg_residual costs proceeds k)) \<Longrightarrow> g \<le> 0 \<Longrightarrow> postings_on_grid g ps \<Longrightarrow> postings_on_grid g ps'"
    by blast+
qed

section \<open>What the lifecycle allows\<close>

lemma terminal_has_first_event:
  assumes "derive_current_state es = Inr s" and "\<And>e. e \<in> set es \<Longrightarrow> validate_shadow_event e = Inr e"
    and "t \<in> set es" and "execution_terminal (se_to_state t)"
  obtains e where "find (\<lambda>e. se_to_state e = First_leg_simulated) es = Some e"
proof -
  obtain n where run: "shadow_run n es s"
    using assms(1) derive_current_state_run [of es s] assms(2) by blast
  have len: "length es = n" using shadow_run_length [OF run] by simp
  from assms(3) obtain i where i: "i < n" "t = es ! i" using len by (auto simp: in_set_conv_nth)
  have "i = 5" using shadow_run_ranks [OF run i(1)] assms(4) i(2) by (auto simp: execution_terminal_def)
  with i(1) have "4 < n" by simp
  then have "state_rank (se_to_state (es ! 4)) = 4" using shadow_run_ranks [OF run] by blast
  then have "se_to_state (es ! 4) = First_leg_simulated" by (cases "se_to_state (es ! 4)") simp_all
  moreover have "es ! 4 \<in> set es" using \<open>4 < n\<close> len by simp
  ultimately have "find (\<lambda>e. se_to_state e = First_leg_simulated) es \<noteq> None"
    by (auto simp: find_None_iff)
  then show ?thesis using that by blast
qed

lemma lifecycle_Inr:
  assumes "validate_fill_lifecycle plan events terminal buys sells = Inr u"
  shows "\<And>e. e \<in> set events \<Longrightarrow> lifecycle_event_ok terminal e = Inr ()"
    and "set (map fst sells) \<subseteq> set (map fst buys)"
    and "find (\<lambda>e. se_to_state e = First_leg_simulated) events = Some e \<Longrightarrow>
      (\<forall>c \<in> set (first_event_checks e (sl_leg_index (first_leg plan)) terminal buys). \<not> fst c) \<and>
      (\<forall>c \<in> set (inventory_checks plan buys sells). \<not> fst c) \<and>
      (\<forall>t. terminal = Some t \<longrightarrow> (\<forall>c \<in> set (terminal_checks plan (se_to_state t) buys sells). \<not> fst c))"
proof -
  from assms have "\<exists>us. mapE (lifecycle_event_ok terminal) events = Inr us"
    by (auto simp: validate_fill_lifecycle_def bindE_eq_Inr)
  then have "\<exists>u. lifecycle_event_ok terminal e = Inr u" if "e \<in> set events" for e
    using that by (auto simp: mapE_Inr dest!: list_all2_right)
  then show "lifecycle_event_ok terminal e = Inr ()" if "e \<in> set events" for e
    using that by simp
  show later: "find (\<lambda>e. se_to_state e = First_leg_simulated) events = Some e \<Longrightarrow>
      (\<forall>c \<in> set (first_event_checks e (sl_leg_index (first_leg plan)) terminal buys). \<not> fst c) \<and>
      (\<forall>c \<in> set (inventory_checks plan buys sells). \<not> fst c) \<and>
      (\<forall>t. terminal = Some t \<longrightarrow> (\<forall>c \<in> set (terminal_checks plan (se_to_state t) buys sells). \<not> fst c))" for e
    using assms by (auto simp: validate_fill_lifecycle_def bindE_eq_Inr checkE_Inr split: option.splits)
  show "set (map fst sells) \<subseteq> set (map fst buys)"
  proof (cases "find (\<lambda>e. se_to_state e = First_leg_simulated) events")
    case None
    with assms show ?thesis
      by (auto simp: validate_fill_lifecycle_def bindE_eq_Inr split: if_splits)
  next
    case (Some e)
    then have "\<forall>c \<in> set (inventory_checks plan buys sells). \<not> fst c" using later by blast
    then show ?thesis by (auto simp: inventory_checks_def Let_def)
  qed
qed

section \<open>The profit of a finished proposal\<close>

lemma amounts_distinct:
  "booked efs b \<Longrightarrow> distinct (map fst (amounts h (fills_of s efs)))"
proof -
  assume "booked efs b"
  then have d: "distinct (map (\<lambda>(_, f). (sf_leg_index f, sf_side f)) efs)" by (simp add: booked_def)
  have "distinct (map (\<lambda>(_, f). (sf_leg_index f, sf_side f)) es) \<Longrightarrow> distinct (map sf_leg_index (fills_of s es))" for es
    by (induction es) (auto simp: fills_of_def image_iff split: prod.splits if_splits)
  from this [OF d] show ?thesis by (simp add: amounts_def comp_def)
qed

lemma fills_of_set: "f \<in> set (fills_of s efs) \<longleftrightarrow> (\<exists>e. (e, f) \<in> set efs \<and> sf_side f = s)"
  by (force simp: fills_of_def)

text \<open>The bounds an exact history gives.\<close>

lemma exact_history_bounds:
  assumes "exact_history g plan fees efs" and "\<forall>(e, f) \<in> set efs. validate_shadow_fill f = Inr f"
    and "\<forall>i r. map_of fees i = Some r \<longrightarrow> 0 \<le> dval (fr_taker_rate r)"
    and "0 < dval (pl_minimum_basket_payout plan)"
  defines "payout \<equiv> (\<lambda>f. dval (sf_quantity f) * dval (pl_minimum_basket_payout plan))"
  shows "cash_total (map snd efs) + fee_total fees (map snd efs) + (\<Sum>f\<leftarrow>map snd efs. payout f) < 10 powi (28 + g)"
    and "\<forall>f \<in> set (map snd efs). 0 < fill_cash f \<and> 0 \<le> fill_fee fees f \<and> 0 < payout f"
    and "0 \<le> cash_total (map snd efs)" and "0 \<le> fee_total fees (map snd efs)" and "0 \<le> (\<Sum>f\<leftarrow>map snd efs. payout f)"
    and "\<forall>(e, f) \<in> set efs. exact_fill g fees f \<and> fill_cash f < 10 powi (28 + g)"
proof -
  have "(\<Sum>(_, f)\<leftarrow>efs. fill_cash f + fill_fee fees f + payout f) =
      cash_total (map snd efs) + fee_total fees (map snd efs) + (\<Sum>f\<leftarrow>map snd efs. payout f)"
    by (induction efs) (auto simp: cash_total_def fee_total_def)
  then show sum: "cash_total (map snd efs) + fee_total fees (map snd efs) + (\<Sum>f\<leftarrow>map snd efs. payout f) < 10 powi (28 + g)"
    using assms(1) by (simp add: exact_history_def payout_def)
  have pos: "0 < fill_cash f \<and> 0 \<le> fill_fee fees f \<and> 0 < payout f" if "f \<in> set (map snd efs)" for f
  proof -
    from that obtain e where "(e, f) \<in> set efs" by auto
    then have v: "validate_shadow_fill f = Inr f" using assms(2) by auto
    have "0 \<le> dval (fill_rate fees f)" using assms(3) by (auto simp: fill_rate_def split: option.splits)
    moreover have "0 < dval (sf_quantity f)"
      using v unfolding validate_shadow_fill_def bindE_eq_Inr checkE_Inr by (auto simp: positive_decimal_iff)
    ultimately show ?thesis
      using fill_cash_pos [OF v] assms(4) by (simp add: fill_fee_def payout_def)
  qed
  then show "\<forall>f \<in> set (map snd efs). 0 < fill_cash f \<and> 0 \<le> fill_fee fees f \<and> 0 < payout f" by blast
  show nonneg: "0 \<le> cash_total (map snd efs)" "0 \<le> fee_total fees (map snd efs)" "0 \<le> (\<Sum>f\<leftarrow>map snd efs. payout f)"
    unfolding cash_total_def fee_total_def using pos by (force intro!: sum_list_nonneg)+
  have "exact_fill g fees f \<and> fill_cash f < 10 powi (28 + g)" if "(e, f) \<in> set efs" for e f
  proof -
    have mem: "f \<in> set (map snd efs)" using that by force
    have "fill_cash f \<le> cash_total (map snd efs)"
      unfolding cash_total_def using pos mem by (intro sum_list_member_le) (auto intro: less_imp_le)
    then have "fill_cash f < 10 powi (28 + g)"
      using sum nonneg by linarith
    with assms(1) that show ?thesis by (auto simp: exact_history_def)
  qed
  then show "\<forall>(e, f) \<in> set efs. exact_fill g fees f \<and> fill_cash f < 10 powi (28 + g)" by blast
qed

lemma amounts_exact:
  assumes "\<forall>f \<in> set fs. fits g (h f)" and "g \<le> 0"
  shows "(\<Sum>(_, v)\<leftarrow>amounts h fs. dval v) = (\<Sum>f\<leftarrow>fs. dval (h f))"
    and "(k, v) \<in> set (amounts h fs) \<Longrightarrow> g \<le> dexp v"
    and "g \<le> dexp (dict_amount (amounts h fs) k)"
proof -
  show "(\<Sum>(_, v)\<leftarrow>amounts h fs. dval v) = (\<Sum>f\<leftarrow>fs. dval (h f))"
    unfolding amounts_def map_map using dadd_dec0_fits [OF assms(1) [rule_format] assms(2)]
    by (intro arg_cong [of _ _ sum_list] map_cong refl) auto
  show grid: "g \<le> dexp v" if "(k, v) \<in> set (amounts h fs)" for k v
    using that dadd_dec0_fits [OF assms(1) [rule_format] assms(2)] by (auto simp: amounts_def)
  show "g \<le> dexp (dict_amount (amounts h fs) k)"
    using grid assms(2) by (auto simp: dict_amount_def split: option.splits dest: map_of_SomeD)
qed

text \<open>
  The setting of the closing lemmas: an accepted loop over fills whose amounts are exact.
\<close>

definition exact_booking ::
  "int \<Rightarrow> digests \<Rightarrow> shadow_plan \<Rightarrow> (int, fee_rate) dict \<Rightarrow> (shadow_event \<times> shadow_fill) list \<Rightarrow> booking \<Rightarrow> bool" where
  "exact_booking g D plan fees efs b \<longleftrightarrow> foldE (book_one D plan fees) empty_booking efs = Inr b \<and>
     exact_history g plan fees efs \<and> 0 < dval (pl_minimum_basket_payout plan) \<and>
     (\<forall>i r. map_of fees i = Some r \<longrightarrow> 0 \<le> dval (fr_taker_rate r))"

lemma exact_booking_facts:
  assumes "exact_booking g D plan fees efs b"
  shows "booked efs b" "g \<le> 0"
    "\<forall>f \<in> set (map snd efs). fits g (fill_notional f) \<and> dval (fill_notional f) = fill_cash f \<and> fits g (sf_quantity f)"
    "account_net a (bo_postings b) = (\<Sum>f\<leftarrow>map snd efs. fill_net fees a f)"
    "account_gross Fees_paid (bo_postings b) = fee_total fees (map snd efs)"
    "a \<in> {Reserve, Opportunity_cost} \<Longrightarrow> account_gross a (bo_postings b) = 0"
    "postings_on_grid g (bo_postings b)"
    "\<forall>(e, f) \<in> set efs. validate_shadow_fill f = Inr f"
proof -
  have loop: "foldE (book_one D plan fees) empty_booking efs = Inr b" and ex: "exact_history g plan fees efs"
    and pos: "0 < dval (pl_minimum_basket_payout plan)" "\<forall>i r. map_of fees i = Some r \<longrightarrow> 0 \<le> dval (fr_taker_rate r)"
    using assms by (auto simp: exact_booking_def)
  show "booked efs b" by (rule booked_loop [OF loop])
  show g: "g \<le> 0" using ex by (simp add: exact_history_def)
  show v: "\<forall>(e, f) \<in> set efs. validate_shadow_fill f = Inr f"
    using fills_accepted [OF loop] by (auto simp: fill_accepted_def)
  note bounds = exact_history_bounds [OF ex v pos(2) pos(1)]
  show "\<forall>f \<in> set (map snd efs). fits g (fill_notional f) \<and> dval (fill_notional f) = fill_cash f \<and> fits g (sf_quantity f)"
  proof
    fix f assume mem: "f \<in> set (map snd efs)"
    then obtain e where e: "(e, f) \<in> set efs" by auto
    have f: "exact_fill g fees f" "fill_cash f < 10 powi (28 + g)" "validate_shadow_fill f = Inr f"
      "fits g (sf_quantity f)" "0 < fill_cash f"
      using bounds(2,6) v ex e mem by (auto simp: exact_history_def)
    then show "fits g (fill_notional f) \<and> dval (fill_notional f) = fill_cash f \<and> fits g (sf_quantity f)"
      using notional_exact [OF f(1) g f(3,2)] by (simp add: fits_def fill_notional_def)
  qed
  note t = loop_totals [OF loop bounds(6) g pos(2)]
  show "account_net a (bo_postings b) = (\<Sum>f\<leftarrow>map snd efs. fill_net fees a f)"
    "account_gross Fees_paid (bo_postings b) = fee_total fees (map snd efs)"
    "a \<in> {Reserve, Opportunity_cost} \<Longrightarrow> account_gross a (bo_postings b) = 0"
    "postings_on_grid g (bo_postings b)"
    using t by auto
qed

lemma loop_position:
  "(\<Sum>f\<leftarrow>map snd efs. fill_net fees Venue_position f) =
     cash_total (fills_of Sell efs) - cash_total (fills_of Buy efs)"
proof (induction efs)
  case Nil
  then show ?case by (simp add: fills_of_def cash_total_def)
next
  case (Cons ef efs)
  then show ?case by (cases "sf_side (snd ef)") (simp_all add: fills_of_def cash_total_def fill_net_def)
qed

lemma loop_outcomes:
  "(\<Sum>f\<leftarrow>fs. fill_net fees Reserve f) = 0" "(\<Sum>f\<leftarrow>fs. fill_net fees Opportunity_cost f) = 0"
  "(\<Sum>f\<leftarrow>fs. fill_net fees Fees_paid f) = - fee_total fees fs"
  by (induction fs) (simp_all add: fill_net_def fee_total_def)

text \<open>What closing leaves: flat positions, the outcome booked, fees as the fills paid them.\<close>

definition closed_books ::
  "int \<Rightarrow> (int, fee_rate) dict \<Rightarrow> (shadow_event \<times> shadow_fill) list \<Rightarrow> rat \<Rightarrow> paper_posting list \<Rightarrow> bool" where
  "closed_books g fees efs outcome ps \<longleftrightarrow> account_net Venue_position ps = 0 \<and> outcome_net ps = outcome \<and>
     outcome_gross ps = \<bar>outcome\<bar> \<and> account_net Fees_paid ps = - fee_total fees (map snd efs) \<and>
     account_gross Fees_paid ps = fee_total fees (map snd efs) \<and> postings_on_grid g ps"

end
