(* ===== verification/Shadow_Profit.thy ===== *)
theory Shadow_Profit
  imports Shadow_Pnl
begin

text \<open>
  The closing of a finished proposal and the profit it reports: positions are flat, and the profit is
  the payout or the sales less the purchases and the fees.
\<close>

section \<open>Closing in exact arithmetic\<close>

lemma booking_sums:
  assumes "exact_booking g D plan fees efs b" and "d = amounts fill_notional (fills_of s efs)"
    and "distinct ks" and "sf_leg_index ` set (fills_of s efs) \<subseteq> set ks"
  shows "(\<Sum>k\<leftarrow>ks. dval (dict_amount d k)) = cash_total (fills_of s efs)"
    and "0 \<le> dval (dict_amount d k)" and "g \<le> dexp (dict_amount d k)"
    and "k \<in> set ks \<Longrightarrow> dval (dict_amount d k) \<le> cash_total (fills_of s efs)"
proof -
  note b = exact_booking_facts [OF assms(1)]
  have fit: "\<forall>f \<in> set (fills_of s efs). fits g (fill_notional f)"
    and val: "\<forall>f \<in> set (fills_of s efs). dval (fill_notional f) = fill_cash f \<and> 0 < fill_cash f"
    using b(3,8) fill_cash_pos by (force simp: fills_of_set)+
  have dist: "distinct (map fst d)" using amounts_distinct [OF b(1)] assms(2) by simp
  have keys: "set (map fst d) \<subseteq> set ks" using assms(2,4) by (simp only: keys_amounts)
  have "(\<Sum>(_, v)\<leftarrow>d. dval v) = cash_total (fills_of s efs)"
    unfolding assms(2) amounts_exact(1) [OF fit b(2)] cash_total_def
    using val by (intro arg_cong [of _ _ sum_list] map_cong) auto
  then show total: "(\<Sum>k\<leftarrow>ks. dval (dict_amount d k)) = cash_total (fills_of s efs)"
    using sum_over_keys [OF assms(3) dist keys] by simp
  have "\<forall>(k, v) \<in> set d. 0 \<le> dval v"
    using val dadd_dec0_fits [OF fit [rule_format] b(2)] by (auto simp: assms(2) amounts_def)
  then show nonneg: "0 \<le> dval (dict_amount d k)" for k
    by (auto simp: dict_amount_def split: option.splits dest: map_of_SomeD)
  show "g \<le> dexp (dict_amount d k)"
    unfolding assms(2) by (rule amounts_exact(3) [OF fit b(2)])
  show "dval (dict_amount d k) \<le> cash_total (fills_of s efs)" if "k \<in> set ks"
    unfolding total [symmetric] using that nonneg by (intro sum_list_member_le)
qed

lemma cash_total_sides: "cash_total (fills_of Buy efs) + cash_total (fills_of Sell efs) = cash_total (map snd efs)"
  unfolding cash_total_def by (rule fills_of_total)

lemma booked_nets:
  assumes "exact_booking g D plan fees efs b"
  shows "account_net Reserve (bo_postings b) = 0" "account_net Opportunity_cost (bo_postings b) = 0"
    "account_net Fees_paid (bo_postings b) = - fee_total fees (map snd efs)"
    "account_net Venue_position (bo_postings b) = cash_total (fills_of Sell efs) - cash_total (fills_of Buy efs)"
    "account_gross Reserve (bo_postings b) = 0" "account_gross Opportunity_cost (bo_postings b) = 0"
  unfolding exact_booking_facts(4) [OF assms] loop_outcomes loop_position
  using exact_booking_facts(6) [OF assms] by simp_all

lemma foldl_dadd_digits: "dcoef (foldl dadd dec0 xs) < 10 ^ 28"
proof (cases xs rule: rev_cases)
  case Nil
  then show ?thesis by simp
next
  case (snoc ys y)
  show ?thesis unfolding snoc foldl_append foldl.simps by (rule dadd_digits)
qed

lemma close_unfinished_closed:
  assumes "exact_booking g D plan fees efs b" and "close_unfinished D plan t b = Inr ps"
    and "sf_leg_index ` set (fills_of Sell efs) \<subseteq> sf_leg_index ` set (fills_of Buy efs)"
    and "cash_total (map snd efs) < 10 powi (28 + g)"
  shows "closed_books g fees efs (cash_total (fills_of Sell efs) - cash_total (fills_of Buy efs)) ps"
proof -
  note b = exact_booking_facts [OF assms(1)]
  let ?costs = "bo_acquisition_costs b" let ?proceeds = "bo_sale_proceeds b"
  let ?B = "cash_total (fills_of Buy efs)" let ?S = "cash_total (fills_of Sell efs)"
  define ks where "ks = sort (map fst ?costs)"
  have costs: "?costs = amounts fill_notional (fills_of Buy efs)" and
    proceeds: "?proceeds = amounts fill_notional (fills_of Sell efs)"
    using b(1) by (simp_all add: booked_def)
  have keys: "set ks = sf_leg_index ` set (fills_of Buy efs)"
    unfolding ks_def set_sort costs by (rule keys_amounts)
  have dist: "distinct ks"
    unfolding ks_def distinct_sort costs by (rule amounts_distinct [OF b(1)])
  note c = booking_sums [OF assms(1) costs dist] and p = booking_sums [OF assms(1) proceeds dist]
  have cover: "sf_leg_index ` set (fills_of Buy efs) \<subseteq> set ks" "sf_leg_index ` set (fills_of Sell efs) \<subseteq> set ks"
    using keys assms(3) by auto
  note c = c [OF cover(1)] and p = p [OF cover(2)]
  have each: "dval (leg_residual ?costs ?proceeds k) = dval (dict_amount ?costs k) - dval (dict_amount ?proceeds k) \<and>
      g \<le> dexp (leg_residual ?costs ?proceeds k)" if "k \<in> set ks" for k
  proof -
    have "\<bar>dval (dict_amount ?costs k) - dval (dict_amount ?proceeds k)\<bar> < 10 powi (28 + g)"
      using c(2) [of k] p(2) [of k] c(4) [OF that] p(4) [OF that] assms(4) cash_total_sides [of efs] by linarith
    then show ?thesis
      using dsub_exact [OF c(3) p(3)] by (auto simp: leg_residual_def fits_def)
  qed
  have vals: "(\<Sum>k\<leftarrow>ks. dval (leg_residual ?costs ?proceeds k)) = ?B - ?S"
    using each by (simp add: sum_list_subtractf [symmetric] c(1) [symmetric] p(1) [symmetric] cong: map_cong)
  have "(\<Sum>x\<leftarrow>map (leg_residual ?costs ?proceeds) ks. \<bar>dval x\<bar>) \<le>
      (\<Sum>k\<leftarrow>ks. dval (dict_amount ?costs k) + dval (dict_amount ?proceeds k))"
    unfolding map_map
  proof (rule sum_list_mono)
    fix k assume "k \<in> set ks"
    then show "((\<lambda>x. \<bar>dval x\<bar>) \<circ> leg_residual ?costs ?proceeds) k \<le> dval (dict_amount ?costs k) + dval (dict_amount ?proceeds k)"
      using each [of k] c(2) [of k] p(2) [of k] by simp
  qed
  also have "\<dots> < 10 powi (28 + g)"
    unfolding sum_list_addf c(1) p(1) using assms(4) cash_total_sides [of efs] by simp
  finally have small: "(\<Sum>x\<leftarrow>map (leg_residual ?costs ?proceeds) ks. \<bar>dval x\<bar>) < 10 powi (28 + g)" .
  from assms(2) obtain ps1 acc where
    1: "foldE (close_residual_leg D plan t ?costs ?proceeds) (bo_postings b, dec0) ks = Inr (ps1, acc)"
    and 2: "post_aggregate D t (ps1, acc) = Inr ps"
    unfolding close_unfinished_def ks_def by (auto simp: bindE_eq_Inr)
  note t1 = close_residuals_totals [OF 1]
  have acc: "dval acc = ?B - ?S" "g \<le> dexp acc"
    using foldl_dadd_exact [of g dec0 "map (leg_residual ?costs ?proceeds) ks"] small each b(2) vals t1(1)
    by (auto simp: comp_def)
  have "dcoef acc < 10 ^ 28"
    unfolding t1(1) by (rule foldl_dadd_digits)
  note t2 = post_aggregate_totals [OF 2 this]
  have grid: "postings_on_grid g ps"
    using t2(5) [of g] acc(2) b(2,7) t1(4) [of g] each by blast
  show ?thesis
    unfolding closed_books_def
    using t2(1-4) t1(2,3) booked_nets [OF assms(1)] b(5) acc(1) grid vals
    by (simp add: outcome_net_def outcome_gross_def outcome_accounts_def)
qed

definition payout_of :: "shadow_plan \<Rightarrow> shadow_fill \<Rightarrow> rat" where
  "payout_of plan f = dval (sf_quantity f) * dval (pl_minimum_basket_payout plan)"

lemma close_complete_closed:
  assumes "exact_booking g D plan fees efs b" and "close_complete D plan t b = Inr ps"
    and "fills_of Sell efs = []" and "fills_of Buy efs = f # fs"
    and "payout_of plan f + cash_total (map snd efs) < 10 powi (28 + g)"
  shows "closed_books g fees efs (payout_of plan f - cash_total (fills_of Buy efs)) ps"
proof -
  note b = exact_booking_facts [OF assms(1)]
  let ?costs = "bo_acquisition_costs b" let ?B = "cash_total (fills_of Buy efs)"
  let ?payout = "dmul (snd (hd (bo_acquisition_quantities b))) (pl_minimum_basket_payout plan)"
  let ?cost = "dsum (map snd ?costs)"
  define ks where "ks = sort (map fst ?costs)"
  have costs: "?costs = amounts fill_notional (fills_of Buy efs)"
    and quantity: "snd (hd (bo_acquisition_quantities b)) = dadd dec0 (sf_quantity f)"
    using b(1) assms(4) by (simp_all add: booked_def) (simp add: amounts_def)
  have keys: "set ks = sf_leg_index ` set (fills_of Buy efs)"
    unfolding ks_def set_sort costs by (rule keys_amounts)
  have dist: "distinct ks"
    unfolding ks_def distinct_sort costs by (rule amounts_distinct [OF b(1)])
  note c = booking_sums [OF assms(1) costs dist, unfolded keys, OF subset_refl]
  have f: "f \<in> set (map snd efs)"
    using assms(4) fills_of_set [of f Buy efs] by force
  have B: "?B = cash_total (map snd efs)"
    using cash_total_sides [of efs] assms(3) by (simp add: cash_total_def)
  have "exact_product_on g (dadd dec0 (sf_quantity f)) (pl_minimum_basket_payout plan)"
    using assms(1) f by (auto simp: exact_booking_def exact_history_def)
  then have payout: "dval ?payout = payout_of plan f" "g \<le> dexp ?payout"
    using dmul_on_grid dadd_dec0_fits [of g "sf_quantity f"] b(2,3) f
    unfolding quantity payout_of_def by auto
  have payout_pos: "0 \<le> payout_of plan f"
  proof -
    obtain e where "(e, f) \<in> set efs" using f by auto
    then have "validate_shadow_fill f = Inr f" using b(8) by auto
    then have "0 < dval (sf_quantity f)"
      unfolding validate_shadow_fill_def bindE_eq_Inr checkE_Inr by (auto simp: positive_decimal_iff)
    moreover have "0 < dval (pl_minimum_basket_payout plan)"
      using assms(1) by (simp add: exact_booking_def)
    ultimately show ?thesis by (simp add: payout_of_def)
  qed
  have fit: "\<forall>f \<in> set (fills_of Buy efs). fits g (fill_notional f)"
    and val: "\<forall>f \<in> set (fills_of Buy efs). dval (fill_notional f) = fill_cash f \<and> 0 < fill_cash f"
    using b(3,8) fill_cash_pos by (force simp: fills_of_set)+
  have vals: "(\<Sum>x\<leftarrow>map snd ?costs. dval x) = ?B" "(\<Sum>x\<leftarrow>map snd ?costs. \<bar>dval x\<bar>) = ?B"
    unfolding costs amounts_def cash_total_def map_map
    using val dadd_dec0_fits [OF fit [rule_format] b(2)]
    by (auto intro!: arg_cong [of _ _ sum_list] map_cong)
  have grid: "g \<le> dexp x" if "x \<in> set (map snd ?costs)" for x
    using that amounts_exact(2) [OF fit b(2)] costs by auto
  have "dval (foldl dadd dec0 (map snd ?costs)) = dval dec0 + (\<Sum>x\<leftarrow>map snd ?costs. dval x) \<and>
      g \<le> dexp (foldl dadd dec0 (map snd ?costs))"
  proof (rule foldl_dadd_exact [OF _ grid])
    show "g \<le> dexp dec0" using b(2) by simp
    show "\<bar>dval dec0\<bar> + (\<Sum>x\<leftarrow>map snd ?costs. \<bar>dval x\<bar>) < 10 powi (28 + g)"
      unfolding vals(2) using payout_pos assms(5) B by simp
  qed
  then have cost: "dval ?cost = ?B" "g \<le> dexp ?cost"
    unfolding vals(1) dsum_def by simp_all
  have nonneg: "0 \<le> ?B"
    unfolding cash_total_def using val by (intro sum_list_nonneg) auto
  have r: "dval (dsub ?payout ?cost) = payout_of plan f - ?B" "g \<le> dexp (dsub ?payout ?cost)"
    using dsub_exact [of g ?payout ?cost] payout cost payout_pos nonneg assms(5) B
    by (auto simp: fits_def)
  from assms(2) obtain ps1 ps2 where
    1: "add_posting D t None Venue_cash ?payout dec0 ''conservative proof-floor payout'' (bo_postings b) = Inr ps1"
    and 2: "foldE (close_completed_leg D plan t ?costs) ps1 ks = Inr ps2"
    and 3: "post_residual D t (dsub ?payout ?cost) ps2 = Inr ps"
    unfolding close_complete_def Let_def ks_def by (auto simp: bindE_eq_Inr)
  note t1 = add_posting_totals [OF 1] and t2 = close_legs_totals [OF 2] and t3 = post_residual_totals [OF 3 dsub_digits]
  have "postings_on_grid g ps1" using t1(3) [of g] payout(2) b(2,7) by simp
  then have "postings_on_grid g ps2" using t2(3) [of g] c(3) b(2) by blast
  then have grid: "postings_on_grid g ps" using t3(5) [of g] r(2) b(2) by blast
  show ?thesis
    unfolding closed_books_def
    using t3(1-4) t2(1,2) t1(1,2) booked_nets [OF assms(1)] b(5) c(1) r(1) grid assms(3)
    by (simp add: outcome_net_def outcome_gross_def outcome_accounts_def cash_total_def)
qed

text \<open>The profit read off closed books.\<close>

lemma pnl_of_closed_books:
  assumes "closed_books g fees efs outcome ps" and "g \<le> 0" and "0 \<le> fee_total fees (map snd efs)"
    and "\<bar>outcome\<bar> + fee_total fees (map snd efs) < 10 powi (28 + g)"
  shows "dval (dadd (dadd (net_credit ps Reserve) (net_credit ps Opportunity_cost)) (net_credit ps Fees_paid)) =
    outcome - fee_total fees (map snd efs)"
proof -
  let ?R = "net_credit ps Reserve" let ?O = "net_credit ps Opportunity_cost" let ?F = "net_credit ps Fees_paid"
  have gross_pos: "0 \<le> account_gross a ps" for a
    unfolding account_gross_def by (intro sum_list_nonneg) auto
  have c: "postings_on_grid g ps" "account_gross Reserve ps + account_gross Opportunity_cost ps = \<bar>outcome\<bar>"
    "account_net Reserve ps + account_net Opportunity_cost ps = outcome"
    "account_net Fees_paid ps = - fee_total fees (map snd efs)"
    "account_gross Fees_paid ps = fee_total fees (map snd efs)"
    using assms(1) by (simp_all add: closed_books_def outcome_net_def outcome_gross_def)
  have small: "account_gross Reserve ps < 10 powi (28 + g)" "account_gross Opportunity_cost ps < 10 powi (28 + g)"
    "account_gross Fees_paid ps < 10 powi (28 + g)"
    using c(2,5) assms(3,4) gross_pos [of Reserve] gross_pos [of Opportunity_cost] by linarith+
  note R = net_credit_exact [OF c(1) small(1) assms(2)] and O = net_credit_exact [OF c(1) small(2) assms(2)]
    and F = net_credit_exact [OF c(1) small(3) assms(2)]
  have "\<bar>dval ?R + dval ?O\<bar> < 10 powi (28 + g)"
    using R(1) O(1) c(3) assms(3,4) by linarith
  from dadd_exact [OF R(2) O(2) this] have RO: "dval (dadd ?R ?O) = outcome" "g \<le> dexp (dadd ?R ?O)"
    using R(1) O(1) c(3) by (simp_all add: fits_def)
  have "\<bar>dval (dadd ?R ?O) + dval ?F\<bar> < 10 powi (28 + g)"
    using RO(1) F(1) c(4) assms(3,4) by linarith
  from dadd_exact(1) [OF RO(2) F(2) this] show ?thesis
    using RO(1) F(1) c(4) by simp
qed

lemma accepted_exact_booking:
  assumes "postings_for_events D plan events fees = Inr ps" and "execution_terminal (se_to_state (last events))"
    and "exact_history g plan fees (event_fills events)"
  obtains b where "exact_booking g D plan fees (event_fills events) b"
    "close_terminal D plan (Some (last events)) b = Inr ps"
    "validate_fill_lifecycle plan events (Some (last events)) (bo_acquisition_quantities b) (bo_sale_quantities b) = Inr ()"
proof -
  from assms(1) obtain terminal b where r: "validate_shadow_plan plan = Inr plan"
    "validated_fees plan fees = Inr fees" "terminal_if_any events = Inr terminal"
    "foldE (book_event D plan fees) empty_booking events = Inr b"
    "validate_fill_lifecycle plan events terminal (bo_acquisition_quantities b) (bo_sale_quantities b) = Inr ()"
    "close_terminal D plan terminal b = Inr ps"
    by (rule postings_for_events_Inr)
  have "terminal_event events = Inr (last events)" by (rule finished_booking(4) [OF assms(1,2)])
  moreover have "last events \<in> set events" using terminal_event_Inr(1) [OF calculation] .
  ultimately have "terminal = Some (last events)"
    using terminal_if_any_Inr [OF r(3)] assms(2) by (cases terminal) auto
  moreover have "0 < dval (pl_minimum_basket_payout plan)"
    using r(1) unfolding validate_shadow_plan_def bindE_eq_Inr checkE_Inr
    by (auto simp: shadow_plan_fields_ok_def positive_decimal_iff)
  moreover have "0 \<le> dval (fr_taker_rate rate)" if "map_of fees i = Some rate" for i rate
    using validated_fees_Inr(3) [OF r(2) map_of_SomeD [OF that]]
    by (simp add: validate_fee_rate_def nonnegative_decimal_iff split: if_splits)
  ultimately show ?thesis
    using r(4-6) assms(3) by (intro that) (auto simp: exact_booking_def book_events_flat)
qed

lemma complete_fills:
  assumes "validate_fill_lifecycle plan events (Some t) (bo_acquisition_quantities b) (bo_sale_quantities b) = Inr ()"
    and "booked efs b" and "se_to_state t = Complete" and "validate_shadow_plan plan = Inr plan"
    and "find (\<lambda>e. se_to_state e = First_leg_simulated) events = Some e"
  shows "fills_of Sell efs = []" and "fills_of Buy efs \<noteq> []"
    and "sf_leg_index ` set (fills_of Buy efs) = set (map sl_leg_index (pl_legs plan))"
    and "\<forall>f \<in> set (fills_of Buy efs). dval (dadd dec0 (sf_quantity f)) = dval (dadd dec0 (sf_quantity (hd (fills_of Buy efs))))"
proof -
  have checks: "\<forall>c \<in> set (terminal_checks plan Complete (bo_acquisition_quantities b) (bo_sale_quantities b)). \<not> fst c"
    using lifecycle_Inr(3) [OF assms(1,5)] assms(3) by auto
  then have "bo_sale_quantities b = []"
    and keys: "set (map fst (bo_acquisition_quantities b)) = set (map sl_leg_index (pl_legs plan))"
    and common: "\<not> list_ex (\<lambda>(_, q). \<not> deq q (snd (hd (bo_acquisition_quantities b)))) (bo_acquisition_quantities b)"
    by (auto simp: terminal_checks_def)
  with assms(2) show "fills_of Sell efs = []" by (simp add: booked_def amounts_def)
  have buys: "bo_acquisition_quantities b = amounts sf_quantity (fills_of Buy efs)"
    using assms(2) by (simp add: booked_def)
  show legs: "sf_leg_index ` set (fills_of Buy efs) = set (map sl_leg_index (pl_legs plan))"
    using keys unfolding buys keys_amounts .
  have "2 \<le> length (pl_legs plan)"
    using assms(4) unfolding validate_shadow_plan_def bindE_eq_Inr checkE_Inr
    by (auto simp: shadow_plan_fields_ok_def)
  with legs show ne: "fills_of Buy efs \<noteq> []" by (cases "pl_legs plan") auto
  show "\<forall>f \<in> set (fills_of Buy efs). dval (dadd dec0 (sf_quantity f)) = dval (dadd dec0 (sf_quantity (hd (fills_of Buy efs))))"
  proof
    fix f assume "f \<in> set (fills_of Buy efs)"
    then have "(sf_leg_index f, dadd dec0 (sf_quantity f)) \<in> set (bo_acquisition_quantities b)"
      unfolding buys amounts_def by simp
    then have "deq (dadd dec0 (sf_quantity f)) (snd (hd (bo_acquisition_quantities b)))"
      using common by (auto simp only: list_ex_iff split: prod.splits)
    moreover have "snd (hd (bo_acquisition_quantities b)) = dadd dec0 (sf_quantity (hd (fills_of Buy efs)))"
      using ne unfolding buys amounts_def by (simp add: hd_map)
    ultimately show "dval (dadd dec0 (sf_quantity f)) = dval (dadd dec0 (sf_quantity (hd (fills_of Buy efs))))"
      by (simp add: deq_iff)
  qed
qed

text \<open>
  C20: the profit of a finished proposal is its cash flow. When the amounts of an accepted history fit
  28 digits on a common grid, closing leaves no open position, and the profit the ledger reports for
  its own booking is exactly the proof's payout floor on the common quantity (complete) or the
  proceeds of the sales (unwound or expired), less what the fills cost and the taker fees on every
  fill.
\<close>

theorem paper_profit_exact:
  assumes "postings_for_events D plan events fees = Inr ps"
    and "se_to_state (last events) \<in> {Complete, Unwound, Expired}"
    and "exact_history g plan fees (event_fills events)"
  defines "buys \<equiv> fills_of Buy (event_fills events)" and "sells \<equiv> fills_of Sell (event_fills events)"
  shows "account_net Venue_position ps = 0 \<and>
    (\<exists>r v. reconcile_proposal D set_order plan events ps fees = Inr r \<and>
       proposal_paper_pnl D ps r events = Inr (Some v) \<and>
       dval v = (if se_to_state (last events) = Complete then payout_of plan (hd buys) else cash_total sells) -
         cash_total buys - fee_total fees (map snd (event_fills events)))"
proof -
  let ?efs = "event_fills events" let ?t = "last events"
  let ?outcome = "(if se_to_state ?t = Complete then payout_of plan (hd buys) else cash_total sells) - cash_total buys"
  have final: "execution_terminal (se_to_state ?t)" using assms(2) by (auto simp: execution_terminal_def)
  obtain b where b: "exact_booking g D plan fees ?efs b" and close: "close_terminal D plan (Some ?t) b = Inr ps"
    and life: "validate_fill_lifecycle plan events (Some ?t) (bo_acquisition_quantities b) (bo_sale_quantities b) = Inr ()"
    by (rule accepted_exact_booking [OF assms(1) final assms(3)])
  note facts = exact_booking_facts [OF b] and done_ = finished_booking [OF assms(1) final]
  have pos: "0 < dval (pl_minimum_basket_payout plan)" "\<forall>i r. map_of fees i = Some r \<longrightarrow> 0 \<le> dval (fr_taker_rate r)"
    using b by (auto simp: exact_booking_def)
  note bounds = exact_history_bounds [OF assms(3) facts(8) pos(2) pos(1)]
  have sides: "cash_total buys + cash_total sells = cash_total (map snd ?efs)" "0 \<le> cash_total buys" "0 \<le> cash_total sells"
  proof -
    have "0 \<le> cash_total (fills_of s ?efs)" for s
      unfolding cash_total_def using bounds(2) by (intro sum_list_nonneg) (force simp: fills_of_set)
    then show "0 \<le> cash_total buys" "0 \<le> cash_total sells" by (simp_all add: buys_def sells_def)
    show "cash_total buys + cash_total sells = cash_total (map snd ?efs)"
      unfolding buys_def sells_def by (rule cash_total_sides)
  qed
  have books: "closed_books g fees ?efs ?outcome ps \<and> \<bar>?outcome\<bar> + fee_total fees (map snd ?efs) < 10 powi (28 + g)"
  proof (cases "se_to_state ?t = Complete")
    case True
    note ev = validated_owner_events_Inr [OF done_(2) [unfolded validated_events_def]]
    obtain s where "derive_current_state events = Inr s" using ev(6) by blast
    then obtain e where "find (\<lambda>e. se_to_state e = First_leg_simulated) events = Some e"
      using terminal_has_first_event [of events s ?t] ev(2,3) final by auto
    note cf = complete_fills [OF life facts(1) True done_(1) this]
    then obtain f fs where f: "fills_of Buy ?efs = f # fs" by (cases "fills_of Buy ?efs") auto
    have mem: "f \<in> set (map snd ?efs)" using f fills_of_set [of f Buy ?efs] by force
    have pay: "payout_of plan f \<le> (\<Sum>f\<leftarrow>map snd ?efs. dval (sf_quantity f) * dval (pl_minimum_basket_payout plan))"
      unfolding payout_of_def
    proof (rule sum_list_member_le [OF mem])
      show "0 \<le> dval (sf_quantity f) * dval (pl_minimum_basket_payout plan)" if "f \<in> set (map snd ?efs)" for f
        using bounds(2) that by (intro less_imp_le) blast
    qed
    have "0 < payout_of plan f" using bounds(2) mem unfolding payout_of_def by blast
    note pay = pay this
    have "closed_books g fees ?efs (payout_of plan f - cash_total (fills_of Buy ?efs)) ps"
      using close True f cf(1) pay bounds(1,4)
      by (intro close_complete_closed [OF b]) (auto simp: close_terminal_def)
    then show ?thesis
      using True f pay bounds(1,3-5) sides by (simp add: buys_def)
  next
    case False
    then have "close_unfinished D plan ?t b = Inr ps"
      using close assms(2) by (auto simp: close_terminal_def)
    moreover have "sf_leg_index ` set (fills_of Sell ?efs) \<subseteq> sf_leg_index ` set (fills_of Buy ?efs)"
      using lifecycle_Inr(2) [OF life] facts(1) unfolding booked_def by (metis keys_amounts)
    moreover have "cash_total (map snd ?efs) < 10 powi (28 + g)"
      using bounds(1,3-5) by linarith
    ultimately show ?thesis
      using False close_unfinished_closed [OF b] bounds(1,3-5) sides by (simp add: buys_def sells_def)
  qed
  obtain u where u: "dval u = 0"
    "reconcile_proposal D set_order plan events ps fees = Inr (own_reconciliation D plan ?t ps u)"
    by (rule reconcile_own [OF assms(1) final])
  have "account_net Venue_position ps = 0" using books by (simp add: closed_books_def)
  moreover have "dval (dadd (dadd (net_credit ps Reserve) (net_credit ps Opportunity_cost)) (net_credit ps Fees_paid)) =
      ?outcome - fee_total fees (map snd ?efs)"
    using books facts(2) bounds(4) by (intro pnl_of_closed_books) auto
  ultimately show ?thesis
    using u(2) pnl_own [OF assms(1) final u(1)] assms(2) by auto
qed

lemma exact_history_fills:
  "exact_history g plan fees efs \<longleftrightarrow> g \<le> 0 \<and>
     (\<forall>f \<in> set (map snd efs). exact_fill g fees f \<and> fits g (sf_quantity f) \<and>
        exact_product_on g (dadd dec0 (sf_quantity f)) (pl_minimum_basket_payout plan)) \<and>
     (\<Sum>f\<leftarrow>map snd efs. fill_cash f + fill_fee fees f + payout_of plan f) < 10 powi (28 + g)"
proof -
  have "(\<Sum>(_, f)\<leftarrow>efs. fill_cash f + fill_fee fees f + dval (sf_quantity f) * dval (pl_minimum_basket_payout plan)) =
      (\<Sum>f\<leftarrow>map snd efs. fill_cash f + fill_fee fees f + payout_of plan f)"
    by (induction efs) (auto simp: payout_of_def)
  then show ?thesis by (auto simp: exact_history_def)
qed

lemma accepted_example:
  obtains ps where "postings_for_events example_digests example_plan complete_chain example_fees = Inr ps"
  using example_bookings(1) by (auto simp: booking_accounts_def split: sum.splits)

lemma example_history:
  "map snd (event_fills complete_chain) = [example_fill 0 Buy (Dec False 45 (-2)), example_fill 1 Buy (Dec False 5 (-1))]"
  "exact_history (-4) example_plan example_fees (event_fills complete_chain)"
proof -
  show fills: "map snd (event_fills complete_chain) = [example_fill 0 Buy (Dec False 45 (-2)), example_fill 1 Buy (Dec False 5 (-1))]"
    by (simp add: event_fills_def complete_chain_def example_chain_def example_event_def)
  have parts: "notional_of [(Dec False 45 (-2), Dec False 10 0)] = Dec False 450 (-2)"
    "notional_of [(Dec False 5 (-1), Dec False 10 0)] = Dec False 50 (-1)"
    "dadd dec0 (Dec False 10 0) = Dec False 10 0"
    by code_simp+
  have vals: "dval (Dec False 45 (-2)) = 45 / 100" "dval (Dec False 5 (-1)) = 5 / 10" "dval (Dec False 10 0) = 10"
    "dval (Dec False 2 (-2)) = 2 / 100" "dval (Dec False (Suc 0) 0) = 1"
    by (simp_all add: dval_def dsigned_def power_int_def eval_nat_numeral)
  show "exact_history (-4) example_plan example_fees (event_fills complete_chain)"
    unfolding exact_history_fills fills
    by (simp add: example_fill_def exact_fill_def exact_product_on_def parts fits_def vals fill_cash_def fill_fee_def
        fill_rate_def example_fees_def payout_of_def example_plan_def)
qed

lemma paper_profit_exact_witness:
  "\<exists>ps r v. postings_for_events example_digests example_plan complete_chain example_fees = Inr ps \<and>
     reconcile_proposal example_digests id example_plan complete_chain ps example_fees = Inr r \<and>
     proposal_paper_pnl example_digests ps r complete_chain = Inr (Some v) \<and> dval v = 31 / 100"
proof -
  obtain ps where ps: "postings_for_events example_digests example_plan complete_chain example_fees = Inr ps"
    by (rule accepted_example)
  have last: "se_to_state (last complete_chain) = Complete"
    by (simp add: complete_chain_def example_chain_def example_event_def)
  have vals: "dval (Dec False 45 (-2)) = 45 / 100" "dval (Dec False 5 (-1)) = 5 / 10" "dval (Dec False 10 0) = 10"
    "dval (Dec False 2 (-2)) = 2 / 100" "dval (Dec False (Suc 0) 0) = 1"
    by (simp_all add: dval_def dsigned_def power_int_def eval_nat_numeral)
  have "payout_of example_plan (hd (fills_of Buy (event_fills complete_chain))) - cash_total (fills_of Buy (event_fills complete_chain)) -
      fee_total example_fees (map snd (event_fills complete_chain)) = 31 / 100"
    unfolding fills_of_def example_history(1)
    by (simp add: example_fill_def payout_of_def cash_total_def fee_total_def fill_cash_def fill_fee_def fill_rate_def
        example_fees_def vals example_plan_def)
  then show ?thesis
    using paper_profit_exact [OF ps _ example_history(2), of id] ps last by auto
qed

end
