(* ===== verification/Shadow_Limits.thy ===== *)
theory Shadow_Limits
  imports Shadow_Pnl
begin

text \<open>
  What the guards of the paper ledger enforce: a buy stays within the limit schedule frozen on the
  plan, price level by price level, and no leg sells more than it bought.
\<close>

section \<open>The greedy match against the limits\<close>

text \<open>The quantity a schedule offers, or a fill takes, at a price of at least \<open>P\<close>.\<close>

definition quantity_from :: "rat \<Rightarrow> price_level list \<Rightarrow> rat" where
  "quantity_from P levels = (\<Sum>(price, quantity)\<leftarrow>levels. if P \<le> dval price then dval quantity else 0)"

definition sized_levels :: "int \<Rightarrow> price_level list \<Rightarrow> bool" where
  "sized_levels g levels \<longleftrightarrow> (\<forall>(_, quantity) \<in> set levels. fits g quantity \<and> 0 \<le> dval quantity)"

lemma quantity_from_nonneg: "sized_levels g levels \<Longrightarrow> 0 \<le> quantity_from P levels"
  unfolding quantity_from_def by (rule sum_list_nonneg) (auto simp: sized_levels_def)

lemma difference_fits:
  assumes "fits g a" and "fits g b" and "0 \<le> dval b" and "dval b \<le> dval a"
  shows "dval (dsub a b) = dval a - dval b" and "fits g (dsub a b)"
  using assms dsub_exact [of g a b] by (auto simp: fits_def)

lemma dmin_cases: "dmin a b = a \<or> dmin a b = b"
  by (simp add: dmin_def)

lemma consume_limits_quantity:
  assumes "sized_levels g limits" and "fits g remaining" and "0 \<le> dval remaining"
    and "consume_limits price remaining limits = (remaining', limits')"
  shows "sized_levels g limits' \<and> fits g remaining' \<and> 0 \<le> dval remaining' \<and> dval remaining' \<le> dval remaining \<and>
    quantity_from P limits' \<le> quantity_from P limits \<and>
    (P \<le> dval price \<longrightarrow> quantity_from P limits' = quantity_from P limits - (dval remaining - dval remaining'))"
  using assms
proof (induction price remaining limits arbitrary: remaining' limits' rule: consume_limits.induct)
  case (1 price remaining)
  then show ?case by (simp add: quantity_from_def)
next
  case (2 price remaining limit_price capacity limits)
  have sized: "sized_levels g limits" "fits g capacity" "0 \<le> dval capacity"
    using 2(3) by (auto simp: sized_levels_def)
  show ?case
  proof (cases "dlt limit_price price \<or> dle capacity dec0")
    case True
    then obtain ls where l: "consume_limits price remaining limits = (remaining', ls)"
      "limits' = (limit_price, capacity) # ls"
      using 2(6) by (auto split: prod.splits)
    have "dval capacity = 0 \<or> dval limit_price < dval price"
      using True sized(3) by (auto simp: dlt_iff dle_iff)
    with 2(1) [OF True sized(1) 2(4,5) l(1)] l(2) sized show ?thesis
      by (auto simp: quantity_from_def sized_levels_def)
  next
    case False
    let ?take = "dmin remaining capacity"
    let ?r = "dsub remaining ?take" let ?c = "dsub capacity ?take"
    have take_: "dval ?take = min (dval remaining) (dval capacity)" "fits g ?take" "0 \<le> dval ?take"
      using dmin_cases [of remaining capacity] 2(4,5) sized by auto
    have r: "dval ?r = dval remaining - dval ?take" "fits g ?r"
      using difference_fits [OF 2(4) take_(2,3)] take_(1) by auto
    have c: "dval ?c = dval capacity - dval ?take" "fits g ?c"
      using difference_fits [OF sized(2) take_(2,3)] take_(1) by auto
    have price: "dval price \<le> dval limit_price" using False by (auto simp: dlt_iff)
    have nonneg: "0 \<le> dval ?r" "0 \<le> dval ?c" using r c take_(1) by auto
    show ?thesis
    proof (cases "deq ?r dec0")
      case True
      then have "remaining' = ?r" "limits' = (limit_price, ?c) # limits"
        using False 2(6) by (simp_all add: Let_def)
      then show ?thesis
        using r c nonneg sized price take_ by (auto simp: quantity_from_def sized_levels_def)
    next
      case more: False
      then obtain ls where l: "consume_limits price ?r limits = (remaining', ls)" "limits' = (limit_price, ?c) # ls"
        using False 2(6) by (auto simp: Let_def split: prod.splits)
      from 2(2) [OF False refl refl refl more sized(1) r(2) nonneg(1) l(1)] show ?thesis
        using r c nonneg sized price take_ l(2) by (auto simp: quantity_from_def sized_levels_def)
    qed
  qed
qed

lemma limit_step_Inr:
  "limit_step caps (price, quantity) = Inr caps' \<longleftrightarrow>
     (\<exists>rest. consume_limits price quantity caps = (rest, caps') \<and> dval rest = 0)"
  by (auto simp: limit_step_def deq_iff split: prod.splits)

lemma limit_steps_quantity:
  assumes "sized_levels g levels" and "sized_levels g limits"
    and "foldE limit_step limits levels = Inr limits'"
  shows "quantity_from P levels \<le> quantity_from P limits"
  using assms
proof (induction levels arbitrary: limits)
  case Nil
  then show ?case using quantity_from_nonneg by (simp add: quantity_from_def [of _ "[]"])
next
  case (Cons level levels)
  obtain price quantity where level: "level = (price, quantity)" by (cases level)
  from Cons.prems(3) level obtain rest caps where
    c: "consume_limits price quantity limits = (rest, caps)" and z: "dval rest = 0"
    and more: "foldE limit_step caps levels = Inr limits'"
    by (auto simp: bindE_eq_Inr limit_step_Inr)
  have q: "fits g quantity" "0 \<le> dval quantity" "sized_levels g levels"
    using Cons.prems(1) level by (auto simp: sized_levels_def)
  note step = consume_limits_quantity [OF Cons.prems(2) q(1,2) c, of P]
  then have "quantity_from P levels \<le> quantity_from P caps"
    using Cons.IH [OF q(3) _ more] by blast
  with step z level show ?case by (auto simp: quantity_from_def)
qed

text \<open>
  C18: a buy the ledger accepts stays within the schedule frozen on its leg. For quantities that fit 28
  digits on a common grid, at every price the fill takes no more at that price or above than the
  schedule offers there, so it never pays more than the highest limit, and its quantity is at most
  the leg's maximum.
\<close>

theorem buys_within_limits:
  assumes "postings_for_events D plan events fees = Inr ps"
    and "(e, f) \<in> set (event_fills events)" and "sf_side f = Buy"
    and "\<forall>leg \<in> set (pl_legs plan). sized_levels g (sl_limit_price_levels leg)"
    and "\<forall>(_, q) \<in> set (sf_price_levels f). fits g q"
  shows "\<exists>leg \<in> set (pl_legs plan). sl_leg_index leg = sf_leg_index f \<and>
    dval (sf_quantity f) \<le> dval (sl_max_quantity leg) \<and>
    (\<forall>P. quantity_from P (sf_price_levels f) \<le> quantity_from P (sl_limit_price_levels leg))"
proof -
  from assms(1) obtain b where "foldE (book_event D plan fees) empty_booking events = Inr b"
    by (rule postings_for_events_Inr)
  then have "fill_accepted plan fees f"
    unfolding book_events_flat by (rule fills_accepted) (rule assms(2))
  then obtain leg where valid: "validate_shadow_fill f = Inr f" and leg: "map_of (leg_table plan) (sf_leg_index f) = Some leg"
    and limits: "validate_buy_against_limits f (sl_limit_price_levels leg) (sl_max_quantity leg) = Inr ()"
    using assms(3) by (auto simp: fill_accepted_def)
  from map_of_SomeD [OF leg] have mem: "leg \<in> set (pl_legs plan)" "sl_leg_index leg = sf_leg_index f"
    by (auto simp: leg_table_def)
  have sized: "sized_levels g (sf_price_levels f)"
    using assms(5) fill_levels_pos(2) [OF valid] by (force simp: sized_levels_def)
  from limits obtain caps where "dval (sf_quantity f) \<le> dval (sl_max_quantity leg)"
    and caps: "foldE limit_step (sl_limit_price_levels leg) (sf_price_levels f) = Inr caps"
    by (auto simp: validate_buy_against_limits_def bindE_eq_Inr dlt_iff split: if_splits)
  moreover have "quantity_from P (sf_price_levels f) \<le> quantity_from P (sl_limit_price_levels leg)" for P
    using sized assms(4) mem(1) caps by (intro limit_steps_quantity) auto
  ultimately show ?thesis using mem by blast
qed

lemma buys_within_limits_witness:
  "\<exists>leg \<in> set (pl_legs example_plan). \<forall>P. quantity_from P [(Dec False 45 (-2), Dec False 10 0)] \<le>
     quantity_from P (sl_limit_price_levels leg)"
proof -
  obtain ps where ps: "postings_for_events example_digests example_plan complete_chain example_fees = Inr ps"
    using example_bookings(1) by (auto simp: booking_accounts_def split: sum.splits)
  have "dval (Dec False 10 0) = 10" by (simp add: dval_def dsigned_def)
  then have sized: "fits 0 (Dec False 10 0)" "0 \<le> dval (Dec False 10 0)" by (simp_all add: fits_def)
  have "(complete_chain ! 4, example_fill 0 Buy (Dec False 45 (-2))) \<in> set (event_fills complete_chain)"
    by (simp add: event_fills_def complete_chain_def example_chain_def example_event_def)
  from buys_within_limits [OF ps this, of 0] sized show ?thesis
    by (force simp: example_fill_def example_plan_def sized_levels_def)
qed

section \<open>Inventory\<close>

definition traded :: "side \<Rightarrow> int \<Rightarrow> (shadow_event \<times> shadow_fill) list \<Rightarrow> rat" where
  "traded s leg efs = (\<Sum>f\<leftarrow>fills_of s efs. if sf_leg_index f = leg then dval (sf_quantity f) else 0)"

lemma traded_amount:
  assumes "booked efs b" and "\<forall>f \<in> set (map snd efs). fits g (sf_quantity f)" and "g \<le> 0"
  shows "traded s leg efs = dval (dict_amount (amounts sf_quantity (fills_of s efs)) leg)"
proof -
  have "distinct (map fst (amounts sf_quantity (fills_of s efs)))"
    by (rule amounts_distinct [OF assms(1)])
  then have dist: "distinct (map sf_leg_index (fills_of s efs))"
    by (simp add: amounts_def comp_def)
  have fit: "\<forall>f \<in> set (fills_of s efs). fits g (sf_quantity f)"
    using assms(2) by (force simp: fills_of_set)
  have "distinct (map sf_leg_index fs) \<Longrightarrow> \<forall>f \<in> set fs. fits g (sf_quantity f) \<Longrightarrow>
      (\<Sum>f\<leftarrow>fs. if sf_leg_index f = leg then dval (sf_quantity f) else 0) = dval (dict_amount (amounts sf_quantity fs) leg)" for fs
  proof (induction fs)
    case Nil
    then show ?case by (simp add: dict_amount_def amounts_def)
  next
    case (Cons f fs)
    show ?case
    proof (cases "sf_leg_index f = leg")
      case True
      then have "\<forall>f' \<in> set fs. sf_leg_index f' \<noteq> leg" using Cons.prems(1) by (metis distinct.simps(2) image_eqI list.simps(9) set_map)
      then have "(\<Sum>f\<leftarrow>fs. if sf_leg_index f = leg then dval (sf_quantity f) else 0) = 0"
        by (induction fs) auto
      with True Cons.prems(2) dadd_dec0_fits [of g "sf_quantity f"] assms(3) show ?thesis
        by (simp add: dict_amount_def amounts_def)
    next
      case False
      with Cons show ?thesis by (simp add: dict_amount_def amounts_def)
    qed
  qed
  from this [OF dist fit] show ?thesis by (simp add: traded_def)
qed

text \<open>
  C19: the ledger never books a sale of what was not bought. In a history it accepts, sales appear on
  the execution terminal only, on every leg the quantity sold is at most the quantity bought, an
  unwound proposal has sold exactly what it bought, and a complete or expired one has sold nothing.
\<close>

theorem sales_covered_by_purchases:
  assumes "postings_for_events D plan events fees = Inr ps"
    and "\<forall>f \<in> set (map snd (event_fills events)). fits g (sf_quantity f)" and "g \<le> 0"
  defines "efs \<equiv> event_fills events"
  shows "(\<forall>(e, f) \<in> set efs. sf_side f = Sell \<longrightarrow> execution_terminal (se_to_state e)) \<and>
    (\<forall>leg. traded Sell leg efs \<le> traded Buy leg efs) \<and>
    (\<forall>t leg. terminal_event events = Inr t \<longrightarrow>
       (se_to_state t = Unwound \<longrightarrow> traded Sell leg efs = traded Buy leg efs) \<and>
       (se_to_state t \<in> {Complete, Expired} \<longrightarrow> traded Sell leg efs = 0))"
proof -
  from assms(1) obtain terminal b where ev: "validated_events plan False events = Inr events"
    and t: "terminal_if_any events = Inr terminal"
    and loop: "foldE (book_event D plan fees) empty_booking events = Inr b"
    and life: "validate_fill_lifecycle plan events terminal (bo_acquisition_quantities b) (bo_sale_quantities b) = Inr ()"
    by (rule postings_for_events_Inr)
  note ev = validated_owner_events_Inr [OF ev [unfolded validated_events_def]]
  have booked: "booked efs b" using loop unfolding book_events_flat efs_def by (rule booked_loop)
  note amount = traded_amount [OF booked assms(2) [folded efs_def] assms(3)]
  have lists: "bo_acquisition_quantities b = amounts sf_quantity (fills_of Buy efs)"
    "bo_sale_quantities b = amounts sf_quantity (fills_of Sell efs)"
    using booked by (simp_all add: booked_def)
  have sell_terminal: "terminal = Some e" if "(e, f) \<in> set efs" "sf_side f = Sell" for e f
  proof -
    have "e \<in> set events" "f \<in> set (se_fills e)" using that(1) event_fills_event by (auto simp: efs_def)
    then show ?thesis
      using lifecycle_Inr(1) [OF life] that(2) by (auto simp: lifecycle_event_ok_def checkE_Inr list_ex_iff simp del: checkE.simps)
  qed
  have at_terminal: "execution_terminal (se_to_state e)" if "(e, f) \<in> set efs" "sf_side f = Sell" for e f
    using sell_terminal [OF that] terminal_if_any_Inr [OF t] by (auto dest: terminal_event_Inr(2))
  have nonneg: "0 \<le> traded Buy leg efs" for leg
    unfolding traded_def
  proof (intro sum_list_nonneg)
    fix x assume "x \<in> set (map (\<lambda>f. if sf_leg_index f = leg then dval (sf_quantity f) else 0) (fills_of Buy efs))"
    then obtain f e where "(e, f) \<in> set efs" and x: "x = (if sf_leg_index f = leg then dval (sf_quantity f) else 0)"
      by (auto simp: fills_of_set)
    then have "validate_shadow_fill f = Inr f"
      using fills_accepted [OF loop [unfolded book_events_flat]] by (auto simp: efs_def fill_accepted_def)
    then have "0 < dval (sf_quantity f)"
      unfolding validate_shadow_fill_def bindE_eq_Inr checkE_Inr by (auto simp: positive_decimal_iff)
    then show "0 \<le> x" by (simp add: x)
  qed
  show ?thesis
  proof (cases terminal)
    case None
    then have "fills_of Sell efs = []"
      using sell_terminal by (force simp: fills_of_def filter_empty_conv)
    then have "traded Sell leg efs = 0" for leg by (simp add: traded_def)
    moreover have "\<not> (\<exists>t. terminal_event events = Inr t)"
      using None terminal_if_any_Inr [OF t] by (auto dest: terminal_event_Inr(1,2))
    ultimately show ?thesis using at_terminal nonneg by auto
  next
    case (Some tev)
    then have tev: "terminal_event events = Inr tev" using terminal_if_any_Inr [OF t] by simp
    obtain s where "derive_current_state events = Inr s" using ev(6) by blast
    then obtain e where "find (\<lambda>e. se_to_state e = First_leg_simulated) events = Some e"
      using terminal_has_first_event [of events s tev] ev(3) terminal_event_Inr(1,2) [OF tev] by auto
    from lifecycle_Inr(3) [OF life this] Some
    have checks: "\<forall>c \<in> set (terminal_checks plan (se_to_state tev) (bo_acquisition_quantities b) (bo_sale_quantities b)). \<not> fst c"
      by blast
    have keys: "set (map fst (bo_sale_quantities b)) \<subseteq> set (map fst (bo_acquisition_quantities b))"
      by (rule lifecycle_Inr(2) [OF life])
    let ?sold = "\<lambda>leg. dval (dict_amount (bo_sale_quantities b) leg)"
    let ?bought = "\<lambda>leg. dval (dict_amount (bo_acquisition_quantities b) leg)"
    have dist: "distinct (map fst (bo_acquisition_quantities b))"
      unfolding lists(1) by (rule amounts_distinct [OF booked])
    have outside: "?sold leg = 0 \<and> ?bought leg = 0" if "leg \<notin> set (map fst (bo_acquisition_quantities b))" for leg
      using that keys by (auto simp: dict_amount_def map_of_eq_None_iff split: option.splits dest!: map_of_SomeD) force+
    have inside: "?bought leg = dval q" if "(leg, q) \<in> set (bo_acquisition_quantities b)" for leg q
      using that dist by (simp add: dict_amount_def map_of_eq_Some_iff [THEN iffD2])
    have zero: "?sold leg = 0" if "se_to_state tev \<in> {Complete, Expired}" for leg
      using checks that by (auto simp: terminal_checks_def dict_amount_def)
    have equal: "?sold leg = ?bought leg" if u: "se_to_state tev = Unwound" for leg
    proof (cases "leg \<in> set (map fst (bo_acquisition_quantities b))")
      case True
      then obtain q where q: "(leg, q) \<in> set (bo_acquisition_quantities b)" by auto
      then have "deq (dict_amount (bo_sale_quantities b) leg) q"
        using checks u by (auto simp: terminal_checks_def list_ex_iff)
      then show ?thesis using inside [OF q] by (simp add: deq_iff)
    qed (use outside in simp)
    have below: "?sold leg \<le> ?bought leg" for leg
    proof (cases "se_to_state tev = Unknown \<and> leg \<in> set (map fst (bo_acquisition_quantities b))")
      case True
      then obtain q where q: "(leg, q) \<in> set (bo_acquisition_quantities b)" by auto
      then have "\<not> dlt q (dict_amount (bo_sale_quantities b) leg)"
        using checks True by (auto simp: terminal_checks_def list_ex_iff)
      then show ?thesis using inside [OF q] by (simp add: dlt_iff)
    next
      case False
      then show ?thesis
        using zero [of leg] equal [of leg] outside [of leg] nonneg [of leg] amount [of Buy leg] terminal_event_Inr(2) [OF tev]
        by (auto simp: execution_terminal_def lists simp del: set_map)
    qed
    show ?thesis
      using at_terminal below zero equal tev unfolding amount lists [symmetric] by auto
  qed
qed

lemma sales_covered_by_purchases_witness:
  "traded Sell 0 (event_fills unwound_chain) = traded Buy 0 (event_fills unwound_chain)"
proof -
  obtain ps where ps: "postings_for_events example_digests example_plan unwound_chain example_fees = Inr ps"
    using example_bookings(2) by (auto simp: booking_accounts_def split: sum.splits)
  have fills: "map snd (event_fills unwound_chain) = [example_fill 0 Buy (Dec False 45 (-2)), example_fill 0 Sell (Dec False 4 (-1))]"
    by (simp add: event_fills_def unwound_chain_def example_chain_def example_event_def)
  have "fits 0 (Dec False 10 0)" by (simp add: fits_def dval_def dsigned_def)
  then have "\<forall>f \<in> set (map snd (event_fills unwound_chain)). fits 0 (sf_quantity f)"
    unfolding fills by (simp add: example_fill_def)
  moreover have "terminal_event unwound_chain = Inr (last unwound_chain)" "se_to_state (last unwound_chain) = Unwound"
    by (simp_all add: terminal_event_def unwound_chain_def example_chain_def example_event_def execution_terminal_def)
  ultimately show ?thesis
    using sales_covered_by_purchases [OF ps, of 0] by simp
qed

end
