(* ===== verification/Economics.thy ===== *)
theory Economics
  imports Proof_Records Decimal_Rounding
begin

text \<open>
  Basket economics (\<open>predictions/economics_models.py\<close>, \<open>predictions/economics.py\<close>): the frozen reserve
  policy, the depth walk over the asks, the conservative evaluation of a proof-ready basket, and the
  scan report with its identity.  A book is what the evaluation reads of it: bids, asks, and when it
  was observed.
\<close>

section \<open>Records\<close>

datatype insufficiency_reason =
  MISSING_BOOK | STALE_BOOK | CROSSED_BOOK | MISSING_FEE | ZERO_EXECUTABLE_DEPTH

fun insufficiency_value :: "insufficiency_reason \<Rightarrow> string" where
  "insufficiency_value MISSING_BOOK = ''MISSING_BOOK''"
| "insufficiency_value STALE_BOOK = ''STALE_BOOK''"
| "insufficiency_value CROSSED_BOOK = ''CROSSED_BOOK''"
| "insufficiency_value MISSING_FEE = ''MISSING_FEE''"
| "insufficiency_value ZERO_EXECUTABLE_DEPTH = ''ZERO_EXECUTABLE_DEPTH''"

datatype scan_decision = SHADOW_CANDIDATE | REJECTED | INSUFFICIENT_EVIDENCE

fun scan_decision_value :: "scan_decision \<Rightarrow> string" where
  "scan_decision_value SHADOW_CANDIDATE = ''SHADOW_CANDIDATE''"
| "scan_decision_value REJECTED = ''REJECTED''"
| "scan_decision_value INSUFFICIENT_EVIDENCE = ''INSUFFICIENT_EVIDENCE''"

record economics_policy =
  ep_policy_id :: string
  ep_policy_version :: string
  ep_gas_conversion_redemption_reserve_usd :: dec
  ep_currency_basis_reserve_rate :: dec
  ep_transfer_cost_usd :: dec
  ep_capital_lockup_rate_per_day :: dec
  ep_assumed_capital_lock_days :: dec
  ep_operational_cost_usd :: dec
  ep_partial_fill_reserve_rate :: dec
  ep_latency_reserve_rate :: dec
  ep_dispute_delay_reserve_rate :: dec
  ep_venue_failure_reserve_rate :: dec
  ep_max_book_age_seconds :: int

definition validate_economics_policy :: "economics_policy \<Rightarrow> economics_policy result" where
  "validate_economics_policy p =
     (if \<not> (list_all nonnegative_decimal
          [ep_gas_conversion_redemption_reserve_usd p, ep_currency_basis_reserve_rate p, ep_transfer_cost_usd p,
           ep_capital_lockup_rate_per_day p, ep_assumed_capital_lock_days p, ep_operational_cost_usd p,
           ep_partial_fill_reserve_rate p, ep_latency_reserve_rate p, ep_dispute_delay_reserve_rate p,
           ep_venue_failure_reserve_rate p] \<and> 0 \<le> ep_max_book_age_seconds p)
      then Inl (ValueError ''economics policy field'') else Inr p)"

interpretation economics_policies: revalidation validate_economics_policy
  by unfold_locales (simp add: validate_economics_policy_def split: if_splits)

record leg_execution =
  le_leg_index :: int
  le_venue :: prediction_venue
  le_market_id :: string
  le_outcome_token_id :: "string option"
  le_depth_walked_levels :: "(dec \<times> dec) list"
  le_filled_quantity :: dec
  le_acquisition_cost_usd :: dec

definition validate_leg_execution :: "leg_execution \<Rightarrow> leg_execution result" where
  "validate_leg_execution l =
     (if \<not> (nonnegative_decimal (le_filled_quantity l) \<and> nonnegative_decimal (le_acquisition_cost_usd l))
      then Inl (ValueError ''leg execution field'') else Inr l)"

datatype economics_status = Basket_evaluated | Basket_insufficient

record economics_result =
  er_status :: economics_status
  er_insufficiency_reason :: "insufficiency_reason option"
  er_quantity :: dec
  er_leg_plans :: "leg_execution list"
  er_proven_floor_usd :: dec
  er_all_in_cost_usd :: dec
  er_failure_reserve_usd :: dec
  er_conservative_surplus_usd :: dec
  er_return_on_assigned_capital :: dec
  er_capacity_usd_at_current_depth :: dec
  er_stranded_collateral_by_venue :: "(string, dec) dict"
  er_max_capital_lock_days :: dec
  er_doubled_cost_surplus_usd :: dec

definition validate_economics_result :: "economics_result \<Rightarrow> economics_result result" where
  "validate_economics_result r =
     bindE (mapE validate_leg_execution (er_leg_plans r)) (\<lambda>_.
     bindE (checkE
       [(\<not> list_all nonnegative_decimal
           [er_quantity r, er_proven_floor_usd r, er_all_in_cost_usd r, er_failure_reserve_usd r,
            er_capacity_usd_at_current_depth r, er_max_capital_lock_days r],
         ValueError ''economics result field''),
        (er_status r = Basket_insufficient \<and> er_insufficiency_reason r = None,
         ValueError ''an insufficient_evidence result requires an insufficiency_reason''),
        (er_status r = Basket_insufficient \<and> er_leg_plans r \<noteq> [],
         ValueError ''an insufficient_evidence result must not carry leg plans''),
        (er_status r = Basket_evaluated \<and> er_insufficiency_reason r \<noteq> None,
         ValueError ''an evaluated result must not carry an insufficiency_reason'')])
       (\<lambda>_. Inr r))"

interpretation economics_results: revalidation validate_economics_result
  by unfold_locales (auto simp: validate_economics_result_def bindE_eq_Inr simp del: checkE.simps)

definition DEFAULT_RESEARCH_POLICY :: economics_policy where
  "DEFAULT_RESEARCH_POLICY =
    \<lparr>ep_policy_id = ''research-v1'', ep_policy_version = ''1'',
     ep_gas_conversion_redemption_reserve_usd = Dec False 200 (-2), ep_currency_basis_reserve_rate = Dec False 25 (-4),
     ep_transfer_cost_usd = Dec False 100 (-2), ep_capital_lockup_rate_per_day = Dec False 2 (-4),
     ep_assumed_capital_lock_days = Dec False 3 0, ep_operational_cost_usd = Dec False 50 (-2),
     ep_partial_fill_reserve_rate = Dec False 1 (-2), ep_latency_reserve_rate = Dec False 5 (-3),
     ep_dispute_delay_reserve_rate = Dec False 5 (-3), ep_venue_failure_reserve_rate = Dec False 25 (-4),
     ep_max_book_age_seconds = 5\<rparr>"

section \<open>Scan reports\<close>

record scan_report =
  sc_report_id :: uuid
  sc_candidate_id :: uuid
  sc_proof_id :: "uuid option"
  sc_decision :: scan_decision
  sc_reason :: string
  sc_economics :: "economics_result option"
  sc_policy_id :: string
  sc_policy_version :: string
  sc_as_of :: timestamp
  sc_observed_at :: timestamp

definition validate_scan_report :: "scan_report \<Rightarrow> scan_report result" where
  "validate_scan_report r =
     bindE (case sc_economics r of None \<Rightarrow> Inr () | Some e \<Rightarrow> bindE (validate_economics_result e) (\<lambda>_. Inr ())) (\<lambda>_.
     if sc_decision r \<noteq> SHADOW_CANDIDATE then Inr r
      else if sc_proof_id r = None then Inl (ValueError ''a SHADOW_CANDIDATE report requires a proof_id'')
      else case sc_economics r of
        None \<Rightarrow> Inl (ValueError ''a SHADOW_CANDIDATE report requires an evaluated economics result'')
      | Some e \<Rightarrow>
          if er_status e \<noteq> Basket_evaluated
          then Inl (ValueError ''a SHADOW_CANDIDATE report requires an evaluated economics result'')
          else if dle (er_conservative_surplus_usd e) dec0
          then Inl (ValueError ''a SHADOW_CANDIDATE report requires a positive conservative surplus'')
          else Inr r)"

interpretation scan_reports: revalidation validate_scan_report
  by unfold_locales (auto simp: validate_scan_report_def bindE_eq_Inr split: if_splits option.splits)

definition SCAN_REPORT_IDENTITY_NAMESPACE :: uuid where
  "SCAN_REPORT_IDENTITY_NAMESPACE = Uuid 0x602940c3ac97499da12033da483a1055"

definition leg_execution_content :: "leg_execution \<Rightarrow> jval" where
  "leg_execution_content l =
     JObj [(''leg_index'', JInt (le_leg_index l)), (''venue'', JText (venue_value (le_venue l))),
           (''market_id'', JText (le_market_id l)), (''outcome_token_id'', jopt JText (le_outcome_token_id l)),
           (''depth_walked_levels'', JList (map (\<lambda>(p, q). JList [JDec p, JDec q]) (le_depth_walked_levels l))),
           (''filled_quantity'', JDec (le_filled_quantity l)),
           (''acquisition_cost_usd'', JDec (le_acquisition_cost_usd l))]"

definition economics_content :: "economics_result \<Rightarrow> jval" where
  "economics_content r =
     JObj [(''status'', JText (if er_status r = Basket_evaluated then ''evaluated'' else ''insufficient_evidence'')),
           (''insufficiency_reason'', jopt (JText \<circ> insufficiency_value) (er_insufficiency_reason r)),
           (''quantity'', JDec (er_quantity r)), (''leg_plans'', JList (map leg_execution_content (er_leg_plans r))),
           (''proven_floor_usd'', JDec (er_proven_floor_usd r)), (''all_in_cost_usd'', JDec (er_all_in_cost_usd r)),
           (''failure_reserve_usd'', JDec (er_failure_reserve_usd r)),
           (''conservative_surplus_usd'', JDec (er_conservative_surplus_usd r)),
           (''return_on_assigned_capital'', JDec (er_return_on_assigned_capital r)),
           (''capacity_usd_at_current_depth'', JDec (er_capacity_usd_at_current_depth r)),
           (''stranded_collateral_by_venue'',
             JObj (sort_key fst (map (\<lambda>(k, v). (k, JDec v)) (er_stranded_collateral_by_venue r)))),
           (''max_capital_lock_days'', JDec (er_max_capital_lock_days r)),
           (''doubled_cost_surplus_usd'', JDec (er_doubled_cost_surplus_usd r))]"

definition deterministic_scan_report_id ::
  "digests \<Rightarrow> uuid \<Rightarrow> uuid option \<Rightarrow> scan_decision \<Rightarrow> string \<Rightarrow> economics_result option \<Rightarrow> string \<Rightarrow>
     string \<Rightarrow> timestamp \<Rightarrow> uuid" where
  "deterministic_scan_report_id D candidate_id proof_id decision reason economics policy_id policy_version as_of =
     uuid5_of D SCAN_REPORT_IDENTITY_NAMESPACE
       (JList [JUuid candidate_id, jopt JUuid proof_id, JText (scan_decision_value decision), JText reason,
               jopt economics_content economics, JText policy_id, JText policy_version, JTime as_of])"

section \<open>The evaluation\<close>

record basket_book =
  bb_bids :: "book_level list"
  bb_asks :: "book_level list"
  bb_observed_at :: timestamp

definition insufficient :: "economics_policy \<Rightarrow> insufficiency_reason \<Rightarrow> economics_result result" where
  "insufficient policy reason =
     validate_economics_result
       \<lparr>er_status = Basket_insufficient, er_insufficiency_reason = Some reason, er_quantity = dec0,
        er_leg_plans = [], er_proven_floor_usd = dec0, er_all_in_cost_usd = dec0, er_failure_reserve_usd = dec0,
        er_conservative_surplus_usd = dec0, er_return_on_assigned_capital = dec0,
        er_capacity_usd_at_current_depth = dec0, er_stranded_collateral_by_venue = [],
        er_max_capital_lock_days = ep_assumed_capital_lock_days policy, er_doubled_cost_surplus_usd = dec0\<rparr>"

text \<open>The walk: the levels taken so far are in front of what the rest of the ladder adds.\<close>

fun walk_asks :: "book_level list \<Rightarrow> dec \<Rightarrow> (dec \<times> dec) list \<Rightarrow> dec \<Rightarrow> (dec \<times> dec) list \<times> dec" where
  "walk_asks [] remaining levels cost = (levels, cost)"
| "walk_asks (entry # asks) remaining levels cost =
     (if dle remaining dec0 then (levels, cost)
      else let take_quantity = (if dle (bl_size entry) remaining then bl_size entry else remaining)
           in walk_asks asks (dsub remaining take_quantity) (levels @ [(bl_price entry, take_quantity)])
                (dadd cost (dmul (bl_price entry) take_quantity)))"

definition walk_ask_depth :: "book_level list \<Rightarrow> dec \<Rightarrow> (dec \<times> dec) list \<times> dec" where
  "walk_ask_depth asks quantity = walk_asks asks quantity [] dec0"

type_synonym basket_books = "(int, basket_book option) dict"

definition get_book :: "basket_books \<Rightarrow> nat \<Rightarrow> basket_book option" where
  "get_book books i = (case map_of books (int i) of None \<Rightarrow> None | Some b \<Rightarrow> b)"

definition get_fee :: "(int, fee_rate option) dict \<Rightarrow> nat \<Rightarrow> fee_rate option" where
  "get_fee fees i = (case map_of fees (int i) of None \<Rightarrow> None | Some f \<Rightarrow> f)"

text \<open>What the first loop finds wrong with the book of a leg, if anything.\<close>

definition book_problem :: "economics_policy \<Rightarrow> timestamp \<Rightarrow> basket_book option \<Rightarrow> insufficiency_reason option" where
  "book_problem policy as_of supplied =
     (case supplied of
        None \<Rightarrow> Some MISSING_BOOK
      | Some book \<Rightarrow>
          if seconds (ep_max_book_age_seconds policy) < as_of - bb_observed_at book then Some STALE_BOOK
          else if bb_bids book \<noteq> [] \<and> bb_asks book \<noteq> [] \<and>
                  dle (bl_price (hd (bb_asks book))) (bl_price (hd (bb_bids book)))
          then Some CROSSED_BOOK
          else None)"

definition first_problem :: "('a \<Rightarrow> insufficiency_reason option) \<Rightarrow> 'a list \<Rightarrow> insufficiency_reason option" where
  "first_problem problem xs = next_iter (List.map_filter problem xs)"

definition leg_plan :: "basket_books \<Rightarrow> dec \<Rightarrow> nat \<times> candidate_leg \<Rightarrow> leg_execution result" where
  "leg_plan books quantity entry =
     (case entry of (i, leg) \<Rightarrow>
        (case get_book books i of
           None \<Rightarrow> Inl AssertionError
         | Some book \<Rightarrow>
             (case walk_ask_depth (bb_asks book) quantity of (levels, cost) \<Rightarrow>
                validate_leg_execution
                  \<lparr>le_leg_index = int i, le_venue = cl_venue leg, le_market_id = cl_market_id leg,
                   le_outcome_token_id = cl_outcome_token_id leg, le_depth_walked_levels = levels,
                   le_filled_quantity = quantity, le_acquisition_cost_usd = cost\<rparr>)))"

definition fee_of_plan :: "(int, fee_rate option) dict \<Rightarrow> leg_execution \<Rightarrow> dec" where
  "fee_of_plan fees plan =
     (case get_fee fees (nat (le_leg_index plan)) of
        None \<Rightarrow> dec0 | Some fee \<Rightarrow> dmul (le_acquisition_cost_usd plan) (fr_taker_rate fee))"

definition strand :: "(string, dec) dict \<Rightarrow> leg_execution \<Rightarrow> (string, dec) dict" where
  "strand d plan =
     (let key = venue_value (le_venue plan);
          previous = (case map_of d key of None \<Rightarrow> dec0 | Some v \<Rightarrow> v)
      in AList.update key (dadd previous (le_acquisition_cost_usd plan)) d)"

text \<open>The figures of an evaluated basket, from the plans of its legs.\<close>

definition basket_result ::
  "economics_policy \<Rightarrow> dec \<Rightarrow> dec \<Rightarrow> (int, fee_rate option) dict \<Rightarrow> leg_execution list \<Rightarrow> economics_result result" where
  "basket_result policy payout_floor quantity fees leg_plans =
     (let acquisition_total = dsum (map le_acquisition_cost_usd leg_plans);
          fee_total = dsum (map (fee_of_plan fees) leg_plans);
          currency_basis_reserve = dmul acquisition_total (ep_currency_basis_reserve_rate policy);
          capital_lockup_reserve = dmul (dmul acquisition_total (ep_capital_lockup_rate_per_day policy))
            (ep_assumed_capital_lock_days policy);
          all_in_cost = dadd (dadd (dadd (dadd (dadd (dadd acquisition_total fee_total)
            (ep_gas_conversion_redemption_reserve_usd policy)) currency_basis_reserve)
            (ep_transfer_cost_usd policy)) capital_lockup_reserve) (ep_operational_cost_usd policy);
          failure_reserve_rate = dadd (dadd (dadd (ep_partial_fill_reserve_rate policy) (ep_latency_reserve_rate policy))
            (ep_dispute_delay_reserve_rate policy)) (ep_venue_failure_reserve_rate policy);
          failure_reserve = dmul acquisition_total failure_reserve_rate;
          proven_floor = dmul quantity payout_floor;
          surplus = dsub (dsub proven_floor all_in_cost) failure_reserve
      in bindE (if \<not> deq all_in_cost dec0 then ddiv surplus all_in_cost else Inr dec0) (\<lambda>return_on_capital.
         validate_economics_result
           \<lparr>er_status = Basket_evaluated, er_insufficiency_reason = None, er_quantity = quantity, er_leg_plans = leg_plans,
            er_proven_floor_usd = proven_floor, er_all_in_cost_usd = all_in_cost,
            er_failure_reserve_usd = failure_reserve, er_conservative_surplus_usd = surplus,
            er_return_on_assigned_capital = return_on_capital,
            er_capacity_usd_at_current_depth = acquisition_total,
            er_stranded_collateral_by_venue = foldl strand [] leg_plans,
            er_max_capital_lock_days = ep_assumed_capital_lock_days policy,
            er_doubled_cost_surplus_usd = dsub (dsub proven_floor (dmul (Dec False 2 0) all_in_cost))
              (dmul (Dec False 2 0) failure_reserve)\<rparr>))"

definition leg_depth :: "basket_books \<Rightarrow> nat \<Rightarrow> dec" where
  "leg_depth books i = (case get_book books i of None \<Rightarrow> dec0 | Some b \<Rightarrow> dsum (map bl_size (bb_asks b)))"

definition bottleneck :: "basket_books \<Rightarrow> nat \<Rightarrow> dec" where
  "bottleneck books n = (case dmin_list (map (leg_depth books) [0..<n]) of Inl _ \<Rightarrow> dec0 | Inr d \<Rightarrow> d)"

definition evaluate_basket_economics ::
  "proof_artifact \<Rightarrow> candidate_relationship \<Rightarrow> basket_books \<Rightarrow> (int, fee_rate option) dict \<Rightarrow>
     economics_policy \<Rightarrow> timestamp \<Rightarrow> economics_result result" where
  "evaluate_basket_economics p candidate books fees policy as_of =
     (if pa_status p \<noteq> Proof_ready
      then Inl (ValueError ''evaluate_basket_economics requires a proof_ready proof artifact'')
      else let legs = cd_legs candidate; n = length legs
      in case first_problem (\<lambda>i. book_problem policy as_of (get_book books i)) [0..<n] of
        Some reason \<Rightarrow> insufficient policy reason
      | None \<Rightarrow>
      (case first_problem (\<lambda>i. if get_fee fees i = None then Some MISSING_FEE else None) [0..<n] of
        Some reason \<Rightarrow> insufficient policy reason
      | None \<Rightarrow>
         let quantity = bottleneck books n
         in if dle quantity dec0 then insufficient policy ZERO_EXECUTABLE_DEPTH
            else bindE (mapE (leg_plan books quantity) (zip [0..<n] legs)) (\<lambda>leg_plans.
              case pa_minimum_basket_payout p of
                None \<Rightarrow> Inl (TypeError ''unsupported operand type(s) for *'')
              | Some payout_floor \<Rightarrow> basket_result policy payout_floor quantity fees leg_plans)))"

end
