(* ===== verification/Economics_Guarantees.thy ===== *)
theory Economics_Guarantees
  imports Economics Proof_Guarantees
begin

text \<open>
  What the evaluation guarantees: evidence is refused in a fixed order, the depth walk is the cheapest
  way to buy the quantity, every leg is filled at the bottleneck, and a positive surplus means a
  payout floor above every cost it is charged with, whatever the rounding.
\<close>

section \<open>The depth walk\<close>

fun taken :: "book_level list \<Rightarrow> dec \<Rightarrow> (dec \<times> dec) list" where
  "taken [] remaining = []"
| "taken (entry # asks) remaining =
     (if dle remaining dec0 then []
      else let take_quantity = (if dle (bl_size entry) remaining then bl_size entry else remaining)
           in (bl_price entry, take_quantity) # taken asks (dsub remaining take_quantity))"

lemma walk_asks_taken:
  "walk_asks asks remaining levels cost =
     (levels @ taken asks remaining, foldl dadd cost (map (\<lambda>(p, t). dmul p t) (taken asks remaining)))"
  by (induction asks remaining levels cost rule: walk_asks.induct) (auto simp: Let_def)

lemma walk_ask_depth_taken:
  "walk_ask_depth asks q = (taken asks q, dsum (map (\<lambda>(p, t). dmul p t) (taken asks q)))"
  by (simp add: walk_ask_depth_def walk_asks_taken dsum_def)

definition level_cost :: "(dec \<times> dec) list \<Rightarrow> rat" where
  "level_cost levels = (\<Sum>(p, t)\<leftarrow>levels. dval p * dval t)"

definition level_quantity :: "(dec \<times> dec) list \<Rightarrow> rat" where
  "level_quantity levels = (\<Sum>(_, t)\<leftarrow>levels. dval t)"

definition depth :: "book_level list \<Rightarrow> rat" where
  "depth asks = (\<Sum>a\<leftarrow>asks. dval (bl_size a))"

definition ladder :: "int \<Rightarrow> book_level list \<Rightarrow> bool" where
  "ladder g asks \<longleftrightarrow> (\<forall>a \<in> set asks. fits g (bl_size a) \<and> 0 < dval (bl_size a) \<and> 0 < dval (bl_price a)) \<and>
     sorted_wrt (\<lambda>a b. dval (bl_price a) \<le> dval (bl_price b)) asks"

text \<open>A way to buy from the ladder: how much to take of each level.\<close>

definition allocation :: "book_level list \<Rightarrow> rat list \<Rightarrow> bool" where
  "allocation asks xs \<longleftrightarrow> list_all2 (\<lambda>a x. 0 \<le> x \<and> x \<le> dval (bl_size a)) asks xs"

definition allocation_cost :: "book_level list \<Rightarrow> rat list \<Rightarrow> rat" where
  "allocation_cost asks xs = sum_list (map2 (\<lambda>a x. dval (bl_price a) * x) asks xs)"

lemma allocation_cost_ge:
  assumes "allocation asks xs" and "\<forall>a \<in> set asks. P \<le> dval (bl_price a)"
  shows "P * sum_list xs \<le> allocation_cost asks xs"
  using assms unfolding allocation_def
proof (induction rule: list_all2_induct)
  case Nil
  then show ?case by (simp add: allocation_cost_def)
next
  case (Cons a as x xs)
  have "P * x \<le> dval (bl_price a) * x"
    using Cons by (intro mult_right_mono) auto
  with Cons show ?case by (simp add: allocation_cost_def distrib_left)
qed

lemma fits_dsub_small:
  assumes "fits g r" and "fits g t" and "0 \<le> dval t" and "dval t \<le> dval r"
  shows "dval (dsub r t) = dval r - dval t \<and> fits g (dsub r t)"
  using assms dsub_exact [of g r t] by (auto simp: fits_def)

lemma taken_nonpositive: "dval r \<le> 0 \<Longrightarrow> taken asks r = []"
  by (cases asks) (auto simp: dle_iff)

lemma taken_walk:
  assumes "ladder g asks" and "fits g r" and "0 \<le> dval r"
  shows "level_quantity (taken asks r) = min (dval r) (depth asks)"
    and "\<exists>k \<le> length asks. map fst (taken asks r) = map bl_price (take k asks) \<and>
      list_all2 (\<lambda>(_, t) a. 0 < dval t \<and> dval t \<le> dval (bl_size a)) (taken asks r) (take k asks)"
    and "allocation asks xs \<Longrightarrow> dval r \<le> sum_list xs \<Longrightarrow> \<forall>a \<in> set asks. P \<le> dval (bl_price a) \<Longrightarrow>
      level_cost (taken asks r) + P * (sum_list xs - dval r) \<le> allocation_cost asks xs"
proof -
  have "level_quantity (taken asks r) = min (dval r) (depth asks) \<and>
    (\<exists>k \<le> length asks. map fst (taken asks r) = map bl_price (take k asks) \<and>
      list_all2 (\<lambda>(_, t) a. 0 < dval t \<and> dval t \<le> dval (bl_size a)) (taken asks r) (take k asks)) \<and>
    (allocation asks xs \<longrightarrow> dval r \<le> sum_list xs \<longrightarrow> (\<forall>a \<in> set asks. P \<le> dval (bl_price a)) \<longrightarrow>
      level_cost (taken asks r) + P * (sum_list xs - dval r) \<le> allocation_cost asks xs)"
    using assms
  proof (induction asks arbitrary: r xs P)
    case Nil
    then show ?case
      by (auto simp: level_quantity_def level_cost_def depth_def allocation_def allocation_cost_def)
  next
    case (Cons a asks)
    have depth: "0 \<le> depth asks"
      using Cons.prems(1) unfolding depth_def ladder_def by (intro sum_list_nonneg) auto
    have a: "fits g (bl_size a)" "0 < dval (bl_size a)" "0 < dval (bl_price a)" "ladder g asks"
      "\<forall>b \<in> set asks. dval (bl_price a) \<le> dval (bl_price b)"
      using Cons.prems(1) by (auto simp: ladder_def)
    show ?case
    proof (cases "dval r = 0")
      case True
      then have "taken (a # asks) r = []" by (simp add: dle_iff)
      with True depth a(2) allocation_cost_ge [of "a # asks" xs P] show ?thesis
        by (auto simp: level_quantity_def level_cost_def depth_def intro!: exI [of _ 0])
    next
      case False
      then have pos: "0 < dval r" using Cons.prems(3) by simp
      show ?thesis
      proof (cases "dval (bl_size a) \<le> dval r")
        case True
        let ?r = "dsub r (bl_size a)"
        have r: "dval ?r = dval r - dval (bl_size a)" "fits g ?r"
          using fits_dsub_small [OF Cons.prems(2) a(1)] a(2) True by auto
        have t: "taken (a # asks) r = (bl_price a, bl_size a) # taken asks ?r"
          using pos True by (simp add: dle_iff Let_def)
        note IH = Cons.IH [OF a(4) r(2)]
        have walk: "level_quantity (taken asks ?r) = min (dval ?r) (depth asks)"
          "\<exists>k \<le> length asks. map fst (taken asks ?r) = map bl_price (take k asks) \<and>
             list_all2 (\<lambda>(_, t) a. 0 < dval t \<and> dval t \<le> dval (bl_size a)) (taken asks ?r) (take k asks)"
          using IH r(1) True by auto
        from walk(2) obtain k where k: "k \<le> length asks" "map fst (taken asks ?r) = map bl_price (take k asks)"
          "list_all2 (\<lambda>(_, t) a. 0 < dval t \<and> dval t \<le> dval (bl_size a)) (taken asks ?r) (take k asks)" by blast
        have "\<exists>k \<le> length (a # asks). map fst (taken (a # asks) r) = map bl_price (take k (a # asks)) \<and>
           list_all2 (\<lambda>(_, t) a. 0 < dval t \<and> dval t \<le> dval (bl_size a)) (taken (a # asks) r) (take k (a # asks))"
          using k a(2) unfolding t by (intro exI [of _ "Suc k"]) simp
        moreover have "level_cost (taken (a # asks) r) + P * (sum_list xs - dval r) \<le> allocation_cost (a # asks) xs"
          if xs: "allocation (a # asks) xs" "dval r \<le> sum_list xs" "\<forall>b \<in> set (a # asks). P \<le> dval (bl_price b)"
        proof -
          from xs(1) obtain y ys where y: "xs = y # ys" "0 \<le> y" "y \<le> dval (bl_size a)" "allocation asks ys"
            by (auto simp: allocation_def list_all2_Cons1)
          have "dval ?r \<le> sum_list ys" using xs(2) y r(1) by simp
          then have "level_cost (taken asks ?r) + dval (bl_price a) * (sum_list ys - dval ?r) \<le> allocation_cost asks ys"
            using IH [of ys "dval (bl_price a)"] y(4) a(5) r(1) True by auto
          moreover have "P * (sum_list xs - dval r) \<le> dval (bl_price a) * (sum_list xs - dval r)"
            using xs(2,3) by (intro mult_right_mono) auto
          ultimately show ?thesis
            unfolding t y(1) by (simp add: level_cost_def allocation_cost_def r(1) algebra_simps)
        qed
        ultimately show ?thesis
          using walk(1) depth r(1) unfolding t by (auto simp: level_quantity_def depth_def min_def)
      next
        case small: False
        have "dval (dsub r r) = 0"
          using fits_dsub_small [OF Cons.prems(2,2)] pos by auto
        then have t: "taken (a # asks) r = [(bl_price a, r)]"
          using pos small taken_nonpositive [of "dsub r r" asks] by (simp add: dle_iff Let_def)
        have "\<exists>k \<le> length (a # asks). map fst (taken (a # asks) r) = map bl_price (take k (a # asks)) \<and>
           list_all2 (\<lambda>(_, t) a. 0 < dval t \<and> dval t \<le> dval (bl_size a)) (taken (a # asks) r) (take k (a # asks))"
          unfolding t using pos small by (intro exI [of _ 1]) simp
        moreover have "level_cost (taken (a # asks) r) + P * (sum_list xs - dval r) \<le> allocation_cost (a # asks) xs"
          if xs: "allocation (a # asks) xs" "dval r \<le> sum_list xs" "\<forall>b \<in> set (a # asks). P \<le> dval (bl_price b)"
        proof -
          have "dval (bl_price a) * sum_list xs \<le> allocation_cost (a # asks) xs"
            using xs(1) a(5) by (intro allocation_cost_ge) auto
          moreover have "P * (sum_list xs - dval r) \<le> dval (bl_price a) * (sum_list xs - dval r)"
            using xs(2,3) by (intro mult_right_mono) auto
          ultimately show ?thesis unfolding t by (simp add: level_cost_def algebra_simps)
        qed
        ultimately show ?thesis
          using small depth pos unfolding t by (auto simp: level_quantity_def depth_def min_def)
      qed
    qed
  qed
  then show "level_quantity (taken asks r) = min (dval r) (depth asks)"
    "\<exists>k \<le> length asks. map fst (taken asks r) = map bl_price (take k asks) \<and>
      list_all2 (\<lambda>(_, t) a. 0 < dval t \<and> dval t \<le> dval (bl_size a)) (taken asks r) (take k asks)"
    "allocation asks xs \<Longrightarrow> dval r \<le> sum_list xs \<Longrightarrow> \<forall>a \<in> set asks. P \<le> dval (bl_price a) \<Longrightarrow>
      level_cost (taken asks r) + P * (sum_list xs - dval r) \<le> allocation_cost asks xs"
    by blast+
qed

lemma level_cost_exact:
  assumes "\<forall>(p, t) \<in> set levels. dcoef p * dcoef t < 10 ^ 28 \<and> g \<le> dexp p + dexp t \<and> 0 \<le> dval p * dval t"
    and "level_cost levels < 10 powi (28 + g)" and "g \<le> 0"
  shows "dval (dsum (map (\<lambda>(p, t). dmul p t) levels)) = level_cost levels"
proof -
  let ?xs = "map (\<lambda>(p, t). dmul p t) levels"
  have each: "dval (dmul p t) = dval p * dval t \<and> g \<le> dexp (dmul p t)" if "(p, t) \<in> set levels" for p t
    using assms(1) that dmul_exact [of p t] by (auto simp: dmul_def dec_fix_small)
  have vals: "(\<Sum>x\<leftarrow>?xs. dval x) = level_cost levels" "(\<Sum>x\<leftarrow>?xs. \<bar>dval x\<bar>) = level_cost levels"
    unfolding level_cost_def map_map using each assms(1)
    by (auto intro!: arg_cong [of _ _ sum_list] map_cong split: prod.splits)
  have "dval (dsum ?xs) = (\<Sum>x\<leftarrow>?xs. dval x)"
    using assms(2,3) each vals(2) by (intro dsum_exact) auto
  with vals(1) show ?thesis by simp
qed

text \<open>
  C24: the depth walk buys the quantity at the lowest possible cost. On a ladder of positive prices
  that never fall, with sizes and quantity that fit 28 digits on a common grid and a quantity within
  the depth, the walk takes levels in order from the best price, never more than a level's size, adds
  up to exactly the quantity, and its cost is at most the cost of every other way to take that
  quantity from the same levels.
\<close>

theorem depth_walk_cheapest:
  assumes "walk_ask_depth asks q = (levels, cost)" and "ladder g asks" and "fits g q" and "g \<le> 0"
    and "0 < dval q" and "dval q \<le> depth asks"
    and "\<forall>(p, t) \<in> set levels. dcoef p * dcoef t < 10 ^ 28 \<and> h \<le> dexp p + dexp t"
    and "level_cost levels < 10 powi (28 + h)" and "h \<le> 0"
  shows "level_quantity levels = dval q \<and> dval cost = level_cost levels \<and>
    (\<exists>k \<le> length asks. map fst levels = map bl_price (take k asks) \<and>
      list_all2 (\<lambda>(_, t) a. 0 < dval t \<and> dval t \<le> dval (bl_size a)) levels (take k asks)) \<and>
    (\<forall>xs. allocation asks xs \<and> sum_list xs = dval q \<longrightarrow> dval cost \<le> allocation_cost asks xs)"
proof -
  have levels: "levels = taken asks q" and cost: "cost = dsum (map (\<lambda>(p, t). dmul p t) levels)"
    using assms(1) by (auto simp: walk_ask_depth_taken)
  note walk = taken_walk [OF assms(2,3) less_imp_le [OF assms(5)], folded levels]
  have "0 \<le> dval p * dval t" if "(p, t) \<in> set levels" for p t
  proof -
    from walk(2) obtain k where k: "map fst levels = map bl_price (take k asks)"
      "list_all2 (\<lambda>(_, t) a. 0 < dval t \<and> dval t \<le> dval (bl_size a)) levels (take k asks)" by blast
    have "0 < dval t" using k(2) that by (auto dest: list_all2_right)
    moreover have "p \<in> bl_price ` set (take k asks)"
      using k(1) that by (metis fst_conv image_eqI list.set_map)
    then have "0 < dval p" using assms(2) by (auto simp: ladder_def dest: in_set_takeD)
    ultimately show ?thesis by simp
  qed
  then have "dval cost = level_cost levels"
    unfolding cost using assms(7-9) by (intro level_cost_exact [where g = h]) auto
  moreover have "level_cost levels \<le> allocation_cost asks xs" if "allocation asks xs" "sum_list xs = dval q" for xs
    using walk(3) [OF that(1), of 0] that(2) assms(2) by (auto simp: ladder_def intro: less_imp_le)
  ultimately show ?thesis
    using walk(1,2) assms(6) by (simp add: min_def)
qed

definition example_asks :: "book_level list" where
  "example_asks = [\<lparr>bl_price = Dec False 4 (-1), bl_size = Dec False 5 0\<rparr>, \<lparr>bl_price = Dec False 5 (-1), bl_size = Dec False 10 0\<rparr>]"

lemma example_values:
  "dval (Dec False 4 (-1)) = 4 / 10" "dval (Dec False 5 (-1)) = 5 / 10" "dval (Dec False 5 0) = 5"
  "dval (Dec False 10 0) = 10" "dval (Dec False 8 0) = 8" "dval (Dec False 3 0) = 3"
  by (simp_all add: dval_def dsigned_def power_int_def eval_nat_numeral)

lemma depth_walk_cheapest_witness:
  "\<exists>levels cost. walk_ask_depth example_asks (Dec False 8 0) = (levels, cost) \<and>
     dval cost = 35 / 10 \<and> dval cost \<le> allocation_cost example_asks [2, 6]"
proof -
  have w: "walk_ask_depth example_asks (Dec False 8 0) =
      ([(Dec False 4 (-1), Dec False 5 0), (Dec False 5 (-1), Dec False 3 0)], Dec False 35 (-1))"
    by code_simp
  have "ladder 0 example_asks"
    by (simp add: ladder_def example_asks_def fits_def example_values)
  moreover have "fits 0 (Dec False 8 0)" "0 < dval (Dec False 8 0)" "dval (Dec False 8 0) \<le> depth example_asks"
    by (simp_all add: fits_def example_values depth_def example_asks_def)
  moreover have "allocation example_asks [2, 6] \<and> sum_list [2, 6] = dval (Dec False 8 0)"
    by (simp add: allocation_def example_asks_def example_values)
  ultimately have "dval (Dec False 35 (-1)) \<le> allocation_cost example_asks [2, 6] \<and>
      dval (Dec False 35 (-1)) = level_cost [(Dec False 4 (-1), Dec False 5 0), (Dec False 5 (-1), Dec False 3 0)]"
    using depth_walk_cheapest [OF w, of 0 "-1"] by (simp add: level_cost_def example_values)
  then show ?thesis using w by (auto simp: level_cost_def example_values)
qed

section \<open>The order of the evidence checks\<close>

lemma first_problem_None: "first_problem problem xs = None \<longleftrightarrow> (\<forall>x \<in> set xs. problem x = None)"
proof (induction xs)
  case Nil
  then show ?case by (simp add: first_problem_def map_filter_simps)
next
  case (Cons x xs)
  then show ?case by (cases "problem x") (auto simp: first_problem_def map_filter_simps)
qed

lemma first_problem_Some:
  "first_problem problem [0..<n] = Some r \<longleftrightarrow> (\<exists>i < n. problem i = Some r \<and> (\<forall>j < i. problem j = None))"
proof -
  have "first_problem problem xs = Some r \<longleftrightarrow>
      (\<exists>i < length xs. problem (xs ! i) = Some r \<and> (\<forall>j < i. problem (xs ! j) = None))" for xs
  proof (induction xs)
    case Nil
    then show ?case by (simp add: first_problem_def map_filter_simps)
  next
    case (Cons x xs)
    show ?case
    proof (cases "problem x")
      case None
      then have "first_problem problem (x # xs) = first_problem problem xs"
        by (simp add: first_problem_def map_filter_simps)
      with Cons None show ?thesis
        by (simp add: Ex_less_Suc2 All_less_Suc2)
    next
      case (Some r')
      then show ?thesis
        by (auto simp: first_problem_def map_filter_simps Ex_less_Suc2 All_less_Suc2)
    qed
  qed
  from this [of "[0..<n]"] show ?thesis by auto
qed

lemma insufficient_Inr:
  "insufficient policy reason = Inr r \<Longrightarrow> er_status r = Basket_insufficient \<and>
     er_insufficiency_reason r = Some reason \<and> er_leg_plans r = [] \<and> er_conservative_surplus_usd r = dec0"
  unfolding insufficient_def by (drule economics_results.validate_id) simp

lemma basket_result_Inr:
  "basket_result policy payout_floor quantity fees plans = Inr r \<Longrightarrow>
     er_status r = Basket_evaluated \<and> er_insufficiency_reason r = None \<and> er_leg_plans r = plans \<and> er_quantity r = quantity"
  unfolding basket_result_def Let_def bindE_eq_Inr by (auto dest!: economics_results.validate_id)

lemma evidence_order:
  assumes "evaluate_basket_economics p candidate books fees policy as_of = Inr r"
  defines "n \<equiv> length (cd_legs candidate)"
    and "problem \<equiv> (\<lambda>i. book_problem policy as_of (get_book books i))"
  shows "pa_status p = Proof_ready \<and>
    (er_status r = Basket_evaluated \<longleftrightarrow> (\<forall>i < n. problem i = None) \<and> (\<forall>i < n. get_fee fees i \<noteq> None) \<and> 0 < dval (bottleneck books n)) \<and>
    (er_insufficiency_reason r = None \<longleftrightarrow> er_status r = Basket_evaluated) \<and>
    (\<forall>i < n. (\<forall>j < i. problem j = None) \<longrightarrow> problem i \<noteq> None \<longrightarrow> er_insufficiency_reason r = problem i) \<and>
    ((\<forall>i < n. problem i = None) \<and> (\<exists>i < n. get_fee fees i = None) \<longrightarrow> er_insufficiency_reason r = Some MISSING_FEE) \<and>
    ((\<forall>i < n. problem i = None) \<and> (\<forall>i < n. get_fee fees i \<noteq> None) \<and> \<not> 0 < dval (bottleneck books n) \<longrightarrow>
       er_insufficiency_reason r = Some ZERO_EXECUTABLE_DEPTH) \<and>
    (er_status r = Basket_insufficient \<longrightarrow> er_leg_plans r = [] \<and> er_conservative_surplus_usd r = dec0)"
proof -
  have ready: "pa_status p = Proof_ready"
    using assms(1) by (simp add: evaluate_basket_economics_def split: if_splits)
  show ?thesis
  proof (cases "first_problem problem [0..<n]")
    case (Some reason)
    then have "insufficient policy reason = Inr r"
      using assms(1) ready unfolding evaluate_basket_economics_def Let_def problem_def n_def by simp
    note res = insufficient_Inr [OF this]
    obtain i where i: "i < n" "problem i = Some reason" "\<forall>j < i. problem j = None"
      using Some unfolding first_problem_Some by blast
    have "k = i" if "k < n" "\<forall>j < k. problem j = None" "problem k \<noteq> None" for k
      using that i by (metis linorder_neqE_nat option.distinct(1))
    then have first: "\<forall>k < n. (\<forall>j < k. problem j = None) \<longrightarrow> problem k \<noteq> None \<longrightarrow> er_insufficiency_reason r = problem k"
      using i(2) res by metis
    have "\<not> (\<forall>i < n. problem i = None)" using i by auto
    with ready res first show ?thesis by auto
  next
    case books: None
    then have fresh: "\<forall>i < n. problem i = None" unfolding first_problem_None by simp
    let ?fee = "\<lambda>i. if get_fee fees i = None then Some MISSING_FEE else None"
    show ?thesis
    proof (cases "first_problem ?fee [0..<n]")
      case (Some reason)
      then have "insufficient policy reason = Inr r"
        using assms(1) ready books unfolding evaluate_basket_economics_def Let_def problem_def n_def by simp
      moreover have "reason = MISSING_FEE" "\<exists>i < n. get_fee fees i = None"
        using Some unfolding first_problem_Some by (auto split: if_splits)
      ultimately show ?thesis using ready fresh insufficient_Inr [of policy reason r] by auto
    next
      case None
      then have fees: "\<forall>i < n. get_fee fees i \<noteq> None"
        unfolding first_problem_None by (auto split: if_splits)
      note rest = assms(1) [unfolded evaluate_basket_economics_def Let_def, folded n_def, folded problem_def]
      show ?thesis
      proof (cases "dle (bottleneck books n) dec0")
        case True
        then have "insufficient policy ZERO_EXECUTABLE_DEPTH = Inr r"
          using rest ready books None by simp
        with True ready fresh fees insufficient_Inr [of policy _ r] show ?thesis by (auto simp: dle_iff)
      next
        case False
        then have "er_status r = Basket_evaluated \<and> er_insufficiency_reason r = None"
          using rest ready books None by (auto simp: bindE_eq_Inr dest!: basket_result_Inr split: option.splits)
        with False ready fresh fees show ?thesis by (auto simp: dle_iff)
      qed
    qed
  qed
qed

lemma bottleneck_positive:
  "0 < dval (bottleneck books n) \<longleftrightarrow> 0 < n \<and> (\<forall>i < n. 0 < dval (leg_depth books i))"
proof (cases "n = 0")
  case False
  then obtain m where m: "dmin_list (map (leg_depth books) [0..<n]) = Inr m"
    using dminmax_list_total(1) [of "map (leg_depth books) [0..<n]"] by auto
  from dmin_list_Inr [OF this] have "m \<in> leg_depth books ` {0..<n}" "\<forall>i < n. dval m \<le> dval (leg_depth books i)"
    by auto
  then show ?thesis using False m by (auto simp: bottleneck_def intro: less_le_trans)
qed (simp add: bottleneck_def dmin_list_def)

lemma book_problem_cases:
  fixes policy as_of and books :: basket_books
  defines "book \<equiv> \<lambda>i. map_of books (int i)"
  defines "missing \<equiv> \<lambda>i. book i \<in> {None, Some None}"
    and "stale \<equiv> \<lambda>i. \<exists>b. book i = Some (Some b) \<and> ep_max_book_age_seconds policy * 1000000 < as_of - bb_observed_at b"
    and "crossed \<equiv> \<lambda>i. \<exists>b bid bids ask asks. book i = Some (Some b) \<and> bb_bids b = bid # bids \<and> bb_asks b = ask # asks \<and>
      dval (bl_price ask) \<le> dval (bl_price bid)"
  shows "book_problem policy as_of (get_book books i) =
    (if missing i then Some MISSING_BOOK else if stale i then Some STALE_BOOK
     else if crossed i then Some CROSSED_BOOK else None)"
proof (cases "map_of books (int i)")
  case (Some supplied)
  show ?thesis
  proof (cases supplied)
    case (Some b)
    then show ?thesis using \<open>map_of books (int i) = Some supplied\<close> unfolding assms
      by (cases "bb_bids b"; cases "bb_asks b"; simp add: book_problem_def get_book_def seconds_def dle_iff)
  qed (use Some in \<open>simp add: assms book_problem_def get_book_def\<close>)
qed (simp add: assms book_problem_def get_book_def)

text \<open>
  C25: evidence is refused in a fixed order. Economics runs on ready proofs only. A leg's book is missing, stale
  (observed more than the policy's seconds before \<open>as_of\<close>) or crossed (best ask at or below best bid). A basket
  is evaluated exactly when no leg has one of these problems, a missing fee or an empty ask side; otherwise
  the reason is the first failing leg's, missing before stale before crossed, else a missing fee, else zero
  depth, and the result carries no plan and no surplus.
\<close>

theorem economics_evidence_order:
  assumes "evaluate_basket_economics p candidate books fees policy as_of = Inr r"
  defines "n \<equiv> length (cd_legs candidate)" and "book \<equiv> \<lambda>i. map_of books (int i)"
  defines "missing \<equiv> \<lambda>i. book i \<in> {None, Some None}"
    and "stale \<equiv> \<lambda>i. \<exists>b. book i = Some (Some b) \<and> ep_max_book_age_seconds policy * 1000000 < as_of - bb_observed_at b"
    and "crossed \<equiv> \<lambda>i. \<exists>b bid bids ask asks. book i = Some (Some b) \<and> bb_bids b = bid # bids \<and> bb_asks b = ask # asks \<and>
      dval (bl_price ask) \<le> dval (bl_price bid)"
    and "feeless \<equiv> \<lambda>i. map_of fees (int i) \<in> {None, Some None}"
    and "shallow \<equiv> \<lambda>i. \<exists>b. book i = Some (Some b) \<and> dval (dsum (map bl_size (bb_asks b))) \<le> 0"
  defines "sound \<equiv> \<lambda>i. \<not> missing i \<and> \<not> stale i \<and> \<not> crossed i"
  shows "pa_status p = Proof_ready \<and>
    (er_status r = Basket_evaluated \<longleftrightarrow> 0 < n \<and> (\<forall>i < n. sound i \<and> \<not> feeless i \<and> \<not> shallow i)) \<and>
    (er_insufficiency_reason r = None \<longleftrightarrow> er_status r = Basket_evaluated) \<and>
    (\<forall>i < n. (\<forall>j < i. sound j) \<longrightarrow>
       (missing i \<longrightarrow> er_insufficiency_reason r = Some MISSING_BOOK) \<and>
       (stale i \<longrightarrow> er_insufficiency_reason r = Some STALE_BOOK) \<and>
       (crossed i \<and> \<not> stale i \<longrightarrow> er_insufficiency_reason r = Some CROSSED_BOOK)) \<and>
    ((\<forall>i < n. sound i) \<and> (\<exists>i < n. feeless i) \<longrightarrow> er_insufficiency_reason r = Some MISSING_FEE) \<and>
    ((\<forall>i < n. sound i \<and> \<not> feeless i) \<and> (\<exists>i < n. shallow i) \<longrightarrow> er_insufficiency_reason r = Some ZERO_EXECUTABLE_DEPTH) \<and>
    (er_status r = Basket_insufficient \<longrightarrow> er_leg_plans r = [] \<and> er_conservative_surplus_usd r = dec0)"
proof -
  let ?problem = "\<lambda>i. book_problem policy as_of (get_book books i)"
  have problem: "?problem i = (if missing i then Some MISSING_BOOK else if stale i then Some STALE_BOOK
      else if crossed i then Some CROSSED_BOOK else None)" for i
    unfolding missing_def stale_def crossed_def book_def by (rule book_problem_cases)
  have sound: "?problem i = None \<longleftrightarrow> sound i" for i unfolding problem sound_def by simp
  have fee: "get_fee fees i = None \<longleftrightarrow> feeless i" for i by (auto simp: get_fee_def feeless_def split: option.split)
  have depth: "0 < dval (leg_depth books i) \<longleftrightarrow> \<not> shallow i" if "sound i" for i
    using that by (auto simp: leg_depth_def get_book_def shallow_def sound_def missing_def book_def split: option.split)
  have exclusive: "missing i \<Longrightarrow> \<not> stale i \<and> \<not> crossed i" for i by (auto simp: missing_def stale_def crossed_def)
  note order = evidence_order [OF assms(1), folded n_def, unfolded sound fee bottleneck_positive]
  have reason: "er_insufficiency_reason r = ?problem i" if "i < n" "\<forall>j < i. sound j" "\<not> sound i" for i
    using order that sound by blast
  have "(missing i \<longrightarrow> er_insufficiency_reason r = Some MISSING_BOOK) \<and>
      (stale i \<longrightarrow> er_insufficiency_reason r = Some STALE_BOOK) \<and>
      (crossed i \<and> \<not> stale i \<longrightarrow> er_insufficiency_reason r = Some CROSSED_BOOK)"
    if "i < n" "\<forall>j < i. sound j" for i
    using reason [OF that] exclusive [of i] unfolding problem sound_def by auto
  then show ?thesis using order depth by (smt (verit, best))
qed

section \<open>What a positive surplus covers\<close>

lemma dadd_ge:
  assumes "0 \<le> dval a" and "0 \<le> dval b"
  shows "dcoef a < 10 ^ 28 \<Longrightarrow> dval a \<le> dval (dadd a b)" and "dcoef b < 10 ^ 28 \<Longrightarrow> dval b \<le> dval (dadd a b)"
    and "0 \<le> dval (dadd a b)"
proof -
  let ?m = "min_exp a b"
  let ?s = "at_exp ?m a + at_exp ?m b"
  show nonneg: "0 \<le> dval (dadd a b)" using assms by (simp add: dadd_sign)
  have val: "of_int ?s * 10 powi ?m = dval a + dval b" by (rule at_exp_sum_val)
  have "dval L \<le> dval (dadd a b)" if "dcoef L < 10 ^ 28" "0 \<le> dval L" "dval L \<le> dval a + dval b" for L
  proof (cases "dval L = 0")
    case True
    with nonneg show ?thesis by simp
  next
    case False
    then have pos: "0 < dval L" using that by simp
    then have "\<not> dneg L" using sgn_dval [of L] by (auto simp: sgn_if split: if_splits)
    have "0 < of_int ?s * (10::rat) powi ?m" using pos that(3) val by linarith
    then have "0 < (of_int ?s :: rat)" by (rule zero_less_mult_pos2) (rule powi_pos)
    then have s: "0 < ?s" unfolding of_int_0_less_iff .
    then have "dadd a b = dec_fix False (nat ?s) ?m" by (simp add: dadd_def Let_def)
    moreover have "dval L \<le> of_nat (nat ?s) * 10 powi ?m" using that(3) val s by simp
    ultimately show ?thesis using dec_fix_lower [of L "nat ?s" ?m] \<open>\<not> dneg L\<close> that(1) by simp
  qed
  then show "dcoef a < 10 ^ 28 \<Longrightarrow> dval a \<le> dval (dadd a b)" "dcoef b < 10 ^ 28 \<Longrightarrow> dval b \<le> dval (dadd a b)"
    using assms by simp_all
qed

lemma foldl_dadd_ge:
  assumes "\<forall>x \<in> set (a # xs). 0 \<le> dval x"
  shows "\<forall>x \<in> set (a # xs). dcoef x < 10 ^ 28 \<longrightarrow> dval x \<le> dval (foldl dadd a xs)"
  using assms
proof (induction xs arbitrary: a)
  case Nil
  then show ?case by simp
next
  case (Cons x xs)
  have "\<forall>y \<in> set (dadd a x # xs). 0 \<le> dval y"
    using Cons.prems dadd_ge(3) by auto
  from Cons.IH [OF this] have ih: "\<forall>y \<in> set (dadd a x # xs). dcoef y < 10 ^ 28 \<longrightarrow> dval y \<le> dval (foldl dadd (dadd a x) xs)" .
  have "dval (dadd a x) \<le> dval (foldl dadd (dadd a x) xs)"
    using ih dadd_digits [of a x] by (simp del: power_numeral)
  moreover have "dcoef a < 10 ^ 28 \<longrightarrow> dval a \<le> dval (dadd a x)" "dcoef x < 10 ^ 28 \<longrightarrow> dval x \<le> dval (dadd a x)"
    using dadd_ge [of a x] Cons.prems by auto
  ultimately show ?case using ih by fastforce
qed

text \<open>The costs charged to a basket, and the failure reserve on top of them.\<close>

definition cost_terms :: "economics_policy \<Rightarrow> (int, fee_rate option) dict \<Rightarrow> leg_execution list \<Rightarrow> dec list" where
  "cost_terms policy fees plans =
     (let total = dsum (map le_acquisition_cost_usd plans)
      in [total, dsum (map (fee_of_plan fees) plans), ep_gas_conversion_redemption_reserve_usd policy,
          dmul total (ep_currency_basis_reserve_rate policy), ep_transfer_cost_usd policy,
          dmul (dmul total (ep_capital_lockup_rate_per_day policy)) (ep_assumed_capital_lock_days policy),
          ep_operational_cost_usd policy])"

lemma basket_figures:
  assumes "basket_result policy payout_floor quantity fees plans = Inr r"
  shows "er_all_in_cost_usd r = foldl dadd (hd (cost_terms policy fees plans)) (tl (cost_terms policy fees plans))"
    and "er_proven_floor_usd r = dmul quantity payout_floor"
    and "er_conservative_surplus_usd r = dsub (dsub (er_proven_floor_usd r) (er_all_in_cost_usd r)) (er_failure_reserve_usd r)"
    and "er_capacity_usd_at_current_depth r = dsum (map le_acquisition_cost_usd plans)"
    and "0 \<le> dval (er_failure_reserve_usd r)" and "0 \<le> dval (er_all_in_cost_usd r)"
proof -
  from assms obtain x where v: "validate_economics_result x = Inr r" and x:
    "er_all_in_cost_usd x = foldl dadd (hd (cost_terms policy fees plans)) (tl (cost_terms policy fees plans))"
    "er_proven_floor_usd x = dmul quantity payout_floor"
    "er_conservative_surplus_usd x = dsub (dsub (er_proven_floor_usd x) (er_all_in_cost_usd x)) (er_failure_reserve_usd x)"
    "er_capacity_usd_at_current_depth x = dsum (map le_acquisition_cost_usd plans)"
    unfolding basket_result_def Let_def bindE_eq_Inr by (auto simp: cost_terms_def Let_def)
  then show "er_all_in_cost_usd r = foldl dadd (hd (cost_terms policy fees plans)) (tl (cost_terms policy fees plans))"
    "er_proven_floor_usd r = dmul quantity payout_floor"
    "er_conservative_surplus_usd r = dsub (dsub (er_proven_floor_usd r) (er_all_in_cost_usd r)) (er_failure_reserve_usd r)"
    "er_capacity_usd_at_current_depth r = dsum (map le_acquisition_cost_usd plans)"
    using economics_results.validate_id [OF v] by simp_all
  have "validate_economics_result r = Inr r" using v economics_results.validate_id [OF v] by simp
  then show "0 \<le> dval (er_failure_reserve_usd r)" "0 \<le> dval (er_all_in_cost_usd r)"
    unfolding validate_economics_result_def bindE_eq_Inr checkE_Inr by (auto simp: nonnegative_decimal_iff)
qed

lemma leg_plans_valid:
  assumes "mapE (leg_plan books quantity) xs = Inr plans" and "l \<in> set plans"
  shows "0 \<le> dval (le_acquisition_cost_usd l)" and "le_filled_quantity l = quantity"
proof -
  from mapE_Inr_set [OF assms] obtain x where "leg_plan books quantity x = Inr l" by blast
  then show "0 \<le> dval (le_acquisition_cost_usd l)" "le_filled_quantity l = quantity"
    by (auto simp: leg_plan_def validate_leg_execution_def nonnegative_decimal_iff split: prod.splits option.splits if_splits)
qed

lemma evaluated_basket:
  assumes "evaluate_basket_economics p candidate books fees policy as_of = Inr r" and "er_status r = Basket_evaluated"
  obtains plans payout_floor where "pa_minimum_basket_payout p = Some payout_floor"
    "mapE (leg_plan books (bottleneck books (length (cd_legs candidate))))
       (zip [0..<length (cd_legs candidate)] (cd_legs candidate)) = Inr plans"
    "basket_result policy payout_floor (bottleneck books (length (cd_legs candidate))) fees plans = Inr r"
  using assms
  by (auto simp: evaluate_basket_economics_def Let_def bindE_eq_Inr dest!: insufficient_Inr split: if_splits option.splits)

text \<open>
  C23: a positive surplus pays for everything it is charged with, whatever the rounding. In an
  evaluated basket with a positive conservative surplus every leg is filled at the common bottleneck
  quantity, and the proven payout floor exceeds the failure reserve, the all-in cost, and so each
  charge of up to 28 digits in it (purchase, fees, each reserve); when the charges fit a common grid
  the surplus is exactly the floor less all of them less the failure reserve.
\<close>

theorem surplus_covers_costs:
  assumes "evaluate_basket_economics p candidate books fees policy as_of = Inr r"
    and "er_status r = Basket_evaluated"
    and "validate_economics_policy policy = Inr policy"
    and "\<forall>i fee. get_fee fees i = Some fee \<longrightarrow> 0 \<le> dval (fr_taker_rate fee)"
  defines "charges \<equiv> cost_terms policy fees (er_leg_plans r)"
  shows "(\<forall>l \<in> set (er_leg_plans r). le_filled_quantity l = er_quantity r) \<and>
    (0 < dval (er_conservative_surplus_usd r) \<longrightarrow>
       dval (er_all_in_cost_usd r) < dval (er_proven_floor_usd r) \<and>
       dval (er_failure_reserve_usd r) < dval (dsub (er_proven_floor_usd r) (er_all_in_cost_usd r)) \<and>
       (\<forall>c \<in> set charges. dcoef c < 10 ^ 28 \<longrightarrow> dval c < dval (er_proven_floor_usd r))) \<and>
    (\<forall>g \<le> 0. (\<forall>c \<in> set charges. g \<le> dexp c) \<and> g \<le> dexp (er_proven_floor_usd r) \<and> g \<le> dexp (er_failure_reserve_usd r) \<and>
       dval (er_proven_floor_usd r) + (\<Sum>c\<leftarrow>charges. dval c) + dval (er_failure_reserve_usd r) < 10 powi (28 + g) \<and>
       0 \<le> dval (er_proven_floor_usd r) \<longrightarrow>
       dval (er_conservative_surplus_usd r) =
         dval (er_proven_floor_usd r) - (\<Sum>c\<leftarrow>charges. dval c) - dval (er_failure_reserve_usd r))"
proof -
  obtain plans payout_floor where
    plans: "mapE (leg_plan books (bottleneck books (length (cd_legs candidate))))
       (zip [0..<length (cd_legs candidate)] (cd_legs candidate)) = Inr plans"
    and res: "basket_result policy payout_floor (bottleneck books (length (cd_legs candidate))) fees plans = Inr r"
    by (rule evaluated_basket [OF assms(1,2)])
  note fig = basket_figures [OF res] and fields = basket_result_Inr [OF res]
  have charges: "charges = cost_terms policy fees plans" using fields by (simp add: charges_def)
  have all_in: "er_all_in_cost_usd r = foldl dadd (hd charges) (tl charges)" "charges = hd charges # tl charges"
    using fig(1) by (simp_all add: charges) (simp add: cost_terms_def Let_def)
  have policy: "\<forall>x \<in> set [ep_gas_conversion_redemption_reserve_usd policy, ep_currency_basis_reserve_rate policy,
      ep_transfer_cost_usd policy, ep_capital_lockup_rate_per_day policy, ep_assumed_capital_lock_days policy,
      ep_operational_cost_usd policy]. 0 \<le> dval x"
    using assms(3) by (auto simp: validate_economics_policy_def nonnegative_decimal_iff split: if_splits)
  have total: "0 \<le> dval (dsum (map le_acquisition_cost_usd plans))"
    using leg_plans_valid(1) [OF plans] by (intro dsum_nonneg) auto
  have "0 \<le> dval (dsum (map (fee_of_plan fees) plans))"
    using leg_plans_valid(1) [OF plans] assms(4)
    by (intro dsum_nonneg) (auto simp: fee_of_plan_def dmul_sign split: option.splits)
  then have nonneg: "\<forall>c \<in> set charges. 0 \<le> dval c"
    using policy total by (auto simp: charges cost_terms_def Let_def dmul_sign)
  have covered: "\<forall>c \<in> set charges. dcoef c < 10 ^ 28 \<longrightarrow> dval c \<le> dval (er_all_in_cost_usd r)"
    unfolding all_in(1) using foldl_dadd_ge [of "hd charges" "tl charges"] nonneg all_in(2) by metis
  have filled: "\<forall>l \<in> set (er_leg_plans r). le_filled_quantity l = er_quantity r"
    using leg_plans_valid(2) [OF plans] fields by simp
  have positive: "dval (er_all_in_cost_usd r) < dval (er_proven_floor_usd r) \<and>
      dval (er_failure_reserve_usd r) < dval (dsub (er_proven_floor_usd r) (er_all_in_cost_usd r))"
    if pos: "0 < dval (er_conservative_surplus_usd r)"
  proof -
    have "dval (er_failure_reserve_usd r) < dval (dsub (er_proven_floor_usd r) (er_all_in_cost_usd r))"
      using pos unfolding fig(3) by (simp add: dsub_sign)
    moreover from this have "0 < dval (dsub (er_proven_floor_usd r) (er_all_in_cost_usd r))"
      using fig(5) by simp
    ultimately show ?thesis by (simp add: dsub_sign)
  qed
  have exact: "dval (er_conservative_surplus_usd r) =
      dval (er_proven_floor_usd r) - (\<Sum>c\<leftarrow>charges. dval c) - dval (er_failure_reserve_usd r)"
    if g: "g \<le> 0" "\<forall>c \<in> set charges. g \<le> dexp c" "g \<le> dexp (er_proven_floor_usd r)" "g \<le> dexp (er_failure_reserve_usd r)"
      and small: "dval (er_proven_floor_usd r) + (\<Sum>c\<leftarrow>charges. dval c) + dval (er_failure_reserve_usd r) < 10 powi (28 + g)"
      and floor: "0 \<le> dval (er_proven_floor_usd r)" for g
  proof -
    have abs: "\<bar>dval (hd charges)\<bar> + (\<Sum>c\<leftarrow>tl charges. \<bar>dval c\<bar>) = (\<Sum>c\<leftarrow>charges. dval c)"
    proof -
      have "(\<Sum>c\<leftarrow>cs. \<bar>dval c\<bar>) = (\<Sum>c\<leftarrow>cs. dval c)" if "\<forall>c \<in> set cs. 0 \<le> dval c" for cs
        using that by (induction cs) auto
      from this [OF nonneg] show ?thesis by (metis all_in(2) list.simps(9) sum_list.Cons)
    qed
    have sum_pos: "0 \<le> (\<Sum>c\<leftarrow>charges. dval c)" using nonneg by (intro sum_list_nonneg) auto
    have "dval (foldl dadd (hd charges) (tl charges)) = dval (hd charges) + (\<Sum>c\<leftarrow>tl charges. dval c) \<and>
        g \<le> dexp (foldl dadd (hd charges) (tl charges))"
    proof (rule foldl_dadd_exact)
      show "g \<le> dexp (hd charges)" "\<And>c. c \<in> set (tl charges) \<Longrightarrow> g \<le> dexp c"
        using g(2) all_in(2) by (metis list.set_intros)+
      show "\<bar>dval (hd charges)\<bar> + (\<Sum>c\<leftarrow>tl charges. \<bar>dval c\<bar>) < 10 powi (28 + g)"
        unfolding abs using small floor fig(5) by linarith
    qed
    then have cost: "dval (er_all_in_cost_usd r) = (\<Sum>c\<leftarrow>charges. dval c)" "g \<le> dexp (er_all_in_cost_usd r)"
      unfolding all_in(1) by (metis all_in(2) list.simps(9) sum_list.Cons, blast)
    have "\<bar>dval (er_proven_floor_usd r) - dval (er_all_in_cost_usd r)\<bar> < 10 powi (28 + g)"
      using small floor fig(5) sum_pos unfolding cost(1) by linarith
    from dsub_exact [OF g(3) cost(2) this] have first:
      "dval (dsub (er_proven_floor_usd r) (er_all_in_cost_usd r)) = dval (er_proven_floor_usd r) - (\<Sum>c\<leftarrow>charges. dval c)"
      "g \<le> dexp (dsub (er_proven_floor_usd r) (er_all_in_cost_usd r))"
      by (simp_all add: fits_def cost(1))
    have "\<bar>dval (dsub (er_proven_floor_usd r) (er_all_in_cost_usd r)) - dval (er_failure_reserve_usd r)\<bar> < 10 powi (28 + g)"
      using small floor fig(5) sum_pos unfolding first(1) by linarith
    from dsub_exact(1) [OF first(2) g(4) this] show ?thesis
      unfolding fig(3) first(1) .
  qed
  show ?thesis using filled positive covered exact by (meson le_less_trans)
qed

section \<open>Witnesses\<close>

text \<open>One binary-complement basket at an ask of 0.4 on each side, five shares deep.\<close>

definition example_policy :: economics_policy where
  "example_policy = DEFAULT_RESEARCH_POLICY
     \<lparr>ep_gas_conversion_redemption_reserve_usd := Dec False 2 (-2), ep_transfer_cost_usd := Dec False 1 (-2),
      ep_operational_cost_usd := Dec False 5 (-3)\<rparr>"

definition example_book :: basket_book where
  "example_book = \<lparr>bb_bids = [], bb_asks = [\<lparr>bl_price = Dec False 4 (-1), bl_size = Dec False 5 0\<rparr>], bb_observed_at = 0\<rparr>"

definition example_fee_rate :: fee_rate where
  "example_fee_rate = \<lparr>fr_venue = Polymarket, fr_market_id = None, fr_maker_rate = Dec False 0 0,
     fr_taker_rate = Dec False 1 (-2), fr_observed_at = 0, fr_source_hash = Sha256 0\<rparr>"

definition example_fee_book :: "(int, fee_rate option) dict" where
  "example_fee_book = [(0, Some example_fee_rate), (1, Some example_fee_rate)]"

definition example_evaluation :: "basket_books \<Rightarrow> economics_result result" where
  "example_evaluation books = bindE (example_proof example_binary)
     (\<lambda>p. evaluate_basket_economics p example_binary books example_fee_book example_policy 4)"

lemma example_evaluation_Inr:
  assumes "example_evaluation books = Inr r"
  obtains p where "evaluate_basket_economics p example_binary books example_fee_book example_policy 4 = Inr r"
  using assms unfolding example_evaluation_def bindE_eq_Inr by blast

definition evaluation_summary ::
  "economics_result result \<Rightarrow> (economics_status \<times> insufficiency_reason option \<times> dec \<times> dec) option" where
  "evaluation_summary x = (case x of Inl _ \<Rightarrow> None | Inr r \<Rightarrow>
     Some (er_status r, er_insufficiency_reason r, er_quantity r, er_conservative_surplus_usd r))"

lemma example_evaluated:
  "evaluation_summary (example_evaluation [(0, Some example_book), (1, Some example_book)]) =
     Some (Basket_evaluated, None, Dec False 5 0, Dec False 82260 (-5))"
  by code_simp

lemma example_missing:
  "evaluation_summary (example_evaluation [(0, Some example_book)]) =
     Some (Basket_insufficient, Some MISSING_BOOK, dec0, dec0)"
  by code_simp

lemma evaluation_summaryD:
  assumes "evaluation_summary (example_evaluation books) = Some (s, i, q, u)"
  obtains p r where "evaluate_basket_economics p example_binary books example_fee_book example_policy 4 = Inr r"
    "er_status r = s" "er_insufficiency_reason r = i" "er_quantity r = q" "er_conservative_surplus_usd r = u"
  using assms by (auto simp: evaluation_summary_def split: sum.splits elim!: example_evaluation_Inr)

lemma economics_evidence_order_witness:
  "\<exists>p r. evaluate_basket_economics p example_binary [(0, Some example_book)] example_fee_book example_policy 4 = Inr r \<and>
     pa_status p = Proof_ready \<and> er_insufficiency_reason r = Some MISSING_BOOK \<and> er_leg_plans r = []"
proof -
  obtain p r where r: "evaluate_basket_economics p example_binary [(0, Some example_book)] example_fee_book example_policy 4 = Inr r"
    "er_status r = Basket_insufficient" "er_insufficiency_reason r = Some MISSING_BOOK"
    by (rule evaluation_summaryD [OF example_missing])
  note decided = economics_evidence_order [OF r(1)]
  have "pa_status p = Proof_ready" by (rule decided [THEN conjunct1])
  moreover have "er_leg_plans r = []" using decided [THEN conjunct2, THEN conjunct2, THEN conjunct2, THEN conjunct2,
    THEN conjunct2, THEN conjunct2] r(2) by simp
  ultimately show ?thesis using r by blast
qed

lemma example_policy_valid: "validate_economics_policy example_policy = Inr example_policy"
  by (simp add: validate_economics_policy_def example_policy_def DEFAULT_RESEARCH_POLICY_def nonnegative_decimal_iff dval_def dsigned_def)

lemma surplus_covers_costs_witness:
  "\<exists>p r. evaluate_basket_economics p example_binary [(0, Some example_book), (1, Some example_book)]
       example_fee_book example_policy 4 = Inr r \<and>
     0 < dval (er_conservative_surplus_usd r) \<and> dval (er_all_in_cost_usd r) < dval (er_proven_floor_usd r) \<and>
     (\<forall>l \<in> set (er_leg_plans r). le_filled_quantity l = Dec False 5 0)"
proof -
  let ?books = "[(0, Some example_book), (1, Some example_book)]"
  obtain p r where r: "evaluate_basket_economics p example_binary ?books example_fee_book example_policy 4 = Inr r"
    "er_status r = Basket_evaluated" "er_quantity r = Dec False 5 0" "er_conservative_surplus_usd r = Dec False 82260 (-5)"
    by (rule evaluation_summaryD [OF example_evaluated])
  have "\<forall>i fee. get_fee example_fee_book i = Some fee \<longrightarrow> 0 \<le> dval (fr_taker_rate fee)"
    by (auto simp: get_fee_def example_fee_book_def example_fee_rate_def dval_def dsigned_def split: if_splits)
  moreover have "0 < dval (er_conservative_surplus_usd r)" unfolding r(4) by (simp add: dval_def dsigned_def)
  ultimately show ?thesis
    using surplus_covers_costs [OF r(1,2) example_policy_valid] r(1,3) by metis
qed

end
