(* ===== verification/Shadow_Planner.thy ===== *)
theory Shadow_Planner
  imports Economics Risk Shadow_Models Proof_Compiler
begin

text \<open>
  The shadow planner (\<open>predictions/shadow_planner.py\<close>): from one scan report, its candidate, proof,
  books and fees to a plan whose evidence is frozen, or to a typed refusal.  A book is a validated
  snapshot here; the economics reads three fields of it.
\<close>

section \<open>Refusals\<close>

datatype refusal_reason = SCAN_NOT_SHADOW_CANDIDATE | PROOF_NOT_CURRENT | RISK_REFUSED | MISSING_EVIDENCE

record plan_refusal =
  pr_reason :: refusal_reason
  pr_detail :: string
  pr_risk :: "risk_decision option"

datatype planning = Planned shadow_plan | Refused plan_refusal

definition refusal :: "refusal_reason \<Rightarrow> string \<Rightarrow> risk_decision option \<Rightarrow> planning result" where
  "refusal reason detail risk = Inr (Refused \<lparr>pr_reason = reason, pr_detail = detail, pr_risk = risk\<rparr>)"

definition invalid_evidence_refusal :: "planning result" where
  "invalid_evidence_refusal = refusal MISSING_EVIDENCE ''invalid or mismatched planner evidence'' None"

definition KILL_CONDITIONS :: "string list" where
  "KILL_CONDITIONS =
    [''any participating rule_version change'', ''book evidence older than policy max age'',
     ''risk drawdown threshold breached'']"

fun risk_reason_value :: "risk_refusal_reason \<Rightarrow> string" where
  "risk_reason_value BASKET_TOO_LARGE = ''BASKET_TOO_LARGE''"
| "risk_reason_value CLUSTER_CONCENTRATION = ''CLUSTER_CONCENTRATION''"
| "risk_reason_value INCOMPLETE_LOSS_TOO_LARGE = ''INCOMPLETE_LOSS_TOO_LARGE''"
| "risk_reason_value DRAWDOWN_HALT = ''DRAWDOWN_HALT''"
| "risk_reason_value DRAWDOWN_STOP_ALL = ''DRAWDOWN_STOP_ALL''"
| "risk_reason_value CAPITAL_PRESERVATION_MODE = ''CAPITAL_PRESERVATION_MODE''"

text \<open>A formatted optional value prints \<open>None\<close> when it is absent.\<close>

definition text_or_none :: "('a \<Rightarrow> string) \<Rightarrow> 'a option \<Rightarrow> string" where
  "text_or_none f v = (case v of None \<Rightarrow> ''None'' | Some x \<Rightarrow> f x)"

section \<open>Evidence\<close>

type_synonym snapshots = "(int, book_snapshot option) dict"

type_synonym fee_table = "(int, fee_rate option) dict"

text \<open>What the economics reads of a snapshot.\<close>

definition basket_of :: "book_snapshot \<Rightarrow> basket_book" where
  "basket_of b = \<lparr>bb_bids = bk_bids b, bb_asks = bk_asks b, bb_observed_at = bk_observed_at b\<rparr>"

definition basket_books_of :: "snapshots \<Rightarrow> basket_books" where
  "basket_books_of books = map (\<lambda>(i, b). (i, map_option basket_of b)) books"

definition revalidate_evidence_mapping ::
  "('a \<Rightarrow> 'a result) \<Rightarrow> (int, 'a option) dict \<Rightarrow> (int, 'a option) dict result" where
  "revalidate_evidence_mapping validate evidence =
     mapE (\<lambda>(index, r). case r of
         None \<Rightarrow> Inr (index, None)
       | Some x \<Rightarrow> bindE (validate x) (\<lambda>y. Inr (index, Some y))) evidence"

text \<open>\<open>m.get(i)\<close> of a mapping whose values may be \<open>None\<close>.\<close>

definition get_or_none :: "(int, 'a option) dict \<Rightarrow> int \<Rightarrow> 'a option" where
  "get_or_none m i = (case map_of m i of None \<Rightarrow> None | Some v \<Rightarrow> v)"

definition leg_evidence_matches :: "snapshots \<Rightarrow> fee_table \<Rightarrow> nat \<times> candidate_leg \<Rightarrow> bool" where
  "leg_evidence_matches books fees = (\<lambda>(index, leg).
     opt_all (\<lambda>book. bk_venue book = cl_venue leg \<and> bk_market_id book = cl_market_id leg \<and>
         bk_outcome_token_id book = cl_outcome_token_id leg) (get_or_none books (int index)) \<and>
     opt_all (\<lambda>fee. fr_venue fee = cl_venue leg \<and>
         (fr_market_id fee = None \<or> fr_market_id fee = Some (cl_market_id leg))) (get_or_none fees (int index)))"

definition evidence_identity_matches :: "candidate_relationship \<Rightarrow> snapshots \<Rightarrow> fee_table \<Rightarrow> bool" where
  "evidence_identity_matches candidate books fees =
     (let expected_indices = set (map int [0..<length (cd_legs candidate)])
      in set (map fst books) = expected_indices \<and> set (map fst fees) = expected_indices \<and>
         list_all (leg_evidence_matches books fees) (enumerate 0 (cd_legs candidate)))"

definition proof_current_failure ::
  "scan_report \<Rightarrow> candidate_relationship \<Rightarrow> proof_artifact \<Rightarrow> timestamp \<Rightarrow> string option" where
  "proof_current_failure scan_report candidate p as_of =
     (if sc_candidate_id scan_report \<noteq> cd_candidate_id candidate
      then Some ''scan report and candidate identities do not agree''
      else if pa_candidate_id p \<noteq> cd_candidate_id candidate
      then Some ''proof and candidate identities do not agree''
      else if sc_proof_id scan_report \<noteq> Some (pa_proof_id p)
      then Some ''scan report does not cite the supplied proof''
      else if pa_status p \<noteq> Proof_ready then Some (''proof status is '' @ proof_status_value (pa_status p))
      else if as_of < pa_information_cutoff p then Some ''proof information cutoff is after planning as_of''
      else if as_of < sc_as_of scan_report then Some ''scan report cutoff is after planning as_of''
      else None)"

section \<open>Sizing\<close>

fun trim_levels :: "price_level list \<Rightarrow> dec \<Rightarrow> price_level list" where
  "trim_levels [] remaining = []"
| "trim_levels ((price, available) # levels) remaining =
     (if dle remaining dec0 then []
      else let take_quantity = dmin available remaining
           in (price, take_quantity) # trim_levels levels (dsub remaining take_quantity))"

text \<open>The capped snapshot is validated again; an absent one fails the assertion.\<close>

definition cap_book :: "dec \<Rightarrow> book_snapshot \<Rightarrow> book_snapshot result" where
  "cap_book quantity book =
     validate_book (book\<lparr>bk_asks := map (\<lambda>(price, size). \<lparr>bl_price = price, bl_size = size\<rparr>)
       (trim_levels (map (\<lambda>level. (bl_price level, bl_size level)) (bk_asks book)) quantity)\<rparr>)"

definition cap_ask_books :: "snapshots \<Rightarrow> candidate_relationship \<Rightarrow> dec \<Rightarrow> snapshots result" where
  "cap_ask_books books candidate quantity =
     foldE (\<lambda>capped index.
        bindE (dict_item books index) (\<lambda>entry.
        case entry of None \<Rightarrow> Inl AssertionError
        | Some book \<Rightarrow> bindE (cap_book quantity book) (\<lambda>b. Inr (AList.update index (Some b) capped))))
       books (map int [0..<length (cd_legs candidate)])"

definition visible_ask_depth :: "book_snapshot option \<Rightarrow> dec result" where
  "visible_ask_depth book =
     (case book of None \<Rightarrow> Inl AssertionError | Some b \<Rightarrow> Inr (dsum (map bl_size (bk_asks b))))"

text \<open>The walk returns what remains to be sold and the proceeds so far.\<close>

fun walk_bids_for :: "book_level list \<Rightarrow> dec \<Rightarrow> dec \<Rightarrow> dec \<times> dec" where
  "walk_bids_for [] remaining proceeds = (remaining, proceeds)"
| "walk_bids_for (level # bids) remaining proceeds =
     (if dle remaining dec0 then (remaining, proceeds)
      else let take_quantity = dmin (bl_size level) remaining
           in walk_bids_for bids (dsub remaining take_quantity)
                (dadd proceeds (dmul (bl_price level) take_quantity)))"

definition walk_bid_proceeds :: "book_level list \<Rightarrow> dec \<Rightarrow> dec option" where
  "walk_bid_proceeds bids quantity =
     (case walk_bids_for bids quantity dec0 of (remaining, proceeds) \<Rightarrow>
        if deq remaining dec0 then Some proceeds else None)"

definition incomplete_loss_of :: "dec \<Rightarrow> dec \<Rightarrow> dec \<Rightarrow> dec" where
  "incomplete_loss_of acquisition_cost unwind_proceeds partial_fill_reserve_rate =
     (let spread_reserve = dmax (dsub acquisition_cost unwind_proceeds) dec0
      in dadd (dmul acquisition_cost partial_fill_reserve_rate) spread_reserve)"

definition shadow_leg :: "leg_execution \<Rightarrow> dec \<Rightarrow> nat \<Rightarrow> shadow_leg_plan result" where
  "shadow_leg plan quantity sequence_position =
     validate_leg_plan
       \<lparr>sl_leg_index = le_leg_index plan, sl_venue = le_venue plan, sl_market_id = le_market_id plan,
        sl_outcome_token_id = le_outcome_token_id plan, sl_sequence_position = int sequence_position,
        sl_limit_price_levels = trim_levels (le_depth_walked_levels plan) quantity,
        sl_max_quantity = quantity\<rparr>"

text \<open>\<open>sorted(range(n), key=lambda index: (depth(index), index))\<close>: a stable insertion by depth.\<close>

fun insert_by_depth :: "dec \<times> nat \<Rightarrow> (dec \<times> nat) list \<Rightarrow> (dec \<times> nat) list" where
  "insert_by_depth x [] = [x]"
| "insert_by_depth x (y # ys) = (if dlt (fst y) (fst x) then y # insert_by_depth x ys else x # y # ys)"

definition ordered_indices :: "dec list \<Rightarrow> nat list" where
  "ordered_indices depths = map snd (foldr insert_by_depth (zip depths [0..<length depths]) [])"

section \<open>Texts and hashes\<close>

definition leg_name :: "shadow_leg_plan \<Rightarrow> string" where
  "leg_name leg = venue_value (sl_venue leg) @ '':'' @ sl_market_id leg @ '':'' @
     (case sl_outcome_token_id leg of None \<Rightarrow> ''-'' | Some token \<Rightarrow> token)"

definition join_texts :: "string \<Rightarrow> string list \<Rightarrow> string" where
  "join_texts sep parts = (case parts of [] \<Rightarrow> [] | p # ps \<Rightarrow> foldl (\<lambda>acc q. acc @ sep @ q) p ps)"

definition economics_policy_content :: "economics_policy \<Rightarrow> jval" where
  "economics_policy_content p =
     JObj [(''policy_id'', JText (ep_policy_id p)), (''policy_version'', JText (ep_policy_version p)),
           (''gas_conversion_redemption_reserve_usd'', JDec (ep_gas_conversion_redemption_reserve_usd p)),
           (''currency_basis_reserve_rate'', JDec (ep_currency_basis_reserve_rate p)),
           (''transfer_cost_usd'', JDec (ep_transfer_cost_usd p)),
           (''capital_lockup_rate_per_day'', JDec (ep_capital_lockup_rate_per_day p)),
           (''assumed_capital_lock_days'', JDec (ep_assumed_capital_lock_days p)),
           (''operational_cost_usd'', JDec (ep_operational_cost_usd p)),
           (''partial_fill_reserve_rate'', JDec (ep_partial_fill_reserve_rate p)),
           (''latency_reserve_rate'', JDec (ep_latency_reserve_rate p)),
           (''dispute_delay_reserve_rate'', JDec (ep_dispute_delay_reserve_rate p)),
           (''venue_failure_reserve_rate'', JDec (ep_venue_failure_reserve_rate p)),
           (''max_book_age_seconds'', JInt (ep_max_book_age_seconds p))]"

definition risk_policy_content :: "risk_policy \<Rightarrow> jval" where
  "risk_policy_content p =
     JObj [(''policy_version'', JText (rp_policy_version p)),
           (''max_basket_fraction_of_equity'', JDec (rp_max_basket_fraction_of_equity p)),
           (''max_event_cluster_fraction'', JDec (rp_max_event_cluster_fraction p)),
           (''max_incomplete_loss_fraction'', JDec (rp_max_incomplete_loss_fraction p)),
           (''drawdown_halt_new_entries'', JDec (rp_drawdown_halt_new_entries p)),
           (''drawdown_halve_size'', JDec (rp_drawdown_halve_size p)),
           (''drawdown_stop_all'', JDec (rp_drawdown_stop_all p)),
           (''drawdown_close_nonguaranteed'', JDec (rp_drawdown_close_nonguaranteed p)),
           (''drawdown_capital_preservation'', JDec (rp_drawdown_capital_preservation p)),
           (''max_live_venues'', JInt (rp_max_live_venues p)), (''pilot_cap_usd'', JDec (rp_pilot_cap_usd p)),
           (''starting_equity_usd'', JDec (rp_starting_equity_usd p))]"

definition frozen_hashes ::
  "digests \<Rightarrow> proof_artifact \<Rightarrow> snapshots \<Rightarrow> fee_table \<Rightarrow> economics_policy \<Rightarrow> risk_policy \<Rightarrow> sha256 list" where
  "frozen_hashes D p books fees economics_policy risk_policy =
     py_sorted_set (pa_source_hashes p @ List.map_filter (\<lambda>(_, b). map_option bk_source_hash b) books @
       List.map_filter (\<lambda>(_, f). map_option fr_source_hash f) fees @
       [sha256_of D (economics_policy_content economics_policy), sha256_of D (risk_policy_content risk_policy)])"

definition leg_plan_content :: "shadow_leg_plan \<Rightarrow> jval" where
  "leg_plan_content l =
     JObj [(''leg_index'', JInt (sl_leg_index l)), (''venue'', JText (venue_value (sl_venue l))),
           (''market_id'', JText (sl_market_id l)), (''outcome_token_id'', jopt JText (sl_outcome_token_id l)),
           (''sequence_position'', JInt (sl_sequence_position l)),
           (''limit_price_levels'', JList (map (\<lambda>(p, q). JList [JDec p, JDec q]) (sl_limit_price_levels l))),
           (''max_quantity'', JDec (sl_max_quantity l))]"

text \<open>\<open>plan.model_dump(mode="json", exclude={"proposal_id"})\<close>\<close>

definition plan_content :: "shadow_plan \<Rightarrow> jval" where
  "plan_content p =
     JObj [(''schema_version'', JInt 1), (''candidate_id'', JUuid (pl_candidate_id p)),
           (''proof_id'', JUuid (pl_proof_id p)), (''scan_report_id'', JUuid (pl_scan_report_id p)),
           (''legs'', JList (map leg_plan_content (pl_legs p))),
           (''bottleneck_leg_index'', JInt (pl_bottleneck_leg_index p)),
           (''max_quantity'', JDec (pl_max_quantity p)), (''order_policy'', JText ''taker_cross_only''),
           (''expires_at'', JTime (pl_expires_at p)), (''completion_path'', JText (pl_completion_path p)),
           (''cancellation_path'', JText (pl_cancellation_path p)), (''unwind_path'', JText (pl_unwind_path p)),
           (''max_incomplete_exposure_usd'', JDec (pl_max_incomplete_exposure_usd p)),
           (''max_incomplete_loss_usd'', JDec (pl_max_incomplete_loss_usd p)),
           (''frozen_hashes'', jhashes (pl_frozen_hashes p)), (''policy_id'', JText (pl_policy_id p)),
           (''policy_version'', JText (pl_policy_version p)),
           (''risk_policy_version'', JText (pl_risk_policy_version p)),
           (''minimum_basket_payout'', JDec (pl_minimum_basket_payout p)),
           (''kill_conditions'', JList (map JText (pl_kill_conditions p))),
           (''information_cutoff'', JTime (pl_information_cutoff p)), (''observed_at'', JTime (pl_observed_at p))]"

section \<open>Planning\<close>

text \<open>The plan of a risk-sized basket: lines 196 to 251 of the planner.\<close>

definition freeze_plan ::
  "digests \<Rightarrow> scan_report \<Rightarrow> candidate_relationship \<Rightarrow> proof_artifact \<Rightarrow> snapshots \<Rightarrow> fee_table \<Rightarrow>
     economics_policy \<Rightarrow> risk_policy \<Rightarrow> timestamp \<Rightarrow> int \<Rightarrow> nat list \<Rightarrow> book_snapshot \<Rightarrow> risk_decision \<Rightarrow>
     economics_result \<Rightarrow> planning result" where
  "freeze_plan D scan_report candidate p books fees economics_policy risk_policy as_of expiry_window
       ordered first_book risk final_economics =
     (let quantity = er_quantity final_economics; first_index = hd ordered in
      bindE (mapE (\<lambda>(sequence_position, index).
          bindE (py_item (er_leg_plans final_economics) (int index)) (\<lambda>leg_plan.
          shadow_leg leg_plan quantity sequence_position)) (enumerate 0 ordered)) (\<lambda>shadow_legs.
      bindE (py_item (er_leg_plans final_economics) (int first_index)) (\<lambda>first_plan.
      let first_acquisition_cost = le_acquisition_cost_usd first_plan in
      case walk_bid_proceeds (bk_bids first_book) quantity of
        None \<Rightarrow> refusal MISSING_EVIDENCE ''bottleneck leg has insufficient bid depth for conservative unwind'' None
      | Some unwind_proceeds \<Rightarrow>
      let incomplete_loss = incomplete_loss_of first_acquisition_cost unwind_proceeds
            (ep_partial_fill_reserve_rate economics_policy);
          order = join_texts '' -> '' (map leg_name shadow_legs) in
      case pa_minimum_basket_payout p of
        None \<Rightarrow> Inl (ValueError ''plan field'')
      | Some payout_floor \<Rightarrow>
      let fields =
           \<lparr>pl_proposal_id = Uuid 0, pl_candidate_id = cd_candidate_id candidate, pl_proof_id = pa_proof_id p,
            pl_scan_report_id = sc_report_id scan_report, pl_legs = shadow_legs,
            pl_bottleneck_leg_index = int first_index, pl_max_quantity = quantity,
            pl_expires_at = as_of + seconds expiry_window,
            pl_completion_path = ''Acquire legs in order '' @ order @ ''; complete every remaining leg.'',
            pl_cancellation_path = ''Cancel every unfilled order for sequence '' @ order @ ''.'',
            pl_unwind_path = ''If sequence '' @ order @ '' cannot complete, unwind filled legs in reverse order.'',
            pl_max_incomplete_exposure_usd = first_acquisition_cost, pl_max_incomplete_loss_usd = incomplete_loss,
            pl_frozen_hashes = frozen_hashes D p books fees economics_policy risk_policy,
            pl_policy_id = ep_policy_id economics_policy, pl_policy_version = ep_policy_version economics_policy,
            pl_risk_policy_version = rd_policy_version risk, pl_minimum_basket_payout = payout_floor,
            pl_kill_conditions = KILL_CONDITIONS, pl_information_cutoff = as_of, pl_observed_at = as_of\<rparr> in
      bindE (validate_shadow_plan fields) (\<lambda>provisional.
      bindE (validate_shadow_plan (fields\<lparr>pl_proposal_id :=
          deterministic_proposal_id D (sc_report_id scan_report) (plan_content provisional)\<rparr>)) (\<lambda>plan.
      Inr (Planned plan))))))"

text \<open>The economics on the books cut to the size the risk gate allows: lines 170 to 194.\<close>

definition size_plan ::
  "digests \<Rightarrow> scan_report \<Rightarrow> candidate_relationship \<Rightarrow> proof_artifact \<Rightarrow> snapshots \<Rightarrow> fee_table \<Rightarrow>
     economics_policy \<Rightarrow> risk_policy \<Rightarrow> timestamp \<Rightarrow> int \<Rightarrow> nat list \<Rightarrow> book_snapshot \<Rightarrow> risk_decision \<Rightarrow>
     economics_result \<Rightarrow> planning result" where
  "size_plan D scan_report candidate p books fees economics_policy risk_policy as_of expiry_window
       ordered first_book risk economics =
     bindE (cap_ask_books books candidate (dmul (er_quantity economics) (rd_size_multiplier risk))) (\<lambda>capped_books.
     bindE (evaluate_basket_economics p candidate (basket_books_of capped_books) fees economics_policy as_of) (\<lambda>final_economics.
     if er_status final_economics \<noteq> Basket_evaluated
     then refusal MISSING_EVIDENCE (''risk-sized economics could not be evaluated: '' @
            text_or_none insufficiency_value (er_insufficiency_reason final_economics)) None
     else if dle (er_conservative_surplus_usd final_economics) dec0
     then refusal MISSING_EVIDENCE ''risk-sized economics does not have positive conservative surplus'' None
     else freeze_plan D scan_report candidate p books fees economics_policy risk_policy as_of expiry_window
            ordered first_book risk final_economics))"

text \<open>The first sizing and the risk gate: lines 110 to 168.\<close>

definition gate_plan ::
  "digests \<Rightarrow> scan_report \<Rightarrow> candidate_relationship \<Rightarrow> proof_artifact \<Rightarrow> snapshots \<Rightarrow> fee_table \<Rightarrow>
     economics_policy \<Rightarrow> risk_policy \<Rightarrow> shadow_portfolio \<Rightarrow> timestamp \<Rightarrow> int \<Rightarrow> string option \<Rightarrow> planning result" where
  "gate_plan D scan_report candidate p books fees economics_policy risk_policy portfolio as_of expiry_window
       event_cluster_id =
     bindE (evaluate_basket_economics p candidate (basket_books_of books) fees economics_policy as_of) (\<lambda>economics.
     if er_status economics \<noteq> Basket_evaluated
     then refusal MISSING_EVIDENCE (''economics could not be evaluated: '' @
            text_or_none insufficiency_value (er_insufficiency_reason economics)) None
     else if dle (er_conservative_surplus_usd economics) dec0
     then refusal MISSING_EVIDENCE ''fresh economics no longer has positive conservative surplus'' None
     else
     bindE (mapE (\<lambda>i. bindE (dict_item books (int i)) visible_ask_depth) [0..<length (cd_legs candidate)]) (\<lambda>depths.
     let ordered = ordered_indices depths; first_index = hd ordered in
     bindE (py_item (er_leg_plans economics) (int first_index)) (\<lambda>first_plan.
     bindE (dict_item books (int first_index)) (\<lambda>entry.
     case entry of None \<Rightarrow> Inl AssertionError
     | Some first_book \<Rightarrow>
     (case walk_bid_proceeds (bk_bids first_book) (er_quantity economics) of
       None \<Rightarrow> refusal MISSING_EVIDENCE ''bottleneck leg has insufficient bid depth for conservative unwind'' None
     | Some full_unwind_proceeds \<Rightarrow>
     let full_incomplete_loss = incomplete_loss_of (le_acquisition_cost_usd first_plan) full_unwind_proceeds
           (ep_partial_fill_reserve_rate economics_policy) in
     bindE (evaluate_risk_gate (PyDecimal (er_all_in_cost_usd economics)) (PyDecimal full_incomplete_loss)
              (case event_cluster_id of Some c \<Rightarrow> c | None \<Rightarrow> str_of_uuid (cd_candidate_id candidate))
              portfolio risk_policy) (\<lambda>risk.
     if \<not> rd_allowed risk
     then refusal RISK_REFUSED (''risk gate refused proposal: '' @ text_or_none risk_reason_value (rd_reason risk)) (Some risk)
     else size_plan D scan_report candidate p books fees economics_policy risk_policy as_of expiry_window
            ordered first_book risk economics))))))"

definition plan_shadow_proposal ::
  "digests \<Rightarrow> scan_report \<Rightarrow> candidate_relationship \<Rightarrow> proof_artifact \<Rightarrow> snapshots \<Rightarrow> fee_table \<Rightarrow>
     economics_policy \<Rightarrow> risk_policy \<Rightarrow> shadow_portfolio \<Rightarrow> timestamp \<Rightarrow> int \<Rightarrow> string option \<Rightarrow> planning result" where
  "plan_shadow_proposal D scan_report candidate p books fees economics_policy risk_policy portfolio as_of
       expiry_window_seconds event_cluster_id =
     (case bindE (validate_scan_report scan_report) (\<lambda>scan_report.
           bindE (validate_candidate candidate) (\<lambda>candidate.
           bindE (validate_proof p) (\<lambda>p.
           bindE (revalidate_evidence_mapping validate_book books) (\<lambda>books.
           bindE (revalidate_evidence_mapping validate_fee_rate fees) (\<lambda>fees.
           bindE (validate_economics_policy economics_policy) (\<lambda>economics_policy.
           bindE (validate_policy risk_policy) (\<lambda>risk_policy.
           bindE (validate_portfolio portfolio) (\<lambda>portfolio.
           Inr (scan_report, candidate, p, books, fees, economics_policy, risk_policy, portfolio))))))))) of
        Inl _ \<Rightarrow> invalid_evidence_refusal
      | Inr (scan_report, candidate, p, books, fees, economics_policy, risk_policy, portfolio) \<Rightarrow>
          if expiry_window_seconds \<le> 0 then Inl (ValueError ''expiry_window_seconds must be positive'')
          else if sc_decision scan_report \<noteq> SHADOW_CANDIDATE
          then refusal SCAN_NOT_SHADOW_CANDIDATE
                 (''scan report decision is '' @ scan_decision_value (sc_decision scan_report)) None
          else case proof_current_failure scan_report candidate p as_of of
            Some failure \<Rightarrow> refusal PROOF_NOT_CURRENT failure None
          | None \<Rightarrow>
              if \<not> evidence_identity_matches candidate books fees then invalid_evidence_refusal
              else gate_plan D scan_report candidate p books fees economics_policy risk_policy portfolio as_of
                     expiry_window_seconds event_cluster_id)"

end
