(* ===== verification/Shadow_Simulator.thy ===== *)
theory Shadow_Simulator
  imports Shadow_Ledger Shadow_Planner
begin

text \<open>
  The shadow simulator (\<open>predictions/shadow_simulator.py\<close>): the replay of a frozen plan against books a
  caller supplies, under a stress scenario.  The book provider is a parameter, a function of the leg
  index and the requested time; the cache of the books already read is part of the state, as are the
  evidence hashes, the acquisitions and the buys the terminal event will carry.
\<close>

section \<open>Scenarios\<close>

record stress_scenario =
  ss_scenario_id :: string
  ss_latency_seconds :: int
  ss_fill_fraction :: dec
  ss_failing_leg_index :: "int option"
  ss_unknown_after_leg :: "int option"

definition validate_scenario :: "stress_scenario \<Rightarrow> stress_scenario result" where
  "validate_scenario s =
     (if \<not> (nonempty_string (ss_scenario_id s) \<and> 0 \<le> ss_latency_seconds s \<and>
            dlt dec0 (ss_fill_fraction s) \<and> dle (ss_fill_fraction s) (dec_of_int 1) \<and>
            opt_all (\<lambda>i. 0 \<le> i) (ss_failing_leg_index s) \<and> opt_all (\<lambda>i. 0 \<le> i) (ss_unknown_after_leg s))
      then Inl (ValueError ''scenario field'') else Inr s)"

definition BASELINE :: stress_scenario where
  "BASELINE = \<lparr>ss_scenario_id = ''baseline'', ss_latency_seconds = 0, ss_fill_fraction = Dec False 1 0,
     ss_failing_leg_index = None, ss_unknown_after_leg = None\<rparr>"

definition LATENCY_1S :: stress_scenario where
  "LATENCY_1S = \<lparr>ss_scenario_id = ''latency_1s'', ss_latency_seconds = 1, ss_fill_fraction = Dec False 1 0,
     ss_failing_leg_index = None, ss_unknown_after_leg = None\<rparr>"

definition LATENCY_5S :: stress_scenario where
  "LATENCY_5S = \<lparr>ss_scenario_id = ''latency_5s'', ss_latency_seconds = 5, ss_fill_fraction = Dec False 1 0,
     ss_failing_leg_index = None, ss_unknown_after_leg = None\<rparr>"

definition PARTIAL_FILL_50 :: stress_scenario where
  "PARTIAL_FILL_50 = \<lparr>ss_scenario_id = ''partial_fill_50'', ss_latency_seconds = 0, ss_fill_fraction = Dec False 5 (-1),
     ss_failing_leg_index = None, ss_unknown_after_leg = None\<rparr>"

definition SECOND_LEG_REJECT :: stress_scenario where
  "SECOND_LEG_REJECT = \<lparr>ss_scenario_id = ''second_leg_reject'', ss_latency_seconds = 0, ss_fill_fraction = Dec False 1 0,
     ss_failing_leg_index = Some 1, ss_unknown_after_leg = None\<rparr>"

definition UNKNOWN_AFTER_FIRST :: stress_scenario where
  "UNKNOWN_AFTER_FIRST = \<lparr>ss_scenario_id = ''unknown_after_first'', ss_latency_seconds = 0, ss_fill_fraction = Dec False 1 0,
     ss_failing_leg_index = None, ss_unknown_after_leg = Some 0\<rparr>"

interpretation scenarios: revalidation validate_scenario
  by unfold_locales (simp add: validate_scenario_def split: if_splits)

section \<open>Inputs\<close>

definition revalidate_fees :: "(int, fee_rate) dict \<Rightarrow> (int, fee_rate) dict result" where
  "revalidate_fees fees = mapE (\<lambda>(index, fee). bindE (validate_fee_rate fee) (\<lambda>f. Inr (index, f))) fees"

definition frozen_leg_ok ::
  "shadow_plan \<Rightarrow> candidate_relationship \<Rightarrow> (int, fee_rate) dict \<Rightarrow> shadow_leg_plan \<Rightarrow> unit result" where
  "frozen_leg_ok plan candidate fees leg =
     bindE (py_item (cd_legs candidate) (sl_leg_index leg)) (\<lambda>candidate_leg.
     bindE (dict_item fees (sl_leg_index leg)) (\<lambda>fee.
     checkE
       [(sl_venue leg \<noteq> cl_venue candidate_leg \<or> sl_market_id leg \<noteq> cl_market_id candidate_leg \<or>
           sl_outcome_token_id leg \<noteq> cl_outcome_token_id candidate_leg \<or> fr_venue fee \<noteq> cl_venue candidate_leg \<or>
           (fr_market_id fee \<noteq> None \<and> fr_market_id fee \<noteq> Some (cl_market_id candidate_leg)),
         ValueError ''plan, candidate, and fee leg evidence must agree''),
        (\<not> deq (sl_max_quantity leg) (pl_max_quantity plan),
         ValueError ''every planned leg must use the plan common quantity''),
        (\<not> deq (dsum (map snd (sl_limit_price_levels leg))) (sl_max_quantity leg),
         ValueError ''planned limit capacities must equal the leg maximum quantity''),
        (any_adjacent (\<lambda>left right. dle (fst right) (fst left)) (sl_limit_price_levels leg),
         ValueError ''planned limit prices must be strictly ascending'')]))"

definition required_hashes ::
  "digests \<Rightarrow> proof_artifact \<Rightarrow> candidate_relationship \<Rightarrow> (int, fee_rate) dict \<Rightarrow> economics_policy \<Rightarrow> sha256 list" where
  "required_hashes D p candidate fees policy =
     pa_source_hashes p @ map cl_rule_source_hash (cd_legs candidate) @ map (fr_source_hash \<circ> snd) fees @
     [sha256_of D (economics_policy_content policy)]"

definition validate_frozen_inputs ::
  "digests \<Rightarrow> shadow_plan \<Rightarrow> proof_artifact \<Rightarrow> candidate_relationship \<Rightarrow> (int, fee_rate) dict \<Rightarrow>
     economics_policy \<Rightarrow> shadow_leg_plan list \<Rightarrow> unit result" where
  "validate_frozen_inputs D plan p candidate fees policy ordered_legs =
     (let expected_indices = set (map int [0..<length (cd_legs candidate)]) in
      bindE (checkE
        [(pl_proof_id plan \<noteq> pa_proof_id p \<or> pl_candidate_id plan \<noteq> cd_candidate_id candidate,
          ValueError ''plan, proof, and candidate identities must agree''),
         (pa_candidate_id p \<noteq> cd_candidate_id candidate \<or> pa_status p \<noteq> Proof_ready,
          ValueError (''simulator requires the plan'' @ [CHR 0x27] @ ''s proof-ready artifact'')),
         (\<not> (case pa_minimum_basket_payout p of None \<Rightarrow> False | Some m \<Rightarrow> deq (pl_minimum_basket_payout plan) m),
          ValueError ''plan payout floor does not match its proof''),
         (pl_policy_id plan \<noteq> ep_policy_id policy \<or> pl_policy_version plan \<noteq> ep_policy_version policy,
          ValueError ''plan economics policy identity does not match''),
         (set (map sl_leg_index ordered_legs) \<noteq> expected_indices \<or> set (map fst fees) \<noteq> expected_indices,
          ValueError ''plan legs and fees must exactly cover candidate legs'')]) (\<lambda>_.
      bindE (mapE (frozen_leg_ok plan candidate fees) ordered_legs) (\<lambda>_.
      if \<not> set (required_hashes D p candidate fees policy) \<subseteq> set (pl_frozen_hashes plan)
      then Inl (ValueError ''proof, candidate, fee, and policy evidence must be frozen in the plan'')
      else Inr ())))"

definition validate_scenario_indices :: "stress_scenario \<Rightarrow> nat \<Rightarrow> unit result" where
  "validate_scenario_indices scenario leg_count =
     (if list_ex (\<lambda>index. \<not> opt_all (\<lambda>i. i < int leg_count) index) [ss_failing_leg_index scenario, ss_unknown_after_leg scenario]
      then Inl (ValueError ''scenario leg positions must identify a planned execution position'') else Inr ())"

definition validate_provider_book ::
  "candidate_relationship \<Rightarrow> shadow_leg_plan \<Rightarrow> book_snapshot \<Rightarrow> timestamp \<Rightarrow> unit result" where
  "validate_provider_book candidate leg book requested_at =
     bindE (py_item (cd_legs candidate) (sl_leg_index leg)) (\<lambda>candidate_leg.
     checkE
       [(bk_venue book \<noteq> cl_venue candidate_leg \<or> bk_market_id book \<noteq> cl_market_id candidate_leg \<or>
           bk_outcome_token_id book \<noteq> cl_outcome_token_id candidate_leg,
         ValueError ''provider book does not match the requested candidate leg''),
        (requested_at < bk_observed_at book \<or> requested_at < bk_effective_at book,
         ValueError ''provider book contains evidence from after its requested time'')])"

section \<open>Timing\<close>

definition fill_at :: "timestamp \<Rightarrow> nat \<Rightarrow> stress_scenario \<Rightarrow> timestamp" where
  "fill_at started_at position scenario = started_at + seconds ((int position + 1) * ss_latency_seconds scenario)"

definition submit_at :: "timestamp \<Rightarrow> nat \<Rightarrow> stress_scenario \<Rightarrow> timestamp" where
  "submit_at started_at position scenario = started_at + seconds (int position * ss_latency_seconds scenario)"

definition timing_stop ::
  "shadow_plan \<Rightarrow> stress_scenario \<Rightarrow> timestamp \<Rightarrow> nat \<Rightarrow> (shadow_state \<times> timestamp \<times> string) option" where
  "timing_stop plan scenario started_at position =
     (let submitted = submit_at started_at position scenario; filled = fill_at started_at position scenario
      in if pl_expires_at plan < submitted
         then Some (Expired, submitted, ''proposal expired before the leg could be submitted'')
         else if ss_unknown_after_leg scenario = Some (int position)
         then Some (Unknown, submitted, ''order state became unknown after submission; simulation halted'')
         else if pl_expires_at plan < filled
         then Some (Expired, filled, ''proposal expired before the leg fill could be confirmed'')
         else None)"

section \<open>Walking books\<close>

definition append_level :: "price_level list \<Rightarrow> dec \<Rightarrow> dec \<Rightarrow> price_level list" where
  "append_level levels price quantity =
     (if levels \<noteq> [] \<and> deq (fst (last levels)) price
      then butlast levels @ [(fst (last levels), dadd (snd (last levels)) quantity)]
      else levels @ [(price, quantity)])"

text \<open>
  The inner loop of \<open>_walk_current_asks\<close> over the asks with what is left of each: it returns them, the
  remaining target and the levels filled.  The outer loop runs over the limits.
\<close>

fun take_asks ::
  "dec \<Rightarrow> price_level list \<Rightarrow> dec \<Rightarrow> dec \<Rightarrow> price_level list \<Rightarrow> price_level list \<times> dec \<times> price_level list" where
  "take_asks limit_price [] remaining_limit remaining_target filled = ([], remaining_target, filled)"
| "take_asks limit_price ((price, available) # asks) remaining_limit remaining_target filled =
     (if dle remaining_limit dec0 \<or> dle remaining_target dec0 \<or> dlt limit_price price
      then ((price, available) # asks, remaining_target, filled)
      else let take_quantity = dmin (dmin available remaining_limit) remaining_target
           in if dle take_quantity dec0
              then (case take_asks limit_price asks remaining_limit remaining_target filled of
                      (asks', target, filled') \<Rightarrow> ((price, available) # asks', target, filled'))
              else (case take_asks limit_price asks (dsub remaining_limit take_quantity)
                           (dsub remaining_target take_quantity) (append_level filled price take_quantity) of
                      (asks', target, filled') \<Rightarrow> ((price, dsub available take_quantity) # asks', target, filled')))"

fun walk_limits :: "price_level list \<Rightarrow> price_level list \<Rightarrow> dec \<Rightarrow> price_level list \<Rightarrow> price_level list" where
  "walk_limits [] asks remaining_target filled = filled"
| "walk_limits ((limit_price, limit_capacity) # limits) asks remaining_target filled =
     (case take_asks limit_price asks (dmin limit_capacity remaining_target) remaining_target filled of
        (asks', target, filled') \<Rightarrow>
          if dle target dec0 then filled' else walk_limits limits asks' target filled')"

definition walk_current_asks :: "shadow_leg_plan \<Rightarrow> book_snapshot \<Rightarrow> dec \<Rightarrow> dec \<Rightarrow> price_level list" where
  "walk_current_asks leg book target_quantity fill_fraction =
     walk_limits (sl_limit_price_levels leg)
       (map (\<lambda>level. (bl_price level, dmul (bl_size level) fill_fraction)) (bk_asks book))
       (dmin target_quantity (sl_max_quantity leg)) []"

fun walk_bids :: "dec \<Rightarrow> book_level list \<Rightarrow> dec \<Rightarrow> price_level list" where
  "walk_bids fill_fraction [] remaining = []"
| "walk_bids fill_fraction (level # bids) remaining =
     (if dle remaining dec0 then []
      else let take_quantity = dmin (dmul (bl_size level) fill_fraction) remaining
           in if dlt dec0 take_quantity
              then (bl_price level, take_quantity) # walk_bids fill_fraction bids (dsub remaining take_quantity)
              else walk_bids fill_fraction bids remaining)"

definition walk_current_bids :: "book_snapshot \<Rightarrow> dec \<Rightarrow> dec \<Rightarrow> price_level list" where
  "walk_current_bids book target_quantity fill_fraction = walk_bids fill_fraction (bk_bids book) target_quantity"

definition book_with_asks :: "book_snapshot \<Rightarrow> price_level list \<Rightarrow> book_snapshot result" where
  "book_with_asks book levels =
     bindE (mapE (\<lambda>(price, size). validate_level \<lparr>bl_price = price, bl_size = size\<rparr>) levels) (\<lambda>asks.
     validate_book (book\<lparr>bk_asks := asks\<rparr>))"

section \<open>Events\<close>

definition EVENT_IDENTITY_NAMESPACE :: uuid where
  "EVENT_IDENTITY_NAMESPACE = Uuid 0x78d54095e80a4c69aa4ee64687377a09"

text \<open>\<open>_event\<close>: the fields are validated, named by their content, and validated under that name.\<close>

definition name_event :: "digests \<Rightarrow> shadow_event \<Rightarrow> shadow_event result" where
  "name_event D draft =
     bindE (validate_shadow_event draft) (\<lambda>provisional.
     validate_shadow_event (draft\<lparr>se_event_id := uuid5_of D EVENT_IDENTITY_NAMESPACE
       (JList [JUuid (se_proposal_id draft), JInt (se_sequence draft), event_content provisional])\<rparr>))"

definition provenance_specifications :: "(shadow_state option \<times> shadow_state \<times> string) list" where
  "provenance_specifications =
     [(None, Discovered, ''proposal discovered''),
      (Some Discovered, Proof_validated, ''proof artifact validated''),
      (Some Proof_validated, Economics_validated, ''frozen economics validated''),
      (Some Economics_validated, Shadow_planned, ''shadow execution plan frozen'')]"

definition provenance_fields :: "shadow_plan \<Rightarrow> nat \<times> shadow_state option \<times> shadow_state \<times> string \<Rightarrow> shadow_event" where
  "provenance_fields plan = (\<lambda>(n, from_state, to_state, detail).
     \<lparr>se_event_id = Uuid 0, se_proposal_id = pl_proposal_id plan, se_sequence = int n, se_from_state = from_state,
      se_to_state = to_state, se_occurred_at = pl_information_cutoff plan, se_detail = detail,
      se_quantity_filled = None, se_leg_index = None, se_scenario_id = None, se_fills = [], se_evidence_hashes = []\<rparr>)"

definition provenance_events :: "digests \<Rightarrow> shadow_plan \<Rightarrow> shadow_event list result" where
  "provenance_events D plan =
     mapE (\<lambda>s. name_event D (provenance_fields plan s)) (enumerate 0 provenance_specifications)"

definition first_attempt_fields ::
  "shadow_plan \<Rightarrow> stress_scenario \<Rightarrow> shadow_leg_plan \<Rightarrow> timestamp \<Rightarrow> shadow_fill option \<Rightarrow> sha256 list \<Rightarrow> shadow_event" where
  "first_attempt_fields plan scenario leg occurred_at fill evidence_hashes =
     \<lparr>se_event_id = Uuid 0, se_proposal_id = pl_proposal_id plan, se_sequence = 4, se_from_state = Some Shadow_planned,
      se_to_state = First_leg_simulated, se_occurred_at = occurred_at,
      se_detail = (if fill \<noteq> None then ''first planned leg filled against point-in-time book evidence''
                   else ''first planned leg submission produced no confirmed fill''),
      se_quantity_filled = map_option sf_quantity fill, se_leg_index = Some (sl_leg_index leg),
      se_scenario_id = Some (ss_scenario_id scenario),
      se_fills = (case fill of None \<Rightarrow> [] | Some f \<Rightarrow> [f]), se_evidence_hashes = py_sorted_set evidence_hashes\<rparr>"

definition append_first_attempt ::
  "digests \<Rightarrow> shadow_plan \<Rightarrow> stress_scenario \<Rightarrow> shadow_leg_plan \<Rightarrow> timestamp \<Rightarrow> shadow_fill option \<Rightarrow>
     sha256 list \<Rightarrow> shadow_event list \<Rightarrow> shadow_event list result" where
  "append_first_attempt D plan scenario leg occurred_at fill evidence_hashes events =
     bindE (name_event D (first_attempt_fields plan scenario leg occurred_at fill evidence_hashes))
       (\<lambda>e. Inr (events @ [e]))"

definition terminal_fields ::
  "shadow_plan \<Rightarrow> stress_scenario \<Rightarrow> shadow_state \<Rightarrow> timestamp \<Rightarrow> string \<Rightarrow> dec option \<Rightarrow> int \<Rightarrow> shadow_fill list \<Rightarrow>
     sha256 list \<Rightarrow> shadow_event" where
  "terminal_fields plan scenario state occurred_at detail quantity_filled leg_index fills evidence_hashes =
     \<lparr>se_event_id = Uuid 0, se_proposal_id = pl_proposal_id plan, se_sequence = 5,
      se_from_state = Some First_leg_simulated, se_to_state = state, se_occurred_at = occurred_at,
      se_detail = detail, se_quantity_filled = quantity_filled, se_leg_index = Some leg_index,
      se_scenario_id = Some (ss_scenario_id scenario), se_fills = fills,
      se_evidence_hashes = py_sorted_set evidence_hashes\<rparr>"

definition append_terminal ::
  "digests \<Rightarrow> shadow_plan \<Rightarrow> stress_scenario \<Rightarrow> shadow_state \<Rightarrow> timestamp \<Rightarrow> string \<Rightarrow> dec option \<Rightarrow> int \<Rightarrow>
     shadow_fill list \<Rightarrow> sha256 list \<Rightarrow> shadow_event list \<Rightarrow> shadow_event list result" where
  "append_terminal D plan scenario state occurred_at detail quantity_filled leg_index fills evidence_hashes events =
     bindE (name_event D (terminal_fields plan scenario state occurred_at detail quantity_filled leg_index fills evidence_hashes))
       (\<lambda>e. Inr (events @ [e]))"

section \<open>The state of a run\<close>

text \<open>
  What a run reads and never changes, and what it accumulates: the book cache, the events appended,
  the evidence hashes of the terminal event, the acquisitions, and the buys of the terminal event.
\<close>

record run_context =
  cx_digests :: digests
  cx_plan :: shadow_plan
  cx_candidate :: candidate_relationship
  cx_policy :: economics_policy
  cx_scenario :: stress_scenario
  cx_started_at :: timestamp
  cx_books :: "int \<Rightarrow> timestamp \<Rightarrow> book_snapshot option"

type_synonym book_cache = "(int \<times> timestamp, book_snapshot option \<times> bool) dict"

record run_state =
  rs_cache :: book_cache
  rs_events :: "shadow_event list"
  rs_evidence :: "sha256 list"
  rs_acquisitions :: "shadow_fill list"
  rs_terminal_buys :: "shadow_fill list"

text \<open>A fresh reading of the provider, the cached reading, and \<open>read_book\<close>.\<close>

definition fetch_book :: "run_context \<Rightarrow> shadow_leg_plan \<Rightarrow> timestamp \<Rightarrow> (book_snapshot option \<times> bool) result" where
  "fetch_book cx leg moment =
     (case cx_books cx (sl_leg_index leg) moment of
        None \<Rightarrow> Inr (None, False)
      | Some supplied \<Rightarrow>
          bindE (validate_book supplied) (\<lambda>validated.
          bindE (validate_provider_book (cx_candidate cx) leg validated moment) (\<lambda>_.
          Inr (Some validated, moment - bk_observed_at validated \<le> seconds (ep_max_book_age_seconds (cx_policy cx))))))"

definition cached_book ::
  "run_context \<Rightarrow> book_cache \<Rightarrow> shadow_leg_plan \<Rightarrow> timestamp \<Rightarrow> ((book_snapshot option \<times> bool) \<times> book_cache) result" where
  "cached_book cx cache leg moment =
     (case map_of cache (sl_leg_index leg, moment) of
        Some entry \<Rightarrow> Inr (entry, cache)
      | None \<Rightarrow> bindE (fetch_book cx leg moment) (\<lambda>entry.
          Inr (entry, AList.update (sl_leg_index leg, moment) entry cache)))"

definition read_book ::
  "run_context \<Rightarrow> shadow_leg_plan \<Rightarrow> timestamp \<Rightarrow> book_cache \<Rightarrow> sha256 list \<Rightarrow>
     (book_snapshot option \<times> book_cache \<times> sha256 list) result" where
  "read_book cx leg moment cache evidence =
     bindE (cached_book cx cache leg moment) (\<lambda>((snapshot, usable), cache').
     Inr (if usable then snapshot else None, cache',
          (case snapshot of None \<Rightarrow> evidence | Some b \<Rightarrow> List.insert (bk_source_hash b) evidence)))"

definition read_terminal_book ::
  "run_context \<Rightarrow> shadow_leg_plan \<Rightarrow> timestamp \<Rightarrow> run_state \<Rightarrow> (book_snapshot option \<times> run_state) result" where
  "read_terminal_book cx leg moment st =
     bindE (read_book cx leg moment (rs_cache st) (rs_evidence st)) (\<lambda>(book, cache, evidence).
     Inr (book, st\<lparr>rs_cache := cache, rs_evidence := evidence\<rparr>))"

definition stop_run ::
  "run_context \<Rightarrow> run_state \<Rightarrow> shadow_state \<Rightarrow> timestamp \<Rightarrow> string \<Rightarrow> dec option \<Rightarrow> int \<Rightarrow> shadow_fill list \<Rightarrow>
     shadow_event list result" where
  "stop_run cx st state occurred_at detail quantity_filled leg_index fills =
     append_terminal (cx_digests cx) (cx_plan cx) (cx_scenario cx) state occurred_at detail quantity_filled leg_index
       fills (rs_evidence st) (rs_events st)"

section \<open>Unwinding\<close>

definition make_fill :: "int \<Rightarrow> side \<Rightarrow> price_level list \<Rightarrow> dec \<Rightarrow> shadow_fill result" where
  "make_fill leg_index s levels quantity =
     validate_shadow_fill \<lparr>sf_leg_index = leg_index, sf_side = s, sf_price_levels = levels, sf_quantity = quantity\<rparr>"

definition levels_quantity :: "price_level list \<Rightarrow> dec" where
  "levels_quantity levels = dsum (map snd levels)"

definition acquisition_cost_of :: "shadow_fill list \<Rightarrow> dec" where
  "acquisition_cost_of fills =
     dsum (concat (map (\<lambda>fill. map (\<lambda>(price, quantity). dmul price quantity) (sf_price_levels fill)) fills))"

fun unwind_loop ::
  "run_context \<Rightarrow> timestamp \<Rightarrow> int \<Rightarrow> dec option \<Rightarrow> string \<Rightarrow> (int, shadow_leg_plan) dict \<Rightarrow> dec \<Rightarrow>
     shadow_fill list \<Rightarrow> run_state \<Rightarrow> shadow_fill list \<Rightarrow> dec \<Rightarrow> shadow_event list result" where
  "unwind_loop cx moment failed_leg failed_quantity reason legs cost [] st sells proceeds =
     stop_run cx st Unwound moment
       (reason @ ''; unwind_loss_usd='' @ str_of_dec (dmax (dsub cost proceeds) dec0))
       failed_quantity failed_leg (rs_terminal_buys st @ sells)"
| "unwind_loop cx moment failed_leg failed_quantity reason legs cost (acquisition # acquisitions) st sells proceeds =
     bindE (dict_item legs (sf_leg_index acquisition)) (\<lambda>leg.
     bindE (read_terminal_book cx leg moment st) (\<lambda>(book, st).
     case book of
       None \<Rightarrow> stop_run cx st Unknown moment (reason @ ''; unwind evidence was unavailable'')
                failed_quantity failed_leg (rs_terminal_buys st @ sells)
     | Some book \<Rightarrow>
     let levels = walk_current_bids book (sf_quantity acquisition) (ss_fill_fraction (cx_scenario cx));
         quantity = levels_quantity levels in
     bindE (if dlt dec0 quantity
            then bindE (make_fill (sf_leg_index acquisition) Sell levels quantity) (\<lambda>sell.
                 Inr (sells @ [sell], dadd proceeds (notional_of levels)))
            else Inr (sells, proceeds)) (\<lambda>(sells, proceeds).
     if \<not> deq quantity (sf_quantity acquisition)
     then stop_run cx st Unknown moment (reason @ ''; unwind bid depth was insufficient'')
            failed_quantity failed_leg (rs_terminal_buys st @ sells)
     else unwind_loop cx moment failed_leg failed_quantity reason legs cost acquisitions st sells proceeds)))"

definition unwind_or_unknown ::
  "run_context \<Rightarrow> timestamp \<Rightarrow> int \<Rightarrow> dec option \<Rightarrow> string \<Rightarrow> (int, shadow_leg_plan) dict \<Rightarrow> run_state \<Rightarrow>
     shadow_event list result" where
  "unwind_or_unknown cx moment failed_leg failed_quantity reason legs st =
     unwind_loop cx moment failed_leg failed_quantity reason legs (acquisition_cost_of (rs_acquisitions st))
       (rev (rs_acquisitions st)) st [] dec0"

section \<open>The run\<close>

text \<open>A loop that may return from the function: the events it returned, or the state it goes on with.\<close>

datatype 'a flow = Returned "shadow_event list" | Running 'a

definition return_events :: "shadow_event list result \<Rightarrow> 'a flow result" where
  "return_events m = bindE m (\<lambda>events. Inr (Returned events))"

definition then_flow :: "'a flow result \<Rightarrow> ('a \<Rightarrow> shadow_event list result) \<Rightarrow> shadow_event list result" where
  "then_flow m f = bindE m (\<lambda>r. case r of Returned events \<Rightarrow> Inr events | Running x \<Rightarrow> f x)"

text \<open>The first loop, taken when the first leg filled short: can every later leg fill the reduced quantity?\<close>

fun continuation_legs ::
  "run_context \<Rightarrow> (int, shadow_leg_plan) dict \<Rightarrow> dec \<Rightarrow> nat \<Rightarrow> shadow_leg_plan list \<Rightarrow> run_state \<Rightarrow> snapshots \<Rightarrow>
     (run_state \<times> snapshots) flow result" where
  "continuation_legs cx legs_by_index common_quantity position [] st books = Inr (Running (st, books))"
| "continuation_legs cx legs_by_index common_quantity position (leg # legs) st books =
     (let filled_at = fill_at (cx_started_at cx) position (cx_scenario cx) in
      case timing_stop (cx_plan cx) (cx_scenario cx) (cx_started_at cx) position of
        Some (state, occurred_at, detail) \<Rightarrow>
          return_events (stop_run cx st state occurred_at detail None (sl_leg_index leg) (rs_terminal_buys st))
      | None \<Rightarrow>
      if ss_failing_leg_index (cx_scenario cx) = Some (int position)
      then return_events (unwind_or_unknown cx filled_at (sl_leg_index leg) None
             ''venue rejected the reduced-quantity continuation'' legs_by_index st)
      else bindE (read_terminal_book cx leg filled_at st) (\<lambda>(book, st).
      case book of
        None \<Rightarrow> return_events (stop_run cx st Unknown filled_at ''later point-in-time book evidence was unavailable''
                  None (sl_leg_index leg) (rs_terminal_buys st))
      | Some book \<Rightarrow>
      let levels = walk_current_asks leg book common_quantity (ss_fill_fraction (cx_scenario cx)) in
      if \<not> deq (levels_quantity levels) common_quantity
      then return_events (unwind_or_unknown cx filled_at (sl_leg_index leg) None
             ''later leg could not fill the reduced common quantity'' legs_by_index st)
      else bindE (book_with_asks book levels) (\<lambda>reduced.
           continuation_legs cx legs_by_index common_quantity (Suc position) legs st
             (AList.update (sl_leg_index leg) (Some reduced) books))))"

text \<open>The continuation: the loop, then the economics of the reduced basket.\<close>

definition continue_reduced ::
  "run_context \<Rightarrow> proof_artifact \<Rightarrow> (int, fee_rate) dict \<Rightarrow> (int, shadow_leg_plan) dict \<Rightarrow> shadow_leg_plan list \<Rightarrow>
     dec \<Rightarrow> book_snapshot \<Rightarrow> price_level list \<Rightarrow> run_state \<Rightarrow> run_state flow result" where
  "continue_reduced cx p fees legs_by_index ordered_legs common_quantity first_book first_levels st =
     bindE (book_with_asks first_book first_levels) (\<lambda>first_reduced.
     bindE (continuation_legs cx legs_by_index common_quantity 1 (tl ordered_legs) st
              [(sl_leg_index (hd ordered_legs), Some first_reduced)]) (\<lambda>r.
     case r of
       Returned events \<Rightarrow> Inr (Returned events)
     | Running (st, books) \<Rightarrow>
         let continuation_at = fill_at (cx_started_at cx) (length ordered_legs - 1) (cx_scenario cx) in
         bindE (evaluate_basket_economics p (cx_candidate cx) (basket_books_of books)
                  (map (\<lambda>(i, f). (i, Some f)) fees) (cx_policy cx) continuation_at) (\<lambda>continuation.
         if er_status continuation \<noteq> Basket_evaluated \<or> dle (er_conservative_surplus_usd continuation) dec0
         then return_events (unwind_or_unknown cx continuation_at (sl_leg_index (ordered_legs ! 1)) None
                ''recomputed reduced-quantity economics were not positive'' legs_by_index st)
         else Inr (Running st))))"

text \<open>The second loop: the later legs, each at the common quantity; at its end the run is complete.\<close>

fun execute_legs ::
  "run_context \<Rightarrow> (int, shadow_leg_plan) dict \<Rightarrow> dec \<Rightarrow> nat \<Rightarrow> shadow_leg_plan list \<Rightarrow> run_state \<Rightarrow> timestamp \<Rightarrow> int \<Rightarrow>
     shadow_event list result" where
  "execute_legs cx legs_by_index common_quantity position [] st terminal_at last_leg =
     stop_run cx st Complete terminal_at ''every planned leg filled at a common quantity''
       (Some common_quantity) last_leg (rs_terminal_buys st)"
| "execute_legs cx legs_by_index common_quantity position (leg # legs) st terminal_at last_leg =
     (let terminal_at = fill_at (cx_started_at cx) position (cx_scenario cx) in
      case timing_stop (cx_plan cx) (cx_scenario cx) (cx_started_at cx) position of
        Some (state, occurred_at, detail) \<Rightarrow>
          stop_run cx st state occurred_at detail None (sl_leg_index leg) (rs_terminal_buys st)
      | None \<Rightarrow>
      if ss_failing_leg_index (cx_scenario cx) = Some (int position)
      then unwind_or_unknown cx terminal_at (sl_leg_index leg) None ''venue rejected the planned leg'' legs_by_index st
      else bindE (read_terminal_book cx leg terminal_at st) (\<lambda>(book, st).
      case book of
        None \<Rightarrow> stop_run cx st Unknown terminal_at ''point-in-time book evidence was unavailable; simulation halted''
                  None (sl_leg_index leg) (rs_terminal_buys st)
      | Some book \<Rightarrow>
      let levels = walk_current_asks leg book common_quantity (ss_fill_fraction (cx_scenario cx));
          quantity = levels_quantity levels in
      bindE (if dlt dec0 quantity
             then bindE (make_fill (sl_leg_index leg) Buy levels quantity) (\<lambda>fill.
                  Inr (st\<lparr>rs_acquisitions := rs_acquisitions st @ [fill],
                          rs_terminal_buys := rs_terminal_buys st @ [fill]\<rparr>))
             else Inr st) (\<lambda>st.
      if \<not> deq quantity common_quantity
      then unwind_or_unknown cx terminal_at (sl_leg_index leg) (Some quantity)
             ''planned leg filled short of the common quantity'' legs_by_index st
      else execute_legs cx legs_by_index common_quantity (Suc position) legs st terminal_at (sl_leg_index leg))))"

text \<open>The first leg without a fill: an attempt, and at once the terminal event.\<close>

definition stop_first ::
  "run_context \<Rightarrow> shadow_event list \<Rightarrow> shadow_leg_plan \<Rightarrow> timestamp \<Rightarrow> sha256 list \<Rightarrow> shadow_state \<Rightarrow> timestamp \<Rightarrow>
     string \<Rightarrow> dec option \<Rightarrow> shadow_event list result" where
  "stop_first cx events leg attempted_at evidence state occurred_at detail quantity_filled =
     bindE (append_first_attempt (cx_digests cx) (cx_plan cx) (cx_scenario cx) leg attempted_at None evidence events) (\<lambda>events.
     append_terminal (cx_digests cx) (cx_plan cx) (cx_scenario cx) state occurred_at detail quantity_filled
       (sl_leg_index leg) [] [] events)"

definition run_plan ::
  "run_context \<Rightarrow> proof_artifact \<Rightarrow> (int, fee_rate) dict \<Rightarrow> shadow_leg_plan list \<Rightarrow> shadow_event list \<Rightarrow>
     shadow_event list result" where
  "run_plan cx p fees ordered_legs events =
     (let plan = cx_plan cx; scenario = cx_scenario cx;
          first_leg = hd ordered_legs;
          first_fill_at = fill_at (cx_started_at cx) 0 scenario;
          legs_by_index = map (\<lambda>leg. (sl_leg_index leg, leg)) ordered_legs in
      case timing_stop plan scenario (cx_started_at cx) 0 of
        Some (state, occurred_at, detail) \<Rightarrow> stop_first cx events first_leg occurred_at [] state occurred_at detail None
      | None \<Rightarrow>
      if ss_failing_leg_index scenario = Some 0
      then stop_first cx events first_leg first_fill_at [] Unwound first_fill_at
             ''venue rejected the first planned leg; unwind_loss_usd=0'' (Some dec0)
      else bindE (read_book cx first_leg first_fill_at [] []) (\<lambda>(book, cache, first_evidence).
      case book of
        None \<Rightarrow> stop_first cx events first_leg first_fill_at first_evidence Unknown first_fill_at
                  ''point-in-time book evidence was unavailable for the first leg'' None
      | Some first_book \<Rightarrow>
      let first_levels = walk_current_asks first_leg first_book (pl_max_quantity plan) (ss_fill_fraction scenario);
          common_quantity = levels_quantity first_levels in
      if dle common_quantity dec0
      then stop_first cx events first_leg first_fill_at first_evidence Unwound first_fill_at
             ''first leg had no executable quantity; no exposure was acquired'' (Some dec0)
      else
      bindE (make_fill (sl_leg_index first_leg) Buy first_levels common_quantity) (\<lambda>first_fill.
      bindE (append_first_attempt (cx_digests cx) plan scenario first_leg first_fill_at (Some first_fill)
               first_evidence events) (\<lambda>events.
      let st = \<lparr>rs_cache = cache, rs_events = events, rs_evidence = [], rs_acquisitions = [first_fill],
                rs_terminal_buys = []\<rparr> in
      then_flow
        (if dlt common_quantity (pl_max_quantity plan)
         then continue_reduced cx p fees legs_by_index ordered_legs common_quantity first_book first_levels st
         else Inr (Running st))
        (\<lambda>st. execute_legs cx legs_by_index common_quantity 1 (tl ordered_legs) st first_fill_at
                (sl_leg_index first_leg))))))"

definition simulate_shadow_proposal ::
  "digests \<Rightarrow> shadow_plan \<Rightarrow> proof_artifact \<Rightarrow> candidate_relationship \<Rightarrow> (int, fee_rate) dict \<Rightarrow> economics_policy \<Rightarrow>
     (int \<Rightarrow> timestamp \<Rightarrow> book_snapshot option) \<Rightarrow> stress_scenario \<Rightarrow> timestamp \<Rightarrow> shadow_event list result" where
  "simulate_shadow_proposal D plan p candidate fees economics_policy books scenario started_at =
     bindE (validate_shadow_plan plan) (\<lambda>plan.
     bindE (validate_proof p) (\<lambda>p.
     bindE (validate_candidate candidate) (\<lambda>candidate.
     bindE (validate_economics_policy economics_policy) (\<lambda>economics_policy.
     bindE (validate_scenario scenario) (\<lambda>scenario.
     bindE (revalidate_fees fees) (\<lambda>fees.
     if started_at < pl_information_cutoff plan
     then Inl (ValueError ''simulation cannot start before the plan information cutoff'')
     else
     let ordered_legs = sort_key sl_sequence_position (pl_legs plan) in
     bindE (validate_frozen_inputs D plan p candidate fees economics_policy ordered_legs) (\<lambda>_.
     bindE (validate_scenario_indices scenario (length ordered_legs)) (\<lambda>_.
     bindE (provenance_events D plan) (\<lambda>events.
     run_plan \<lparr>cx_digests = D, cx_plan = plan, cx_candidate = candidate, cx_policy = economics_policy,
                cx_scenario = scenario, cx_started_at = started_at, cx_books = books\<rparr>
       p fees ordered_legs events)))))))))"

end
