(* ===== verification/Shadow_Runs.thy ===== *)
theory Shadow_Runs
  imports Shadow_Simulator
begin

text \<open>
  What a simulated run is: the reading of books is independent of the cache, and every result of the
  simulator is a run of an abstract execution machine, given as two inductive relations, one for
  acquiring the legs in order and one for unwinding what was acquired.
\<close>

section \<open>Reading books\<close>

text \<open>The cache holds what a fresh reading would give; a reading depends on the leg's index only.\<close>

definition cache_ok :: "run_context \<Rightarrow> book_cache \<Rightarrow> bool" where
  "cache_ok cx cache \<longleftrightarrow>
     (\<forall>leg t entry. map_of cache (sl_leg_index leg, t) = Some entry \<longrightarrow> fetch_book cx leg t = Inr entry)"

lemma cache_ok_Nil [simp]: "cache_ok cx []"
  by (simp add: cache_ok_def)

lemma provider_book_index:
  "sl_leg_index l = sl_leg_index k \<Longrightarrow> validate_provider_book c l b t = validate_provider_book c k b t"
  unfolding validate_provider_book_def by (simp only:)

lemma fetch_book_index: "sl_leg_index l = sl_leg_index k \<Longrightarrow> fetch_book cx l t = fetch_book cx k t"
  unfolding fetch_book_def by (simp only: provider_book_index [of l k])

lemma cache_okD: "cache_ok cx cache \<Longrightarrow> map_of cache (sl_leg_index leg, t) = Some entry \<Longrightarrow> fetch_book cx leg t = Inr entry"
  unfolding cache_ok_def by blast

lemma cache_ok_update:
  assumes "cache_ok cx cache" and "fetch_book cx leg t = Inr entry"
  shows "cache_ok cx (AList.update (sl_leg_index leg, t) entry cache)"
  unfolding cache_ok_def
proof (intro allI impI)
  fix l :: shadow_leg_plan and t' e assume l: "map_of (AList.update (sl_leg_index leg, t) entry cache) (sl_leg_index l, t') = Some e"
  show "fetch_book cx l t' = Inr e"
  proof (cases "(sl_leg_index l, t') = (sl_leg_index leg, t)")
    case True
    then show ?thesis using l assms(2) fetch_book_index [of l leg cx t] by (simp add: update_conv')
  next
    case False
    then have "map_of cache (sl_leg_index l, t') = Some e" using l by (auto simp: update_conv')
    then show ?thesis by (rule cache_okD [OF assms(1)])
  qed
qed

lemma cached_book_fresh:
  assumes "cache_ok cx cache"
  shows "cached_book cx cache leg t = Inr (entry, cache') \<Longrightarrow> fetch_book cx leg t = Inr entry \<and> cache_ok cx cache'"
    and "fetch_book cx leg t = Inr entry \<Longrightarrow> \<exists>cache'. cached_book cx cache leg t = Inr (entry, cache')"
proof -
  show "fetch_book cx leg t = Inr entry \<and> cache_ok cx cache'" if c: "cached_book cx cache leg t = Inr (entry, cache')"
  proof (cases "map_of cache (sl_leg_index leg, t)")
    case None
    then have "fetch_book cx leg t = Inr entry" "cache' = AList.update (sl_leg_index leg, t) entry cache"
      using c by (auto simp: cached_book_def bindE_eq_Inr)
    then show ?thesis using cache_ok_update [OF assms] by simp
  next
    case (Some e)
    then show ?thesis using c assms cache_okD [OF assms Some] by (simp add: cached_book_def)
  qed
  show "\<exists>cache'. cached_book cx cache leg t = Inr (entry, cache')" if f: "fetch_book cx leg t = Inr entry"
  proof (cases "map_of cache (sl_leg_index leg, t)")
    case (Some e)
    with cache_okD [OF assms Some] f show ?thesis by (simp add: cached_book_def)
  qed (simp add: cached_book_def f)
qed

text \<open>A book a run acts on: supplied for the leg at that time, valid, matching, not from later, fresh.\<close>

definition usable_book :: "run_context \<Rightarrow> shadow_leg_plan \<Rightarrow> timestamp \<Rightarrow> book_snapshot \<Rightarrow> bool" where
  "usable_book cx leg t b \<longleftrightarrow> cx_books cx (sl_leg_index leg) t = Some b \<and> validate_book b = Inr b \<and>
     validate_provider_book (cx_candidate cx) leg b t = Inr () \<and>
     t - bk_observed_at b \<le> seconds (ep_max_book_age_seconds (cx_policy cx))"

lemma fetch_book_usable:
  "fetch_book cx leg t = Inr (snapshot, usable) \<Longrightarrow> usable \<Longrightarrow> \<exists>b. snapshot = Some b \<and> usable_book cx leg t b"
  unfolding fetch_book_def
  by (auto simp: bindE_eq_Inr usable_book_def split: option.splits dest: book.validate_id)

lemma read_book_Inr:
  assumes "read_book cx leg t cache evidence = Inr (book, cache', evidence')" and "cache_ok cx cache"
  shows "cache_ok cx cache'" and "book = Some b \<Longrightarrow> usable_book cx leg t b \<and> bk_source_hash b \<in> set evidence'"
    and "set evidence \<subseteq> set evidence'"
proof -
  from assms(1) obtain snapshot usable where
    c: "cached_book cx cache leg t = Inr ((snapshot, usable), cache')"
    and book: "book = (if usable then snapshot else None)"
    and ev: "evidence' = (case snapshot of None \<Rightarrow> evidence | Some b \<Rightarrow> List.insert (bk_source_hash b) evidence)"
    by (auto simp: read_book_def bindE_eq_Inr)
  from cached_book_fresh(1) [OF assms(2) c] have f: "fetch_book cx leg t = Inr (snapshot, usable)" "cache_ok cx cache'"
    by simp_all
  then show "cache_ok cx cache'" "set evidence \<subseteq> set evidence'" by (auto simp: ev split: option.splits)
  show "book = Some b \<Longrightarrow> usable_book cx leg t b \<and> bk_source_hash b \<in> set evidence'"
    using fetch_book_usable [OF f(1)] by (auto simp: book ev split: if_splits)
qed

lemma read_terminal_book_Inr:
  assumes "read_terminal_book cx leg t st = Inr (book, st')" and "cache_ok cx (rs_cache st)"
  shows "cache_ok cx (rs_cache st')" and "book = Some b \<Longrightarrow> usable_book cx leg t b"
    and "rs_events st' = rs_events st" and "rs_acquisitions st' = rs_acquisitions st"
    and "rs_terminal_buys st' = rs_terminal_buys st"
  using assms read_book_Inr [of cx leg t "rs_cache st" "rs_evidence st"]
  by (auto simp: read_terminal_book_def bindE_eq_Inr)

section \<open>The execution machine\<close>

text \<open>A fill a run makes: it takes from a usable book what the walk of that book gives.\<close>

definition bought :: "run_context \<Rightarrow> dec \<Rightarrow> shadow_leg_plan \<Rightarrow> shadow_fill \<Rightarrow> bool" where
  "bought cx target leg f \<longleftrightarrow> validate_shadow_fill f = Inr f \<and> sf_side f = Buy \<and> sf_leg_index f = sl_leg_index leg \<and>
     sf_quantity f = levels_quantity (sf_price_levels f) \<and>
     (\<exists>t b. usable_book cx leg t b \<and> sf_price_levels f = walk_current_asks leg b target (ss_fill_fraction (cx_scenario cx)))"

definition sold :: "run_context \<Rightarrow> shadow_fill \<Rightarrow> shadow_fill \<Rightarrow> bool" where
  "sold cx a f \<longleftrightarrow> validate_shadow_fill f = Inr f \<and> sf_side f = Sell \<and> sf_leg_index f = sf_leg_index a \<and>
     sf_quantity f = levels_quantity (sf_price_levels f) \<and>
     (\<exists>leg t b. sl_leg_index leg = sf_leg_index a \<and> usable_book cx leg t b \<and>
        sf_price_levels f = walk_current_bids b (sf_quantity a) (ss_fill_fraction (cx_scenario cx)))"

text \<open>
  Unwinding sells the acquisitions from the last one back.  It stops in an unknown state when there is
  no evidence or too little depth; only when everything was sold in full is the run unwound.
\<close>

inductive unwinding :: "run_context \<Rightarrow> shadow_fill list \<Rightarrow> shadow_fill list \<Rightarrow> shadow_state \<Rightarrow> bool" for cx where
  all_sold: "unwinding cx [] [] Unwound"
| not_sold: "unwinding cx (a # as) [] Unknown"
| sold_short: "sold cx a f \<Longrightarrow> unwinding cx (a # as) [f] Unknown"
| sold_full: "sold cx a f \<Longrightarrow> deq (sf_quantity f) (sf_quantity a) \<Longrightarrow> unwinding cx as fs s \<Longrightarrow>
    unwinding cx (a # as) (f # fs) s"

text \<open>
  Execution buys the legs in order, each at the common quantity; it expires, stops in an unknown state,
  or unwinds what it acquired.  The lists are the acquisitions so far, latest first, the buys to come,
  the sells and the state reached.
\<close>

inductive executing ::
  "run_context \<Rightarrow> dec \<Rightarrow> shadow_leg_plan list \<Rightarrow> shadow_fill list \<Rightarrow> shadow_fill list \<Rightarrow> shadow_fill list \<Rightarrow> shadow_state \<Rightarrow> bool"
  for cx q where
  all_bought: "executing cx q [] acquired [] [] Complete"
| stopped: "s \<in> {Expired, Unknown} \<Longrightarrow> executing cx q (leg # legs) acquired [] [] s"
| abandoned: "unwinding cx acquired sells s \<Longrightarrow> executing cx q (leg # legs) acquired [] sells s"
| bought_short: "bought cx q leg f \<Longrightarrow> unwinding cx (f # acquired) sells s \<Longrightarrow>
    executing cx q (leg # legs) acquired [f] sells s"
| bought_full: "bought cx q leg f \<Longrightarrow> deq (sf_quantity f) q \<Longrightarrow> executing cx q legs (f # acquired) buys sells s \<Longrightarrow>
    executing cx q (leg # legs) acquired (f # buys) sells s"

lemma unwinding_state: "unwinding cx as fs s \<Longrightarrow> s \<in> {Unwound, Unknown}"
  by (induction rule: unwinding.induct) auto

lemma executing_state: "executing cx q legs as bs fs s \<Longrightarrow> s \<in> {Complete, Unwound, Expired, Unknown}"
  by (induction rule: executing.induct) (auto dest: unwinding_state)

section \<open>The simulator runs the machine\<close>

text \<open>The events end with a terminal event that records the state and the fills, not before a time.\<close>

definition ends_with ::
  "run_context \<Rightarrow> shadow_event list \<Rightarrow> timestamp \<Rightarrow> shadow_state \<Rightarrow> shadow_fill list \<Rightarrow> shadow_event list \<Rightarrow> bool" where
  "ends_with cx events t0 s fills es \<longleftrightarrow> (\<exists>t detail quantity leg_index evidence. t0 \<le> t \<and>
     append_terminal (cx_digests cx) (cx_plan cx) (cx_scenario cx) s t detail quantity leg_index fills evidence events = Inr es)"

lemma stop_run_ends:
  "stop_run cx st s t detail quantity leg_index fills = Inr es \<Longrightarrow> t0 \<le> t \<Longrightarrow> ends_with cx (rs_events st) t0 s fills es"
  unfolding stop_run_def ends_with_def by blast

lemma make_fill_Inr:
  "make_fill i s levels quantity = Inr f \<longleftrightarrow> validate_shadow_fill f = Inr f \<and> sf_leg_index f = i \<and> sf_side f = s \<and>
     sf_price_levels f = levels \<and> sf_quantity f = quantity"
proof
  assume m: "make_fill i s levels quantity = Inr f"
  then show "validate_shadow_fill f = Inr f \<and> sf_leg_index f = i \<and> sf_side f = s \<and>
     sf_price_levels f = levels \<and> sf_quantity f = quantity"
    using shadow_fills.validate_id [OF m [unfolded make_fill_def]] by (auto simp: make_fill_def)
next
  assume "validate_shadow_fill f = Inr f \<and> sf_leg_index f = i \<and> sf_side f = s \<and>
     sf_price_levels f = levels \<and> sf_quantity f = quantity"
  then show "make_fill i s levels quantity = Inr f" by (cases f) (simp add: make_fill_def)
qed

lemma make_sell:
  assumes "make_fill (sf_leg_index a) Sell levels (levels_quantity levels) = Inr f"
    and "usable_book cx leg t b" and "sl_leg_index leg = sf_leg_index a"
    and "levels = walk_current_bids b (sf_quantity a) (ss_fill_fraction (cx_scenario cx))"
  shows "sold cx a f" and "sf_quantity f = levels_quantity levels"
  using assms by (auto simp: make_fill_Inr sold_def)

lemma make_buy:
  assumes "make_fill (sl_leg_index leg) Buy levels (levels_quantity levels) = Inr f"
    and "usable_book cx leg t b" and "levels = walk_current_asks leg b target (ss_fill_fraction (cx_scenario cx))"
  shows "bought cx target leg f" and "sf_quantity f = levels_quantity levels"
  using assms by (auto simp: make_fill_Inr bought_def)

definition indexed_legs :: "(int, shadow_leg_plan) dict \<Rightarrow> bool" where
  "indexed_legs legs \<longleftrightarrow> (\<forall>(i, leg) \<in> set legs. sl_leg_index leg = i)"

lemma unwind_loop_Inr:
  assumes "unwind_loop cx t fl fq reason legs cost as st sells proceeds = Inr es"
    and "cache_ok cx (rs_cache st)" and "indexed_legs legs" and "t0 \<le> t"
    and "\<forall>a \<in> set as. 0 < dval (sf_quantity a)"
  shows "\<exists>fs s. unwinding cx as fs s \<and> ends_with cx (rs_events st) t0 s (rs_terminal_buys st @ sells @ fs) es"
  using assms(1,2,5)
proof (induction as arbitrary: st sells proceeds)
  case Nil
  then show ?case
    using stop_run_ends [OF _ assms(4)] all_sold [of cx] by fastforce
next
  case (Cons a as)
  from Cons.prems(1) obtain leg book st' where leg: "dict_item legs (sf_leg_index a) = Inr leg"
    and read: "read_terminal_book cx leg t st = Inr (book, st')"
    by (auto simp: bindE_eq_Inr)
  have index: "sl_leg_index leg = sf_leg_index a"
    using leg assms(3) by (auto simp: dict_item_def indexed_legs_def split: option.splits dest!: map_of_SomeD)
  note st' = read_terminal_book_Inr [OF read Cons.prems(2)]
  show ?case
  proof (cases book)
    case None
    then have "stop_run cx st' Unknown t (reason @ ''; unwind evidence was unavailable'') fq fl (rs_terminal_buys st' @ sells) = Inr es"
      using Cons.prems(1) leg read by simp
    from stop_run_ends [OF this assms(4)] show ?thesis
      using st'(3,5) not_sold [of cx a as] by fastforce
  next
    case (Some b)
    define levels where "levels = walk_current_bids b (sf_quantity a) (ss_fill_fraction (cx_scenario cx))"
    define sold_now where "sold_now =
      (if dlt dec0 (levels_quantity levels)
       then bindE (make_fill (sf_leg_index a) Sell levels (levels_quantity levels)) (\<lambda>sell.
            Inr (sells @ [sell], dadd proceeds (notional_of levels)))
       else Inr (sells, proceeds))"
    have usable: "usable_book cx leg t b" using st'(2) Some by simp
    have loop: "bindE sold_now (\<lambda>(sells, proceeds).
       if \<not> deq (levels_quantity levels) (sf_quantity a)
       then stop_run cx st' Unknown t (reason @ ''; unwind bid depth was insufficient'') fq fl (rs_terminal_buys st' @ sells)
       else unwind_loop cx t fl fq reason legs cost as st' sells proceeds) = Inr es"
      using Cons.prems(1) unfolding levels_def sold_now_def unwind_loop.simps leg read Some bindE_Inr prod.case option.case Let_def .
    then obtain sells' proceeds' where now: "sold_now = Inr (sells', proceeds')" by (auto simp: bindE_eq_Inr)
    show ?thesis
    proof (cases "dlt dec0 (levels_quantity levels)")
      case True
      then obtain f where f: "make_fill (sf_leg_index a) Sell levels (levels_quantity levels) = Inr f" "sells' = sells @ [f]"
        using now by (auto simp: sold_now_def bindE_eq_Inr)
      note sale = make_sell [OF f(1) usable index levels_def]
      show ?thesis
      proof (cases "deq (levels_quantity levels) (sf_quantity a)")
        case False
        with loop now have "stop_run cx st' Unknown t (reason @ ''; unwind bid depth was insufficient'') fq fl
            (rs_terminal_buys st' @ sells @ [f]) = Inr es" by (simp add: f(2))
        from stop_run_ends [OF this assms(4)] show ?thesis
          using st'(3,5) sold_short [OF sale(1), of as] by auto
      next
        case full: True
        with loop now have "unwind_loop cx t fl fq reason legs cost as st' (sells @ [f]) proceeds' = Inr es"
          by (simp add: f(2))
        then obtain fs s where fs: "unwinding cx as fs s"
          and ends: "ends_with cx (rs_events st') t0 s (rs_terminal_buys st' @ (sells @ [f]) @ fs) es"
          using Cons.IH st'(1) Cons.prems(3) by fastforce
        have "unwinding cx (a # as) (f # fs) s"
          using sold_full [OF sale(1) _ fs] full sale(2) by simp
        moreover have "ends_with cx (rs_events st) t0 s (rs_terminal_buys st @ sells @ f # fs) es"
          using ends st'(3,5) by simp
        ultimately show ?thesis by blast
      qed
    next
      case False
      then have "sells' = sells" using now by (simp add: sold_now_def)
      moreover have "\<not> deq (levels_quantity levels) (sf_quantity a)"
        using False Cons.prems(3) by (simp add: dlt_iff deq_iff)
      ultimately have "stop_run cx st' Unknown t (reason @ ''; unwind bid depth was insufficient'') fq fl
          (rs_terminal_buys st' @ sells) = Inr es" using loop now by simp
      from stop_run_ends [OF this assms(4)] show ?thesis
        using st'(3,5) not_sold [of cx a as] by fastforce
    qed
  qed
qed

lemma fill_positive: "validate_shadow_fill f = Inr f \<Longrightarrow> 0 < dval (sf_quantity f)"
  unfolding validate_shadow_fill_def bindE_eq_Inr checkE_Inr by (auto simp: positive_decimal_iff)

lemma unwind_or_unknown_Inr:
  assumes "unwind_or_unknown cx t fl fq reason legs st = Inr es"
    and "cache_ok cx (rs_cache st)" and "indexed_legs legs" and "t0 \<le> t"
    and "\<forall>a \<in> set (rs_acquisitions st). validate_shadow_fill a = Inr a"
  shows "\<exists>fs s. unwinding cx (rev (rs_acquisitions st)) fs s \<and>
    ends_with cx (rs_events st) t0 s (rs_terminal_buys st @ fs) es"
  using unwind_loop_Inr [OF assms(1) [unfolded unwind_or_unknown_def] assms(2-4)] assms(5) fill_positive by auto

lemma timing_stop_Some:
  assumes "timing_stop plan scenario started n = Some (s, t, detail)" and "0 \<le> ss_latency_seconds scenario"
  shows "s \<in> {Expired, Unknown}" and "submit_at started n scenario \<le> t"
  using assms by (auto simp: timing_stop_def Let_def fill_at_def submit_at_def seconds_def algebra_simps split: if_splits)

lemma submit_at_mono:
  assumes "0 \<le> ss_latency_seconds scenario"
  shows "submit_at started n scenario \<le> fill_at started n scenario"
    and "submit_at started (Suc n) scenario = fill_at started n scenario"
    and "n \<le> m \<Longrightarrow> fill_at started n scenario \<le> fill_at started m scenario"
  using assms mult_right_mono [of "int n" "int m" "ss_latency_seconds scenario"]
  by (simp_all add: fill_at_def submit_at_def seconds_def algebra_simps)

text \<open>What an intermediate state of a run satisfies, and when only its readings differ.\<close>

definition running_ok :: "run_context \<Rightarrow> run_state \<Rightarrow> bool" where
  "running_ok cx st \<longleftrightarrow> cache_ok cx (rs_cache st) \<and> (\<forall>a \<in> set (rs_acquisitions st). validate_shadow_fill a = Inr a)"

definition same_progress :: "run_state \<Rightarrow> run_state \<Rightarrow> bool" where
  "same_progress st' st \<longleftrightarrow> rs_events st' = rs_events st \<and> rs_acquisitions st' = rs_acquisitions st \<and>
     rs_terminal_buys st' = rs_terminal_buys st"

definition add_buy :: "shadow_fill \<Rightarrow> run_state \<Rightarrow> run_state" where
  "add_buy f st = st\<lparr>rs_acquisitions := rs_acquisitions st @ [f], rs_terminal_buys := rs_terminal_buys st @ [f]\<rparr>"

text \<open>From a state, the events returned are those of a run of the machine over the remaining legs.\<close>

definition reaches :: "run_context \<Rightarrow> dec \<Rightarrow> shadow_leg_plan list \<Rightarrow> run_state \<Rightarrow> timestamp \<Rightarrow> shadow_event list \<Rightarrow> bool" where
  "reaches cx q legs st t0 es \<longleftrightarrow> (\<exists>buys sells s. executing cx q legs (rev (rs_acquisitions st)) buys sells s \<and>
     ends_with cx (rs_events st) t0 s (rs_terminal_buys st @ buys @ sells) es)"

lemma reachesI:
  "executing cx q legs (rev (rs_acquisitions st)) buys sells s \<Longrightarrow>
     ends_with cx (rs_events st) t0 s (rs_terminal_buys st @ buys @ sells) es \<Longrightarrow> reaches cx q legs st t0 es"
  unfolding reaches_def by blast

lemma reaches_same: "same_progress st' st \<Longrightarrow> reaches cx q legs st' t0 es \<longleftrightarrow> reaches cx q legs st t0 es"
  by (simp add: reaches_def same_progress_def)

lemma read_terminal_book_ok:
  assumes "read_terminal_book cx leg t st = Inr (book, st')" and "running_ok cx st"
  shows "running_ok cx st'" and "same_progress st' st" and "book = Some b \<Longrightarrow> usable_book cx leg t b"
  using read_terminal_book_Inr [OF assms(1)] assms(2) by (auto simp: running_ok_def same_progress_def)

lemma reaches_stop:
  assumes "stop_run cx st s t detail fq fl (rs_terminal_buys st) = Inr es" and "s \<in> {Expired, Unknown}" and "t0 \<le> t"
  shows "reaches cx q (leg # legs) st t0 es"
  using stop_run_ends [OF assms(1,3)] by (intro reachesI [OF stopped [OF assms(2)]]) simp

lemma reaches_unwind:
  assumes "unwind_or_unknown cx t fl fq reason legs_by_index st = Inr es" and "running_ok cx st"
    and "indexed_legs legs_by_index" and "t0 \<le> t"
  shows "reaches cx q (leg # legs) st t0 es"
proof -
  have "cache_ok cx (rs_cache st)" "\<forall>a \<in> set (rs_acquisitions st). validate_shadow_fill a = Inr a"
    using assms(2) by (auto simp: running_ok_def)
  from unwind_or_unknown_Inr [OF assms(1) this(1) assms(3,4) this(2)] obtain fs s where
    "unwinding cx (rev (rs_acquisitions st)) fs s" "ends_with cx (rs_events st) t0 s (rs_terminal_buys st @ fs) es"
    by blast
  then show ?thesis by (intro reachesI [OF abandoned]) simp_all
qed

lemma reaches_short:
  assumes "unwind_or_unknown cx t fl fq reason legs_by_index (add_buy f st) = Inr es" and "running_ok cx st"
    and "indexed_legs legs_by_index" and "t0 \<le> t" and "bought cx q leg f"
  shows "reaches cx q (leg # legs) st t0 es"
proof -
  have "cache_ok cx (rs_cache (add_buy f st))" "\<forall>a \<in> set (rs_acquisitions (add_buy f st)). validate_shadow_fill a = Inr a"
    using assms(2,5) by (auto simp: running_ok_def add_buy_def bought_def)
  from unwind_or_unknown_Inr [OF assms(1) this(1) assms(3,4) this(2)] obtain fs s where
    "unwinding cx (f # rev (rs_acquisitions st)) fs s" "ends_with cx (rs_events st) t0 s ((rs_terminal_buys st @ [f]) @ fs) es"
    by (auto simp: add_buy_def)
  then show ?thesis by (intro reachesI [OF bought_short [OF assms(5)]]) simp_all
qed

lemma reaches_full:
  assumes "reaches cx q legs (add_buy f st) t0 es" and "bought cx q leg f" and "deq (sf_quantity f) q"
  shows "reaches cx q (leg # legs) st t0 es"
proof -
  from assms(1) obtain buys sells s where "executing cx q legs (f # rev (rs_acquisitions st)) buys sells s"
    "ends_with cx (rs_events st) t0 s ((rs_terminal_buys st @ [f]) @ buys @ sells) es"
    by (auto simp: reaches_def add_buy_def)
  then show ?thesis by (intro reachesI [OF bought_full [OF assms(2,3)]]) simp_all
qed

text \<open>What the second loop does on a book it can use.\<close>

lemma reaches_on_book:
  assumes "bindE (if dlt dec0 (levels_quantity levels)
      then bindE (make_fill (sl_leg_index leg) Buy levels (levels_quantity levels)) (\<lambda>fill. Inr (add_buy fill st))
      else Inr st) (\<lambda>st.
      if \<not> deq (levels_quantity levels) q
      then unwind_or_unknown cx t fl fq reason legs_by_index st
      else continue st) = Inr es"
    and "usable_book cx leg t b" and "levels = walk_current_asks leg b q (ss_fill_fraction (cx_scenario cx))"
    and "running_ok cx st" and "indexed_legs legs_by_index" and "t0 \<le> t" and "0 < dval q"
    and "\<And>f. validate_shadow_fill f = Inr f \<Longrightarrow> continue (add_buy f st) = Inr es \<Longrightarrow> reaches cx q legs (add_buy f st) t0 es"
  shows "reaches cx q (leg # legs) st t0 es"
proof (cases "dlt dec0 (levels_quantity levels)")
  case False
  then have "\<not> deq (levels_quantity levels) q" using assms(7) by (auto simp: dlt_iff deq_iff)
  with False assms(1) have "unwind_or_unknown cx t fl fq reason legs_by_index st = Inr es" by simp
  then show ?thesis by (rule reaches_unwind) fact+
next
  case True
  with assms(1) obtain f where f: "make_fill (sl_leg_index leg) Buy levels (levels_quantity levels) = Inr f"
    by (auto simp: bindE_eq_Inr)
  note buy = make_buy [OF f assms(2,3)]
  show ?thesis
  proof (cases "deq (levels_quantity levels) q")
    case short: False
    then have "unwind_or_unknown cx t fl fq reason legs_by_index (add_buy f st) = Inr es"
      using assms(1) True f by simp
    then show ?thesis by (rule reaches_short) (fact assms buy)+
  next
    case full: True
    then have "continue (add_buy f st) = Inr es" using assms(1) True f by simp
    then show ?thesis
      using assms(8) buy full by (intro reaches_full) (auto simp: bought_def)
  qed
qed

lemma execute_legs_reaches:
  assumes "execute_legs cx legs_by_index q n legs st t1 last_leg = Inr es" and "running_ok cx st"
    and "indexed_legs legs_by_index" and "0 \<le> ss_latency_seconds (cx_scenario cx)"
    and "t0 \<le> t1" and "t0 \<le> submit_at (cx_started_at cx) n (cx_scenario cx)" and "0 < dval q"
  shows "reaches cx q legs st t0 es"
  using assms(1,2,5,6)
proof (induction legs arbitrary: n st t1 last_leg)
  case Nil
  then show ?case using stop_run_ends [OF _ Nil.prems(3)] by (intro reachesI [OF all_bought]) simp
next
  case (Cons leg legs)
  let ?t = "fill_at (cx_started_at cx) n (cx_scenario cx)"
  have later: "t0 \<le> ?t" using submit_at_mono(1) [OF assms(4)] Cons.prems(4) by (meson order_trans)
  show ?case
  proof (cases "timing_stop (cx_plan cx) (cx_scenario cx) (cx_started_at cx) n")
    case (Some stop)
    obtain s t detail where stop: "stop = (s, t, detail)" by (cases stop)
    note ts = timing_stop_Some [OF Some [unfolded stop] assms(4)]
    have "stop_run cx st s t detail None (sl_leg_index leg) (rs_terminal_buys st) = Inr es"
      using Cons.prems(1) Some by (simp add: stop)
    moreover have "t0 \<le> t" using ts(2) Cons.prems(4) by simp
    ultimately show ?thesis using ts(1) by (intro reaches_stop)
  next
    case None
    note run = Cons.prems(1) [unfolded execute_legs.simps Let_def None option.case]
    show ?thesis
    proof (cases "ss_failing_leg_index (cx_scenario cx) = Some (int n)")
      case True
      with run have "unwind_or_unknown cx ?t (sl_leg_index leg) None ''venue rejected the planned leg'' legs_by_index st = Inr es"
        by simp
      then show ?thesis using Cons.prems(2) assms(3) later by (rule reaches_unwind)
    next
      case False
      with run obtain book st' where read: "read_terminal_book cx leg ?t st = Inr (book, st')"
        by (auto simp: bindE_eq_Inr)
      note st' = read_terminal_book_ok [OF read Cons.prems(2)]
      note run = run [unfolded if_not_P [OF False] read bindE_Inr prod.case]
      have "reaches cx q (leg # legs) st' t0 es"
      proof (cases book)
        case None
        then show ?thesis using run later by (intro reaches_stop) auto
      next
        case (Some b)
        show ?thesis
        proof (rule reaches_on_book)
          show "bindE (if dlt dec0 (levels_quantity (walk_current_asks leg b q (ss_fill_fraction (cx_scenario cx))))
              then bindE (make_fill (sl_leg_index leg) Buy (walk_current_asks leg b q (ss_fill_fraction (cx_scenario cx)))
                  (levels_quantity (walk_current_asks leg b q (ss_fill_fraction (cx_scenario cx))))) (\<lambda>fill. Inr (add_buy fill st'))
              else Inr st') (\<lambda>st.
              if \<not> deq (levels_quantity (walk_current_asks leg b q (ss_fill_fraction (cx_scenario cx)))) q
              then unwind_or_unknown cx ?t (sl_leg_index leg)
                (Some (levels_quantity (walk_current_asks leg b q (ss_fill_fraction (cx_scenario cx)))))
                ''planned leg filled short of the common quantity'' legs_by_index st
              else execute_legs cx legs_by_index q (Suc n) legs st ?t (sl_leg_index leg)) = Inr es"
            using run unfolding Some option.case add_buy_def .
        next
          fix f assume f: "validate_shadow_fill f = Inr f"
            and go: "execute_legs cx legs_by_index q (Suc n) legs (add_buy f st') ?t (sl_leg_index leg) = Inr es"
          have "running_ok cx (add_buy f st')" using st'(1) f by (auto simp: running_ok_def add_buy_def)
          then show "reaches cx q legs (add_buy f st') t0 es"
            using Cons.IH [OF go _ later] later submit_at_mono(2) [OF assms(4)] by simp
        qed (use st' Some assms(3,7) later in auto)
      qed
      then show ?thesis using reaches_same [OF st'(2)] by simp
    qed
  qed
qed

text \<open>The first loop buys nothing: it ends the run, or goes on with a state that differs in its readings.\<close>

lemma continuation_legs_reaches:
  assumes "continuation_legs cx legs_by_index q n legs st books = Inr r" and "running_ok cx st"
    and "indexed_legs legs_by_index" and "0 \<le> ss_latency_seconds (cx_scenario cx)"
    and "t0 \<le> submit_at (cx_started_at cx) n (cx_scenario cx)"
  shows "(\<forall>es. r = Returned es \<longrightarrow> legs \<noteq> [] \<and> (\<forall>leg legs. reaches cx q (leg # legs) st t0 es)) \<and>
    (\<forall>st' books'. r = Running (st', books') \<longrightarrow> running_ok cx st' \<and> same_progress st' st)"
  using assms(1,2,5)
proof (induction legs arbitrary: n st books)
  case Nil
  then show ?case by (auto simp: same_progress_def)
next
  case (Cons leg legs)
  let ?t = "fill_at (cx_started_at cx) n (cx_scenario cx)"
  have later: "t0 \<le> ?t" using submit_at_mono(1) [OF assms(4)] Cons.prems(3) by (meson order_trans)
  show ?case
  proof (cases "timing_stop (cx_plan cx) (cx_scenario cx) (cx_started_at cx) n")
    case (Some stop)
    obtain s t detail where stop: "stop = (s, t, detail)" by (cases stop)
    note ts = timing_stop_Some [OF Some [unfolded stop] assms(4)]
    obtain es where "stop_run cx st s t detail None (sl_leg_index leg) (rs_terminal_buys st) = Inr es" "r = Returned es"
      using Cons.prems(1) Some by (auto simp: stop return_events_def bindE_eq_Inr)
    moreover have "t0 \<le> t" using ts(2) Cons.prems(3) by simp
    ultimately show ?thesis using reaches_stop [OF _ ts(1)] by auto
  next
    case None
    note run = Cons.prems(1) [unfolded continuation_legs.simps Let_def None option.case]
    show ?thesis
    proof (cases "ss_failing_leg_index (cx_scenario cx) = Some (int n)")
      case True
      with run show ?thesis
        using reaches_unwind [OF _ Cons.prems(2) assms(3) later] by (auto simp: return_events_def bindE_eq_Inr)
    next
      case False
      with run obtain book st' where read: "read_terminal_book cx leg ?t st = Inr (book, st')"
        by (auto simp: bindE_eq_Inr)
      note st' = read_terminal_book_ok [OF read Cons.prems(2)]
      note same = reaches_same [OF st'(2)]
      note run = run [unfolded if_not_P [OF False] read bindE_Inr prod.case]
      show ?thesis
      proof (cases book)
        case None
        with run show ?thesis
          using reaches_stop [of cx st' Unknown ?t _ _ _ _ t0] later unfolding same [symmetric]
          by (auto simp: return_events_def bindE_eq_Inr)
      next
        case (Some b)
        let ?levels = "walk_current_asks leg b q (ss_fill_fraction (cx_scenario cx))"
        show ?thesis
        proof (cases "deq (levels_quantity ?levels) q")
          case False
          with run show ?thesis
            using reaches_unwind [OF _ st'(1) assms(3) later] unfolding same [symmetric]
            by (auto simp: Some return_events_def bindE_eq_Inr)
        next
          case True
          with run obtain books' where go: "continuation_legs cx legs_by_index q (Suc n) legs st' books' = Inr r"
            by (auto simp: Some bindE_eq_Inr)
          show ?thesis
            using Cons.IH [OF go st'(1)] later submit_at_mono(2) [OF assms(4)] st'(2) unfolding same [symmetric]
            by (auto simp: same_progress_def)
        qed
      qed
    qed
  qed
qed

lemma continue_reduced_reaches:
  assumes "continue_reduced cx p fees legs_by_index legs q first_book first_levels st = Inr r" and "running_ok cx st"
    and "indexed_legs legs_by_index" and "0 \<le> ss_latency_seconds (cx_scenario cx)"
    and "t0 \<le> fill_at (cx_started_at cx) 0 (cx_scenario cx)"
  shows "(\<forall>es. r = Returned es \<longrightarrow> (\<forall>leg legs. reaches cx q (leg # legs) st t0 es)) \<and>
    (\<forall>st'. r = Running st' \<longrightarrow> running_ok cx st' \<and> same_progress st' st)"
proof -
  define finish where "finish = (\<lambda>r'. case r' of
       Returned events \<Rightarrow> Inr (Returned events)
     | Running (st, books) \<Rightarrow>
         let continuation_at = fill_at (cx_started_at cx) (length legs - 1) (cx_scenario cx) in
         bindE (evaluate_basket_economics p (cx_candidate cx) (basket_books_of books)
                  (map (\<lambda>(i, f). (i, Some f)) fees) (cx_policy cx) continuation_at) (\<lambda>continuation.
         if er_status continuation \<noteq> Basket_evaluated \<or> dle (er_conservative_surplus_usd continuation) dec0
         then return_events (unwind_or_unknown cx continuation_at (sl_leg_index (legs ! 1)) None
                ''recomputed reduced-quantity economics were not positive'' legs_by_index st)
         else Inr (Running st)))"
  from assms(1) obtain books r' where loop: "continuation_legs cx legs_by_index q 1 (tl legs) st books = Inr r'"
    and fin: "finish r' = Inr r"
    unfolding continue_reduced_def finish_def bindE_eq_Inr by blast
  have "t0 \<le> submit_at (cx_started_at cx) 1 (cx_scenario cx)"
    using assms(5) submit_at_mono(2) [OF assms(4), of "cx_started_at cx" 0] by simp
  note c = continuation_legs_reaches [OF loop assms(2-4) this]
  let ?t = "fill_at (cx_started_at cx) (length legs - 1) (cx_scenario cx)"
  have later: "t0 \<le> ?t" using assms(5) submit_at_mono(3) [OF assms(4), of 0 "length legs - 1" "cx_started_at cx"] by simp
  show ?thesis
  proof (cases r')
    case (Returned es)
    then show ?thesis using fin c by (auto simp: finish_def)
  next
    case (Running x)
    then obtain st' books' where x: "r' = Running (st', books')" by (cases x) auto
    then have st': "running_ok cx st'" "same_progress st' st" using c by auto
    from fin x consider "r = Running st'"
      | es where "r = Returned es" "unwind_or_unknown cx ?t (sl_leg_index (legs ! 1)) None
          ''recomputed reduced-quantity economics were not positive'' legs_by_index st' = Inr es"
      by (auto simp: finish_def bindE_eq_Inr return_events_def Let_def split: if_splits)
    then show ?thesis
    proof cases
      case 1
      with st' show ?thesis by simp
    next
      case 2
      from reaches_unwind [OF 2(2) st'(1) assms(3) later] 2(1) reaches_same [OF st'(2)]
      show ?thesis by simp
    qed
  qed
qed

text \<open>The first leg, and what follows it.\<close>

definition run_of :: "run_context \<Rightarrow> shadow_leg_plan list \<Rightarrow> shadow_event list \<Rightarrow> shadow_event list \<Rightarrow> bool" where
  "run_of cx legs events es \<longleftrightarrow>
     (\<exists>t fill evidence events'. cx_started_at cx \<le> t \<and>
        append_first_attempt (cx_digests cx) (cx_plan cx) (cx_scenario cx) (hd legs) t fill evidence events = Inr events' \<and>
        (case fill of
           None \<Rightarrow> \<exists>s \<in> {Unwound, Expired, Unknown}. ends_with cx events' t s [] es
         | Some f \<Rightarrow> bought cx (pl_max_quantity (cx_plan cx)) (hd legs) f \<and>
             (\<exists>buys sells s. executing cx (sf_quantity f) (tl legs) [f] buys sells s \<and>
                ends_with cx events' t s (buys @ sells) es)))"

lemma stop_first_run:
  assumes "stop_first cx events (hd legs) t evidence s t' detail quantity = Inr es"
    and "s \<in> {Unwound, Expired, Unknown}" and "cx_started_at cx \<le> t" and "t \<le> t'"
  shows "run_of cx legs events es"
proof -
  from assms(1) obtain events' where
    first: "append_first_attempt (cx_digests cx) (cx_plan cx) (cx_scenario cx) (hd legs) t None evidence events = Inr events'"
    and last: "append_terminal (cx_digests cx) (cx_plan cx) (cx_scenario cx) s t' detail quantity (sl_leg_index (hd legs)) [] []
      events' = Inr es"
    by (auto simp: stop_first_def bindE_eq_Inr)
  have "ends_with cx events' t s [] es"
    unfolding ends_with_def using last assms(4) by blast
  then show ?thesis
    unfolding run_of_def using first assms(2,3) by (intro exI [of _ t] exI [of _ None]) auto
qed

lemma reaches_run:
  assumes "reaches cx (sf_quantity f) (tl legs) st t es" and "rs_acquisitions st = [f]" and "rs_terminal_buys st = []"
    and "append_first_attempt (cx_digests cx) (cx_plan cx) (cx_scenario cx) (hd legs) t (Some f) evidence events = Inr (rs_events st)"
    and "bought cx (pl_max_quantity (cx_plan cx)) (hd legs) f" and "cx_started_at cx \<le> t"
  shows "run_of cx legs events es"
proof -
  from assms(1) obtain buys sells s where "executing cx (sf_quantity f) (tl legs) [f] buys sells s"
    "ends_with cx (rs_events st) t s (buys @ sells) es"
    unfolding reaches_def assms(2,3) by auto
  then show ?thesis
    unfolding run_of_def using assms(4-6)
    by (intro exI [of _ t] exI [of _ "Some f"] exI [of _ evidence] exI [of _ "rs_events st"]) auto
qed

lemma indexed_legs_map: "indexed_legs (map (\<lambda>leg. (sl_leg_index leg, leg)) legs)"
  by (auto simp: indexed_legs_def)

text \<open>Once the first leg is filled.\<close>

lemma run_after_fill:
  assumes "then_flow (if dlt q (pl_max_quantity (cx_plan cx))
      then continue_reduced cx p fees (map (\<lambda>leg. (sl_leg_index leg, leg)) legs) legs q b levels st else Inr (Running st))
      (\<lambda>st. execute_legs cx (map (\<lambda>leg. (sl_leg_index leg, leg)) legs) q 1 (tl legs) st
         (fill_at (cx_started_at cx) 0 (cx_scenario cx)) (sl_leg_index (hd legs))) = Inr es"
    and "running_ok cx st" and "tl legs \<noteq> []" and "0 \<le> ss_latency_seconds (cx_scenario cx)" and "0 < dval q"
  shows "reaches cx q (tl legs) st (fill_at (cx_started_at cx) 0 (cx_scenario cx)) es"
proof -
  let ?by_index = "map (\<lambda>leg. (sl_leg_index leg, leg)) legs" let ?t = "fill_at (cx_started_at cx) 0 (cx_scenario cx)"
  from assms(1) obtain r where
    r: "(if dlt q (pl_max_quantity (cx_plan cx)) then continue_reduced cx p fees ?by_index legs q b levels st
         else Inr (Running st)) = Inr r"
    and go: "(case r of Returned es \<Rightarrow> Inr es
      | Running st \<Rightarrow> execute_legs cx ?by_index q 1 (tl legs) st ?t (sl_leg_index (hd legs))) = Inr es"
    unfolding then_flow_def bindE_eq_Inr by blast
  have cont: "(\<forall>es. r = Returned es \<longrightarrow> (\<forall>leg legs. reaches cx q (leg # legs) st ?t es)) \<and>
      (\<forall>st'. r = Running st' \<longrightarrow> running_ok cx st' \<and> same_progress st' st)"
  proof (cases "dlt q (pl_max_quantity (cx_plan cx))")
    case True
    from continue_reduced_reaches [OF r [unfolded if_P [OF True]] assms(2) indexed_legs_map assms(4) order_refl]
    show ?thesis .
  next
    case False
    then show ?thesis using r assms(2) by (auto simp: same_progress_def)
  qed
  show ?thesis
  proof (cases r)
    case (Returned es')
    then show ?thesis using cont go assms(3) by (cases "tl legs") auto
  next
    case (Running st')
    then have st': "running_ok cx st'" "same_progress st' st" using cont by auto
    have "?t \<le> submit_at (cx_started_at cx) 1 (cx_scenario cx)"
      using submit_at_mono(2) [OF assms(4), of "cx_started_at cx" 0] by simp
    from execute_legs_reaches [OF _ st'(1) indexed_legs_map assms(4) order_refl this assms(5)] go Running
    have "reaches cx q (tl legs) st' ?t es" by simp
    then show ?thesis using reaches_same [OF st'(2)] by simp
  qed
qed

lemma run_plan_run:
  assumes "run_plan cx p fees legs events = Inr es" and "tl legs \<noteq> []"
    and "0 \<le> ss_latency_seconds (cx_scenario cx)"
  shows "run_of cx legs events es"
proof -
  let ?sc = "cx_scenario cx" let ?t = "fill_at (cx_started_at cx) 0 ?sc"
  let ?by_index = "map (\<lambda>leg. (sl_leg_index leg, leg)) legs"
  have started: "cx_started_at cx \<le> ?t" "submit_at (cx_started_at cx) 0 ?sc = cx_started_at cx"
    using assms(3) by (simp_all add: fill_at_def submit_at_def seconds_def)
  note run = assms(1) [unfolded run_plan_def Let_def]
  show ?thesis
  proof (cases "timing_stop (cx_plan cx) ?sc (cx_started_at cx) 0")
    case (Some stop)
    obtain s t detail where stop: "stop = (s, t, detail)" by (cases stop)
    note ts = timing_stop_Some [OF Some [unfolded stop] assms(3)]
    have "stop_first cx events (hd legs) t [] s t detail None = Inr es" using run Some by (simp add: stop)
    moreover have "cx_started_at cx \<le> t" using ts(2) started(2) by simp
    ultimately show ?thesis using ts(1) by (elim stop_first_run) auto
  next
    case None
    note run = run [unfolded None option.case]
    show ?thesis
    proof (cases "ss_failing_leg_index ?sc = Some 0")
      case True
      from run [unfolded if_P [OF True]] started(1) show ?thesis by (elim stop_first_run) auto
    next
      case False
      with run obtain book cache evidence where
        read: "read_book cx (hd legs) ?t [] [] = Inr (book, cache, evidence)" by (auto simp: bindE_eq_Inr)
      note usable = read_book_Inr [OF read cache_ok_Nil]
      note run = run [unfolded if_not_P [OF False] read bindE_Inr prod.case]
      show ?thesis
      proof (cases book)
        case None
        from run [unfolded None option.case] started(1) show ?thesis by (elim stop_first_run) auto
      next
        case (Some b)
        define levels where "levels = walk_current_asks (hd legs) b (pl_max_quantity (cx_plan cx)) (ss_fill_fraction ?sc)"
        note run = run [unfolded Some option.case, folded levels_def]
        show ?thesis
        proof (cases "dle (levels_quantity levels) dec0")
          case True
          from run [unfolded if_P [OF True]] started(1) show ?thesis by (elim stop_first_run) auto
        next
          case pos: False
          with run obtain f events' where f: "make_fill (sl_leg_index (hd legs)) Buy levels (levels_quantity levels) = Inr f"
            and first: "append_first_attempt (cx_digests cx) (cx_plan cx) ?sc (hd legs) ?t (Some f) evidence events = Inr events'"
            by (auto simp: bindE_eq_Inr)
          note buy = make_buy [OF f usable(2) [OF Some, THEN conjunct1] levels_def]
          define st where "st = \<lparr>rs_cache = cache, rs_events = events', rs_evidence = [], rs_acquisitions = [f],
                rs_terminal_buys = []\<rparr>"
          have st: "running_ok cx st" "rs_acquisitions st = [f]" "rs_terminal_buys st = []" "rs_events st = events'"
            using usable(1) buy(1) by (simp_all add: st_def running_ok_def bought_def)
          note run = run [unfolded if_not_P [OF pos] f first bindE_Inr, folded st_def]
          have "reaches cx (levels_quantity levels) (tl legs) st ?t es"
            using run_after_fill [OF run st(1) assms(2,3)] pos by (simp add: dle_iff not_le)
          then show ?thesis
            using reaches_run [of cx f legs st ?t es] st first buy started(1) by simp
        qed
      qed
    qed
  qed
qed

section \<open>The events of a run\<close>

lemma name_event_Inr:
  assumes "name_event D draft = Inr e"
  shows "validate_shadow_event e = Inr e"
    and "e = draft\<lparr>se_event_id := uuid5_of D EVENT_IDENTITY_NAMESPACE
      (JList [JUuid (se_proposal_id draft), JInt (se_sequence draft), event_content draft])\<rparr>"
proof -
  from assms obtain provisional where v: "validate_shadow_event draft = Inr provisional"
    and e: "validate_shadow_event (draft\<lparr>se_event_id := uuid5_of D EVENT_IDENTITY_NAMESPACE
       (JList [JUuid (se_proposal_id draft), JInt (se_sequence draft), event_content provisional])\<rparr>) = Inr e"
    unfolding name_event_def bindE_eq_Inr by blast
  have "provisional = draft" using shadow_events.validate_id [OF v] by simp
  then show "e = draft\<lparr>se_event_id := uuid5_of D EVENT_IDENTITY_NAMESPACE
      (JList [JUuid (se_proposal_id draft), JInt (se_sequence draft), event_content draft])\<rparr>"
    using shadow_events.validate_id [OF e] by simp
  then show "validate_shadow_event e = Inr e" using e \<open>provisional = draft\<close> by simp
qed

lemma name_event_fields:
  assumes "name_event D draft = Inr e"
  shows "se_proposal_id e = se_proposal_id draft" "se_sequence e = se_sequence draft"
    "se_from_state e = se_from_state draft" "se_to_state e = se_to_state draft"
    "se_occurred_at e = se_occurred_at draft" "se_quantity_filled e = se_quantity_filled draft"
    "se_leg_index e = se_leg_index draft" "se_fills e = se_fills draft"
    "se_evidence_hashes e = se_evidence_hashes draft"
  by (simp_all add: name_event_Inr(2) [OF assms])

lemma provenance_events_Inr:
  assumes "provenance_events D plan = Inr evs"
  obtains e0 e1 e2 e3 where "evs = [e0, e1, e2, e3]" "shadow_run 4 evs Shadow_planned"
    "\<forall>e \<in> set evs. validate_shadow_event e = Inr e \<and> se_proposal_id e = pl_proposal_id plan \<and>
       se_occurred_at e = pl_information_cutoff plan \<and> se_fills e = [] \<and>
       \<not> execution_terminal (se_to_state e) \<and> se_to_state e \<noteq> First_leg_simulated"
proof -
  let ?f = "provenance_fields plan"
  from assms obtain e0 e1 e2 e3 where evs: "evs = [e0, e1, e2, e3]"
    and e: "name_event D (?f (0, None, Discovered, ''proposal discovered'')) = Inr e0"
      "name_event D (?f (1, Some Discovered, Proof_validated, ''proof artifact validated'')) = Inr e1"
      "name_event D (?f (2, Some Proof_validated, Economics_validated, ''frozen economics validated'')) = Inr e2"
      "name_event D (?f (3, Some Economics_validated, Shadow_planned, ''shadow execution plan frozen'')) = Inr e3"
    by (auto simp: provenance_events_def provenance_specifications_def bindE_eq_Inr numeral_3_eq_3 numeral_2_eq_2)
  note fields = name_event_fields [OF e(1)] name_event_fields [OF e(2)] name_event_fields [OF e(3)] name_event_fields [OF e(4)]
  have t: "allowed_transition Discovered Proof_validated" "allowed_transition Proof_validated Economics_validated"
    "allowed_transition Economics_validated Shadow_planned"
    by (simp_all add: allowed_transition_def ALLOWED_TRANSITIONS_def)
  have "shadow_run 1 [e0] Discovered" using fields by (intro run_discovered) (simp_all add: provenance_fields_def)
  from run_event [OF this, of e1] fields t(1) have "shadow_run 2 [e0, e1] Proof_validated"
    by (simp add: provenance_fields_def numeral_2_eq_2)
  from run_event [OF this, of e2] fields t(2) have "shadow_run 3 [e0, e1, e2] Economics_validated"
    by (simp add: provenance_fields_def)
  from run_event [OF this, of e3] fields t(3) have "shadow_run 4 evs Shadow_planned"
    by (simp add: provenance_fields_def evs)
  with evs show ?thesis
    using fields name_event_Inr(1) [OF e(1)] name_event_Inr(1) [OF e(2)] name_event_Inr(1) [OF e(3)] name_event_Inr(1) [OF e(4)]
    by (intro that) (simp_all add: provenance_fields_def execution_terminal_def)
qed

definition run_context_of ::
  "digests \<Rightarrow> shadow_plan \<Rightarrow> candidate_relationship \<Rightarrow> economics_policy \<Rightarrow> stress_scenario \<Rightarrow> timestamp \<Rightarrow>
     (int \<Rightarrow> timestamp \<Rightarrow> book_snapshot option) \<Rightarrow> run_context" where
  "run_context_of D plan candidate policy scenario started_at books =
     \<lparr>cx_digests = D, cx_plan = plan, cx_candidate = candidate, cx_policy = policy, cx_scenario = scenario,
      cx_started_at = started_at, cx_books = books\<rparr>"

lemma run_context_simps [simp]:
  "cx_digests (run_context_of D plan candidate policy scenario started_at books) = D"
  "cx_plan (run_context_of D plan candidate policy scenario started_at books) = plan"
  "cx_candidate (run_context_of D plan candidate policy scenario started_at books) = candidate"
  "cx_policy (run_context_of D plan candidate policy scenario started_at books) = policy"
  "cx_scenario (run_context_of D plan candidate policy scenario started_at books) = scenario"
  "cx_started_at (run_context_of D plan candidate policy scenario started_at books) = started_at"
  "cx_books (run_context_of D plan candidate policy scenario started_at books) = books"
  by (simp_all add: run_context_of_def)

text \<open>The legs in their order of execution.\<close>

definition execution_order :: "shadow_plan \<Rightarrow> shadow_leg_plan list" where
  "execution_order plan = sort_key sl_sequence_position (pl_legs plan)"

text \<open>The first attempt and the terminal event record a run of the machine.\<close>

definition recorded_run :: "run_context \<Rightarrow> shadow_event \<Rightarrow> shadow_event \<Rightarrow> bool" where
  "recorded_run cx first last_event \<longleftrightarrow>
     (case se_fills first of
        [] \<Rightarrow> se_fills last_event = [] \<and> se_to_state last_event \<noteq> Complete \<and> se_quantity_filled first = None
      | f # fs \<Rightarrow> fs = [] \<and> se_quantity_filled first = Some (sf_quantity f) \<and> se_leg_index first = Some (sf_leg_index f) \<and>
          bought cx (pl_max_quantity (cx_plan cx)) (hd (execution_order (cx_plan cx))) f \<and>
          (\<exists>buys sells. se_fills last_event = buys @ sells \<and>
             executing cx (sf_quantity f) (tl (execution_order (cx_plan cx))) [f] buys sells (se_to_state last_event)))"

lemma ends_with_event:
  assumes "ends_with cx events t0 s fills es"
  obtains e where "es = events @ [e]" "validate_shadow_event e = Inr e" "se_to_state e = s" "se_fills e = fills"
    "t0 \<le> se_occurred_at e" "se_sequence e = 5" "se_from_state e = Some First_leg_simulated"
    "se_proposal_id e = pl_proposal_id (cx_plan cx)"
proof -
  from assms obtain t detail q i ev e where t: "t0 \<le> t" and es: "es = events @ [e]"
    and e: "name_event (cx_digests cx) (terminal_fields (cx_plan cx) (cx_scenario cx) s t detail q i fills ev) = Inr e"
    by (auto simp: ends_with_def append_terminal_def bindE_eq_Inr)
  show ?thesis
    using that [OF es name_event_Inr(1) [OF e]] name_event_fields [OF e] t by (simp add: terminal_fields_def)
qed

lemma run_of_events:
  assumes "run_of cx (execution_order (cx_plan cx)) events es"
  obtains first last_event where "es = events @ [first, last_event]"
    "validate_shadow_event first = Inr first" "validate_shadow_event last_event = Inr last_event"
    "se_to_state first = First_leg_simulated" "execution_terminal (se_to_state last_event)"
    "se_sequence first = 4" "se_from_state first = Some Shadow_planned"
    "se_sequence last_event = 5" "se_from_state last_event = Some First_leg_simulated"
    "se_proposal_id first = pl_proposal_id (cx_plan cx)" "se_proposal_id last_event = pl_proposal_id (cx_plan cx)"
    "cx_started_at cx \<le> se_occurred_at first" "se_occurred_at first \<le> se_occurred_at last_event"
    "recorded_run cx first last_event"
proof -
  let ?legs = "execution_order (cx_plan cx)"
  from assms obtain t fill evidence events' where t: "cx_started_at cx \<le> t"
    and a: "append_first_attempt (cx_digests cx) (cx_plan cx) (cx_scenario cx) (hd ?legs) t fill evidence events = Inr events'"
    and rest: "case fill of None \<Rightarrow> \<exists>s \<in> {Unwound, Expired, Unknown}. ends_with cx events' t s [] es
         | Some f \<Rightarrow> bought cx (pl_max_quantity (cx_plan cx)) (hd ?legs) f \<and>
             (\<exists>buys sells s. executing cx (sf_quantity f) (tl ?legs) [f] buys sells s \<and> ends_with cx events' t s (buys @ sells) es)"
    unfolding run_of_def by blast
  from a obtain e where e: "name_event (cx_digests cx) (first_attempt_fields (cx_plan cx) (cx_scenario cx) (hd ?legs) t fill evidence) = Inr e"
    and events': "events' = events @ [e]" by (auto simp: append_first_attempt_def bindE_eq_Inr)
  note fields = name_event_fields [OF e]
  have first: "se_to_state e = First_leg_simulated" "se_sequence e = 4" "se_from_state e = Some Shadow_planned"
    "se_proposal_id e = pl_proposal_id (cx_plan cx)" "se_occurred_at e = t"
    using fields by (simp_all add: first_attempt_fields_def)
  obtain s fills where ends: "ends_with cx events' t s fills es" and s: "execution_terminal s"
    and rec: "\<And>l. se_to_state l = s \<Longrightarrow> se_fills l = fills \<Longrightarrow> recorded_run cx e l"
  proof (cases fill)
    case None
    then obtain s where "s \<in> {Unwound, Expired, Unknown}" "ends_with cx events' t s [] es" using rest by auto
    then show ?thesis using None fields
      by (intro that [of s "[]"]) (auto simp: execution_terminal_def recorded_run_def first_attempt_fields_def)
  next
    case (Some f)
    then obtain buys sells s where b: "bought cx (pl_max_quantity (cx_plan cx)) (hd ?legs) f"
      and x: "executing cx (sf_quantity f) (tl ?legs) [f] buys sells s" "ends_with cx events' t s (buys @ sells) es"
      using rest by auto
    have "execution_terminal s" using executing_state [OF x(1)] by (auto simp: execution_terminal_def)
    moreover have "recorded_run cx e l" if "se_to_state l = s" "se_fills l = buys @ sells" for l
      using b x(1) that Some fields by (auto simp: recorded_run_def first_attempt_fields_def bought_def)
    ultimately show ?thesis using that x(2) by blast
  qed
  from ends obtain l where l: "es = events' @ [l]" "validate_shadow_event l = Inr l" "se_to_state l = s" "se_fills l = fills"
    "t \<le> se_occurred_at l" "se_sequence l = 5" "se_from_state l = Some First_leg_simulated"
    "se_proposal_id l = pl_proposal_id (cx_plan cx)" by (rule ends_with_event)
  show ?thesis
    using l first s t rec [OF l(3,4)] name_event_Inr(1) [OF e] by (intro that [of e l]) (simp_all add: events')
qed

lemma simulate_Inr:
  assumes "simulate_shadow_proposal D plan p candidate fees policy books scenario started_at = Inr es"
  obtains events where "validate_shadow_plan plan = Inr plan" "validate_scenario scenario = Inr scenario"
    "revalidate_fees fees = Inr fees" "pl_information_cutoff plan \<le> started_at"
    "validate_frozen_inputs D plan p candidate fees policy (execution_order plan) = Inr ()"
    "provenance_events D plan = Inr events"
    "run_plan (run_context_of D plan candidate policy scenario started_at books) p fees (execution_order plan) events = Inr es"
proof -
  from assms obtain plan' p' candidate' policy' scenario' fees' events where
    v: "validate_shadow_plan plan = Inr plan'" "validate_proof p = Inr p'" "validate_candidate candidate = Inr candidate'"
      "validate_economics_policy policy = Inr policy'" "validate_scenario scenario = Inr scenario'" "revalidate_fees fees = Inr fees'"
    and rest: "pl_information_cutoff plan' \<le> started_at"
      "\<exists>u. validate_frozen_inputs D plan' p' candidate' fees' policy' (execution_order plan') = Inr u"
      "provenance_events D plan' = Inr events"
      "run_plan (run_context_of D plan' candidate' policy' scenario' started_at books) p' fees' (execution_order plan') events = Inr es"
    unfolding simulate_shadow_proposal_def bindE_eq_Inr if_Inl_eq_Inr Let_def run_context_of_def [symmetric]
      execution_order_def [symmetric] not_less by blast
  have "plan' = plan" "p' = p" "candidate' = candidate" "policy' = policy" "scenario' = scenario"
    using shadow_plans.validate_id [OF v(1)] artifact.validate_id [OF v(2)] candidate.validate_id [OF v(3)]
      economics_policies.validate_id [OF v(4)] scenarios.validate_id [OF v(5)] by simp_all
  moreover have "fees' = fees"
  proof -
    have "list_all2 (\<lambda>x y. y = x) fees fees'"
      using v(6) unfolding revalidate_fees_def mapE_Inr
      by (rule list_all2_mono) (auto simp: bindE_eq_Inr validate_fee_rate_def split: if_splits)
    then show ?thesis by (simp add: list_all2_eq [symmetric] list.rel_eq eq_commute)
  qed
  ultimately show ?thesis using that v rest by simp
qed

lemma execution_order_legs:
  "validate_shadow_plan plan = Inr plan \<Longrightarrow> 2 \<le> length (execution_order plan)"
  "set (execution_order plan) = set (pl_legs plan)"
  unfolding validate_shadow_plan_def bindE_eq_Inr checkE_Inr
  by (auto simp: shadow_plan_fields_ok_def execution_order_def)

text \<open>The chain of a simulated run, as the other theorems use it.\<close>

lemma simulated_chain:
  assumes "simulate_shadow_proposal D plan p candidate fees policy books scenario started_at = Inr es"
  defines "cx \<equiv> run_context_of D plan candidate policy scenario started_at books"
  obtains e0 e1 e2 e3 first last_event where "es = [e0, e1, e2, e3, first, last_event]"
    "shadow_run 6 es (se_to_state last_event)" "execution_terminal (se_to_state last_event)"
    "\<forall>e \<in> set es. validate_shadow_event e = Inr e \<and> se_proposal_id e = pl_proposal_id plan"
    "se_to_state first = First_leg_simulated"
    "\<forall>e \<in> {e0, e1, e2, e3}. se_fills e = [] \<and> \<not> execution_terminal (se_to_state e) \<and>
       se_to_state e \<noteq> First_leg_simulated \<and> se_occurred_at e = pl_information_cutoff plan"
    "pl_information_cutoff plan \<le> se_occurred_at first" "se_occurred_at first \<le> se_occurred_at last_event"
    "recorded_run cx first last_event"
proof -
  obtain events where v: "validate_shadow_plan plan = Inr plan" "validate_scenario scenario = Inr scenario"
    and cut: "pl_information_cutoff plan \<le> started_at" and prov: "provenance_events D plan = Inr events"
    and run: "run_plan cx p fees (execution_order plan) events = Inr es"
    using simulate_Inr [OF assms(1)] unfolding cx_def by blast
  have "0 \<le> ss_latency_seconds scenario" using v(2) by (simp add: validate_scenario_def split: if_splits)
  moreover have "tl (execution_order plan) \<noteq> []"
    using execution_order_legs(1) [OF v(1)] by (cases "execution_order plan") auto
  ultimately have "run_of cx (execution_order (cx_plan cx)) events es"
    using run_plan_run [OF run] by (simp add: cx_def)
  then obtain first last_event where es: "es = events @ [first, last_event]"
    and e: "validate_shadow_event first = Inr first" "validate_shadow_event last_event = Inr last_event"
      "se_to_state first = First_leg_simulated" "execution_terminal (se_to_state last_event)"
      "se_sequence first = 4" "se_from_state first = Some Shadow_planned"
      "se_sequence last_event = 5" "se_from_state last_event = Some First_leg_simulated"
      "se_proposal_id first = pl_proposal_id plan" "se_proposal_id last_event = pl_proposal_id plan"
      "started_at \<le> se_occurred_at first" "se_occurred_at first \<le> se_occurred_at last_event"
      "recorded_run cx first last_event"
    by (rule run_of_events) (simp add: cx_def)
  obtain e0 e1 e2 e3 where events: "events = [e0, e1, e2, e3]" "shadow_run 4 events Shadow_planned"
    and each: "\<forall>e \<in> set events. validate_shadow_event e = Inr e \<and> se_proposal_id e = pl_proposal_id plan \<and>
       se_occurred_at e = pl_information_cutoff plan \<and> se_fills e = [] \<and>
       \<not> execution_terminal (se_to_state e) \<and> se_to_state e \<noteq> First_leg_simulated"
    using provenance_events_Inr [OF prov] by metis
  have steps: "allowed_transition Shadow_planned First_leg_simulated"
    "allowed_transition First_leg_simulated (se_to_state last_event)"
    using e(4) by (auto simp: execution_terminal_def allowed_transition_def ALLOWED_TRANSITIONS_def)
  from run_event [OF events(2), of first] e(3,5,6) steps(1) have "shadow_run 5 (events @ [first]) First_leg_simulated"
    by simp
  from run_event [OF this, of last_event] e(7,8) steps(2) have "shadow_run 6 es (se_to_state last_event)"
    by (simp add: es)
  with e each cut es events show ?thesis by (intro that) auto
qed

end
