(* ===== verification/Shadow_Example.thy ===== *)
theory Shadow_Example
  imports Shadow_Runs Economics_Guarantees
begin

text \<open>
  One worked run, evaluated by the kernel: the binary complement of the proof examples, two books whose
  second leg is the thinner one, the plan frozen for them, and its replay under the scenario that rejects
  the second leg.  The replay is stepped call by call, so that each evaluation stays small.
\<close>

section \<open>Evidence\<close>

definition example_snapshot :: "int \<Rightarrow> nat \<Rightarrow> book_snapshot" where
  "example_snapshot supply source =
     \<lparr>bk_cycle_id = Uuid 1, bk_venue = Kalshi, bk_market_id = ''M'', bk_outcome_token_id = None,
      bk_bids = [\<lparr>bl_price = Dec False 3 (-1), bl_size = dec_of_int 20\<rparr>],
      bk_asks = [\<lparr>bl_price = Dec False 4 (-1), bl_size = dec_of_int supply\<rparr>],
      bk_sequence = None, bk_effective_at = 5, bk_observed_at = 5, bk_source_hash = Sha256 source\<rparr>"

definition example_fee :: fee_rate where
  "example_fee = example_fee_rate\<lparr>fr_venue := Kalshi\<rparr>"

definition example_fees :: "(int, fee_rate) dict" where
  "example_fees = [(0, example_fee), (1, example_fee)]"

definition example_snapshots :: snapshots where
  "example_snapshots = [(0, Some (example_snapshot 10 50)), (1, Some (example_snapshot 5 51))]"

definition example_report :: "proof_artifact \<Rightarrow> economics_result \<Rightarrow> scan_report" where
  "example_report p e = \<lparr>sc_report_id = Uuid 9, sc_candidate_id = cd_candidate_id example_binary,
     sc_proof_id = Some (pa_proof_id p), sc_decision = SHADOW_CANDIDATE, sc_reason = ''R'', sc_economics = Some e,
     sc_policy_id = ep_policy_id example_policy, sc_policy_version = ep_policy_version example_policy,
     sc_as_of = 5, sc_observed_at = 5\<rparr>"

definition example_artifact :: proof_artifact where
  "example_artifact = \<lparr>pa_proof_id = Uuid 144770, pa_candidate_id = Uuid 77,
         pa_template = ''binary_complement@1'', pa_compiler_version = ''1'',
         pa_status = Proof_ready, pa_rejection_reason = None,
         pa_terminal_states =
           [\<lparr>ts_state_id = ''outcome_0_wins'',
               ts_description =
                 ''M: outcome index 0 resolves as the winning outcome; outcome index 1 resolves as the losing outcome.'',
               ts_leg_payouts = [Dec False 1 0, Dec False 0 0]\<rparr>,
            \<lparr>ts_state_id = ''outcome_1_wins'',
               ts_description =
                 ''M: outcome index 1 resolves as the winning outcome; outcome index 0 resolves as the losing outcome.'',
               ts_leg_payouts = [Dec False 0 0, Dec False 1 0]\<rparr>],
         pa_minimum_basket_payout = Some (Dec False 1 0),
         pa_maximum_basket_payout = Some (Dec False 1 0),
         pa_assumptions =
           [\<lparr>as_claim =
               ''M is an exhaustive binary complement: exactly one of outcome index 0 / outcome index 1 wins, per the attested rules'',
               as_attestation_id = Uuid 103,
               as_supporting_spans =
                 [\<lparr>sp_start_char = 0, sp_end_char = 3,
                     sp_exact_text = ''Yes'',
                     sp_rule_source_hash = Sha256 3\<rparr>]\<rparr>],
         pa_excluded_states =
           [\<lparr>es_description = ''M: resolves void or invalid.'',
               es_exclusion_reason =
                 ''a void resolution refunds cost at par per the attested rules, so it carries no basket payout risk and is excluded rather than modeled as a terminal state'',
               es_attestation_id = Uuid 103\<rparr>],
         pa_equivalence_matrix = None,
         pa_rule_version_ids = [Uuid 3, Uuid 3],
         pa_source_hashes = [Sha256 3], pa_review_identity = ''R'',
         pa_invalidation_conditions =
           [''any participating rule_version change''],
         pa_information_cutoff = 5, pa_observed_at = 5\<rparr>"

definition example_shadow_plan :: shadow_plan where
  "example_shadow_plan =  \<lparr>pl_proposal_id = Uuid 27181, pl_candidate_id = Uuid 77,
          pl_proof_id = Uuid 144770, pl_scan_report_id = Uuid 9,
          pl_legs =
            [\<lparr>sl_leg_index = 1, sl_venue = Kalshi, sl_market_id = ''M'',
                sl_outcome_token_id = None, sl_sequence_position = 0,
                sl_limit_price_levels =
                  [(Dec False 4 (- 1), Dec False 5 0)],
                sl_max_quantity = Dec False 5 0\<rparr>,
             \<lparr>sl_leg_index = 0, sl_venue = Kalshi, sl_market_id = ''M'',
                sl_outcome_token_id = None, sl_sequence_position = 1,
                sl_limit_price_levels =
                  [(Dec False 4 (- 1), Dec False 5 0)],
                sl_max_quantity = Dec False 5 0\<rparr>],
          pl_bottleneck_leg_index = 1, pl_max_quantity = Dec False 5 0,
          pl_expires_at = 30000006,
          pl_completion_path =
            ''Acquire legs in order kalshi:M:- -> kalshi:M:-; complete every remaining leg.'',
          pl_cancellation_path =
            ''Cancel every unfilled order for sequence kalshi:M:- -> kalshi:M:-.'',
          pl_unwind_path =
            ''If sequence kalshi:M:- -> kalshi:M:- cannot complete, unwind filled legs in reverse order.'',
          pl_max_incomplete_exposure_usd = Dec False 20 (- 1),
          pl_max_incomplete_loss_usd = Dec False 520 (- 3),
          pl_frozen_hashes =
            [Sha256 0, Sha256 3, Sha256 50, Sha256 51, Sha256 86357,
             Sha256 406920],
          pl_policy_id = ''research-v1'', pl_policy_version = ''1'',
          pl_risk_policy_version = ''shadow-risk-v1'',
          pl_minimum_basket_payout = Dec False 1 0,
          pl_kill_conditions =
            [''any participating rule_version change'',
             ''book evidence older than policy max age'',
             ''risk drawdown threshold breached''],
          pl_information_cutoff = 6, pl_observed_at = 6\<rparr>"

lemma example_artifact_compiled: "example_proof example_binary = Inr example_artifact"
  by code_simp

text \<open>The provider supplies the same books at every moment.\<close>

definition example_provider :: "int \<Rightarrow> timestamp \<Rightarrow> book_snapshot option" where
  "example_provider leg moment = get_or_none example_snapshots leg"

section \<open>The inputs are valid\<close>

lemma example_plan_valid: "validate_shadow_plan example_shadow_plan = Inr example_shadow_plan"
  by code_simp

lemma example_artifact_valid: "validate_proof example_artifact = Inr example_artifact"
  by code_simp

lemma example_binary_valid: "validate_candidate example_binary = Inr example_binary"
  by code_simp

lemma example_fees_valid: "revalidate_fees example_fees = Inr example_fees"
  by code_simp

lemma example_frozen:
  "validate_frozen_inputs example_digests example_shadow_plan example_artifact example_binary example_fees
     example_policy (sort_key sl_sequence_position (pl_legs example_shadow_plan)) = Inr ()"
  by code_simp

section \<open>The run\<close>

definition result_of :: "'a result \<Rightarrow> 'a" where
  "result_of r = (case r of Inr x \<Rightarrow> x | Inl _ \<Rightarrow> undefined)"

lemma result_of_Inr: "\<not> isl r \<Longrightarrow> r = Inr (result_of r)"
  by (cases r) (auto simp: result_of_def)

definition example_context :: run_context where
  "example_context = run_context_of example_digests example_shadow_plan example_binary example_policy
     SECOND_LEG_REJECT 7 example_provider"

definition example_legs :: "shadow_leg_plan list" where
  "example_legs = execution_order example_shadow_plan"

definition example_provenance :: "shadow_event list" where
  "example_provenance = result_of (provenance_events example_digests example_shadow_plan)"

definition example_fill :: "int \<Rightarrow> side \<Rightarrow> dec \<Rightarrow> shadow_fill" where
  "example_fill leg s price = \<lparr>sf_leg_index = leg, sf_side = s, sf_price_levels = [(price, Dec False 5 0)], sf_quantity = Dec False 5 0\<rparr>"

definition example_events :: "shadow_event list" where
  "example_events = result_of (append_first_attempt example_digests example_shadow_plan SECOND_LEG_REJECT
     (hd example_legs) 7 (Some (example_fill 1 Buy (Dec False 4 (-1)))) [Sha256 51] example_provenance)"

definition run_summary :: "shadow_event list result \<Rightarrow> (shadow_state \<times> shadow_fill list \<times> shadow_fill list) option" where
  "run_summary r = (case r of Inl _ \<Rightarrow> None | Inr es \<Rightarrow> Some (se_to_state (last es), se_fills (es ! 4), se_fills (last es)))"

lemma example_provenance_Inr: "provenance_events example_digests example_shadow_plan = Inr example_provenance"
  unfolding example_provenance_def by (rule result_of_Inr) code_simp

lemma example_in_time:
  "timing_stop example_shadow_plan SECOND_LEG_REJECT 7 0 = None"
  "timing_stop example_shadow_plan SECOND_LEG_REJECT 7 1 = None"
  by code_simp+

lemma example_first_book: "read_book example_context (hd example_legs) 7 [] [] =
   Inr (Some (example_snapshot 5 51), [((1, 7), (Some (example_snapshot 5 51), True))], [Sha256 51])"
  by code_simp

lemma example_first_levels:
  "walk_current_asks (hd example_legs) (example_snapshot 5 51) (pl_max_quantity example_shadow_plan) (ss_fill_fraction SECOND_LEG_REJECT) =
     [(Dec False 4 (- 1), Dec False 5 0)]"
  by code_simp

lemma example_first_attempt: "append_first_attempt example_digests example_shadow_plan SECOND_LEG_REJECT
     (hd example_legs) 7 (Some (example_fill 1 Buy (Dec False 4 (-1)))) [Sha256 51] example_provenance = Inr example_events"
  unfolding example_events_def by (rule result_of_Inr) code_simp

definition example_state :: run_state where
  "example_state = \<lparr>rs_cache = [((1, 7), (Some (example_snapshot 5 51), True))], rs_events = example_events, rs_evidence = [],
     rs_acquisitions = [example_fill 1 Buy (Dec False 4 (-1))], rs_terminal_buys = []\<rparr>"

definition example_reason :: string where
  "example_reason = ''venue rejected the planned leg'' @ ''; unwind_loss_usd='' @
     str_of_dec (dmax (dsub (acquisition_cost_of (rs_acquisitions example_state)) (dadd dec0 (notional_of [(Dec False 3 (-1), Dec False 5 0)]))) dec0)"

definition example_end :: "shadow_event list" where
  "example_end = result_of (append_terminal example_digests example_shadow_plan SECOND_LEG_REJECT Unwound 7
     example_reason None 0 [example_fill 1 Sell (Dec False 3 (-1))] [Sha256 51] example_events)"

lemma example_unwind_book: "read_terminal_book example_context (hd example_legs) 7 example_state =
  Inr (Some (example_snapshot 5 51), example_state\<lparr>rs_evidence := [Sha256 51]\<rparr>)"
  by code_simp

lemma example_terminal: "append_terminal example_digests example_shadow_plan SECOND_LEG_REJECT Unwound 7
     example_reason None 0 [example_fill 1 Sell (Dec False 3 (-1))] [Sha256 51] example_events = Inr example_end"
  unfolding example_end_def by (rule result_of_Inr) code_simp

lemma example_end_summary:
  "run_summary (Inr example_end) = Some (Unwound, [example_fill 1 Buy (Dec False 4 (-1))], [example_fill 1 Sell (Dec False 3 (-1))])"
  by code_simp

lemma example_leg_lookup: "map_of (map (\<lambda>leg. (sl_leg_index leg, leg)) example_legs) 1 = Some (hd example_legs)"
  by code_simp

lemma example_unwind_levels: "walk_current_bids (example_snapshot 5 51) (Dec False 5 0) (ss_fill_fraction SECOND_LEG_REJECT) = [(Dec False 3 (-1), Dec False 5 0)]"
  by code_simp

lemma example_unwinding: "unwind_or_unknown example_context 7 0 None ''venue rejected the planned leg''
   (map (\<lambda>leg. (sl_leg_index leg, leg)) example_legs) example_state = Inr example_end"
proof -
  have a: "rs_acquisitions example_state = [example_fill 1 Buy (Dec False 4 (-1))]"
    "sf_leg_index (example_fill 1 Buy (Dec False 4 (-1))) = 1"
    "sf_quantity (example_fill 1 Buy (Dec False 4 (-1))) = Dec False 5 0"
    "make_fill 1 Sell [(Dec False 3 (-1), Dec False 5 0)] (Dec False 5 0) = Inr (example_fill 1 Sell (Dec False 3 (-1)))"
    "levels_quantity [(Dec False 3 (-1), Dec False 5 0)] = Dec False 5 0"
    "dlt dec0 (Dec False 5 0)" "deq (Dec False 5 0) (Dec False 5 0)"
    "rs_terminal_buys (example_state\<lparr>rs_evidence := [Sha256 51]\<rparr>) = []"
    "rs_evidence (example_state\<lparr>rs_evidence := [Sha256 51]\<rparr>) = [Sha256 51]"
    "rs_events (example_state\<lparr>rs_evidence := [Sha256 51]\<rparr>) = example_events"
    by code_simp+
  have b: "cx_scenario example_context = SECOND_LEG_REJECT" "cx_plan example_context = example_shadow_plan"
    "cx_digests example_context = example_digests" by (simp_all add: example_context_def run_context_of_def)
  show ?thesis
    unfolding unwind_or_unknown_def a(1) rev.simps append_Nil unwind_loop.simps a(2) dict_item_def example_leg_lookup option.case bindE_Inr example_unwind_book
    prod.case a(3) b(1) example_unwind_levels Let_def a(5) if_P [OF a(6)] a(4) if_not_P [OF not_not [THEN iffD2, OF a(7)]] stop_run_def b(2,3) a(8-10)
    using example_terminal unfolding example_reason_def a(1) by simp
qed

lemma example_simulation: "simulate_shadow_proposal example_digests example_shadow_plan example_artifact example_binary example_fees example_policy
       example_provider SECOND_LEG_REJECT 7 = Inr example_end"
proof -
  have a: "validate_economics_policy example_policy = Inr example_policy" "validate_scenario SECOND_LEG_REJECT = Inr SECOND_LEG_REJECT"
     "\<not> (7 < pl_information_cutoff example_shadow_plan)"
     "validate_scenario_indices SECOND_LEG_REJECT (length example_legs) = Inr ()"
     "fill_at 7 0 SECOND_LEG_REJECT = 7" "fill_at 7 1 SECOND_LEG_REJECT = 7" "ss_failing_leg_index SECOND_LEG_REJECT \<noteq> Some 0"
     "levels_quantity [(Dec False 4 (- 1), Dec False 5 0)] = Dec False 5 0"
     "\<not> dle (Dec False 5 0) dec0" "\<not> dlt (Dec False 5 0) (pl_max_quantity example_shadow_plan)"
     "make_fill (sl_leg_index (hd example_legs)) Buy [(Dec False 4 (- 1), Dec False 5 0)] (Dec False 5 0) = Inr (example_fill 1 Buy (Dec False 4 (-1)))"
     "tl example_legs = [hd (tl example_legs)]" "sl_leg_index (hd (tl example_legs)) = 0" "ss_failing_leg_index SECOND_LEG_REJECT = Some (int 1)"
     by code_simp+
  have b: "cx_scenario example_context = SECOND_LEG_REJECT" "cx_plan example_context = example_shadow_plan"
    "cx_started_at example_context = 7"
    "cx_digests example_context = example_digests" by (simp_all add: example_context_def run_context_of_def)
  have "execute_legs example_context (map (\<lambda>leg. (sl_leg_index leg, leg)) example_legs) (Dec False 5 0) 1 (tl example_legs)
     example_state 7 (sl_leg_index (hd example_legs)) = Inr example_end"
    apply (subst a(12))
    unfolding execute_legs.simps b Let_def example_in_time option.case if_P [OF a(14)] a(13) a(6) by (rule example_unwinding)
  then have "run_plan example_context example_artifact example_fees example_legs example_provenance = Inr example_end"
    unfolding run_plan_def b Let_def example_in_time option.case if_not_P [OF a(7)] a(5) example_first_book bindE_Inr prod.case example_first_levels a(8) if_not_P [OF a(9)] a(11) example_first_attempt
      if_not_P [OF a(10)] then_flow_def flow.case
    by (simp only: example_state_def)
  then show ?thesis
   unfolding simulate_shadow_proposal_def example_plan_valid example_artifact_valid example_binary_valid example_fees_valid a(1,2) bindE_Inr if_not_P [OF a(3)] Let_def example_frozen example_provenance_Inr
     a(4)[unfolded example_legs_def execution_order_def]
    by (simp only: example_context_def run_context_of_def example_legs_def execution_order_def)
qed
end
