(* ===== verification/Shadow_Guarantees.thy ===== *)
theory Shadow_Guarantees
  imports Shadow_Example
begin

text \<open>
  What the shadow planner and the shadow simulator guarantee.
\<close>

section \<open>The machine's fills\<close>

lemma executing_buys:
  "executing cx q legs acquired buys sells s \<Longrightarrow> list_all2 (bought cx q) (take (length buys) legs) buys"
  by (induction rule: executing.induct) auto

lemma executing_buy:
  assumes "executing cx q legs acquired buys sells s" and "b \<in> set buys"
  obtains leg where "leg \<in> set legs" and "bought cx q leg b"
  using executing_buys [OF assms(1)] assms(2) by (metis in_set_conv_nth in_set_takeD list_all2_conv_all_nth nth_mem)

section \<open>A run is a run of the machine\<close>

text \<open>
  C5: a simulated run is a run of the execution machine, recorded in a legal chain. Whatever the books
  and the scenario, the events returned are six valid events of the plan's proposal whose derived
  state is the terminal state, in the order of their times; without a first fill nothing is filled at
  all, and otherwise the first event holds one buy of the first leg, walked from a book that was
  supplied, valid, matching and fresh, and the terminal event holds exactly the buys and sells of a
  run of the machine that ends in its state.
\<close>

theorem simulation_refines_machine:
  assumes "simulate_shadow_proposal D plan p candidate fees policy books scenario started_at = Inr es"
  defines "cx \<equiv> run_context_of D plan candidate policy scenario started_at books"
    and "legs \<equiv> execution_order plan"
  shows "length es = 6 \<and> (\<forall>e \<in> set es. validate_shadow_event e = Inr e \<and> se_proposal_id e = pl_proposal_id plan) \<and>
    derive_current_state es = Inr (se_to_state (last es)) \<and> execution_terminal (se_to_state (last es)) \<and>
    sorted (map se_occurred_at es) \<and>
    (se_fills (es ! 4) = [] \<longrightarrow> se_fills (last es) = [] \<and> se_to_state (last es) \<noteq> Complete) \<and>
    (se_fills (es ! 4) \<noteq> [] \<longrightarrow>
       (\<exists>f buys sells. se_fills (es ! 4) = [f] \<and> se_fills (last es) = buys @ sells \<and>
          bought cx (pl_max_quantity plan) (hd legs) f \<and>
          executing cx (sf_quantity f) (tl legs) [f] buys sells (se_to_state (last es))))"
proof -
  obtain e0 e1 e2 e3 first last_event where es: "es = [e0, e1, e2, e3, first, last_event]"
    and run: "shadow_run 6 es (se_to_state last_event)" "execution_terminal (se_to_state last_event)"
      "\<forall>e \<in> set es. validate_shadow_event e = Inr e \<and> se_proposal_id e = pl_proposal_id plan"
    and prov: "\<forall>e \<in> {e0, e1, e2, e3}. se_fills e = [] \<and> \<not> execution_terminal (se_to_state e) \<and>
       se_to_state e \<noteq> First_leg_simulated \<and> se_occurred_at e = pl_information_cutoff plan"
    and times: "pl_information_cutoff plan \<le> se_occurred_at first" "se_occurred_at first \<le> se_occurred_at last_event"
    and rec: "recorded_run cx first last_event"
    unfolding cx_def by (rule simulated_chain [OF assms(1)])
  have "derive_current_state es = Inr (se_to_state last_event)"
    using run derive_current_state_run [of es] by blast
  moreover have "sorted (map se_occurred_at es)" using prov times by (simp add: es)
  ultimately show ?thesis
    using run rec by (auto simp: es recorded_run_def cx_def legs_def split: list.splits)
qed

lemma simulation_refines_machine_witness:
  "\<exists>es f buys sells. simulate_shadow_proposal example_digests example_shadow_plan example_artifact example_binary
       example_fees example_policy example_provider SECOND_LEG_REJECT 7 = Inr es \<and>
     derive_current_state es = Inr Unwound \<and> se_fills (es ! 4) = [f] \<and>
     executing example_context (sf_quantity f) (tl example_legs) [f] buys sells Unwound \<and> sells \<noteq> []"
proof -
  have sum: "se_to_state (last example_end) = Unwound" "se_fills (example_end ! 4) \<noteq> []"
    "\<forall>f \<in> set (se_fills (last example_end)). sf_side f = Sell" "se_fills (last example_end) \<noteq> []"
    using example_end_summary by (auto simp: run_summary_def example_fill_def)
  from simulation_refines_machine [OF example_simulation] sum(1,2) obtain f buys sells where
    f: "derive_current_state example_end = Inr Unwound" "se_fills (example_end ! 4) = [f]"
      "se_fills (last example_end) = buys @ sells"
      "executing example_context (sf_quantity f) (tl example_legs) [f] buys sells Unwound"
    unfolding example_context_def example_legs_def by auto
  have "\<forall>b \<in> set buys. sf_side b = Buy"
    by (auto simp: bought_def elim!: executing_buy [OF f(4)])
  then have "buys = []" using sum(3) f(3) by (cases buys) auto
  with f sum(4) show ?thesis using example_simulation by auto
qed

end
