(* ===== verification/Authority.thy ===== *)
theory Authority
  imports Exec_Models Live_History
begin

text \<open>
  The authority of a venue mutation (\<open>predictions/manifest.py\<close>, \<open>predictions/execution/authority.py\<close>):
  the venue manifest and its collection and execution gates, the capability a verifier has projected, the
  context assembled at one boundary, and the decision.  The theorem says exactly when a mutation is
  allowed, as conditions on the manifest, the grant, the limits and the evidence.
\<close>

section \<open>Venue manifests\<close>

datatype adapter_state = WATCHLIST | READ_ONLY | SHADOW | LIVE_DISABLED | LIVE_ELIGIBLE

fun adapter_state_value :: "adapter_state \<Rightarrow> string" where
  "adapter_state_value WATCHLIST = ''WATCHLIST''"
| "adapter_state_value READ_ONLY = ''READ_ONLY''"
| "adapter_state_value SHADOW = ''SHADOW''"
| "adapter_state_value LIVE_DISABLED = ''LIVE_DISABLED''"
| "adapter_state_value LIVE_ELIGIBLE = ''LIVE_ELIGIBLE''"

datatype use_status = Use_permitted | Use_restricted | Use_unknown

fun use_status_value :: "use_status \<Rightarrow> string" where
  "use_status_value Use_permitted = ''permitted''"
| "use_status_value Use_restricted = ''restricted''"
| "use_status_value Use_unknown = ''unknown''"

datatype jurisdiction_status = Jurisdiction_unreviewed | Jurisdiction_blocked_status | Eligibility_reviewed

fun jurisdiction_value :: "jurisdiction_status \<Rightarrow> string" where
  "jurisdiction_value Jurisdiction_unreviewed = ''UNREVIEWED''"
| "jurisdiction_value Jurisdiction_blocked_status = ''BLOCKED''"
| "jurisdiction_value Eligibility_reviewed = ''ELIGIBILITY_REVIEWED''"

datatype manifest_gate_reason =
    MANIFEST_NOT_FOUND | COLLECTION_NOT_PERMITTED | AUTOMATED_USE_RESTRICTED
  | JURISDICTION_BLOCKED | JURISDICTION_UNREVIEWED | LIVE_NOT_ELIGIBLE

record venue_manifest =
  mf_venue :: prediction_venue
  mf_underlying_exchange :: "string option"
  mf_is_independent_liquidity :: bool
  mf_official_sources :: "string list"
  mf_public_capability :: bool
  mf_authenticated_demo_capability :: bool
  mf_authenticated_live_capability :: bool
  mf_data_retention_status :: use_status
  mf_automated_use_status :: use_status
  mf_commercial_use_status :: use_status
  mf_redistribution_status :: use_status
  mf_model_training_status :: use_status
  mf_implementation_state :: adapter_state
  mf_jurisdiction_review_status :: jurisdiction_status
  mf_review_identity :: string
  mf_reviewed_at :: timestamp
  mf_source_hashes :: "sha256 list"
  mf_invalidation_conditions :: "string list"

definition validate_manifest :: "venue_manifest \<Rightarrow> venue_manifest result" where
  "validate_manifest m =
     bindE (checkE
       [(mf_official_sources m = [], ValueError ''venue manifest must cite at least one official source''),
        (mf_source_hashes m = [], ValueError ''venue manifest must cite at least one source hash''),
        (\<not> sorted_unique (mf_source_hashes m), ValueError ''venue manifest source hashes must be sorted and unique'')])
       (\<lambda>_. Inr m)"

record manifest_decision =
  mg_allowed :: bool
  mg_reason :: "manifest_gate_reason option"
  mg_venue :: prediction_venue
  mg_manifest_source_hashes :: "sha256 list"

definition collectible_states :: "adapter_state list" where
  "collectible_states = [READ_ONLY, SHADOW, LIVE_DISABLED, LIVE_ELIGIBLE]"

definition manifest_refusal :: "manifest_gate_reason \<Rightarrow> prediction_venue \<Rightarrow> sha256 list \<Rightarrow> manifest_decision" where
  "manifest_refusal reason venue hashes =
     \<lparr>mg_allowed = False, mg_reason = Some reason, mg_venue = venue, mg_manifest_source_hashes = hashes\<rparr>"

definition evaluate_collection_gate :: "venue_manifest option \<Rightarrow> prediction_venue \<Rightarrow> manifest_decision" where
  "evaluate_collection_gate manifest venue =
     (case manifest of
        None \<Rightarrow> manifest_refusal MANIFEST_NOT_FOUND venue []
      | Some m \<Rightarrow>
          if mf_automated_use_status m \<noteq> Use_permitted
          then manifest_refusal AUTOMATED_USE_RESTRICTED venue (mf_source_hashes m)
          else if mf_implementation_state m \<notin> set collectible_states
          then manifest_refusal COLLECTION_NOT_PERMITTED venue (mf_source_hashes m)
          else \<lparr>mg_allowed = True, mg_reason = None, mg_venue = venue,
                 mg_manifest_source_hashes = mf_source_hashes m\<rparr>)"

definition evaluate_execution_gate :: "venue_manifest option \<Rightarrow> prediction_venue \<Rightarrow> manifest_decision result" where
  "evaluate_execution_gate manifest venue =
     (let collection = evaluate_collection_gate manifest venue in
      if \<not> mg_allowed collection then Inr collection
      else case manifest of
        None \<Rightarrow> Inl AssertionError
      | Some m \<Rightarrow>
          if mf_jurisdiction_review_status m \<noteq> Eligibility_reviewed
          then Inr (manifest_refusal
                 (if mf_jurisdiction_review_status m = Jurisdiction_blocked_status
                  then JURISDICTION_BLOCKED else JURISDICTION_UNREVIEWED) venue (mf_source_hashes m))
          else if mf_implementation_state m \<noteq> LIVE_ELIGIBLE
          then Inr (manifest_refusal LIVE_NOT_ELIGIBLE venue (mf_source_hashes m))
          else Inr \<lparr>mg_allowed = True, mg_reason = None, mg_venue = venue,
                     mg_manifest_source_hashes = mf_source_hashes m\<rparr>)"

definition manifest_content :: "venue_manifest \<Rightarrow> jval" where
  "manifest_content m =
    JObj [(''schema_version'', JInt 1), (''venue'', JText (venue_value (mf_venue m))),
          (''underlying_exchange'', jopt JText (mf_underlying_exchange m)),
          (''is_independent_liquidity'', JBool (mf_is_independent_liquidity m)),
          (''official_sources'', JList (map JText (mf_official_sources m))),
          (''public_capability'', JBool (mf_public_capability m)),
          (''authenticated_demo_capability'', JBool (mf_authenticated_demo_capability m)),
          (''authenticated_live_capability'', JBool (mf_authenticated_live_capability m)),
          (''data_retention_status'', JText (use_status_value (mf_data_retention_status m))),
          (''automated_use_status'', JText (use_status_value (mf_automated_use_status m))),
          (''commercial_use_status'', JText (use_status_value (mf_commercial_use_status m))),
          (''redistribution_status'', JText (use_status_value (mf_redistribution_status m))),
          (''model_training_status'', JText (use_status_value (mf_model_training_status m))),
          (''implementation_state'', JText (adapter_state_value (mf_implementation_state m))),
          (''jurisdiction_review_status'', JText (jurisdiction_value (mf_jurisdiction_review_status m))),
          (''review_identity'', JText (mf_review_identity m)), (''reviewed_at'', JTime (mf_reviewed_at m)),
          (''source_hashes'', jhashes (mf_source_hashes m)),
          (''invalidation_conditions'', JList (map JText (mf_invalidation_conditions m)))]"

section \<open>Capabilities\<close>

datatype authority_reason =
    Manifest_reason manifest_gate_reason
  | CAPABILITY_VERIFIER_NOT_CONFIGURED | CAPABILITY_MISSING | CAPABILITY_SIGNATURE_INVALID
  | CAPABILITY_CANONICAL_BYTES_INVALID | CAPABILITY_NOT_YET_VALID | CAPABILITY_EXPIRED | CAPABILITY_CLOCK_SKEW
  | CAPABILITY_VENUE_MISMATCH | CAPABILITY_ACCOUNT_MISMATCH | CAPABILITY_MANIFEST_MISMATCH
  | CAPABILITY_SOURCE_HASH_MISMATCH | CAPABILITY_STRATEGY_POLICY_MISMATCH | CAPABILITY_PROOF_POLICY_MISMATCH
  | CAPABILITY_ECONOMICS_POLICY_MISMATCH | CAPABILITY_PROTOCOL_MISMATCH | CAPABILITY_ROUTE_SET_MISMATCH
  | CAPABILITY_OPERATION_NOT_ALLOWED | CAPABILITY_MODE_MISMATCH | CAPABILITY_GRANT_KIND_MISMATCH
  | CAPABILITY_ACTION_MISMATCH | CAPABILITY_SESSION_MISMATCH | CAPABILITY_CEILING_MISMATCH
  | CAPABILITY_REQUESTED_POLICY_MISMATCH | CAPABILITY_PLAN_MISMATCH | CAPABILITY_RECOVERY_POLICY_MISMATCH
  | CAPABILITY_CREDENTIAL_ROUTE_NOT_ALLOWED | OPERATOR_PRESENCE_LOST | CAPABILITY_CAPITAL_LIMIT_EXCEEDED
  | CAPABILITY_NOTIONAL_LIMIT_EXCEEDED | CAPABILITY_POSITION_LIMIT_EXCEEDED | CAPABILITY_LOSS_LIMIT_EXCEEDED
  | CAPABILITY_NONCE_MISMATCH | CAPABILITY_NONCE_REPLAYED | CAPABILITY_REVOKED
  | GEOBLOCK_EVIDENCE_MISSING | GEOBLOCK_EVIDENCE_STALE | GEOBLOCK_BLOCKED
  | ACCOUNT_SCOPE_EVIDENCE_MISSING | ACCOUNT_SCOPE_EVIDENCE_STALE | ACCOUNT_SCOPE_MISMATCH
  | EXECUTION_KILL_ENGAGED | EXECUTION_UNAVAILABLE | CREDENTIALS_UNAVAILABLE

datatype authorization_mode = EXACT_ORDER | COMPLETE_STRATEGY | AUTOMATION_SESSION

datatype grant_kind = PRIMARY | RECOVERY | CREDENTIAL_PROVISIONING

definition RECOVERY_MUTATIONS :: "execution_operation list" where
  "RECOVERY_MUTATIONS = [CANCEL_ORDER]"

definition MUTATING_OPERATIONS :: "execution_operation list" where
  "MUTATING_OPERATIONS = [SIGN_ORDER, SUBMIT_ORDER, CANCEL_ORDER, HEARTBEAT]"

fun operation_value :: "execution_operation \<Rightarrow> string" where
  "operation_value DESCRIBE_IDENTITY = ''DESCRIBE_IDENTITY''"
| "operation_value SIGNER_KILL = ''SIGNER_KILL''"
| "operation_value SIGN_ORDER = ''SIGN_ORDER''"
| "operation_value SUBMIT_ORDER = ''SUBMIT_ORDER''"
| "operation_value CANCEL_ORDER = ''CANCEL_ORDER''"
| "operation_value HEARTBEAT = ''HEARTBEAT''"
| "operation_value READ_ORDERS = ''READ_ORDERS''"
| "operation_value READ_TRADES = ''READ_TRADES''"
| "operation_value READ_ACCOUNT = ''READ_ACCOUNT''"
| "operation_value READ_GEOBLOCK = ''READ_GEOBLOCK''"

record capability_fields =
  ca_capability_id :: uuid
  ca_venue :: prediction_venue
  ca_account_fingerprint :: sha256
  ca_manifest_record_hash :: sha256
  ca_manifest_source_hashes :: "sha256 list"
  ca_eligibility_evidence_hashes :: "sha256 list"
  ca_strategy_policy_hash :: sha256
  ca_proof_policy_hash :: sha256
  ca_economics_policy_hash :: sha256
  ca_protocol_fixture_hash :: sha256
  ca_allowed_operations :: "execution_operation list"
  ca_route_set_version :: string
  ca_route_set_hash :: sha256
  ca_maximum_capital :: dec
  ca_maximum_per_intent_notional :: dec
  ca_maximum_position :: dec
  ca_maximum_loss :: dec
  ca_not_before :: timestamp
  ca_expires_at :: timestamp
  ca_activation_nonce :: string
  ca_issuer_key_id :: string
  ca_mode :: "authorization_mode option"
  ca_grant_kind :: "grant_kind option"
  ca_parent_action_id :: "uuid option"
  ca_session_id :: "uuid option"
  ca_requested_limits_hash :: "sha256 option"
  ca_ceiling_hash :: "sha256 option"
  ca_plan_hash :: "sha256 option"
  ca_strategy_hash :: "sha256 option"
  ca_proof_family_hash :: "sha256 option"
  ca_recovery_policy_hash :: "sha256 option"
  ca_presence_deadline :: "timestamp option"
  ca_single_use :: "bool option"

record verified_capability = capability_fields +
  vc_capability_digest :: sha256
  vc_verified_at :: timestamp
  vc_signature_valid :: bool
  vc_canonical_bytes_valid :: bool

text \<open>
  The validators of the shared fields, for the signed capability and for its verified projection alike.
\<close>

definition validate_capability :: "'a capability_fields_scheme \<Rightarrow> 'a capability_fields_scheme result" where
  "validate_capability c =
     bindE (checkE
       [(\<not> (nonempty_string (ca_route_set_version c) \<and> nonempty_string (ca_activation_nonce c) \<and>
            nonempty_string (ca_issuer_key_id c) \<and>
            list_all nonnegative_decimal [ca_maximum_capital c, ca_maximum_per_intent_notional c,
              ca_maximum_position c, ca_maximum_loss c]), ValueError ''capability field''),
        (ca_manifest_source_hashes c = [] \<or> ca_eligibility_evidence_hashes c = [],
         ValueError ''capability evidence hashes must not be empty''),
        (\<not> (sorted_unique (ca_manifest_source_hashes c) \<and> sorted_unique (ca_eligibility_evidence_hashes c)),
         ValueError ''capability evidence hashes must be sorted and unique''),
        (ca_allowed_operations c = [], ValueError ''allowed_operations must not be empty''),
        (list_ex (\<lambda>operation. operation \<notin> set MUTATING_OPERATIONS) (ca_allowed_operations c),
         ValueError ''allowed_operations contains a non-mutating operation''),
        (\<not> sorted_unique (map operation_value (ca_allowed_operations c)),
         ValueError ''allowed_operations must be sorted and unique''),
        (ca_expires_at c \<le> ca_not_before c, ValueError ''capability expiration must be after not-before'')])
       (\<lambda>_. Inr c)"

record authority_decision =
  ad_allowed :: bool
  ad_reason :: "authority_reason option"
  ad_evidence_hashes :: "sha256 list"

definition validate_authority_decision :: "authority_decision \<Rightarrow> authority_decision result" where
  "validate_authority_decision d =
     bindE (checkE
       [(\<not> sorted_unique (ad_evidence_hashes d), ValueError ''evidence_hashes must be sorted and unique''),
        (ad_allowed d = (ad_reason d \<noteq> None), ValueError ''allowed authority decisions must omit a reason'')])
       (\<lambda>_. Inr d)"

definition unavailable_verifier :: "authority_decision result" where
  "unavailable_verifier = validate_authority_decision
     \<lparr>ad_allowed = False, ad_reason = Some CAPABILITY_VERIFIER_NOT_CONFIGURED, ad_evidence_hashes = []\<rparr>"

section \<open>The boundary\<close>

record authority_context =
  ax_manifest :: "venue_manifest option"
  ax_verified_capability :: "verified_capability option"
  ax_now :: timestamp
  ax_venue :: prediction_venue
  ax_account_fingerprint :: sha256
  ax_manifest_record_hash :: sha256
  ax_manifest_source_hashes :: "sha256 list"
  ax_strategy_policy_hash :: sha256
  ax_proof_policy_hash :: sha256
  ax_economics_policy_hash :: sha256
  ax_protocol_fixture_hash :: sha256
  ax_route_set_version :: string
  ax_route_set_hash :: sha256
  ax_requested_notional :: dec
  ax_capital_after :: dec
  ax_position_after :: dec
  ax_loss_after :: dec
  ax_activation_nonce :: string
  ax_used_activation_nonces :: "string list"
  ax_revoked_capability_ids :: "uuid list"
  ax_observed_clock_skew :: int
  ax_permitted_clock_skew :: int
  ax_geoblock_allowed :: "bool option"
  ax_geoblock_evidence_hash :: "sha256 option"
  ax_geoblock_expires_at :: "timestamp option"
  ax_account_scope_account_fingerprint :: "sha256 option"
  ax_account_scope_evidence_hash :: "sha256 option"
  ax_account_scope_expires_at :: "timestamp option"
  ax_kill_engaged :: bool
  ax_evidence_hashes :: "sha256 list"
  ax_expected_mode :: "authorization_mode option"
  ax_expected_grant_kind :: "grant_kind option"
  ax_action_id :: "uuid option"
  ax_session_id :: "uuid option"
  ax_requested_limits_hash :: "sha256 option"
  ax_ceiling_hash :: "sha256 option"
  ax_plan_hash :: "sha256 option"
  ax_strategy_hash :: "sha256 option"
  ax_proof_family_hash :: "sha256 option"
  ax_recovery_policy_hash :: "sha256 option"
  ax_operator_present :: bool
  ax_credential_route_requested :: bool

definition validate_context :: "authority_context \<Rightarrow> authority_context result" where
  "validate_context c =
     bindE (case ax_manifest c of None \<Rightarrow> Inr () | Some m \<Rightarrow> bindE (validate_manifest m) (\<lambda>_. Inr ())) (\<lambda>_.
     bindE (case ax_verified_capability c of None \<Rightarrow> Inr () | Some v \<Rightarrow> bindE (validate_capability v) (\<lambda>_. Inr ())) (\<lambda>_.
     bindE (checkE
       [(\<not> (nonempty_string (ax_route_set_version c) \<and> nonempty_string (ax_activation_nonce c) \<and>
            list_all nonempty_string (ax_used_activation_nonces c) \<and> 0 \<le> ax_permitted_clock_skew c \<and>
            list_all nonnegative_decimal [ax_requested_notional c, ax_capital_after c, ax_position_after c,
              ax_loss_after c]), ValueError ''context field''),
        (\<not> (sorted_unique (ax_manifest_source_hashes c) \<and> sorted_unique (ax_evidence_hashes c)),
         ValueError ''authority context hashes must be sorted and unique'')])
       (\<lambda>_. Inr c)))"

definition deny :: "authority_context \<Rightarrow> authority_reason \<Rightarrow> authority_decision result" where
  "deny context reason = validate_authority_decision
     \<lparr>ad_allowed = False, ad_reason = Some reason, ad_evidence_hashes = ax_evidence_hashes context\<rparr>"

text \<open>A run of \<open>if condition: return deny(context, reason)\<close> statements: the first true condition decides.\<close>

fun first_denial :: "(bool \<times> authority_reason) list \<Rightarrow> authority_reason option" where
  "first_denial [] = None"
| "first_denial ((c, r) # gs) = (if c then Some r else first_denial gs)"

lemma first_denial_append [simp]:
  "first_denial (gs @ hs) = (case first_denial gs of None \<Rightarrow> first_denial hs | Some r \<Rightarrow> Some r)"
  by (induction gs rule: first_denial.induct) auto

lemma first_denial_None: "first_denial gs = None \<longleftrightarrow> (\<forall>(c, r) \<in> set gs. \<not> c)"
  by (induction gs rule: first_denial.induct) auto

text \<open>\<open>_verify_pilot_grant_fields\<close>: the denial of a grant's pilot bindings, if any.\<close>

definition pilot_grant_denial ::
  "authority_context \<Rightarrow> verified_capability \<Rightarrow> execution_operation \<Rightarrow> authority_reason option" where
  "pilot_grant_denial context capability operation =
     (case first_denial
        [(ax_credential_route_requested context, CAPABILITY_CREDENTIAL_ROUTE_NOT_ALLOWED),
         (ca_grant_kind capability = Some CREDENTIAL_PROVISIONING, CAPABILITY_GRANT_KIND_MISMATCH),
         (ca_grant_kind capability \<noteq> ax_expected_grant_kind context, CAPABILITY_GRANT_KIND_MISMATCH),
         (ca_mode capability \<noteq> ax_expected_mode context, CAPABILITY_MODE_MISMATCH)] of
        Some reason \<Rightarrow> Some reason
      | None \<Rightarrow>
      if ca_grant_kind capability = None then None
      else first_denial
        [(ca_grant_kind capability = Some RECOVERY \<and> operation \<notin> set RECOVERY_MUTATIONS, CAPABILITY_GRANT_KIND_MISMATCH),
         (ca_parent_action_id capability \<noteq> ax_action_id context, CAPABILITY_ACTION_MISMATCH),
         (ca_session_id capability \<noteq> ax_session_id context, CAPABILITY_SESSION_MISMATCH),
         (ca_mode capability = Some AUTOMATION_SESSION \<and> ca_session_id capability = None, CAPABILITY_SESSION_MISMATCH),
         (ca_ceiling_hash capability \<noteq> ax_ceiling_hash context, CAPABILITY_CEILING_MISMATCH),
         (ca_requested_limits_hash capability \<noteq> ax_requested_limits_hash context, CAPABILITY_REQUESTED_POLICY_MISMATCH),
         (ca_plan_hash capability \<noteq> ax_plan_hash context \<or> ca_strategy_hash capability \<noteq> ax_strategy_hash context \<or>
            ca_proof_family_hash capability \<noteq> ax_proof_family_hash context, CAPABILITY_PLAN_MISMATCH),
         (ca_recovery_policy_hash capability \<noteq> ax_recovery_policy_hash context, CAPABILITY_RECOVERY_POLICY_MISMATCH),
         ((case ca_presence_deadline capability of None \<Rightarrow> True
           | Some deadline \<Rightarrow> \<not> ax_operator_present context \<or> deadline < ax_now context), OPERATOR_PRESENCE_LOST)])"

text \<open>The checks of \<open>_verify_capability_fields\<close> before the pilot bindings, and after them.\<close>

definition capability_checks ::
  "digests \<Rightarrow> authority_context \<Rightarrow> verified_capability \<Rightarrow> execution_operation \<Rightarrow> (bool \<times> authority_reason) list" where
  "capability_checks D context capability operation =
     [(\<not> vc_signature_valid capability, CAPABILITY_SIGNATURE_INVALID),
      (\<not> vc_canonical_bytes_valid capability, CAPABILITY_CANONICAL_BYTES_INVALID),
      (ax_now context < ca_not_before capability, CAPABILITY_NOT_YET_VALID),
      (ca_expires_at capability \<le> ax_now context, CAPABILITY_EXPIRED),
      (ax_permitted_clock_skew context < \<bar>ax_observed_clock_skew context\<bar>, CAPABILITY_CLOCK_SKEW),
      (ca_venue capability \<noteq> ax_venue context \<or> ax_venue context \<noteq> Polymarket \<or>
         (case ax_manifest context of None \<Rightarrow> True | Some m \<Rightarrow> mf_venue m \<noteq> Polymarket), CAPABILITY_VENUE_MISMATCH),
      (ca_account_fingerprint capability \<noteq> ax_account_fingerprint context, CAPABILITY_ACCOUNT_MISMATCH),
      (ca_manifest_record_hash capability \<noteq> ax_manifest_record_hash context \<or>
         Some (ax_manifest_record_hash context) \<noteq>
           map_option (\<lambda>m. canonical_execution_hash D (manifest_content m)) (ax_manifest context),
       CAPABILITY_MANIFEST_MISMATCH),
      (ca_manifest_source_hashes capability \<noteq> ax_manifest_source_hashes context \<or>
         (case ax_manifest context of None \<Rightarrow> True | Some m \<Rightarrow> mf_source_hashes m \<noteq> ax_manifest_source_hashes context),
       CAPABILITY_SOURCE_HASH_MISMATCH),
      (ca_strategy_policy_hash capability \<noteq> ax_strategy_policy_hash context, CAPABILITY_STRATEGY_POLICY_MISMATCH),
      (ca_proof_policy_hash capability \<noteq> ax_proof_policy_hash context, CAPABILITY_PROOF_POLICY_MISMATCH),
      (ca_economics_policy_hash capability \<noteq> ax_economics_policy_hash context, CAPABILITY_ECONOMICS_POLICY_MISMATCH),
      (ca_protocol_fixture_hash capability \<noteq> ax_protocol_fixture_hash context, CAPABILITY_PROTOCOL_MISMATCH),
      (ca_route_set_version capability \<noteq> ax_route_set_version context \<or>
         ca_route_set_hash capability \<noteq> ax_route_set_hash context, CAPABILITY_ROUTE_SET_MISMATCH),
      (operation \<notin> set MUTATING_OPERATIONS \<or> operation \<notin> set (ca_allowed_operations capability),
       CAPABILITY_OPERATION_NOT_ALLOWED)]"

definition boundary_checks ::
  "authority_context \<Rightarrow> verified_capability \<Rightarrow> (bool \<times> authority_reason) list" where
  "boundary_checks context capability =
     [(dlt (ca_maximum_capital capability) (ax_capital_after context), CAPABILITY_CAPITAL_LIMIT_EXCEEDED),
      (dlt (ca_maximum_per_intent_notional capability) (ax_requested_notional context), CAPABILITY_NOTIONAL_LIMIT_EXCEEDED),
      (dlt (ca_maximum_position capability) (dabs (ax_position_after context)), CAPABILITY_POSITION_LIMIT_EXCEEDED),
      (dlt (ca_maximum_loss capability) (ax_loss_after context), CAPABILITY_LOSS_LIMIT_EXCEEDED),
      (ca_activation_nonce capability \<noteq> ax_activation_nonce context, CAPABILITY_NONCE_MISMATCH),
      (ca_activation_nonce capability \<in> set (ax_used_activation_nonces context), CAPABILITY_NONCE_REPLAYED),
      (ca_capability_id capability \<in> set (ax_revoked_capability_ids context), CAPABILITY_REVOKED),
      (ax_geoblock_allowed context = None \<or> ax_geoblock_evidence_hash context = None \<or>
         ax_geoblock_expires_at context = None, GEOBLOCK_EVIDENCE_MISSING),
      (\<not> opt_all (\<lambda>t. ax_now context < t) (ax_geoblock_expires_at context), GEOBLOCK_EVIDENCE_STALE),
      (ax_geoblock_allowed context \<noteq> Some True, GEOBLOCK_BLOCKED),
      (ax_account_scope_account_fingerprint context = None \<or> ax_account_scope_evidence_hash context = None \<or>
         ax_account_scope_expires_at context = None, ACCOUNT_SCOPE_EVIDENCE_MISSING),
      (\<not> opt_all (\<lambda>t. ax_now context < t) (ax_account_scope_expires_at context), ACCOUNT_SCOPE_EVIDENCE_STALE),
      (ax_account_scope_account_fingerprint context \<noteq> Some (ax_account_fingerprint context), ACCOUNT_SCOPE_MISMATCH),
      (ax_kill_engaged context, EXECUTION_KILL_ENGAGED)]"

definition verify_capability_fields ::
  "digests \<Rightarrow> authority_context \<Rightarrow> execution_operation \<Rightarrow> authority_decision result" where
  "verify_capability_fields D context operation =
     (case ax_verified_capability context of
        None \<Rightarrow> deny context CAPABILITY_MISSING
      | Some capability \<Rightarrow>
          (case first_denial (capability_checks D context capability operation) of
             Some reason \<Rightarrow> deny context reason
           | None \<Rightarrow>
          (case pilot_grant_denial context capability operation of
             Some reason \<Rightarrow> deny context reason
           | None \<Rightarrow>
          (case first_denial (boundary_checks context capability) of
             Some reason \<Rightarrow> deny context reason
           | None \<Rightarrow> validate_authority_decision
               \<lparr>ad_allowed = True, ad_reason = None, ad_evidence_hashes = ax_evidence_hashes context\<rparr>))))"

definition verify_mutation_authority ::
  "digests \<Rightarrow> authority_context \<Rightarrow> execution_operation \<Rightarrow> authority_decision result" where
  "verify_mutation_authority D context operation =
     bindE (evaluate_execution_gate (ax_manifest context) Polymarket) (\<lambda>manifest.
     if \<not> mg_allowed manifest
     then (case mg_reason manifest of None \<Rightarrow> Inl AssertionError
           | Some reason \<Rightarrow> deny context (Manifest_reason reason))
     else verify_capability_fields D context operation)"

section \<open>When a mutation is allowed\<close>

text \<open>The manifest is the venue's, permits automated use, is reviewed for eligibility and live.\<close>

definition live_manifest :: "venue_manifest \<Rightarrow> bool" where
  "live_manifest m \<longleftrightarrow> mf_venue m = Polymarket \<and> mf_automated_use_status m = Use_permitted \<and>
     mf_jurisdiction_review_status m = Eligibility_reviewed \<and> mf_implementation_state m = LIVE_ELIGIBLE"

text \<open>The capability is genuine, in its window, and issued for exactly this boundary.\<close>

definition capability_binds ::
  "digests \<Rightarrow> authority_context \<Rightarrow> venue_manifest \<Rightarrow> verified_capability \<Rightarrow> bool" where
  "capability_binds D c m v \<longleftrightarrow>
     vc_signature_valid v \<and> vc_canonical_bytes_valid v \<and>
     ca_not_before v \<le> ax_now c \<and> ax_now c < ca_expires_at v \<and>
     \<bar>ax_observed_clock_skew c\<bar> \<le> ax_permitted_clock_skew c \<and>
     ca_venue v = Polymarket \<and> ax_venue c = Polymarket \<and> ca_account_fingerprint v = ax_account_fingerprint c \<and>
     ca_manifest_record_hash v = ax_manifest_record_hash c \<and>
     ax_manifest_record_hash c = canonical_execution_hash D (manifest_content m) \<and>
     ca_manifest_source_hashes v = mf_source_hashes m \<and> ax_manifest_source_hashes c = mf_source_hashes m \<and>
     (ca_strategy_policy_hash v, ca_proof_policy_hash v, ca_economics_policy_hash v, ca_protocol_fixture_hash v,
        ca_route_set_version v, ca_route_set_hash v) =
       (ax_strategy_policy_hash c, ax_proof_policy_hash c, ax_economics_policy_hash c, ax_protocol_fixture_hash c,
        ax_route_set_version c, ax_route_set_hash c)"

text \<open>
  The grant's pilot bindings: never for credentials, a recovery grant only to cancel, an automation grant
  only inside its session, and the operator present before the deadline.
\<close>

definition grant_covers :: "authority_context \<Rightarrow> verified_capability \<Rightarrow> execution_operation \<Rightarrow> bool" where
  "grant_covers c v op \<longleftrightarrow>
     op \<in> set (ca_allowed_operations v) \<and> op \<in> {SIGN_ORDER, SUBMIT_ORDER, CANCEL_ORDER, HEARTBEAT} \<and>
     \<not> ax_credential_route_requested c \<and> ca_grant_kind v \<noteq> Some CREDENTIAL_PROVISIONING \<and>
     ca_grant_kind v = ax_expected_grant_kind c \<and> ca_mode v = ax_expected_mode c \<and>
     (ca_grant_kind v \<noteq> None \<longrightarrow>
        (ca_grant_kind v = Some RECOVERY \<longrightarrow> op = CANCEL_ORDER) \<and>
        (ca_mode v = Some AUTOMATION_SESSION \<longrightarrow> ca_session_id v \<noteq> None) \<and>
        (ca_parent_action_id v, ca_session_id v, ca_ceiling_hash v, ca_requested_limits_hash v, ca_plan_hash v,
           ca_strategy_hash v, ca_proof_family_hash v, ca_recovery_policy_hash v) =
          (ax_action_id c, ax_session_id c, ax_ceiling_hash c, ax_requested_limits_hash c, ax_plan_hash c,
           ax_strategy_hash c, ax_proof_family_hash c, ax_recovery_policy_hash c) \<and>
        ax_operator_present c \<and> (\<exists>t. ca_presence_deadline v = Some t \<and> ax_now c \<le> t))"

text \<open>
  The amounts after the mutation are within the capability's; the position is compared after \<open>abs\<close>,
  which rounds to 28 digits.
\<close>

definition within_limits :: "authority_context \<Rightarrow> verified_capability \<Rightarrow> bool" where
  "within_limits c v \<longleftrightarrow>
     dval (ax_capital_after c) \<le> dval (ca_maximum_capital v) \<and>
     dval (ax_requested_notional c) \<le> dval (ca_maximum_per_intent_notional v) \<and>
     dval (dabs (ax_position_after c)) \<le> dval (ca_maximum_position v) \<and>
     dval (ax_loss_after c) \<le> dval (ca_maximum_loss v)"

text \<open>The grant is unspent and unrevoked, the evidence fresh, and the kill switch disengaged.\<close>

definition boundary_open :: "authority_context \<Rightarrow> verified_capability \<Rightarrow> bool" where
  "boundary_open c v \<longleftrightarrow>
     ca_activation_nonce v = ax_activation_nonce c \<and> ca_activation_nonce v \<notin> set (ax_used_activation_nonces c) \<and>
     ca_capability_id v \<notin> set (ax_revoked_capability_ids c) \<and>
     ax_geoblock_allowed c = Some True \<and> ax_geoblock_evidence_hash c \<noteq> None \<and>
     (\<exists>t. ax_geoblock_expires_at c = Some t \<and> ax_now c < t) \<and>
     ax_account_scope_account_fingerprint c = Some (ax_account_fingerprint c) \<and>
     ax_account_scope_evidence_hash c \<noteq> None \<and>
     (\<exists>t. ax_account_scope_expires_at c = Some t \<and> ax_now c < t) \<and> \<not> ax_kill_engaged c"

lemma deny_cases:
  "sorted_unique (ax_evidence_hashes c) \<Longrightarrow>
     deny c r = Inr \<lparr>ad_allowed = False, ad_reason = Some r, ad_evidence_hashes = ax_evidence_hashes c\<rparr>"
  by (simp add: deny_def validate_authority_decision_def)

lemma execution_gate_allowed:
  "\<exists>d. evaluate_execution_gate manifest venue = Inr d \<and> (mg_reason d = None \<longleftrightarrow> mg_allowed d) \<and>
     (mg_allowed d \<longleftrightarrow> (\<exists>m. manifest = Some m \<and> mf_automated_use_status m = Use_permitted \<and>
        mf_jurisdiction_review_status m = Eligibility_reviewed \<and> mf_implementation_state m = LIVE_ELIGIBLE))"
  by (auto simp: evaluate_execution_gate_def evaluate_collection_gate_def manifest_refusal_def
      collectible_states_def Let_def split: option.splits)

lemma capability_checks_pass:
  assumes "ax_manifest c = Some m"
  shows "first_denial (capability_checks D c v op) = None \<longleftrightarrow>
    capability_binds D c m v \<and> mf_venue m = Polymarket \<and>
    op \<in> set (ca_allowed_operations v) \<and> op \<in> {SIGN_ORDER, SUBMIT_ORDER, CANCEL_ORDER, HEARTBEAT}"
  unfolding first_denial_None capability_checks_def
  by (simp add: assms capability_binds_def MUTATING_OPERATIONS_def not_less not_le) auto

lemma grant_covers_operation:
  "grant_covers c v op \<Longrightarrow> op \<in> set (ca_allowed_operations v) \<and> op \<in> {SIGN_ORDER, SUBMIT_ORDER, CANCEL_ORDER, HEARTBEAT}"
  unfolding grant_covers_def by (elim conjE) (intro conjI)

lemma pilot_grant_passes:
  assumes "op \<in> set (ca_allowed_operations v)" and "op \<in> {SIGN_ORDER, SUBMIT_ORDER, CANCEL_ORDER, HEARTBEAT}"
  shows "pilot_grant_denial c v op = None \<longleftrightarrow> grant_covers c v op"
  using assms
  by (cases "ca_presence_deadline v"; cases "ca_grant_kind v")
    (auto simp: pilot_grant_denial_def grant_covers_def RECOVERY_MUTATIONS_def not_less split: if_splits option.splits)

lemma boundary_checks_pass:
  "first_denial (boundary_checks c v) = None \<longleftrightarrow> within_limits c v \<and> boundary_open c v"
  unfolding first_denial_None boundary_checks_def
  by (simp add: within_limits_def boundary_open_def dlt_iff not_less)
    (cases "ax_geoblock_expires_at c"; cases "ax_account_scope_expires_at c"; auto simp: opt_all_def)

lemma authority_allowed:
  assumes "validate_context c = Inr c"
  shows "\<exists>d. verify_mutation_authority D c op = Inr d \<and> ad_evidence_hashes d = ax_evidence_hashes c \<and>
    (ad_reason d = None \<longleftrightarrow> ad_allowed d) \<and>
    (ad_allowed d \<longleftrightarrow> (\<exists>m v. ax_manifest c = Some m \<and> ax_verified_capability c = Some v \<and> live_manifest m \<and>
       capability_binds D c m v \<and> grant_covers c v op \<and> within_limits c v \<and> boundary_open c v))"
proof -
  have su: "sorted_unique (ax_evidence_hashes c)"
    using assms unfolding validate_context_def bindE_eq_Inr checkE_Inr by auto
  note deny = deny_cases [OF su]
  obtain g where g: "evaluate_execution_gate (ax_manifest c) Polymarket = Inr g" "mg_reason g = None \<longleftrightarrow> mg_allowed g"
    "mg_allowed g \<longleftrightarrow> (\<exists>m. ax_manifest c = Some m \<and> mf_automated_use_status m = Use_permitted \<and>
        mf_jurisdiction_review_status m = Eligibility_reviewed \<and> mf_implementation_state m = LIVE_ELIGIBLE)"
    using execution_gate_allowed [of "ax_manifest c" Polymarket] by (elim exE conjE)
  show ?thesis
  proof (cases "mg_allowed g")
    case False
    then obtain r where "mg_reason g = Some r" using g(2) by auto
    with False g(1,3) deny show ?thesis by (auto simp: verify_mutation_authority_def live_manifest_def)
  next
    case True
    with g(3) obtain m where m: "ax_manifest c = Some m" "mf_automated_use_status m = Use_permitted"
        "mf_jurisdiction_review_status m = Eligibility_reviewed" "mf_implementation_state m = LIVE_ELIGIBLE" by blast
    have run: "verify_mutation_authority D c op = verify_capability_fields D c op"
      using True g(1) by (simp add: verify_mutation_authority_def)
    show ?thesis
    proof (cases "ax_verified_capability c")
      case None
      then show ?thesis using deny run by (simp add: verify_capability_fields_def)
    next
      case (Some v)
      have allowed: "validate_authority_decision \<lparr>ad_allowed = True, ad_reason = None, ad_evidence_hashes = ax_evidence_hashes c\<rparr> =
          Inr \<lparr>ad_allowed = True, ad_reason = None, ad_evidence_hashes = ax_evidence_hashes c\<rparr>"
        using su by (simp add: validate_authority_decision_def)
      have grant: "grant_covers c v op \<longleftrightarrow> op \<in> set (ca_allowed_operations v) \<and>
          op \<in> {SIGN_ORDER, SUBMIT_ORDER, CANCEL_ORDER, HEARTBEAT} \<and> pilot_grant_denial c v op = None"
        using pilot_grant_passes [of op v c] grant_covers_operation [of c v op] by blast
      note checks = capability_checks_pass [OF m(1), of D v op] boundary_checks_pass [of c v]
      show ?thesis
        unfolding run verify_capability_fields_def Some option.case
        using checks grant m Some deny allowed
        by (cases "first_denial (capability_checks D c v op)"; cases "pilot_grant_denial c v op";
            cases "first_denial (boundary_checks c v)") (auto simp: live_manifest_def)
    qed
  qed
qed

text \<open>
  C11: a mutation is allowed exactly under live authority. For a valid context the decision always exists,
  carries the context's evidence and names a reason exactly when it refuses; it allows the operation if and
  only if the venue's manifest is live and reviewed, a genuine capability in its window is issued for this
  account, manifest, policies and routes, its grant covers the operation (a recovery grant only a
  cancellation, a credential grant nothing), every amount is within its limits, its nonce is unused and it is
  unrevoked, the geoblock and account evidence are fresh and affirmative, and the kill switch is disengaged.
\<close>

theorem authority_allowed_iff:
  assumes "validate_context c = Inr c"
  shows "\<exists>d. verify_mutation_authority D c op = Inr d \<and> ad_evidence_hashes d = ax_evidence_hashes c \<and>
    (ad_reason d = None \<longleftrightarrow> ad_allowed d) \<and>
    (ad_allowed d \<longleftrightarrow> (\<exists>m v. ax_manifest c = Some m \<and> ax_verified_capability c = Some v \<and> live_manifest m \<and>
       capability_binds D c m v \<and> grant_covers c v op \<and> within_limits c v \<and> boundary_open c v))"
  by (rule authority_allowed [OF assms])

section \<open>A worked boundary\<close>

definition example_manifest :: venue_manifest where
  "example_manifest = \<lparr>mf_venue = Polymarket, mf_underlying_exchange = None, mf_is_independent_liquidity = True,
     mf_official_sources = [''S''], mf_public_capability = True, mf_authenticated_demo_capability = False,
     mf_authenticated_live_capability = True, mf_data_retention_status = Use_permitted,
     mf_automated_use_status = Use_permitted, mf_commercial_use_status = Use_permitted,
     mf_redistribution_status = Use_unknown, mf_model_training_status = Use_restricted,
     mf_implementation_state = LIVE_ELIGIBLE, mf_jurisdiction_review_status = Eligibility_reviewed,
     mf_review_identity = ''R'', mf_reviewed_at = 0, mf_source_hashes = [Sha256 1], mf_invalidation_conditions = []\<rparr>"

definition example_capability :: "dec \<Rightarrow> verified_capability" where
  "example_capability limit = \<lparr>ca_capability_id = Uuid 1, ca_venue = Polymarket, ca_account_fingerprint = Sha256 2,
     ca_manifest_record_hash = canonical_execution_hash example_digests (manifest_content example_manifest),
     ca_manifest_source_hashes = [Sha256 1], ca_eligibility_evidence_hashes = [Sha256 3],
     ca_strategy_policy_hash = Sha256 4, ca_proof_policy_hash = Sha256 5, ca_economics_policy_hash = Sha256 6,
     ca_protocol_fixture_hash = Sha256 7, ca_allowed_operations = [CANCEL_ORDER, SIGN_ORDER],
     ca_route_set_version = ''1'', ca_route_set_hash = Sha256 8, ca_maximum_capital = limit,
     ca_maximum_per_intent_notional = limit, ca_maximum_position = limit, ca_maximum_loss = limit,
     ca_not_before = 0, ca_expires_at = 100, ca_activation_nonce = ''N'', ca_issuer_key_id = ''K'',
     ca_mode = Some EXACT_ORDER, ca_grant_kind = Some PRIMARY, ca_parent_action_id = Some (Uuid 9),
     ca_session_id = None, ca_requested_limits_hash = None, ca_ceiling_hash = None, ca_plan_hash = None,
     ca_strategy_hash = None, ca_proof_family_hash = None, ca_recovery_policy_hash = None,
     ca_presence_deadline = Some 60, ca_single_use = Some True,
     vc_capability_digest = Sha256 10, vc_verified_at = 1, vc_signature_valid = True, vc_canonical_bytes_valid = True\<rparr>"

definition example_boundary :: "dec \<Rightarrow> dec \<Rightarrow> authority_context" where
  "example_boundary limit position = \<lparr>ax_manifest = Some example_manifest,
     ax_verified_capability = Some (example_capability limit), ax_now = 50, ax_venue = Polymarket,
     ax_account_fingerprint = Sha256 2,
     ax_manifest_record_hash = canonical_execution_hash example_digests (manifest_content example_manifest),
     ax_manifest_source_hashes = [Sha256 1], ax_strategy_policy_hash = Sha256 4, ax_proof_policy_hash = Sha256 5,
     ax_economics_policy_hash = Sha256 6, ax_protocol_fixture_hash = Sha256 7, ax_route_set_version = ''1'',
     ax_route_set_hash = Sha256 8, ax_requested_notional = dec0, ax_capital_after = dec0,
     ax_position_after = position, ax_loss_after = dec0, ax_activation_nonce = ''N'',
     ax_used_activation_nonces = [''M''], ax_revoked_capability_ids = [Uuid 2], ax_observed_clock_skew = -1,
     ax_permitted_clock_skew = 2, ax_geoblock_allowed = Some True, ax_geoblock_evidence_hash = Some (Sha256 11),
     ax_geoblock_expires_at = Some 51, ax_account_scope_account_fingerprint = Some (Sha256 2),
     ax_account_scope_evidence_hash = Some (Sha256 12), ax_account_scope_expires_at = Some 51,
     ax_kill_engaged = False, ax_evidence_hashes = [Sha256 13], ax_expected_mode = Some EXACT_ORDER,
     ax_expected_grant_kind = Some PRIMARY, ax_action_id = Some (Uuid 9), ax_session_id = None,
     ax_requested_limits_hash = None, ax_ceiling_hash = None, ax_plan_hash = None, ax_strategy_hash = None,
     ax_proof_family_hash = None, ax_recovery_policy_hash = None, ax_operator_present = True,
     ax_credential_route_requested = False\<rparr>"

definition decision_reason :: "authority_decision result \<Rightarrow> authority_reason option option" where
  "decision_reason r = (case r of Inl _ \<Rightarrow> None | Inr d \<Rightarrow> Some (ad_reason d))"

lemma example_decisions:
  "decision_reason (verify_mutation_authority example_digests (example_boundary (Dec False 5 0) (Dec False 5 0)) SIGN_ORDER) = Some None"
  "decision_reason (verify_mutation_authority example_digests (example_boundary (Dec False 5 0) (Dec False 6 0)) SIGN_ORDER) =
     Some (Some CAPABILITY_POSITION_LIMIT_EXCEEDED)"
  "decision_reason (verify_mutation_authority example_digests (example_boundary (Dec False 5 0) (Dec False 5 0)) HEARTBEAT) =
     Some (Some CAPABILITY_OPERATION_NOT_ALLOWED)"
  by code_simp+

text \<open>The rounding of \<open>abs\<close> lets through a position above the maximum in its thirtieth digit.\<close>

lemma position_rounds_to_limit:
  "decision_reason (verify_mutation_authority example_digests
     (example_boundary (Dec False 5 0) (Dec False (5 * 10 ^ 29 + 1) (-29))) SIGN_ORDER) = Some None"
  "dlt (Dec False 5 0) (Dec False (5 * 10 ^ 29 + 1) (-29))"
  by code_simp+

lemma authority_allowed_iff_witness:
  "\<exists>d. verify_mutation_authority example_digests (example_boundary (Dec False 5 0) (Dec False 5 0)) SIGN_ORDER = Inr d \<and>
     ad_allowed d \<and> grant_covers (example_boundary (Dec False 5 0) (Dec False 5 0)) (example_capability (Dec False 5 0)) SIGN_ORDER"
proof -
  let ?c = "example_boundary (Dec False 5 0) (Dec False 5 0)"
  have "\<not> isl (validate_context ?c)" by code_simp
  then have "validate_context ?c = Inr ?c"
    by (cases "validate_context ?c") (auto simp: validate_context_def bindE_eq_Inr simp del: checkE.simps)
  from authority_allowed_iff [OF this, of example_digests SIGN_ORDER] example_decisions(1) show ?thesis
    by (auto simp: decision_reason_def example_boundary_def)
qed

end
