(* ===== verification/Live_Account.thy ===== *)
theory Live_Account
  imports Live_Ledger "HOL-Library.Product_Lexorder"
begin

text \<open>
  The account evidence of live reconciliation (\<open>predictions/execution/reconciliation.py\<close>): balances,
  allowances, open orders, trades and settlements observed independently at two cuts, the snapshot that
  holds them with its validators and fingerprint, the evidence it cites, and the changes it shows.
\<close>

section \<open>Observations\<close>

definition snapshot_invalid :: py_error where
  "snapshot_invalid = ValueError ''VENUE_ACCOUNT_SNAPSHOT_INVALID''"

record asset_amount =
  ao_asset_id :: string
  ao_amount :: dec
  ao_quantum :: dec
  ao_evidence_hash :: sha256

text \<open>An exact amount: bounded, and a multiple of a quantum of at least a millionth.\<close>

definition exact_amount :: "dec \<Rightarrow> dec \<Rightarrow> bool" where
  "exact_amount amount quantum \<longleftrightarrow>
     nonnegative_decimal amount \<and> positive_decimal quantum \<and>
     bounded_decimal amount \<and> bounded_decimal quantum \<and>
     \<not> (dlt quantum (Dec False 1 (- 6)) \<or> \<not> is_quantized amount quantum)"

definition validate_asset_amount :: "asset_amount \<Rightarrow> asset_amount result" where
  "validate_asset_amount x =
     (if \<not> (public_text (ao_asset_id x) \<and> exact_amount (ao_amount x) (ao_quantum x))
      then Inl snapshot_invalid else Inr x)"

record allowance =
  al_asset_id :: string
  al_spender_address :: string
  al_amount :: dec
  al_quantum :: dec
  al_evidence_hash :: sha256

definition evm_address :: "string \<Rightarrow> bool" where
  "evm_address s \<longleftrightarrow> length s = 42 \<and> take 2 s = ''0x'' \<and> list_all (\<lambda>c. c \<in> set ''0123456789abcdef'') (drop 2 s)"

definition validate_allowance :: "allowance \<Rightarrow> allowance result" where
  "validate_allowance x =
     (if \<not> (public_text (al_asset_id x) \<and> evm_address (al_spender_address x) \<and>
            exact_amount (al_amount x) (al_quantum x))
      then Inl snapshot_invalid else Inr x)"

record open_order =
  oo_venue_order_id :: string
  oo_intent_id :: uuid
  oo_position_asset_id :: string
  oo_state :: venue_order_state
  oo_evidence_hash :: sha256

definition validate_open_order :: "open_order \<Rightarrow> open_order result" where
  "validate_open_order x =
     (if \<not> (public_text (oo_venue_order_id x) \<and> public_text (oo_position_asset_id x))
      then Inl snapshot_invalid else Inr x)"

record recent_trade =
  rt_venue_trade_id :: string
  rt_venue_order_id :: string
  rt_intent_id :: uuid
  rt_cash_asset_id :: string
  rt_position_asset_id :: string
  rt_side :: side
  rt_state :: venue_trade_state
  rt_trade_event_hash :: sha256
  rt_settlement_hash :: sha256
  rt_fee_hash :: sha256
  rt_source_hash :: sha256
  rt_balance_evidence_hashes :: "sha256 list"
  rt_economics_fingerprint :: sha256
  rt_realized_pnl :: "dec option"
  rt_cost_basis_evidence_hash :: "sha256 option"
  rt_occurred_at :: timestamp

definition validate_recent_trade :: "recent_trade \<Rightarrow> recent_trade result" where
  "validate_recent_trade x =
     (if \<not> (list_all public_text [rt_venue_trade_id x, rt_venue_order_id x, rt_cash_asset_id x, rt_position_asset_id x] \<and>
            1 \<le> length (rt_balance_evidence_hashes x) \<and>
            length (rt_balance_evidence_hashes x) \<le> MAX_LIVE_EVIDENCE_ITEMS \<and>
            opt_all bounded_decimal (rt_realized_pnl x) \<and> sorted_unique (rt_balance_evidence_hashes x))
      then Inl snapshot_invalid
      else if (rt_realized_pnl x = None) \<noteq> (rt_cost_basis_evidence_hash x = None) then Inl snapshot_invalid
      else Inr x)"

record settlement =
  st_venue_trade_id :: string
  st_venue_order_id :: string
  st_intent_id :: uuid
  st_position_asset_id :: string
  st_state :: venue_trade_state
  st_settlement_hash :: sha256
  st_evidence_hash :: sha256
  st_occurred_at :: timestamp

definition validate_settlement :: "settlement \<Rightarrow> settlement result" where
  "validate_settlement x =
     (if \<not> list_all public_text [st_venue_trade_id x, st_venue_order_id x, st_position_asset_id x]
      then Inl snapshot_invalid else Inr x)"

section \<open>The snapshot\<close>

record account_snapshot =
  va_account_fingerprint :: sha256
  va_cutoff_at :: timestamp
  va_observed_at :: timestamp
  va_opening_cash_balances :: "asset_amount list"
  va_current_cash_balances :: "asset_amount list"
  va_opening_token_positions :: "asset_amount list"
  va_current_token_positions :: "asset_amount list"
  va_opening_allowances :: "allowance list"
  va_current_allowances :: "allowance list"
  va_opening_cumulative_fees :: "asset_amount list"
  va_current_cumulative_fees :: "asset_amount list"
  va_open_orders :: "open_order list"
  va_recent_trades :: "recent_trade list"
  va_settlements :: "settlement list"
  va_opening_cash_source_hash :: sha256
  va_current_cash_source_hash :: sha256
  va_opening_position_source_hash :: sha256
  va_current_position_source_hash :: sha256
  va_opening_allowance_source_hash :: sha256
  va_current_allowance_source_hash :: sha256
  va_opening_fee_source_hash :: sha256
  va_current_fee_source_hash :: sha256
  va_open_orders_source_hash :: sha256
  va_recent_trades_source_hash :: sha256
  va_settlements_source_hash :: sha256
  va_snapshot_fingerprint :: "sha256 option"

definition asset_amount_content :: "asset_amount \<Rightarrow> jval" where
  "asset_amount_content x =
     JObj [(''asset_id'', JText (ao_asset_id x)), (''amount'', JDec (ao_amount x)),
           (''quantum'', JDec (ao_quantum x)), (''evidence_hash'', JHash (ao_evidence_hash x))]"

definition allowance_content :: "allowance \<Rightarrow> jval" where
  "allowance_content x =
     JObj [(''asset_id'', JText (al_asset_id x)), (''spender_address'', JText (al_spender_address x)),
           (''amount'', JDec (al_amount x)), (''quantum'', JDec (al_quantum x)),
           (''evidence_hash'', JHash (al_evidence_hash x))]"

definition open_order_content :: "open_order \<Rightarrow> jval" where
  "open_order_content x =
     JObj [(''venue_order_id'', JText (oo_venue_order_id x)), (''intent_id'', JUuid (oo_intent_id x)),
           (''position_asset_id'', JText (oo_position_asset_id x)),
           (''state'', JText (venue_order_state_value (oo_state x))), (''evidence_hash'', JHash (oo_evidence_hash x))]"

definition recent_trade_content :: "recent_trade \<Rightarrow> jval" where
  "recent_trade_content x =
     JObj [(''venue_trade_id'', JText (rt_venue_trade_id x)), (''venue_order_id'', JText (rt_venue_order_id x)),
           (''intent_id'', JUuid (rt_intent_id x)), (''cash_asset_id'', JText (rt_cash_asset_id x)),
           (''position_asset_id'', JText (rt_position_asset_id x)), (''side'', JText (side_value (rt_side x))),
           (''state'', JText (venue_trade_state_value (rt_state x))),
           (''trade_event_hash'', JHash (rt_trade_event_hash x)), (''settlement_hash'', JHash (rt_settlement_hash x)),
           (''fee_hash'', JHash (rt_fee_hash x)), (''source_hash'', JHash (rt_source_hash x)),
           (''balance_evidence_hashes'', jhashes (rt_balance_evidence_hashes x)),
           (''economics_fingerprint'', JHash (rt_economics_fingerprint x)),
           (''realized_pnl'', jopt JDec (rt_realized_pnl x)),
           (''cost_basis_evidence_hash'', jopt JHash (rt_cost_basis_evidence_hash x)),
           (''occurred_at'', JTime (rt_occurred_at x))]"

definition settlement_content :: "settlement \<Rightarrow> jval" where
  "settlement_content x =
     JObj [(''venue_trade_id'', JText (st_venue_trade_id x)), (''venue_order_id'', JText (st_venue_order_id x)),
           (''intent_id'', JUuid (st_intent_id x)), (''position_asset_id'', JText (st_position_asset_id x)),
           (''state'', JText (venue_trade_state_value (st_state x))),
           (''settlement_hash'', JHash (st_settlement_hash x)), (''evidence_hash'', JHash (st_evidence_hash x)),
           (''occurred_at'', JTime (st_occurred_at x))]"

definition snapshot_fingerprint :: "digests \<Rightarrow> account_snapshot \<Rightarrow> sha256" where
  "snapshot_fingerprint D s = canonical_execution_hash D (JObj
     [(''account_fingerprint'', JHash (va_account_fingerprint s)), (''cutoff_at'', JTime (va_cutoff_at s)),
      (''observed_at'', JTime (va_observed_at s)),
      (''opening_cash_balances'', JList (map asset_amount_content (va_opening_cash_balances s))),
      (''current_cash_balances'', JList (map asset_amount_content (va_current_cash_balances s))),
      (''opening_token_positions'', JList (map asset_amount_content (va_opening_token_positions s))),
      (''current_token_positions'', JList (map asset_amount_content (va_current_token_positions s))),
      (''opening_allowances'', JList (map allowance_content (va_opening_allowances s))),
      (''current_allowances'', JList (map allowance_content (va_current_allowances s))),
      (''opening_cumulative_fees'', JList (map asset_amount_content (va_opening_cumulative_fees s))),
      (''current_cumulative_fees'', JList (map asset_amount_content (va_current_cumulative_fees s))),
      (''open_orders'', JList (map open_order_content (va_open_orders s))),
      (''recent_trades'', JList (map recent_trade_content (va_recent_trades s))),
      (''settlements'', JList (map settlement_content (va_settlements s))),
      (''opening_cash_source_hash'', JHash (va_opening_cash_source_hash s)),
      (''current_cash_source_hash'', JHash (va_current_cash_source_hash s)),
      (''opening_position_source_hash'', JHash (va_opening_position_source_hash s)),
      (''current_position_source_hash'', JHash (va_current_position_source_hash s)),
      (''opening_allowance_source_hash'', JHash (va_opening_allowance_source_hash s)),
      (''current_allowance_source_hash'', JHash (va_current_allowance_source_hash s)),
      (''opening_fee_source_hash'', JHash (va_opening_fee_source_hash s)),
      (''current_fee_source_hash'', JHash (va_current_fee_source_hash s)),
      (''open_orders_source_hash'', JHash (va_open_orders_source_hash s)),
      (''recent_trades_source_hash'', JHash (va_recent_trades_source_hash s)),
      (''settlements_source_hash'', JHash (va_settlements_source_hash s))])"

text \<open>
  \<open>_closed_snapshot\<close>: the cuts are ordered, every family is sorted by its identity without duplicates,
  the two cuts of a balance family hold the same assets at the same quanta, and every order, trade and
  settlement names assets whose balances are observed.
\<close>

definition same_holdings :: "('a \<Rightarrow> 'k) \<Rightarrow> ('a \<Rightarrow> dec) \<Rightarrow> 'a list \<Rightarrow> 'a list \<Rightarrow> bool" where
  "same_holdings identity quantum opening current \<longleftrightarrow>
     set (map identity opening) = set (map identity current) \<and>
     list_all (\<lambda>x. list_all (\<lambda>y. identity y = identity x \<longrightarrow> deq (quantum x) (quantum y)) current) opening"

definition allowance_identity :: "allowance \<Rightarrow> string \<times> string" where
  "allowance_identity x = (al_asset_id x, al_spender_address x)"

definition snapshot_size :: "account_snapshot \<Rightarrow> nat" where
  "snapshot_size s =
     length (va_opening_cash_balances s) + length (va_current_cash_balances s) +
     length (va_opening_token_positions s) + length (va_current_token_positions s) +
     length (va_opening_allowances s) + length (va_current_allowances s) +
     length (va_opening_cumulative_fees s) + length (va_current_cumulative_fees s) +
     length (va_open_orders s) + length (va_recent_trades s) + length (va_settlements s)"

definition closed_snapshot :: "account_snapshot \<Rightarrow> bool" where
  "closed_snapshot s \<longleftrightarrow>
     (let position_assets = set (map ao_asset_id (va_current_token_positions s));
          cash_assets = set (map ao_asset_id (va_current_cash_balances s));
          fee_assets = set (map ao_asset_id (va_current_cumulative_fees s)) in
      \<not> (va_observed_at s \<le> va_cutoff_at s \<or> MAX_LIVE_EVIDENCE_ITEMS < snapshot_size s) \<and>
      list_all sorted_unique
        [map ao_asset_id (va_opening_cash_balances s), map ao_asset_id (va_current_cash_balances s),
         map ao_asset_id (va_opening_token_positions s), map ao_asset_id (va_current_token_positions s),
         map ao_asset_id (va_opening_cumulative_fees s), map ao_asset_id (va_current_cumulative_fees s),
         map oo_venue_order_id (va_open_orders s), map rt_venue_trade_id (va_recent_trades s),
         map st_venue_trade_id (va_settlements s)] \<and>
      sorted_unique (map allowance_identity (va_opening_allowances s)) \<and>
      sorted_unique (map allowance_identity (va_current_allowances s)) \<and>
      same_holdings ao_asset_id ao_quantum (va_opening_cash_balances s) (va_current_cash_balances s) \<and>
      same_holdings ao_asset_id ao_quantum (va_opening_token_positions s) (va_current_token_positions s) \<and>
      same_holdings allowance_identity al_quantum (va_opening_allowances s) (va_current_allowances s) \<and>
      same_holdings ao_asset_id ao_quantum (va_opening_cumulative_fees s) (va_current_cumulative_fees s) \<and>
      \<not> list_ex (\<lambda>x. oo_position_asset_id x \<notin> position_assets) (va_open_orders s) \<and>
      \<not> list_ex (\<lambda>x. rt_position_asset_id x \<notin> position_assets \<or> rt_cash_asset_id x \<notin> cash_assets \<or>
            rt_cash_asset_id x \<notin> fee_assets \<or> va_observed_at s < rt_occurred_at x) (va_recent_trades s) \<and>
      \<not> list_ex (\<lambda>x. st_position_asset_id x \<notin> position_assets \<or> va_observed_at s < st_occurred_at x) (va_settlements s))"

definition validate_account_snapshot :: "digests \<Rightarrow> account_snapshot \<Rightarrow> account_snapshot result" where
  "validate_account_snapshot D s =
     bindE (mapE validate_asset_amount
       (va_opening_cash_balances s @ va_current_cash_balances s @ va_opening_token_positions s @
        va_current_token_positions s @ va_opening_cumulative_fees s @ va_current_cumulative_fees s)) (\<lambda>_.
     bindE (mapE validate_allowance (va_opening_allowances s @ va_current_allowances s)) (\<lambda>_.
     bindE (mapE validate_open_order (va_open_orders s)) (\<lambda>_.
     bindE (mapE validate_recent_trade (va_recent_trades s)) (\<lambda>_.
     bindE (mapE validate_settlement (va_settlements s)) (\<lambda>_.
     if \<not> closed_snapshot s then Inl snapshot_invalid
     else case va_snapshot_fingerprint s of
       None \<Rightarrow> Inr (s\<lparr>va_snapshot_fingerprint := Some (snapshot_fingerprint D s)\<rparr>)
     | Some fingerprint \<Rightarrow>
         if fingerprint \<noteq> snapshot_fingerprint D s then Inl snapshot_invalid else Inr s)))))"

definition snapshot_input :: "digests \<Rightarrow> account_snapshot \<Rightarrow> account_snapshot result" where
  "snapshot_input D s = except_as (validate_account_snapshot D s) (LiveReconciliationError ''SNAPSHOT_INVALID'')"

section \<open>The evidence a snapshot cites\<close>

definition option_list :: "'a option \<Rightarrow> 'a list" where
  "option_list v = (case v of None \<Rightarrow> [] | Some x \<Rightarrow> [x])"

definition cited_evidence :: "account_snapshot \<Rightarrow> sha256 list" where
  "cited_evidence s = py_sorted_set
     (option_list (va_snapshot_fingerprint s) @
      [va_open_orders_source_hash s, va_recent_trades_source_hash s, va_settlements_source_hash s] @
      map oo_evidence_hash (va_open_orders s) @
      concat (map (\<lambda>x. [rt_settlement_hash x, rt_fee_hash x, rt_source_hash x, rt_economics_fingerprint x] @
                  option_list (rt_cost_basis_evidence_hash x)) (va_recent_trades s)) @
      concat (map (\<lambda>x. [st_settlement_hash x, st_evidence_hash x]) (va_settlements s)))"

definition cited_balances :: "account_snapshot \<Rightarrow> sha256 list" where
  "cited_balances s = py_sorted_set
     ([va_opening_cash_source_hash s, va_current_cash_source_hash s, va_opening_position_source_hash s,
       va_current_position_source_hash s, va_opening_fee_source_hash s, va_current_fee_source_hash s] @
      map ao_evidence_hash (va_opening_cash_balances s @ va_current_cash_balances s @ va_opening_token_positions s @
        va_current_token_positions s @ va_opening_cumulative_fees s @ va_current_cumulative_fees s) @
      concat (map rt_balance_evidence_hashes (va_recent_trades s)))"

definition cited_allowances :: "account_snapshot \<Rightarrow> sha256 list" where
  "cited_allowances s = py_sorted_set
     ([va_opening_allowance_source_hash s, va_current_allowance_source_hash s] @
      map al_evidence_hash (va_opening_allowances s @ va_current_allowances s))"

section \<open>Changes\<close>

definition base_account :: "string \<Rightarrow> string" where
  "base_account acct = fst (py_partition (CHR '':'') acct)"

definition posting_net_step :: "string \<Rightarrow> (string, dec) dict \<Rightarrow> live_ledger_posting \<Rightarrow> (string, dec) dict result" where
  "posting_net_step base totals p =
     (let asset = lp_asset_id p in
      bindE (if base_account (lp_debit_account p) = base
             then bindE (exact_add (dict_total totals asset) (lp_debit_amount p)) (\<lambda>v. Inr (AList.update asset v totals))
             else Inr totals) (\<lambda>totals.
      if base_account (lp_credit_account p) = base
      then bindE (exact_difference (dict_total totals asset) (lp_credit_amount p)) (\<lambda>v. Inr (AList.update asset v totals))
      else Inr totals))"

definition posting_nets :: "live_ledger_posting list \<Rightarrow> string \<Rightarrow> (string, dec) dict result" where
  "posting_nets postings base =
     except_as (foldE (posting_net_step base) [] postings) (LiveLedgerError ''POSTING_AMOUNT_INVALID'')"

definition observed_deltas :: "asset_amount list \<Rightarrow> asset_amount list \<Rightarrow> (string, dec) dict result" where
  "observed_deltas opening current =
     (let opening_values = map (\<lambda>x. (ao_asset_id x, ao_amount x)) opening in
      mapE (\<lambda>x. bindE (dict_item opening_values (ao_asset_id x)) (\<lambda>start.
                 bindE (except_as (exact_difference (ao_amount x) start) (LiveReconciliationError ''SNAPSHOT_INVALID''))
                   (\<lambda>v. Inr (ao_asset_id x, v)))) current)"

text \<open>The differences of one label, for the assets of either side in order.\<close>

definition delta_differences :: "string \<Rightarrow> (string, dec) dict \<Rightarrow> (string, dec) dict \<Rightarrow> string list" where
  "delta_differences label observed expected =
     map (\<lambda>asset. label @ ''_DELTA_MISMATCH:'' @ asset)
       (filter (\<lambda>asset. \<not> deq (dict_total observed asset) (dict_total expected asset))
         (py_sorted_set (map fst observed @ map fst expected)))"

end
