(* ===== verification/Live_Reconciliation.thy ===== *)
theory Live_Reconciliation
  imports Live_Account
begin

text \<open>
  Live reconciliation (\<open>predictions/execution/reconciliation.py\<close>): the postings of the live ledger are
  claimed against an independent account snapshot, difference by difference, and the realized profit is
  published only when the whole reconciliation can be reconstructed.  A set of difference texts is the list
  of its insertions; it is sorted without duplicates when the result is built.
\<close>

section \<open>Results\<close>

text \<open>\<open>try: m  except LiveLedgerError as e: ...\<close>; another exception passes through.\<close>

definition try_ledger :: "'a result \<Rightarrow> (string \<Rightarrow> 'b result) \<Rightarrow> ('a \<Rightarrow> 'b result) \<Rightarrow> 'b result" where
  "try_ledger m handler body =
     (case m of Inr x \<Rightarrow> body x
      | Inl e \<Rightarrow> (case e of LiveLedgerError code \<Rightarrow> handler code | _ \<Rightarrow> Inl e))"

fun pairwise_disjoint :: "sha256 set \<Rightarrow> sha256 list list \<Rightarrow> bool" where
  "pairwise_disjoint observed [] = True"
| "pairwise_disjoint observed (family # families) =
     (observed \<inter> set family = {} \<and> pairwise_disjoint (observed \<union> set family) families)"

definition reconciliation_result ::
  "digests \<Rightarrow> account_snapshot \<Rightarrow> live_ledger_posting list \<Rightarrow> string list \<Rightarrow> sha256 list \<Rightarrow> sha256 list \<Rightarrow>
     live_reconciliation result" where
  "reconciliation_result D snapshot postings differences order_event_hashes trade_event_hashes =
     (let differences = differences @
            (if \<not> pairwise_disjoint {} [order_event_hashes, trade_event_hashes, cited_evidence snapshot,
                  cited_balances snapshot, cited_allowances snapshot]
             then [''HASH_FAMILY_OVERLAP''] else []);
          draft = \<lparr>lr_lineage_hashes = option_list (va_snapshot_fingerprint snapshot),
            lr_reconciliation_id = Uuid 0, lr_account_fingerprint = va_account_fingerprint snapshot,
            lr_observed_at = va_observed_at snapshot, lr_complete = (differences = []),
            lr_differences = py_sorted_set differences, lr_evidence_hashes = cited_evidence snapshot,
            lr_next_action = (if differences = [] then None else Some ''HALT_AND_RECONCILE''),
            lr_venue_order_hashes = py_sorted_set order_event_hashes,
            lr_venue_trade_hashes = py_sorted_set trade_event_hashes,
            lr_balance_hashes = cited_balances snapshot, lr_allowance_hashes = cited_allowances snapshot,
            lr_expected_posting_ids = sort (map lp_posting_id postings)\<rparr>
      in validate_reconciliation (draft\<lparr>lr_reconciliation_id := canonical_live_reconciliation_id D draft\<rparr>))"

section \<open>Orders and trades\<close>

definition order_history_explained ::
  "execution_intent list \<Rightarrow> account_snapshot \<Rightarrow> classified_order_history \<Rightarrow> bool" where
  "order_history_explained intents snapshot history =
     (case Option.bind (oh_intent_id history) (map_of (index_by ei_intent_id intents)) of
        None \<Rightarrow> False
      | Some intent \<Rightarrow> \<not> (ei_account_fingerprint intent \<noteq> va_account_fingerprint snapshot \<or>
          oh_protocol_version history \<noteq> ei_protocol_version intent \<or>
          list_ex (\<lambda>event. oe_received_at event < ei_created_at intent) (oh_ordered_events history)))"

definition snapshot_order_history ::
  "digests \<Rightarrow> venue_order_event list \<Rightarrow> execution_intent list \<Rightarrow> account_snapshot \<Rightarrow> (sha256 list \<times> bool) result" where
  "snapshot_order_history D order_history intents snapshot =
     try_ledger (classify_order_histories D order_history (Aware (va_observed_at snapshot) 0)) (\<lambda>_. Inr ([], False))
       (\<lambda>histories. if list_all (order_history_explained intents snapshot) histories
          then Inr (sort (concat (map oh_raw_event_hashes histories)), True) else Inr ([], False))"

definition nonzero_assets :: "(string, dec) dict \<Rightarrow> string list" where
  "nonzero_assets nets = map fst (filter (\<lambda>(_, amount). \<not> deq amount dec0) nets)"

definition expected_side :: "(string, dec) dict \<Rightarrow> side option" where
  "expected_side nets =
     (case nonzero_assets nets of
        [asset] \<Rightarrow> Some (if dlt dec0 (dict_total nets asset) then Buy else Sell) | _ \<Rightarrow> None)"

text \<open>
  The evidence of one observed trade agrees with its economics, its confirmed event and its rows.  The
  states of the economics are the literal \<open>CONFIRMED\<close> and left out.
\<close>

definition trade_evidence_agrees ::
  "account_snapshot \<Rightarrow> live_ledger_posting list \<Rightarrow> (string, dec) dict \<Rightarrow> (string, dec) dict \<Rightarrow> recent_trade \<Rightarrow>
     trade_economics \<Rightarrow> venue_trade_event \<Rightarrow> bool" where
  "trade_evidence_agrees observed rows cash_nets position_nets trade exact event =
     (let first = hd rows in
      rt_state trade = CONFIRMED \<and> te_normalized_state event = CONFIRMED \<and> te_terminal event \<and>
      rt_venue_trade_id trade = au_venue_trade_id exact \<and> rt_venue_trade_id trade = te_venue_trade_id event \<and>
      rt_intent_id trade = au_intent_id exact \<and> Some (rt_intent_id trade) = te_intent_id event \<and>
      Some (rt_intent_id trade) = lp_intent_id first \<and>
      rt_venue_order_id trade = au_venue_order_id exact \<and> Some (rt_venue_order_id trade) = te_venue_order_id event \<and>
      Some (rt_venue_order_id trade) = lp_venue_order_id first \<and>
      rt_trade_event_hash trade = au_trade_event_hash exact \<and> rt_trade_event_hash trade = te_raw_event_hash event \<and>
      rt_source_hash trade = au_source_hash exact \<and>
      rt_settlement_hash trade = au_settlement_hash exact \<and> Some (rt_settlement_hash trade) = lp_settlement_hash first \<and>
      rt_fee_hash trade = au_fee_hash exact \<and> Some (rt_fee_hash trade) = lp_fee_hash first \<and>
      rt_balance_evidence_hashes trade = au_balance_evidence_hashes exact \<and>
      rt_balance_evidence_hashes trade = lp_balance_evidence_hashes first \<and>
      Some (rt_economics_fingerprint trade) = au_economics_fingerprint exact \<and>
      rel_option deq (rt_realized_pnl trade) (au_realized_pnl exact) \<and>
      rt_cost_basis_evidence_hash trade = au_cost_basis_evidence_hash exact \<and>
      au_account_fingerprint exact = va_account_fingerprint observed \<and>
      au_account_fingerprint exact = lp_account_fingerprint first \<and>
      rt_cash_asset_id trade = au_cash_asset_id exact \<and> rt_position_asset_id trade = au_position_asset_id exact \<and>
      rt_side trade = au_side exact \<and>
      rt_occurred_at trade = au_occurred_at exact \<and> rt_occurred_at trade = lp_occurred_at first \<and>
      opt_all (\<lambda>t. t = rt_occurred_at trade) (te_venue_timestamp event) \<and>
      {rt_cash_asset_id trade} = set (nonzero_assets cash_nets) \<and>
      {rt_position_asset_id trade} = set (nonzero_assets position_nets) \<and>
      Some (rt_side trade) = expected_side position_nets \<and>
      list_all (\<lambda>row. {rt_trade_event_hash trade, rt_source_hash trade, rt_economics_fingerprint trade} \<subseteq>
        set (lp_lineage_hashes row)) rows)"

definition settlement_agrees ::
  "live_ledger_posting list \<Rightarrow> (string, dec) dict \<Rightarrow> trade_economics \<Rightarrow> settlement \<Rightarrow> bool" where
  "settlement_agrees rows position_nets exact s =
     (let first = hd rows in
      st_intent_id s = au_intent_id exact \<and> Some (st_intent_id s) = lp_intent_id first \<and>
      st_venue_order_id s = au_venue_order_id exact \<and> Some (st_venue_order_id s) = lp_venue_order_id first \<and>
      st_settlement_hash s = au_settlement_hash exact \<and> Some (st_settlement_hash s) = lp_settlement_hash first \<and>
      st_occurred_at s = au_occurred_at exact \<and> st_occurred_at s = lp_occurred_at first \<and>
      st_position_asset_id s = au_position_asset_id exact \<and>
      {st_position_asset_id s} = set (nonzero_assets position_nets))"

definition pnl_row :: "live_ledger_posting \<Rightarrow> bool" where
  "pnl_row row = (base_account (lp_debit_account row) = ''realized_pnl'' \<or>
                  base_account (lp_credit_account row) = ''realized_pnl'')"

text \<open>The differences of one posted trade against the observed trade and settlement.\<close>

definition posted_trade_differences ::
  "account_snapshot \<Rightarrow> live_ledger_posting list \<Rightarrow> (string, trade_economics) dict \<Rightarrow> (string, venue_trade_event) dict \<Rightarrow>
     string \<Rightarrow> string list result" where
  "posted_trade_differences observed all_rows economics_by_trade confirmed trade_id =
     (let rows = filter (\<lambda>row. lp_venue_trade_id row = Some trade_id) all_rows;
          trade = map_of (index_by rt_venue_trade_id (va_recent_trades observed)) trade_id;
          settled = map_of (index_by st_venue_trade_id (va_settlements observed)) trade_id;
          exact = map_of economics_by_trade trade_id;
          pnl_rows = filter pnl_row rows in
      bindE (posting_nets rows ''venue_cash'') (\<lambda>cash_nets.
      bindE (posting_nets rows ''venue_position'') (\<lambda>position_nets.
      Inr
       ((case trade of
           None \<Rightarrow> [''TRADE_MISSING:'' @ trade_id]
         | Some t \<Rightarrow>
             if (case (exact, map_of confirmed trade_id) of
                   (Some e, Some event) \<Rightarrow> trade_evidence_agrees observed rows cash_nets position_nets t e event
                 | _ \<Rightarrow> False)
             then [] else [''TRADE_EVIDENCE_MISMATCH:'' @ trade_id]) @
        (case settled of
           None \<Rightarrow> [''SETTLEMENT_MISSING:'' @ trade_id]
         | Some s \<Rightarrow>
             if st_state s \<noteq> CONFIRMED then [''SETTLEMENT_STATE_MISMATCH:'' @ trade_id]
             else if (case exact of Some e \<Rightarrow> settlement_agrees rows position_nets e s | None \<Rightarrow> False)
             then [] else [''SETTLEMENT_EVIDENCE_MISMATCH:'' @ trade_id]) @
        (if pnl_rows \<noteq> [] \<and>
            (case Option.bind trade rt_cost_basis_evidence_hash of
               None \<Rightarrow> True
             | Some h \<Rightarrow> list_ex (\<lambda>row. h \<notin> set (lp_lineage_hashes row)) pnl_rows)
         then [''PNL_COST_BASIS_MISSING:'' @ trade_id] else [])))))"

text \<open>The placement of a posted trade's rows and economics in the snapshot's window, and their evidence.\<close>

definition window_differences ::
  "account_snapshot \<Rightarrow> live_ledger_posting list \<Rightarrow> (string, trade_economics) dict \<Rightarrow> sha256 set \<Rightarrow> string \<Rightarrow> string list" where
  "window_differences observed all_rows economics_by_trade snapshot_evidence trade_id =
     (let rows = filter (\<lambda>row. lp_venue_trade_id row = Some trade_id) all_rows in
      (if list_ex (\<lambda>row. \<not> (va_cutoff_at observed < lp_occurred_at row \<and> lp_occurred_at row \<le> va_observed_at observed)) rows
       then [''POSTING_OUTSIDE_SNAPSHOT:'' @ trade_id] else []) @
      (if \<not> (case map_of economics_by_trade trade_id of
               None \<Rightarrow> False
             | Some e \<Rightarrow> va_cutoff_at observed < au_occurred_at e \<and> au_occurred_at e \<le> au_information_cutoff e \<and>
                 au_information_cutoff e \<le> va_observed_at observed)
       then [''ECONOMICS_OUTSIDE_SNAPSHOT:'' @ trade_id] else []) @
      (if list_ex (\<lambda>row. \<not> set (lp_lineage_hashes row) \<subseteq> snapshot_evidence) rows
       then [''POSTING_EVIDENCE_MISSING:'' @ trade_id] else []))"

definition allowance_differences :: "account_snapshot \<Rightarrow> string list result" where
  "allowance_differences observed =
     (let opening = index_by allowance_identity (va_opening_allowances observed) in
      bindE (mapE (\<lambda>x. bindE (dict_item opening (allowance_identity x)) (\<lambda>start.
               Inr (if \<not> deq (al_amount x) (al_amount start)
                    then [''ALLOWANCE_DELTA_UNEXPLAINED:'' @ al_asset_id x] else []))) (va_current_allowances observed))
        (\<lambda>differences. Inr (concat differences)))"

definition unresolved_differences :: "classified_trade_history list \<Rightarrow> string list" where
  "unresolved_differences histories =
     concat (map (\<lambda>history.
       if th_failed_terminal history \<noteq> None then [''SETTLEMENT_FAILED:'' @ th_venue_trade_id history]
       else if th_confirmed_terminal history = None then [''TRADE_UNRESOLVED:'' @ th_venue_trade_id history]
       else []) histories)"

text \<open>All differences of verified rows: what the source collects after its three \<open>try\<close> blocks.\<close>

definition row_differences ::
  "account_snapshot \<Rightarrow> live_ledger_posting list \<Rightarrow> classified_trade_history list \<Rightarrow> trade_economics list \<Rightarrow>
     sha256 list \<Rightarrow> sha256 list \<Rightarrow> string list result" where
  "row_differences observed rows trade_histories economics order_event_hashes trade_event_hashes =
     (let snapshot_evidence = set (cited_evidence observed) \<union> set (cited_balances observed) \<union>
            set (cited_allowances observed) \<union> set order_event_hashes \<union> set trade_event_hashes;
          confirmed = confirmed_by_trade trade_histories;
          economics_by_trade = index_by au_venue_trade_id economics;
          expected_trade_ids = py_sorted_set (List.map_filter lp_venue_trade_id rows);
          account_differences =
            (if list_ex (\<lambda>row. lp_account_fingerprint row \<noteq> va_account_fingerprint observed) rows
             then [''POSTING_ACCOUNT_MISMATCH''] else []);
          windows = concat (map (window_differences observed rows economics_by_trade snapshot_evidence) expected_trade_ids) in
      bindE (observed_deltas (va_opening_cash_balances observed) (va_current_cash_balances observed)) (\<lambda>cash.
      bindE (posting_nets rows ''venue_cash'') (\<lambda>posted_cash.
      bindE (observed_deltas (va_opening_token_positions observed) (va_current_token_positions observed)) (\<lambda>positions.
      bindE (posting_nets rows ''venue_position'') (\<lambda>posted_positions.
      bindE (observed_deltas (va_opening_cumulative_fees observed) (va_current_cumulative_fees observed)) (\<lambda>fees.
      bindE (posting_nets rows ''fees_paid'') (\<lambda>posted_fees.
      bindE (allowance_differences observed) (\<lambda>allowances.
      bindE (mapE (posted_trade_differences observed rows economics_by_trade confirmed) expected_trade_ids) (\<lambda>trades.
      Inr (account_differences @ windows @
        delta_differences ''CASH'' cash posted_cash @
        delta_differences ''POSITION'' positions posted_positions @
        delta_differences ''FEE'' fees posted_fees @ allowances @
        map (\<lambda>x. ''OPEN_ORDER_UNEXPLAINED:'' @ oo_venue_order_id x) (va_open_orders observed) @
        unresolved_differences trade_histories @ concat trades @
        map (\<lambda>i. ''TRADE_UNEXPLAINED:'' @ i) (filter (\<lambda>i. i \<notin> set expected_trade_ids)
          (map rt_venue_trade_id (va_recent_trades observed))) @
        map (\<lambda>i. ''SETTLEMENT_UNEXPLAINED:'' @ i) (filter (\<lambda>i. i \<notin> set expected_trade_ids)
          (map st_venue_trade_id (va_settlements observed)))))))))))))"

definition snapshot_postings ::
  "digests \<Rightarrow> live_ledger_posting list \<Rightarrow> execution_intent list \<Rightarrow> venue_trade_event list \<Rightarrow> trade_economics list \<Rightarrow>
     live_ledger_posting list result" where
  "snapshot_postings D postings intents trades economics =
     bindE (snapshot_sequence validate_posting ''POSTING_INVALID'' postings) (\<lambda>rows.
     bindE (verify_live_conservation D rows intents trades economics) (\<lambda>_. Inr rows))"

text \<open>The postings are verified against the evidence and compared with the snapshot.\<close>

definition close_postings ::
  "digests \<Rightarrow> account_snapshot \<Rightarrow> live_ledger_posting list \<Rightarrow> execution_intent list \<Rightarrow> venue_trade_event list \<Rightarrow>
     trade_economics list \<Rightarrow> sha256 list \<Rightarrow> string list \<Rightarrow> classified_trade_history list \<Rightarrow> live_reconciliation result" where
  "close_postings D observed postings intents trades economics order_event_hashes order_differences trade_histories =
     (let trade_event_hashes = sort (concat (map th_raw_event_hashes trade_histories)) in
      try_ledger (snapshot_postings D postings intents trades economics)
       (\<lambda>code. bindE (try_ledger (postings_for_confirmed_trades D intents trades economics) (\<lambda>_. Inr []) Inr)
          (\<lambda>canonical_rows.
          reconciliation_result D observed canonical_rows
            ((if code = ''POSTING_TOPOLOGY_MISMATCH'' then ''POSTING_TOPOLOGY_MISMATCH'' else ''POSTINGS_INVALID'') # order_differences)
            order_event_hashes trade_event_hashes))
       (\<lambda>rows.
          bindE (row_differences observed rows trade_histories economics order_event_hashes trade_event_hashes) (\<lambda>differences.
          reconciliation_result D observed rows (order_differences @ differences) order_event_hashes trade_event_hashes)))"

text \<open>The order and trade events are classified; contradictory histories end the reconciliation.\<close>

definition reconcile_evidence ::
  "digests \<Rightarrow> account_snapshot \<Rightarrow> live_ledger_posting list \<Rightarrow> execution_intent list \<Rightarrow> venue_trade_event list \<Rightarrow>
     trade_economics list \<Rightarrow> venue_order_event list \<Rightarrow> live_reconciliation result" where
  "reconcile_evidence D observed postings intents trades economics order_history =
     bindE (snapshot_order_history D order_history intents observed) (\<lambda>(order_event_hashes, order_history_valid).
     let order_differences = (if order_history_valid then [] else [''ORDER_HISTORY_INVALID'']) in
     try_ledger (classify_trade_histories D trades)
       (\<lambda>code. bindE (try_ledger (snapshot_sequence validate_trade_event ''TRADE_EVENT_INVALID'' trades) (\<lambda>_. Inr [])
                  (\<lambda>events. Inr (sort (map te_raw_event_hash events)))) (\<lambda>trade_event_hashes.
          reconciliation_result D observed []
            ((if code = ''TRADE_EVENT_CONFLICT'' then ''TRADE_HISTORY_CONTRADICTION'' else ''POSTINGS_INVALID'') # order_differences)
            order_event_hashes trade_event_hashes))
       (close_postings D observed postings intents trades economics order_event_hashes order_differences))"

definition reconcile_live_account ::
  "digests \<Rightarrow> live_ledger_posting list \<Rightarrow> account_snapshot \<Rightarrow> execution_intent list \<Rightarrow> venue_trade_event list \<Rightarrow>
     trade_economics list \<Rightarrow> venue_order_event list \<Rightarrow> live_reconciliation result" where
  "reconcile_live_account D postings snapshot intents trades economics order_history =
     bindE (snapshot_input D snapshot) (\<lambda>observed.
     try_ledger
       (bindE (snapshot_sequence validate_posting ''POSTING_INVALID'' postings) (\<lambda>posting_values.
        bindE (snapshot_sequence (validate_intent D) ''INTENT_EVIDENCE_INVALID'' intents) (\<lambda>intent_values.
        bindE (snapshot_sequence validate_trade_event ''TRADE_EVENT_INVALID'' trades) (\<lambda>trade_values.
        bindE (snapshot_sequence (validate_economics D) ''ECONOMICS_EVIDENCE_INVALID'' economics) (\<lambda>economics_values.
        Inr (posting_values, intent_values, trade_values, economics_values))))))
       (\<lambda>_. reconciliation_result D observed [] [''POSTINGS_INVALID''] [] [])
       (\<lambda>(posting_values, intent_values, trade_values, economics_values).
          reconcile_evidence D observed posting_values intent_values trade_values economics_values order_history))"

section \<open>Published profit\<close>

text \<open>The exceptions \<open>reconciled_live_pnl\<close> answers with \<open>None\<close>: every \<open>ValueError\<close> and \<open>TypeError\<close>.\<close>

fun value_or_type_error :: "py_error \<Rightarrow> bool" where
  "value_or_type_error (ValueError _) = True"
| "value_or_type_error (TypeError _) = True"
| "value_or_type_error (LiveLedgerError _) = True"
| "value_or_type_error (LiveReconciliationError _) = True"
| "value_or_type_error ExactArithmeticError = True"
| "value_or_type_error (PilotPolicyError _) = True"
| "value_or_type_error (PilotSelectionError _) = True"
| "value_or_type_error (PilotExecutionError _) = True"
| "value_or_type_error (CapabilityIssueError _) = True"
| "value_or_type_error (OrderAmountError _) = True"
| "value_or_type_error (OrderSigningError _) = True"
| "value_or_type_error _ = False"

definition pnl_step :: "dec \<Rightarrow> live_ledger_posting \<Rightarrow> dec result" where
  "pnl_step pnl row =
     bindE (if base_account (lp_credit_account row) = ''realized_pnl'' then exact_add pnl (lp_credit_amount row) else Inr pnl)
       (\<lambda>pnl. if base_account (lp_debit_account row) = ''realized_pnl'' then exact_difference pnl (lp_debit_amount row) else Inr pnl)"

definition publishable :: "digests \<Rightarrow> live_reconciliation \<Rightarrow> live_reconciliation \<Rightarrow> live_ledger_posting list \<Rightarrow> bool" where
  "publishable D claimed reconstructed rows =
     (let closed_hashes = set (lr_evidence_hashes claimed) \<union> set (lr_venue_order_hashes claimed) \<union>
            set (lr_venue_trade_hashes claimed) \<union> set (lr_balance_hashes claimed) \<union> set (lr_allowance_hashes claimed) in
      \<not> (claimed \<noteq> reconstructed \<or> \<not> lr_complete claimed \<or> lr_differences claimed \<noteq> [] \<or> lr_next_action claimed \<noteq> None \<or>
         lr_reconciliation_id claimed \<noteq> canonical_live_reconciliation_id D claimed \<or>
         lr_expected_posting_ids claimed \<noteq> sort (map lp_posting_id rows) \<or>
         list_ex (\<lambda>row. lp_account_fingerprint row \<noteq> lr_account_fingerprint claimed) rows \<or>
         list_ex (\<lambda>row. \<not> set (lp_lineage_hashes row) \<subseteq> closed_hashes) rows))"

definition published_pnl :: "live_ledger_posting list \<Rightarrow> dec option" where
  "published_pnl rows =
     (let pnl_rows = filter pnl_row rows in
      if pnl_rows = [] \<or> length (py_set (map lp_asset_id pnl_rows)) \<noteq> 1 then None
      else case foldE pnl_step dec0 pnl_rows of Inl _ \<Rightarrow> None | Inr pnl \<Rightarrow> Some pnl)"

definition reconciled_live_pnl ::
  "digests \<Rightarrow> live_ledger_posting list \<Rightarrow> live_reconciliation option \<Rightarrow> account_snapshot \<Rightarrow> execution_intent list \<Rightarrow>
     venue_trade_event list \<Rightarrow> trade_economics list \<Rightarrow> venue_order_event list \<Rightarrow> dec option result" where
  "reconciled_live_pnl D postings reconciliation snapshot intents trades economics order_history =
     (case reconciliation of None \<Rightarrow> Inr None | Some supplied \<Rightarrow>
      (case
        bindE (validate_reconciliation supplied) (\<lambda>claimed.
        bindE (snapshot_sequence validate_posting ''POSTING_INVALID'' postings) (\<lambda>posting_values.
        bindE (snapshot_sequence (validate_intent D) ''INTENT_EVIDENCE_INVALID'' intents) (\<lambda>intent_values.
        bindE (snapshot_sequence validate_trade_event ''TRADE_EVENT_INVALID'' trades) (\<lambda>trade_values.
        bindE (snapshot_sequence (validate_economics D) ''ECONOMICS_EVIDENCE_INVALID'' economics) (\<lambda>economics_values.
        bindE (snapshot_sequence validate_order_event ''ORDER_EVENT_INVALID'' order_history) (\<lambda>order_values.
        bindE (snapshot_postings D posting_values intent_values trade_values economics_values) (\<lambda>rows.
        bindE (reconcile_live_account D rows snapshot intent_values trade_values economics_values order_values) (\<lambda>reconstructed.
        Inr (claimed, rows, reconstructed))))))))) of
         Inl e \<Rightarrow> if value_or_type_error e then Inr None else Inl e
       | Inr (claimed, rows, reconstructed) \<Rightarrow>
           Inr (if publishable D claimed reconstructed rows then published_pnl rows else None)))"

end
