(* ===== verification/Live_Closing.thy ===== *)
theory Live_Closing
  imports Live_Reconciliation
begin

text \<open>
  What a complete live reconciliation means: the balances, positions and fees observed at the two cuts
  differ by exactly what the authoritative trades moved, nothing else is open or unexplained, and the
  profit that may be published is the exact profit of those trades.
\<close>

section \<open>Nets of postings\<close>

definition net_effect :: "string \<Rightarrow> string \<Rightarrow> live_ledger_posting \<Rightarrow> rat" where
  "net_effect base a p =
     (if base_account (lp_debit_account p) = base \<and> lp_asset_id p = a then dval (lp_debit_amount p) else 0) -
     (if base_account (lp_credit_account p) = base \<and> lp_asset_id p = a then dval (lp_credit_amount p) else 0)"

definition net_total :: "string \<Rightarrow> string \<Rightarrow> live_ledger_posting list \<Rightarrow> rat" where
  "net_total base a ps = sum_list (map (net_effect base a) ps)"

lemma exact_add_Inr: "exact_add a b = Inr c \<Longrightarrow> dval c = dval a + dval b"
  using exact_add_cases [of a b] by simp

lemma exact_difference_Inr: "exact_difference a b = Inr c \<Longrightarrow> dval c = dval a - dval b"
  using exact_difference_cases [of a b] by simp

lemma posting_net_step_Inr:
  assumes "posting_net_step base totals p = Inr totals'"
  shows "dval (dict_total totals' a) = dval (dict_total totals a) + net_effect base a p"
proof -
  obtain middle where m: "(if base_account (lp_debit_account p) = base
       then bindE (exact_add (dict_total totals (lp_asset_id p)) (lp_debit_amount p))
              (\<lambda>v. Inr (AList.update (lp_asset_id p) v totals)) else Inr totals) = Inr middle"
    and t: "(if base_account (lp_credit_account p) = base
       then bindE (exact_difference (dict_total middle (lp_asset_id p)) (lp_credit_amount p))
              (\<lambda>v. Inr (AList.update (lp_asset_id p) v middle)) else Inr middle) = Inr totals'"
    using assms unfolding posting_net_step_def Let_def bindE_eq_Inr by blast
  have "dval (dict_total middle a) = dval (dict_total totals a) +
      (if base_account (lp_debit_account p) = base \<and> lp_asset_id p = a then dval (lp_debit_amount p) else 0)"
    using m by (auto simp: bindE_eq_Inr dict_total_update exact_add_Inr split: if_splits)
  moreover have "dval (dict_total totals' a) = dval (dict_total middle a) -
      (if base_account (lp_credit_account p) = base \<and> lp_asset_id p = a then dval (lp_credit_amount p) else 0)"
    using t by (auto simp: bindE_eq_Inr dict_total_update exact_difference_Inr split: if_splits)
  ultimately show ?thesis by (simp add: net_effect_def)
qed

lemma posting_nets_fold:
  "foldE (posting_net_step base) totals ps = Inr nets \<Longrightarrow>
     dval (dict_total nets a) = dval (dict_total totals a) + net_total base a ps"
proof (induction ps arbitrary: totals)
  case (Cons p ps)
  then obtain t where t: "posting_net_step base totals p = Inr t" "foldE (posting_net_step base) t ps = Inr nets"
    by (auto simp: bindE_eq_Inr)
  show ?case using Cons.IH [OF t(2)] posting_net_step_Inr [OF t(1), of a] by (simp add: net_total_def)
qed (simp add: net_total_def)

lemma posting_nets_Inr: "posting_nets ps base = Inr nets \<Longrightarrow> dval (dict_total nets a) = net_total base a ps"
  using posting_nets_fold [of base "[]" ps nets a] by (simp add: posting_nets_def except_as_Inr dict_total_def)

section \<open>Accounts of the canonical rows\<close>

lemma base_account_account: "CHR '':'' \<notin> set base \<Longrightarrow> base_account (account base x) = base"
  by (simp add: base_account_def account_def py_partition_prefix)

text \<open>A row is filed under accounts of its own asset.\<close>

definition filed :: "live_ledger_posting \<Rightarrow> bool" where
  "filed p \<longleftrightarrow> (\<exists>b c. lp_debit_account p = account b (lp_asset_id p) \<and> lp_credit_account p = account c (lp_asset_id p) \<and>
     CHR '':'' \<notin> set b \<and> CHR '':'' \<notin> set c)"

lemma account_eq_iff:
  assumes "CHR '':'' \<notin> set b" and "CHR '':'' \<notin> set base"
  shows "account b x = account base a \<longleftrightarrow> b = base \<and> x = a"
proof
  assume eq: "account b x = account base a"
  then have "b = base" using base_account_account assms by metis
  with eq show "b = base \<and> x = a" by (simp add: account_def)
qed simp

lemma filed_effect:
  assumes "filed p" and "CHR '':'' \<notin> set base"
  shows "net_effect base a p = row_effect (account base a) p"
proof -
  obtain b c where bc: "lp_debit_account p = account b (lp_asset_id p)" "lp_credit_account p = account c (lp_asset_id p)"
    "CHR '':'' \<notin> set b" "CHR '':'' \<notin> set c" using assms(1) unfolding filed_def by blast
  show ?thesis
    unfolding net_effect_def row_effect_def bc(1,2) base_account_account [OF bc(3)] base_account_account [OF bc(4)]
      account_eq_iff [OF bc(3) assms(2)] account_eq_iff [OF bc(4) assms(2)] row_debit_def row_credit_def by simp
qed

lemma filed_total:
  "\<forall>p \<in> set ps. filed p \<Longrightarrow> CHR '':'' \<notin> set base \<Longrightarrow> net_total base a ps = account_balance (account base a) ps"
  by (induction ps) (simp_all add: net_total_def account_balance_def filed_effect)

definition leg_filed :: "ledger_leg \<Rightarrow> bool" where
  "leg_filed = (\<lambda>(da, ca, x, _). \<exists>b c. da = account b x \<and> ca = account c x \<and> CHR '':'' \<notin> set b \<and> CHR '':'' \<notin> set c)"

lemma leg_filedI:
  "CHR '':'' \<notin> set b \<Longrightarrow> CHR '':'' \<notin> set c \<Longrightarrow> leg_filed (account b x, account c x, x, amount)"
  unfolding leg_filed_def by blast

lemma base_colon_free:
  "CHR '':'' \<notin> set ''venue_cash''" "CHR '':'' \<notin> set ''venue_position''" "CHR '':'' \<notin> set ''fees_paid''"
  "CHR '':'' \<notin> set ''settlement_receivable''" "CHR '':'' \<notin> set ''realized_pnl''"
  by simp_all

lemma trade_legs_filed: "list_all leg_filed (trade_legs e notional)"
proof -
  note filed = leg_filedI [OF base_colon_free(4,1)] leg_filedI [OF base_colon_free(2,4)] leg_filedI [OF base_colon_free(1,4)]
    leg_filedI [OF base_colon_free(4,2)] leg_filedI [OF base_colon_free(3,1)] leg_filedI [OF base_colon_free(4,5)]
    leg_filedI [OF base_colon_free(5,4)]
  show ?thesis
    by (cases "au_side e"; cases "au_realized_pnl e"; simp only: trade_legs_def Let_def side.case option.case list_all_append
        list.pred_inject filed simp_thms split: if_split)
qed

lemma trade_rows_filed:
  assumes "trade_rows D e = Inr rows" and "p \<in> set rows"
  shows "filed p" and "lp_venue_trade_id p = Some (au_venue_trade_id e)"
    and "lp_account_fingerprint p = au_account_fingerprint e"
proof -
  obtain notional blocks where b: "mapE (paired_postings D e (trade_lineage e)) (trade_legs e notional) = Inr blocks"
    and rows: "rows = concat blocks"
    using assms(1) by (auto simp: trade_rows_def bindE_eq_Inr)
  from assms(2) rows obtain block where block: "block \<in> set blocks" "p \<in> set block" by auto
  obtain da ca x amount where leg: "(da, ca, x, amount) \<in> set (trade_legs e notional)"
    "paired_postings D e (trade_lineage e) (da, ca, x, amount) = Inr block"
    using mapE_Inr_set [OF b block(1)] by (metis prod_cases4)
  from leg(2) obtain p1 p2 where ps: "block = [p1, p2]" "build_posting D e da ca x amount dec0 (trade_lineage e) = Inr p1"
    "build_posting D e da ca x dec0 amount (trade_lineage e) = Inr p2"
    by (rule paired_postings_Inr)
  then obtain d c where build: "build_posting D e da ca x d c (trade_lineage e) = Inr p" using block(2) by auto
  note f = build_posting_Inr [OF build]
  have "leg_filed (da, ca, x, amount)" using trade_legs_filed leg(1) by (auto simp: list_all_iff)
  then show "filed p" unfolding filed_def leg_filed_def f(3,4,7) prod.case .
  show "lp_venue_trade_id p = Some (au_venue_trade_id e)" "lp_account_fingerprint p = au_account_fingerprint e"
    using f(8) by (simp_all add: evidence_group_def)
qed

lemma canonical_filed:
  assumes "postings_for_confirmed_trades D intents trades economics = Inr ps" and "p \<in> set ps"
  shows "filed p"
proof (rule postings_Inr [OF assms(1)])
  fix us hs es totals units rows
  assume rows: "mapE (\<lambda>tid. trade_rows D (the (map_of (map (\<lambda>e. (au_venue_trade_id e, e)) es) tid)))
       (sort (map fst (confirmed_by_trade hs))) = Inr rows" and ps: "ps = sort_key lp_posting_id (concat rows)"
  from assms(2) ps obtain r where "r \<in> set rows" "p \<in> set r" by auto
  with mapE_Inr_set [OF rows] trade_rows_filed(1) show ?thesis by blast
qed

section \<open>The posted rows\<close>

lemma posting_eq_effect:
  assumes "posting_eq p q"
  shows "net_effect base a p = net_effect base a q" and "lp_posting_id p = lp_posting_id q"
    and "lp_venue_trade_id p = lp_venue_trade_id q"
proof -
  have "p\<lparr>lp_debit_amount := dec0, lp_credit_amount := dec0\<rparr> = q\<lparr>lp_debit_amount := dec0, lp_credit_amount := dec0\<rparr>"
    and vals: "dval (lp_debit_amount p) = dval (lp_debit_amount q)" "dval (lp_credit_amount p) = dval (lp_credit_amount q)"
    using assms by (auto simp: posting_eq_def deq_iff)
  then have "lp_debit_account p = lp_debit_account q" "lp_credit_account p = lp_credit_account q"
    "lp_asset_id p = lp_asset_id q" and same: "lp_posting_id p = lp_posting_id q" "lp_venue_trade_id p = lp_venue_trade_id q"
    by (cases p, cases q, simp)+
  then show "net_effect base a p = net_effect base a q" by (simp add: net_effect_def vals)
  show "lp_posting_id p = lp_posting_id q" "lp_venue_trade_id p = lp_venue_trade_id q" by (fact same)+
qed

lemma net_total_mset: "mset ps = mset qs \<Longrightarrow> net_total base a ps = net_total base a qs"
  unfolding net_total_def by (metis mset_map sum_mset_sum_list)

lemma net_total_eq: "list_all2 posting_eq ps qs \<Longrightarrow> net_total base a ps = net_total base a qs"
  by (induction rule: list_all2_induct) (simp_all add: net_total_def posting_eq_effect(1))

lemma verified_rows:
  assumes "verify_live_conservation D ps intents trades economics = Inr ()"
  obtains canonical where "postings_for_confirmed_trades D intents trades economics = Inr canonical"
    "list_all2 posting_eq (sort_key lp_posting_id ps) canonical"
  using assms by (auto simp: verify_live_conservation_def bindE_eq_Inr
      snapshot_sequence_Inr [OF validate_posting_Inr(1)] split: if_splits)

lemma verified_net:
  assumes "verify_live_conservation D ps intents trades economics = Inr ()" and "CHR '':'' \<notin> set base"
    and "postings_for_confirmed_trades D intents trades economics = Inr canonical"
  shows "net_total base a ps = account_balance (account base a) canonical"
proof -
  from assms(1,3) have eq: "list_all2 posting_eq (sort_key lp_posting_id ps) canonical"
    using verified_rows [OF assms(1)] by auto
  have "net_total base a ps = net_total base a (sort_key lp_posting_id ps)" by (rule net_total_mset) simp
  also have "\<dots> = net_total base a canonical" by (rule net_total_eq [OF eq])
  also have "\<dots> = account_balance (account base a) canonical"
    by (rule filed_total [OF _ assms(2)]) (use canonical_filed [OF assms(3)] in blast)
  finally show ?thesis .
qed

lemma ledger_economics_values:
  assumes "snapshot_sequence (validate_economics D) code economics = Inr values"
  shows "ledger_economics D values = ledger_economics D economics"
proof -
  have len: "length economics \<le> MAX_LIVE_EVIDENCE_ITEMS" and m: "mapE (validate_economics D) economics = Inr values"
    using assms by (auto simp: snapshot_sequence_def except_as_Inr split: if_splits)
  have "mapE (validate_economics D) values = Inr values"
    using mapE_Inr_set [OF m] validate_economics_Inr(1) by (simp add: mapE_Inr list_all2_same) metis
  then show ?thesis using len m mapE_Inr_length [OF m] by (simp add: ledger_economics_def snapshot_sequence_def)
qed

lemma verify_with_values:
  assumes "snapshot_sequence (validate_economics D) code economics = Inr values"
  shows "verify_live_conservation D ps intents trades values = verify_live_conservation D ps intents trades economics"
  by (simp add: verify_live_conservation_def postings_for_confirmed_trades_def ledger_economics_values [OF assms])

section \<open>Differences\<close>

text \<open>The change of an asset between the cuts; an asset that is not observed does not change.\<close>

definition observed_amount :: "asset_amount list \<Rightarrow> string \<Rightarrow> rat" where
  "observed_amount xs a = (case map_of (map (\<lambda>x. (ao_asset_id x, dval (ao_amount x))) xs) a of None \<Rightarrow> 0 | Some v \<Rightarrow> v)"

definition observed_change :: "asset_amount list \<Rightarrow> asset_amount list \<Rightarrow> string \<Rightarrow> rat" where
  "observed_change opening current a = observed_amount current a - observed_amount opening a"

lemma map_of_dval:
  "map_of (map (\<lambda>x. (ao_asset_id x, dval (ao_amount x))) xs) a =
     map_option dval (map_of (map (\<lambda>x. (ao_asset_id x, ao_amount x)) xs) a)"
  by (induction xs) auto

lemma observed_deltas_Inr:
  assumes "observed_deltas opening current = Inr d" and "set (map ao_asset_id opening) = set (map ao_asset_id current)"
  shows "dval (dict_total d a) = observed_change opening current a" and "map fst d = map ao_asset_id current"
proof -
  let ?o = "map (\<lambda>x. (ao_asset_id x, ao_amount x)) opening"
  have run: "mapE (\<lambda>x. bindE (dict_item ?o (ao_asset_id x)) (\<lambda>start.
       bindE (except_as (exact_difference (ao_amount x) start) (LiveReconciliationError ''SNAPSHOT_INVALID''))
         (\<lambda>v. Inr (ao_asset_id x, v)))) current = Inr d"
    using assms(1) by (simp add: observed_deltas_def Let_def)
  then have each: "list_all2 (\<lambda>x y. fst y = ao_asset_id x \<and>
      (\<exists>start. map_of ?o (ao_asset_id x) = Some start \<and> dval (snd y) = dval (ao_amount x) - dval start)) current d"
    unfolding mapE_Inr
    by (rule list_all2_mono) (auto simp: bindE_eq_Inr dict_item_def except_as_Inr exact_difference_Inr split: option.splits)
  then show "map fst d = map ao_asset_id current" by (induction rule: list_all2_induct) auto
  from each have look: "case map_of d a of None \<Rightarrow> map_of (map (\<lambda>x. (ao_asset_id x, ao_amount x)) current) a = None
      | Some v \<Rightarrow> \<exists>start now. map_of ?o a = Some start \<and>
          map_of (map (\<lambda>x. (ao_asset_id x, ao_amount x)) current) a = Some now \<and> dval v = dval now - dval start"
  proof (induction rule: list_all2_induct)
    case (Cons x xs y ys)
    then show ?case by (cases y; cases "a = ao_asset_id x"; cases "map_of ys a") auto
  qed simp
  show "dval (dict_total d a) = observed_change opening current a"
  proof (cases "map_of d a")
    case None
    with look have c: "map_of (map (\<lambda>x. (ao_asset_id x, ao_amount x)) current) a = None" by simp
    then have "a \<notin> set (map ao_asset_id opening)" unfolding assms(2) by (simp add: map_of_eq_None_iff image_image)
    then have "map_of ?o a = None" by (simp add: map_of_eq_None_iff image_image)
    with c None show ?thesis by (simp add: observed_change_def observed_amount_def map_of_dval dict_total_def)
  next
    case (Some v)
    with look show ?thesis by (auto simp: observed_change_def observed_amount_def map_of_dval dict_total_def)
  qed
qed

lemma delta_differences_Nil:
  assumes "delta_differences label d e = []"
  shows "dval (dict_total d a) = dval (dict_total e a)"
proof (cases "a \<in> fst ` set d \<union> fst ` set e")
  case True
  then show ?thesis using assms by (auto simp: delta_differences_def filter_empty_conv deq_iff)
next
  case False
  then have "map_of d a = None" "map_of e a = None" by (auto simp: map_of_eq_None_iff)
  then show ?thesis by (simp add: dict_total_def)
qed

lemma reconciliation_result_Inr:
  assumes "reconciliation_result D s ps differences orders trades = Inr r"
  shows "lr_complete r \<Longrightarrow> differences = []" "lr_account_fingerprint r = va_account_fingerprint s"
    "lr_expected_posting_ids r = sort (map lp_posting_id ps)"
    "lr_reconciliation_id r = canonical_live_reconciliation_id D r"
  using assms by (auto simp: reconciliation_result_def Let_def dest!: validate_reconciliation_Inr(1) split: if_splits)
    (simp_all add: canonical_live_reconciliation_id_def reconciliation_content_def)

lemma try_ledger_Inr:
  "try_ledger m handler body = Inr y \<longleftrightarrow>
     (\<exists>x. m = Inr x \<and> body x = Inr y) \<or> (\<exists>code. m = Inl (LiveLedgerError code) \<and> handler code = Inr y)"
  by (auto simp: try_ledger_def split: sum.splits py_error.splits)

text \<open>A complete result comes from the last branch, with no difference found.\<close>

lemma incomplete_result: "reconciliation_result D s ps (d # ds) orders trades = Inr r \<Longrightarrow> \<not> lr_complete r"
  using reconciliation_result_Inr(1) by blast

lemma close_postings_complete:
  assumes "close_postings D observed postings intents trades economics oh od hs = Inr r" and "lr_complete r"
  defines "th \<equiv> sort (concat (map th_raw_event_hashes hs))"
  shows "od = []" and "snapshot_postings D postings intents trades economics = Inr postings"
    and "row_differences observed postings hs economics oh th = Inr []"
    and "reconciliation_result D observed postings [] oh th = Inr r"
proof -
  from assms(1,2) obtain rows ds where rows: "snapshot_postings D postings intents trades economics = Inr rows"
    and ds: "row_differences observed rows hs economics oh th = Inr ds"
    and r: "reconciliation_result D observed rows (od @ ds) oh th = Inr r"
    by (auto simp: close_postings_def Let_def try_ledger_Inr bindE_eq_Inr th_def dest: incomplete_result)
  have "rows = postings"
    using rows by (auto simp: snapshot_postings_def bindE_eq_Inr snapshot_sequence_Inr [OF validate_posting_Inr(1)])
  moreover have "od @ ds = []" using reconciliation_result_Inr(1) [OF r assms(2)] .
  ultimately show "od = []" "snapshot_postings D postings intents trades economics = Inr postings"
    "row_differences observed postings hs economics oh th = Inr []"
    "reconciliation_result D observed postings [] oh th = Inr r" using rows ds r by auto
qed

lemma reconcile_evidence_complete:
  assumes "reconcile_evidence D observed postings intents trades economics order_history = Inr r" and "lr_complete r"
  obtains oh hs where "snapshot_order_history D order_history intents observed = Inr (oh, True)"
    "classify_trade_histories D trades = Inr hs"
    "close_postings D observed postings intents trades economics oh [] hs = Inr r"
proof -
  from assms(1) obtain oh valid where o: "snapshot_order_history D order_history intents observed = Inr (oh, valid)"
    by (auto simp: reconcile_evidence_def bindE_eq_Inr)
  with assms obtain hs where h: "classify_trade_histories D trades = Inr hs"
    "close_postings D observed postings intents trades economics oh (if valid then [] else [''ORDER_HISTORY_INVALID'']) hs = Inr r"
    by (auto simp: reconcile_evidence_def Let_def try_ledger_Inr bindE_eq_Inr dest: incomplete_result)
  from close_postings_complete(1) [OF h(2) assms(2)] have valid by (simp split: if_splits)
  with o h show thesis by (intro that) simp_all
qed

lemma intent_sequence: "snapshot_sequence (validate_intent D) code xs = Inr ys \<Longrightarrow> ys = xs"
  using snapshot_sequence_Inr [of "validate_intent D" code xs ys] by (simp add: validate_intent_Inr)

lemma trade_sequence: "snapshot_sequence validate_trade_event code xs = Inr ys \<Longrightarrow> ys = xs"
  using snapshot_sequence_Inr [of validate_trade_event code xs ys] by (simp add: trade_event.validate_id)

lemma order_sequence: "snapshot_sequence validate_order_event code xs = Inr ys \<Longrightarrow> ys = xs"
  using snapshot_sequence_Inr [of validate_order_event code xs ys] by (simp add: order_event.validate_id)

lemma posting_sequence: "snapshot_sequence validate_posting code xs = Inr ys \<Longrightarrow> ys = xs"
  using snapshot_sequence_Inr [of validate_posting code xs ys] validate_posting_Inr(1) by blast

lemma complete_sequences:
  assumes "reconcile_live_account D postings snapshot intents trades economics order_history = Inr r" and "lr_complete r"
  shows "snapshot_sequence validate_posting ''POSTING_INVALID'' postings = Inr postings"
    and "snapshot_sequence (validate_intent D) ''INTENT_EVIDENCE_INVALID'' intents = Inr intents"
    and "snapshot_sequence validate_trade_event ''TRADE_EVENT_INVALID'' trades = Inr trades"
proof -
  obtain pv iv tv where "snapshot_sequence validate_posting ''POSTING_INVALID'' postings = Inr pv"
      "snapshot_sequence (validate_intent D) ''INTENT_EVIDENCE_INVALID'' intents = Inr iv"
      "snapshot_sequence validate_trade_event ''TRADE_EVENT_INVALID'' trades = Inr tv"
    using assms by (auto simp: reconcile_live_account_def try_ledger_Inr bindE_eq_Inr dest: incomplete_result)
  then show "snapshot_sequence validate_posting ''POSTING_INVALID'' postings = Inr postings"
    "snapshot_sequence (validate_intent D) ''INTENT_EVIDENCE_INVALID'' intents = Inr intents"
    "snapshot_sequence validate_trade_event ''TRADE_EVENT_INVALID'' trades = Inr trades"
    using posting_sequence intent_sequence trade_sequence by blast+
qed

lemma reconcile_complete:
  assumes "reconcile_live_account D postings snapshot intents trades economics order_history = Inr r" and "lr_complete r"
  obtains observed vs hs oh where
    "snapshot_input D snapshot = Inr observed"
    "snapshot_sequence (validate_economics D) ''ECONOMICS_EVIDENCE_INVALID'' economics = Inr vs"
    "snapshot_order_history D order_history intents observed = Inr (oh, True)"
    "classify_trade_histories D trades = Inr hs"
    "verify_live_conservation D postings intents trades economics = Inr ()"
    "row_differences observed postings hs vs oh (sort (concat (map th_raw_event_hashes hs))) = Inr []"
    "reconciliation_result D observed postings [] oh (sort (concat (map th_raw_event_hashes hs))) = Inr r"
proof -
  obtain observed where o: "snapshot_input D snapshot = Inr observed"
    using assms(1) by (auto simp: reconcile_live_account_def bindE_eq_Inr)
  with assms obtain pv iv tv ev where seqs: "snapshot_sequence validate_posting ''POSTING_INVALID'' postings = Inr pv"
      "snapshot_sequence (validate_intent D) ''INTENT_EVIDENCE_INVALID'' intents = Inr iv"
      "snapshot_sequence validate_trade_event ''TRADE_EVENT_INVALID'' trades = Inr tv"
      "snapshot_sequence (validate_economics D) ''ECONOMICS_EVIDENCE_INVALID'' economics = Inr ev"
    and run: "reconcile_evidence D observed pv iv tv ev order_history = Inr r"
    by (auto simp: reconcile_live_account_def try_ledger_Inr bindE_eq_Inr dest: incomplete_result)
  have same: "pv = postings" "iv = intents" "tv = trades"
    using posting_sequence [OF seqs(1)] intent_sequence [OF seqs(2)] trade_sequence [OF seqs(3)] .
  obtain oh hs where h: "snapshot_order_history D order_history intents observed = Inr (oh, True)"
    "classify_trade_histories D trades = Inr hs"
    "close_postings D observed postings intents trades ev oh [] hs = Inr r"
    using reconcile_evidence_complete [OF run assms(2)] same by metis
  note closing = close_postings_complete [OF h(3) assms(2)]
  have "verify_live_conservation D postings intents trades ev = Inr ()"
    using closing(2) posting_sequence by (auto simp: snapshot_postings_def bindE_eq_Inr dest!: posting_sequence)
  then show thesis using that o seqs(4) h(1,2) closing(3,4) verify_with_values [OF seqs(4)] by simp
qed

section \<open>What no difference means\<close>

lemma snapshot_input_Inr:
  assumes "snapshot_input D snapshot = Inr s"
  shows "closed_snapshot s"
proof -
  have "validate_account_snapshot D snapshot = Inr s" using assms by (simp add: snapshot_input_def except_as_Inr)
  then have "closed_snapshot snapshot" and
    "s = snapshot \<or> s = snapshot\<lparr>va_snapshot_fingerprint := Some (snapshot_fingerprint D snapshot)\<rparr>"
    by (auto simp: validate_account_snapshot_def bindE_eq_Inr split: if_splits option.splits)
  moreover have "closed_snapshot (snapshot\<lparr>va_snapshot_fingerprint := h\<rparr>) = closed_snapshot snapshot" for h
    unfolding closed_snapshot_def snapshot_size_def by simp
  ultimately show ?thesis by auto
qed

lemma closed_holdings:
  assumes "closed_snapshot s"
  shows "set (map ao_asset_id (va_opening_cash_balances s)) = set (map ao_asset_id (va_current_cash_balances s))"
    "set (map ao_asset_id (va_opening_token_positions s)) = set (map ao_asset_id (va_current_token_positions s))"
    "set (map ao_asset_id (va_opening_cumulative_fees s)) = set (map ao_asset_id (va_current_cumulative_fees s))"
  using assms unfolding closed_snapshot_def same_holdings_def Let_def by blast+

lemma allowance_differences_Nil:
  assumes "allowance_differences s = Inr []" and "x \<in> set (va_current_allowances s)"
  shows "\<exists>y \<in> set (va_opening_allowances s). allowance_identity y = allowance_identity x \<and> dval (al_amount y) = dval (al_amount x)"
proof -
  let ?f = "\<lambda>x. bindE (dict_item (index_by allowance_identity (va_opening_allowances s)) (allowance_identity x)) (\<lambda>start.
      Inr (if \<not> deq (al_amount x) (al_amount start) then [''ALLOWANCE_DELTA_UNEXPLAINED:'' @ al_asset_id x] else []))"
  obtain ds where run: "mapE ?f (va_current_allowances s) = Inr ds" and nil: "concat ds = []"
    using assms(1) unfolding allowance_differences_def Let_def bindE_eq_Inr by blast
  from list_all2_right [OF run [unfolded mapE_Inr] assms(2)] obtain d where d: "d \<in> set ds" "?f x = Inr d" by blast
  with nil have "d = []" by auto
  with d(2) obtain y where "map_of (index_by allowance_identity (va_opening_allowances s)) (allowance_identity x) = Some y"
    "deq (al_amount x) (al_amount y)"
    by (auto simp: bindE_eq_Inr dict_item_def split: option.splits if_splits)
  with index_by_Some show ?thesis by (metis deq_iff)
qed

lemma unresolved_differences_Nil: "unresolved_differences hs = [] \<Longrightarrow> h \<in> set hs \<Longrightarrow> th_confirmed_terminal h \<noteq> None"
proof -
  let ?f = "\<lambda>history. if th_failed_terminal history \<noteq> None then [''SETTLEMENT_FAILED:'' @ th_venue_trade_id history]
       else if th_confirmed_terminal history = None then [''TRADE_UNRESOLVED:'' @ th_venue_trade_id history] else []"
  assume "unresolved_differences hs = []" and "h \<in> set hs"
  then have "?f h = []" unfolding unresolved_differences_def concat_eq_Nil_conv set_map by blast
  then show "th_confirmed_terminal h \<noteq> None" by (metis list.distinct(1))
qed

text \<open>A posted trade without differences is observed, settled and confirmed as its economics say.\<close>

definition trade_closed :: "account_snapshot \<Rightarrow> string \<Rightarrow> bool" where
  "trade_closed s trade_id \<longleftrightarrow>
     (\<exists>t \<in> set (va_recent_trades s). rt_venue_trade_id t = trade_id \<and> rt_state t = CONFIRMED) \<and>
     (\<exists>x \<in> set (va_settlements s). st_venue_trade_id x = trade_id \<and> st_state x = CONFIRMED)"

lemma trade_evidence_confirmed: "trade_evidence_agrees s rows cash pos t e event \<Longrightarrow> rt_state t = CONFIRMED"
  unfolding trade_evidence_agrees_def Let_def by (elim conjE)

lemma posted_trade_closed:
  assumes "posted_trade_differences s rows by_trade confirmed trade_id = Inr []"
  shows "trade_closed s trade_id"
proof -
  obtain t where t: "map_of (index_by rt_venue_trade_id (va_recent_trades s)) trade_id = Some t" "rt_state t = CONFIRMED"
    using assms by (auto simp: posted_trade_differences_def Let_def bindE_eq_Inr dest: trade_evidence_confirmed
        split: option.splits if_splits)
  obtain x where x: "map_of (index_by st_venue_trade_id (va_settlements s)) trade_id = Some x" "st_state x = CONFIRMED"
    using assms by (auto simp: posted_trade_differences_def Let_def bindE_eq_Inr split: option.splits if_splits)
  show ?thesis unfolding trade_closed_def using index_by_Some [OF t(1)] t(2) index_by_Some [OF x(1)] x(2) by (intro conjI bexI [of _ t] bexI [of _ x]) auto
qed

lemma row_differences_Nil:
  assumes "row_differences s rows hs vs oh th = Inr []"
  defines "ids \<equiv> set (List.map_filter lp_venue_trade_id rows)"
  obtains cash booked_cash pos booked_pos fees booked_fees where
    "observed_deltas (va_opening_cash_balances s) (va_current_cash_balances s) = Inr cash"
    "posting_nets rows ''venue_cash'' = Inr booked_cash" "delta_differences ''CASH'' cash booked_cash = []"
    "observed_deltas (va_opening_token_positions s) (va_current_token_positions s) = Inr pos"
    "posting_nets rows ''venue_position'' = Inr booked_pos" "delta_differences ''POSITION'' pos booked_pos = []"
    "observed_deltas (va_opening_cumulative_fees s) (va_current_cumulative_fees s) = Inr fees"
    "posting_nets rows ''fees_paid'' = Inr booked_fees" "delta_differences ''FEE'' fees booked_fees = []"
    "allowance_differences s = Inr []" "va_open_orders s = []" "unresolved_differences hs = []"
    "\<forall>i \<in> ids. trade_closed s i" "rt_venue_trade_id ` set (va_recent_trades s) \<subseteq> ids"
    "st_venue_trade_id ` set (va_settlements s) \<subseteq> ids"
    "\<forall>row \<in> set rows. lp_account_fingerprint row = va_account_fingerprint s"
proof -
  let ?E = "set (cited_evidence s) \<union> set (cited_balances s) \<union> set (cited_allowances s) \<union> set oh \<union> set th"
  have ids: "set (py_sorted_set (List.map_filter lp_venue_trade_id rows)) = ids" by (simp add: ids_def)
  have run: "\<exists>cash booked_cash pos booked_pos fees booked_fees allowances trades.
      observed_deltas (va_opening_cash_balances s) (va_current_cash_balances s) = Inr cash \<and>
      posting_nets rows ''venue_cash'' = Inr booked_cash \<and>
      observed_deltas (va_opening_token_positions s) (va_current_token_positions s) = Inr pos \<and>
      posting_nets rows ''venue_position'' = Inr booked_pos \<and>
      observed_deltas (va_opening_cumulative_fees s) (va_current_cumulative_fees s) = Inr fees \<and>
      posting_nets rows ''fees_paid'' = Inr booked_fees \<and> allowance_differences s = Inr allowances \<and>
      mapE (posted_trade_differences s rows (index_by au_venue_trade_id vs) (confirmed_by_trade hs))
        (py_sorted_set (List.map_filter lp_venue_trade_id rows)) = Inr trades \<and>
      (if list_ex (\<lambda>row. lp_account_fingerprint row \<noteq> va_account_fingerprint s) rows
       then [''POSTING_ACCOUNT_MISMATCH''] else []) = [] \<and>
      delta_differences ''CASH'' cash booked_cash = [] \<and> delta_differences ''POSITION'' pos booked_pos = [] \<and>
      delta_differences ''FEE'' fees booked_fees = [] \<and> allowances = [] \<and> va_open_orders s = [] \<and>
      unresolved_differences hs = [] \<and> concat trades = [] \<and>
      filter (\<lambda>i. i \<notin> set (py_sorted_set (List.map_filter lp_venue_trade_id rows))) (map rt_venue_trade_id (va_recent_trades s)) = [] \<and>
      filter (\<lambda>i. i \<notin> set (py_sorted_set (List.map_filter lp_venue_trade_id rows))) (map st_venue_trade_id (va_settlements s)) = []"
    using assms(1) unfolding row_differences_def Let_def bindE_eq_Inr sum.inject append_is_Nil_conv map_is_Nil_conv by blast
  then obtain cash booked_cash pos booked_pos fees booked_fees trades where
    trades: "mapE (posted_trade_differences s rows (index_by au_venue_trade_id vs) (confirmed_by_trade hs))
        (py_sorted_set (List.map_filter lp_venue_trade_id rows)) = Inr trades" "concat trades = []"
    and rest: "observed_deltas (va_opening_cash_balances s) (va_current_cash_balances s) = Inr cash"
      "posting_nets rows ''venue_cash'' = Inr booked_cash" "delta_differences ''CASH'' cash booked_cash = []"
      "observed_deltas (va_opening_token_positions s) (va_current_token_positions s) = Inr pos"
      "posting_nets rows ''venue_position'' = Inr booked_pos" "delta_differences ''POSITION'' pos booked_pos = []"
      "observed_deltas (va_opening_cumulative_fees s) (va_current_cumulative_fees s) = Inr fees"
      "posting_nets rows ''fees_paid'' = Inr booked_fees" "delta_differences ''FEE'' fees booked_fees = []"
      "allowance_differences s = Inr []" "va_open_orders s = []" "unresolved_differences hs = []"
    and account: "(if list_ex (\<lambda>row. lp_account_fingerprint row \<noteq> va_account_fingerprint s) rows
       then [''POSTING_ACCOUNT_MISMATCH''] else []) = []"
    and only: "filter (\<lambda>i. i \<notin> ids) (map rt_venue_trade_id (va_recent_trades s)) = []"
      "filter (\<lambda>i. i \<notin> ids) (map st_venue_trade_id (va_settlements s)) = []"
    unfolding ids by (elim exE conjE) simp
  have settled: "\<forall>i \<in> ids. trade_closed s i"
  proof
    fix i assume "i \<in> ids"
    with ids list_all2_right [OF trades(1) [unfolded mapE_Inr]] obtain d where "d \<in> set trades"
      "posted_trade_differences s rows (index_by au_venue_trade_id vs) (confirmed_by_trade hs) i = Inr d" by blast
    with trades(2) posted_trade_closed show "trade_closed s i" by auto
  qed
  have within: "rt_venue_trade_id ` set (va_recent_trades s) \<subseteq> ids" "st_venue_trade_id ` set (va_settlements s) \<subseteq> ids"
    using only by (auto simp: filter_empty_conv)
  have own: "\<forall>row \<in> set rows. lp_account_fingerprint row = va_account_fingerprint s"
    using account by (auto simp: list_ex_iff split: if_splits)
  show thesis by (rule that [OF rest settled within own])
qed

section \<open>Complete reconciliations\<close>

lemma trade_rows_nonempty: "trade_rows D e = Inr rows \<Longrightarrow> rows \<noteq> []"
proof -
  assume "trade_rows D e = Inr rows"
  then obtain notional blocks where b: "mapE (paired_postings D e (trade_lineage e)) (trade_legs e notional) = Inr blocks"
    and rows: "rows = concat blocks" by (auto simp: trade_rows_def bindE_eq_Inr)
  obtain leg legs where "trade_legs e notional = leg # legs"
    by (cases "au_side e") (auto simp: trade_legs_def Let_def)
  with b obtain block bs where "paired_postings D e (trade_lineage e) leg = Inr block" "blocks = block # bs"
    by (auto simp: bindE_eq_Inr)
  then show "rows \<noteq> []" using rows by (cases leg) (auto elim: paired_postings_Inr)
qed

lemma canonical_trade_ids:
  assumes "postings_for_confirmed_trades D intents trades economics = Inr ps" and "ledger_economics D economics = Inr es"
  shows "lp_venue_trade_id ` set ps = Some ` au_venue_trade_id ` set es"
proof (rule postings_Inr [OF assms(1)])
  fix us hs totals units rows and es' :: "trade_economics list"
  let ?E = "\<lambda>tid. the (map_of (map (\<lambda>e. (au_venue_trade_id e, e)) es') tid)"
  let ?ks = "sort (map fst (confirmed_by_trade hs))"
  assume es': "ledger_economics D economics = Inr es'" and keys: "au_venue_trade_id ` set es' = fst ` set (confirmed_by_trade hs)"
    and rows: "mapE (\<lambda>tid. trade_rows D (?E tid)) ?ks = Inr rows" and ps: "ps = sort_key lp_posting_id (concat rows)"
  have es: "es' = es" using es' assms(2) by simp
  have look: "au_venue_trade_id (?E k) = k" if "k \<in> set ?ks" for k
  proof -
    from that keys obtain e where "e \<in> set es'" "k = au_venue_trade_id e" by auto
    then have "map_of (map (\<lambda>e. (au_venue_trade_id e, e)) es') k \<noteq> None" by (auto simp: map_of_eq_None_iff image_image)
    then obtain x where "map_of (map (\<lambda>e. (au_venue_trade_id e, e)) es') k = Some x" by blast
    then show ?thesis using map_of_SomeD [of _ k x] by fastforce
  qed
  have each: "list_all2 (\<lambda>k r. r \<noteq> [] \<and> (\<forall>p \<in> set r. lp_venue_trade_id p = Some (au_venue_trade_id (?E k)))) ?ks rows"
    using rows unfolding mapE_Inr
    by (rule list_all2_mono) (use trade_rows_nonempty trade_rows_filed(2) in blast)
  have "lp_venue_trade_id ` set (concat rows) = Some ` set (map (\<lambda>k. au_venue_trade_id (?E k)) ?ks)"
    using each
  proof (induction rule: list_all2_induct)
    case (Cons k ks r rs)
    then have "lp_venue_trade_id ` set r = {Some (au_venue_trade_id (?E k))}" by (cases r) auto
    then show ?case using Cons.IH by (simp add: image_Un)
  qed simp
  also have "map (\<lambda>k. au_venue_trade_id (?E k)) ?ks = ?ks" by (rule map_idI) (rule look)
  finally show ?thesis unfolding ps using keys es by simp
qed

lemma map_filter_set: "set (List.map_filter f xs) = {y. Some y \<in> f ` set xs}"
  by (induction xs) (auto simp: List.map_filter_simps split: option.splits)

lemma posted_trade_ids:
  assumes "verify_live_conservation D ps intents trades economics = Inr ()" and "ledger_economics D economics = Inr es"
  shows "set (List.map_filter lp_venue_trade_id ps) = au_venue_trade_id ` set es"
proof -
  obtain canonical where c: "postings_for_confirmed_trades D intents trades economics = Inr canonical"
    "list_all2 posting_eq (sort_key lp_posting_id ps) canonical"
    using assms(1) by (rule verified_rows)
  from c(2) have "map lp_venue_trade_id (sort_key lp_posting_id ps) = map lp_venue_trade_id canonical"
    by (induction rule: list_all2_induct) (simp_all add: posting_eq_effect(3))
  then have "lp_venue_trade_id ` set ps = lp_venue_trade_id ` set canonical" by (metis set_map set_sort)
  also have "\<dots> = Some ` au_venue_trade_id ` set es" by (rule canonical_trade_ids [OF c(1) assms(2)])
  finally have "{x. Some x \<in> lp_venue_trade_id ` set ps} = au_venue_trade_id ` set es" by auto
  then show ?thesis by (simp add: map_filter_set)
qed

lemma posted_trade_id:
  assumes "verify_live_conservation D ps intents trades economics = Inr ()" and "p \<in> set ps"
  obtains i where "lp_venue_trade_id p = Some i" and "i \<in> set (List.map_filter lp_venue_trade_id ps)"
proof -
  obtain canonical where c: "postings_for_confirmed_trades D intents trades economics = Inr canonical"
    "list_all2 posting_eq (sort_key lp_posting_id ps) canonical"
    using assms(1) by (rule verified_rows)
  obtain es where es: "ledger_economics D economics = Inr es" using c(1) by (rule postings_Inr)
  obtain q where "q \<in> set canonical" "posting_eq p q" using list_all2_right [OF c(2), of p] assms(2) by auto
  then obtain i where i: "lp_venue_trade_id p = Some i"
    using canonical_trade_ids [OF c(1) es] posting_eq_effect(3) by (metis imageE image_eqI)
  moreover have "i \<in> set (List.map_filter lp_venue_trade_id ps)"
    unfolding map_filter_set using i imageI [OF assms(2), of lp_venue_trade_id] by simp
  ultimately show thesis by (rule that)
qed

lemma booked_flows:
  assumes "verify_live_conservation D ps intents trades economics = Inr ()" and "ledger_economics D economics = Inr es"
  shows "net_total ''venue_cash'' a ps = (\<Sum>e\<leftarrow>es. if au_cash_asset_id e = a then cash_flow e else 0)"
    "net_total ''venue_position'' a ps = (\<Sum>e\<leftarrow>es. if au_position_asset_id e = a then position_flow e else 0)"
    "net_total ''fees_paid'' a ps = (\<Sum>e\<leftarrow>es. if au_cash_asset_id e = a then dval (au_fee e) else 0)"
    "net_total ''realized_pnl'' a ps = (\<Sum>e\<leftarrow>es. if au_cash_asset_id e = a then - pnl_value e else 0)"
proof -
  obtain canonical where c: "postings_for_confirmed_trades D intents trades economics = Inr canonical"
    using assms(1) by (rule verified_rows)
  obtain us es' where es': "ledger_economics D economics = Inr es'"
    and sums: "\<And>A eff. (\<And>e rs. trade_rows D e = Inr rs \<Longrightarrow> account_balance A rs = eff e) \<Longrightarrow>
       account_balance A canonical = sum_list (map eff es')"
    using c by (rule postings_economics) blast
  have es: "es' = es" using es' assms(2) by simp
  note net = verified_net [OF assms(1) base_colon_free(1) c] verified_net [OF assms(1) base_colon_free(2) c]
    verified_net [OF assms(1) base_colon_free(3) c] verified_net [OF assms(1) base_colon_free(5) c]
  show "net_total ''venue_cash'' a ps = (\<Sum>e\<leftarrow>es. if au_cash_asset_id e = a then cash_flow e else 0)"
    "net_total ''venue_position'' a ps = (\<Sum>e\<leftarrow>es. if au_position_asset_id e = a then position_flow e else 0)"
    "net_total ''fees_paid'' a ps = (\<Sum>e\<leftarrow>es. if au_cash_asset_id e = a then dval (au_fee e) else 0)"
    "net_total ''realized_pnl'' a ps = (\<Sum>e\<leftarrow>es. if au_cash_asset_id e = a then - pnl_value e else 0)"
    unfolding net es [symmetric] by (rule sums, erule trade_rows_facts)+
qed

text \<open>
  C6: a complete live reconciliation closes the account. The postings are the ledger's own for the evidence;
  for every asset the cash, the positions and the fees observed at the two cuts differ by exactly what the
  authoritative economics of the confirmed trades moved; no allowance changed and no order is open; every
  trade history ended confirmed; and the trades and settlements observed are exactly the posted ones, each
  of them observed and settled as confirmed.
\<close>

theorem complete_reconciliation_closes:
  assumes "reconcile_live_account D postings snapshot intents trades economics order_history = Inr r"
    and "lr_complete r"
  shows "\<exists>s es hs. snapshot_input D snapshot = Inr s \<and> ledger_economics D economics = Inr es \<and>
    classify_trade_histories D trades = Inr hs \<and>
    verify_live_conservation D postings intents trades economics = Inr () \<and>
    (\<forall>a. observed_change (va_opening_cash_balances s) (va_current_cash_balances s) a =
           (\<Sum>e\<leftarrow>es. if au_cash_asset_id e = a then cash_flow e else 0) \<and>
         observed_change (va_opening_token_positions s) (va_current_token_positions s) a =
           (\<Sum>e\<leftarrow>es. if au_position_asset_id e = a then position_flow e else 0) \<and>
         observed_change (va_opening_cumulative_fees s) (va_current_cumulative_fees s) a =
           (\<Sum>e\<leftarrow>es. if au_cash_asset_id e = a then dval (au_fee e) else 0)) \<and>
    (\<forall>x \<in> set (va_current_allowances s). \<exists>y \<in> set (va_opening_allowances s).
       allowance_identity y = allowance_identity x \<and> dval (al_amount y) = dval (al_amount x)) \<and>
    va_open_orders s = [] \<and> (\<forall>h \<in> set hs. th_confirmed_terminal h \<noteq> None) \<and>
    (\<forall>e \<in> set es. trade_closed s (au_venue_trade_id e)) \<and>
    rt_venue_trade_id ` set (va_recent_trades s) = au_venue_trade_id ` set es \<and>
    st_venue_trade_id ` set (va_settlements s) = au_venue_trade_id ` set es"
proof -
  obtain s vs hs oh where s: "snapshot_input D snapshot = Inr s"
    and hs: "classify_trade_histories D trades = Inr hs"
    and ver: "verify_live_conservation D postings intents trades economics = Inr ()"
    and rows: "row_differences s postings hs vs oh (sort (concat (map th_raw_event_hashes hs))) = Inr []"
    using assms by (rule reconcile_complete)
  obtain canonical where "postings_for_confirmed_trades D intents trades economics = Inr canonical"
    using ver by (rule verified_rows)
  then obtain es where es: "ledger_economics D economics = Inr es" by (rule postings_Inr)
  obtain cash booked_cash pos booked_pos fees booked_fees where
    cash: "observed_deltas (va_opening_cash_balances s) (va_current_cash_balances s) = Inr cash"
      "posting_nets postings ''venue_cash'' = Inr booked_cash" "delta_differences ''CASH'' cash booked_cash = []"
    and pos: "observed_deltas (va_opening_token_positions s) (va_current_token_positions s) = Inr pos"
      "posting_nets postings ''venue_position'' = Inr booked_pos" "delta_differences ''POSITION'' pos booked_pos = []"
    and fees: "observed_deltas (va_opening_cumulative_fees s) (va_current_cumulative_fees s) = Inr fees"
      "posting_nets postings ''fees_paid'' = Inr booked_fees" "delta_differences ''FEE'' fees booked_fees = []"
    and rest: "allowance_differences s = Inr []" "va_open_orders s = []" "unresolved_differences hs = []"
    and settled: "\<forall>i \<in> set (List.map_filter lp_venue_trade_id postings). trade_closed s i"
    and within: "rt_venue_trade_id ` set (va_recent_trades s) \<subseteq> set (List.map_filter lp_venue_trade_id postings)"
      "st_venue_trade_id ` set (va_settlements s) \<subseteq> set (List.map_filter lp_venue_trade_id postings)"
    using rows by (rule row_differences_Nil)
  note ids = posted_trade_ids [OF ver es] and held = closed_holdings [OF snapshot_input_Inr [OF s]]
    and booked = booked_flows [OF ver es]
  have changes: "observed_change (va_opening_cash_balances s) (va_current_cash_balances s) a =
        (\<Sum>e\<leftarrow>es. if au_cash_asset_id e = a then cash_flow e else 0) \<and>
      observed_change (va_opening_token_positions s) (va_current_token_positions s) a =
        (\<Sum>e\<leftarrow>es. if au_position_asset_id e = a then position_flow e else 0) \<and>
      observed_change (va_opening_cumulative_fees s) (va_current_cumulative_fees s) a =
        (\<Sum>e\<leftarrow>es. if au_cash_asset_id e = a then dval (au_fee e) else 0)" for a
    using observed_deltas_Inr(1) [OF cash(1) held(1), of a] delta_differences_Nil [OF cash(3), of a]
      posting_nets_Inr [OF cash(2), of a] observed_deltas_Inr(1) [OF pos(1) held(2), of a]
      delta_differences_Nil [OF pos(3), of a] posting_nets_Inr [OF pos(2), of a]
      observed_deltas_Inr(1) [OF fees(1) held(3), of a] delta_differences_Nil [OF fees(3), of a]
      posting_nets_Inr [OF fees(2), of a] booked(1-3) [of a] by simp
  have trades_ok: "\<forall>e \<in> set es. trade_closed s (au_venue_trade_id e)" using settled ids by blast
  then have "au_venue_trade_id ` set es \<subseteq> rt_venue_trade_id ` set (va_recent_trades s)"
    "au_venue_trade_id ` set es \<subseteq> st_venue_trade_id ` set (va_settlements s)"
    unfolding trade_closed_def by (metis (no_types, lifting) image_eqI image_subsetI)+
  then have sets: "rt_venue_trade_id ` set (va_recent_trades s) = au_venue_trade_id ` set es"
    "st_venue_trade_id ` set (va_settlements s) = au_venue_trade_id ` set es"
    using within ids by auto
  show ?thesis
    by (intro exI [of _ s] exI [of _ es] exI [of _ hs] conjI s es hs ver allI changes ballI
        allowance_differences_Nil [OF rest(1)] unresolved_differences_Nil [OF rest(3)] rest(2) sets trades_ok [rule_format])
qed

section \<open>Published profit\<close>

definition pnl_effect :: "live_ledger_posting \<Rightarrow> rat" where
  "pnl_effect p = (if base_account (lp_credit_account p) = ''realized_pnl'' then dval (lp_credit_amount p) else 0) -
     (if base_account (lp_debit_account p) = ''realized_pnl'' then dval (lp_debit_amount p) else 0)"

lemma pnl_step_Inr:
  assumes "pnl_step pnl p = Inr v"
  shows "dval v = dval pnl + pnl_effect p"
proof -
  obtain middle where
    m: "(if base_account (lp_credit_account p) = ''realized_pnl'' then exact_add pnl (lp_credit_amount p) else Inr pnl) = Inr middle"
    and v: "(if base_account (lp_debit_account p) = ''realized_pnl'' then exact_difference middle (lp_debit_amount p)
       else Inr middle) = Inr v"
    using assms unfolding pnl_step_def bindE_eq_Inr by blast
  have "dval middle = dval pnl + (if base_account (lp_credit_account p) = ''realized_pnl'' then dval (lp_credit_amount p) else 0)"
    using m by (auto simp: exact_add_Inr split: if_splits)
  moreover have "dval v = dval middle - (if base_account (lp_debit_account p) = ''realized_pnl'' then dval (lp_debit_amount p) else 0)"
    using v by (auto simp: exact_difference_Inr split: if_splits)
  ultimately show ?thesis by (simp add: pnl_effect_def)
qed

lemma pnl_fold: "foldE pnl_step pnl ps = Inr v \<Longrightarrow> dval v = dval pnl + (\<Sum>p\<leftarrow>ps. pnl_effect p)"
proof (induction ps arbitrary: pnl)
  case (Cons p ps)
  then obtain t where "pnl_step pnl p = Inr t" "foldE pnl_step t ps = Inr v" by (auto simp: bindE_eq_Inr)
  with Cons.IH [of t] pnl_step_Inr [of pnl p t] show ?case by simp
qed simp

lemma pnl_effect_net:
  "\<forall>p \<in> set ps. pnl_row p \<longrightarrow> lp_asset_id p = a \<Longrightarrow>
     (\<Sum>p\<leftarrow>filter pnl_row ps. pnl_effect p) = - net_total ''realized_pnl'' a ps"
  by (induction ps) (auto simp: net_total_def net_effect_def pnl_effect_def pnl_row_def)

text \<open>The rows of every trade of the economics are among the canonical rows.\<close>

lemma canonical_rows_of:
  assumes "postings_for_confirmed_trades D intents trades economics = Inr ps" and "ledger_economics D economics = Inr es"
    and "e \<in> set es"
  obtains rs where "trade_rows D e = Inr rs" and "set rs \<subseteq> set ps"
proof (rule postings_Inr [OF assms(1)])
  fix us hs totals units rows and es' :: "trade_economics list"
  assume es': "ledger_economics D economics = Inr es'" and keys: "au_venue_trade_id ` set es' = fst ` set (confirmed_by_trade hs)"
    and rows: "mapE (\<lambda>tid. trade_rows D (the (map_of (map (\<lambda>e. (au_venue_trade_id e, e)) es') tid)))
       (sort (map fst (confirmed_by_trade hs))) = Inr rows" and ps: "ps = sort_key lp_posting_id (concat rows)"
  have es: "es' = es" using es' assms(2) by simp
  have "au_venue_trade_id e \<in> set (sort (map fst (confirmed_by_trade hs)))" using keys assms(3) es by auto
  from list_all2_right [OF rows [unfolded mapE_Inr] this] obtain rs where rs: "rs \<in> set rows"
    "trade_rows D (the (map_of (map (\<lambda>e. (au_venue_trade_id e, e)) es') (au_venue_trade_id e))) = Inr rs" by blast
  have "distinct (map fst (map (\<lambda>e. (au_venue_trade_id e, e)) es))"
    using ledger_economics_facts(1) [OF assms(2)] by (simp add: comp_def)
  then have "map_of (map (\<lambda>e. (au_venue_trade_id e, e)) es) (au_venue_trade_id e) = Some e"
    using assms(3) by (intro map_of_is_SomeI) auto
  with rs es have "trade_rows D e = Inr rs" by simp
  moreover have "set rs \<subseteq> set ps" using rs(1) by (auto simp: ps)
  ultimately show thesis by (rule that)
qed

lemma trade_rows_pnl:
  assumes "trade_rows D e = Inr rs" and "au_realized_pnl e = Some x"
  obtains p where "p \<in> set rs" and "pnl_row p" and "lp_asset_id p = au_cash_asset_id e"
proof -
  obtain notional blocks where b: "mapE (paired_postings D e (trade_lineage e)) (trade_legs e notional) = Inr blocks"
    and rows: "rs = concat blocks" using assms(1) by (auto simp: trade_rows_def bindE_eq_Inr)
  let ?cash = "au_cash_asset_id e"
  have "(if dlt dec0 x then (account ''settlement_receivable'' ?cash, account ''realized_pnl'' ?cash, ?cash, copy_abs x)
      else (account ''realized_pnl'' ?cash, account ''settlement_receivable'' ?cash, ?cash, copy_abs x)) \<in> set (trade_legs e notional)"
    by (simp add: trade_legs_def Let_def assms(2))
  then obtain da ca where leg: "(da, ca, ?cash, copy_abs x) \<in> set (trade_legs e notional)"
    and acc: "da = account ''realized_pnl'' ?cash \<or> ca = account ''realized_pnl'' ?cash"
    by (metis (no_types))
  obtain block where block: "block \<in> set blocks" "paired_postings D e (trade_lineage e) (da, ca, ?cash, copy_abs x) = Inr block"
    using list_all2_right [OF b [unfolded mapE_Inr] leg] by blast
  then obtain p q where pq: "block = [p, q]" "build_posting D e da ca ?cash (copy_abs x) dec0 (trade_lineage e) = Inr p"
    by (auto elim: paired_postings_Inr)
  note f = build_posting_Inr [OF pq(2)]
  have "pnl_row p" using acc base_account_account [OF base_colon_free(5)] by (auto simp: pnl_row_def f(3,4))
  moreover have "p \<in> set rs" unfolding rows set_concat by (rule UN_I [OF block(1)]) (simp add: pq(1))
  ultimately show thesis using that f(7) by blast
qed

lemma posting_eq_pnl: "posting_eq p q \<Longrightarrow> pnl_row p = pnl_row q \<and> lp_asset_id p = lp_asset_id q"
  by (cases p; cases q) (simp add: posting_eq_def pnl_row_def)

lemma posted_pnl_assets:
  assumes "verify_live_conservation D ps intents trades economics = Inr ()" and "ledger_economics D economics = Inr es"
    and "e \<in> set es" and "pnl_value e \<noteq> 0"
  obtains p where "p \<in> set ps" and "pnl_row p" and "lp_asset_id p = au_cash_asset_id e"
proof -
  obtain canonical where c: "postings_for_confirmed_trades D intents trades economics = Inr canonical"
    "list_all2 posting_eq (sort_key lp_posting_id ps) canonical"
    using assms(1) by (rule verified_rows)
  obtain x where "au_realized_pnl e = Some x" using assms(4) by (auto simp: pnl_value_def split: option.splits)
  moreover obtain rs where "trade_rows D e = Inr rs" "set rs \<subseteq> set canonical"
    using c(1) assms(2,3) by (rule canonical_rows_of)
  ultimately obtain q where "q \<in> set canonical" "pnl_row q" "lp_asset_id q = au_cash_asset_id e"
    by (auto elim: trade_rows_pnl)
  with list_all2_left [OF c(2)] posting_eq_pnl that show thesis by (metis set_sort)
qed

lemma economics_sequence:
  assumes "snapshot_sequence (validate_economics D) code economics = Inr vs"
  shows "snapshot_sequence (validate_economics D) code' vs = Inr vs"
    and "snapshot_sequence (validate_economics D) code' economics = Inr vs"
proof -
  have len: "length economics \<le> MAX_LIVE_EVIDENCE_ITEMS" and m: "mapE (validate_economics D) economics = Inr vs"
    using assms by (auto simp: snapshot_sequence_def except_as_Inr split: if_splits)
  have "mapE (validate_economics D) vs = Inr vs"
    using mapE_Inr_set [OF m] validate_economics_Inr(1) by (simp add: mapE_Inr list_all2_same) metis
  then show "snapshot_sequence (validate_economics D) code' vs = Inr vs"
    "snapshot_sequence (validate_economics D) code' economics = Inr vs"
    using len m mapE_Inr_length [OF m] by (simp_all add: snapshot_sequence_def except_as_def)
qed

lemma reconcile_with_values:
  assumes "snapshot_sequence (validate_economics D) code economics = Inr vs"
  shows "reconcile_live_account D postings snapshot intents trades vs orders =
    reconcile_live_account D postings snapshot intents trades economics orders"
  by (simp add: reconcile_live_account_def economics_sequence [OF assms])

lemma published_pnl_Some:
  assumes "published_pnl rows = Some pnl"
  obtains a where "\<forall>p \<in> set rows. pnl_row p \<longrightarrow> lp_asset_id p = a"
    and "dval pnl = - net_total ''realized_pnl'' a rows"
proof -
  let ?assets = "map lp_asset_id (filter pnl_row rows)"
  have one: "length (py_set ?assets) = 1" and some: "filter pnl_row rows \<noteq> []"
    and fold: "foldE pnl_step dec0 (filter pnl_row rows) = Inr pnl"
    using assms by (auto simp: published_pnl_def Let_def split: if_splits sum.splits)
  obtain a where a: "a \<in> set ?assets" using some by (cases "filter pnl_row rows") auto
  have "set ?assets = {a}" using arg_cong [OF py_set_single [OF one a], of set] by simp
  then have same: "\<forall>p \<in> set rows. pnl_row p \<longrightarrow> lp_asset_id p = a" by auto
  show thesis by (rule that [OF same]) (simp add: pnl_fold [OF fold] pnl_effect_net [OF same])
qed

lemma reconciled_live_pnl_Some:
  assumes "reconciled_live_pnl D postings (Some c) snapshot intents trades economics orders = Inr (Some pnl)"
  shows "reconcile_live_account D postings snapshot intents trades economics orders = Inr c" and "lr_complete c"
    and "verify_live_conservation D postings intents trades economics = Inr ()" and "published_pnl postings = Some pnl"
proof -
  obtain vs ov rows r where
    vs: "snapshot_sequence (validate_economics D) ''ECONOMICS_EVIDENCE_INVALID'' economics = Inr vs"
    and ov: "snapshot_sequence validate_order_event ''ORDER_EVENT_INVALID'' orders = Inr ov"
    and rows: "snapshot_postings D postings intents trades vs = Inr rows"
    and r: "reconcile_live_account D rows snapshot intents trades vs ov = Inr r"
    and pub: "publishable D c r rows" "published_pnl rows = Some pnl"
    using assms
    by (auto simp: reconciled_live_pnl_def bindE_eq_Inr split: sum.splits if_splits
        dest!: posting_sequence intent_sequence trade_sequence dest: validate_reconciliation_Inr(1))
  have rp: "rows = postings"
    using rows by (auto simp: snapshot_postings_def bindE_eq_Inr dest!: posting_sequence)
  have c: "c = r" "lr_complete c" using pub(1) by (auto simp: publishable_def Let_def)
  show "reconcile_live_account D postings snapshot intents trades economics orders = Inr c"
    using r unfolding rp c(1) reconcile_with_values [OF vs] order_sequence [OF ov] .
  show "lr_complete c" by (fact c(2))
  have "verify_live_conservation D postings intents trades vs = Inr ()"
    using rows by (auto simp: snapshot_postings_def bindE_eq_Inr dest!: posting_sequence)
  then show "verify_live_conservation D postings intents trades economics = Inr ()"
    by (simp add: verify_with_values [OF vs])
  show "published_pnl postings = Some pnl" using pub(2) rp by simp
qed

text \<open>Conversely a complete reconciliation of the same evidence publishes whatever profit its rows show.\<close>

lemma complete_publishable:
  assumes "reconcile_live_account D postings snapshot intents trades economics orders = Inr c" and "lr_complete c"
  shows "publishable D c c postings" and "validate_reconciliation c = Inr c"
proof -
  obtain s vs hs oh where ver: "verify_live_conservation D postings intents trades economics = Inr ()"
    and rows: "row_differences s postings hs vs oh (sort (concat (map th_raw_event_hashes hs))) = Inr []"
    and r: "reconciliation_result D s postings [] oh (sort (concat (map th_raw_event_hashes hs))) = Inr c"
    using assms by (rule reconcile_complete)
  let ?th = "sort (concat (map th_raw_event_hashes hs))"
  let ?E = "set (cited_evidence s) \<union> set (cited_balances s) \<union> set (cited_allowances s) \<union> set oh \<union> set ?th"
  note f = reconciliation_result_Inr [OF r]
  have hashes: "set (lr_evidence_hashes c) \<union> set (lr_venue_order_hashes c) \<union> set (lr_venue_trade_hashes c) \<union>
      set (lr_balance_hashes c) \<union> set (lr_allowance_hashes c) = ?E"
    and more: "lr_differences c = []" "lr_next_action c = None"
    using r assms(2) by (auto simp: reconciliation_result_def Let_def py_sorted_set_def
        dest!: validate_reconciliation_Inr(1) split: if_splits)
  show "validate_reconciliation c = Inr c"
    using r unfolding reconciliation_result_def Let_def by (metis reconciliation.validate_id)
  have windows: "concat (map (window_differences s postings (index_by au_venue_trade_id vs) ?E)
      (py_sorted_set (List.map_filter lp_venue_trade_id postings))) = []"
    using rows unfolding row_differences_def Let_def bindE_eq_Inr sum.inject append_is_Nil_conv by (elim exE conjE)
  have lineage: "set (lp_lineage_hashes p) \<subseteq> ?E" if p: "p \<in> set postings" for p
  proof -
    obtain i where i: "lp_venue_trade_id p = Some i" "i \<in> set (List.map_filter lp_venue_trade_id postings)"
      using posted_trade_id [OF ver p] .
    then have "window_differences s postings (index_by au_venue_trade_id vs) ?E i = []" using windows by simp
    then show ?thesis using p i(1)
      by (auto simp: window_differences_def Let_def list_ex_iff split: if_splits)
  qed
  have own: "\<forall>row \<in> set postings. lp_account_fingerprint row = va_account_fingerprint s"
    using rows by (rule row_differences_Nil)
  show "publishable D c c postings"
    unfolding publishable_def Let_def hashes using assms(2) more f(2-4) own lineage by (auto simp: list_ex_iff)
qed

lemma complete_publishes:
  assumes "reconcile_live_account D postings snapshot intents trades economics orders = Inr c" and "lr_complete c"
  shows "reconciled_live_pnl D postings (Some c) snapshot intents trades economics orders = Inr (published_pnl postings)"
proof -
  obtain s vs hs oh where vs: "snapshot_sequence (validate_economics D) ''ECONOMICS_EVIDENCE_INVALID'' economics = Inr vs"
    and o: "snapshot_order_history D orders intents s = Inr (oh, True)"
    and ver: "verify_live_conservation D postings intents trades economics = Inr ()"
    using assms by (rule reconcile_complete)
  obtain os where "classify_order_histories D orders (Aware (va_observed_at s) 0) = Inr os"
    using o by (auto simp: snapshot_order_history_def try_ledger_Inr)
  then have orders: "snapshot_sequence validate_order_event ''ORDER_EVENT_INVALID'' orders = Inr orders"
    by (rule classify_order_histories_Inr) (simp add: snapshot_sequence_Inr [OF validate_order_event_id])
  note seqs = complete_sequences [OF assms]
  have rows: "snapshot_postings D postings intents trades vs = Inr postings"
    unfolding snapshot_postings_def seqs(1) by (simp add: verify_with_values [OF vs] ver)
  show ?thesis
    by (simp add: reconciled_live_pnl_def complete_publishable [OF assms] seqs vs orders rows
        reconcile_with_values [OF vs] assms(1))
qed

text \<open>
  C7: a published profit is exact and only ever published on a closed account. When a profit is returned,
  the supplied reconciliation is complete and is the one the evidence reconstructs, and the profit is
  exactly the sum of the realized profits of the authoritative economics, all of them in one asset.
\<close>

theorem published_pnl_exact:
  assumes "reconciled_live_pnl D postings (Some c) snapshot intents trades economics orders = Inr (Some pnl)"
  shows "reconcile_live_account D postings snapshot intents trades economics orders = Inr c \<and> lr_complete c \<and>
    (\<exists>es a. ledger_economics D economics = Inr es \<and> dval pnl = (\<Sum>e\<leftarrow>es. pnl_value e) \<and>
       (\<forall>e \<in> set es. pnl_value e \<noteq> 0 \<longrightarrow> au_cash_asset_id e = a))"
proof -
  note c = reconciled_live_pnl_Some [OF assms]
  obtain canonical where "postings_for_confirmed_trades D intents trades economics = Inr canonical"
    using c(3) by (rule verified_rows)
  then obtain es where es: "ledger_economics D economics = Inr es" by (rule postings_Inr)
  obtain a where a: "\<forall>p \<in> set postings. pnl_row p \<longrightarrow> lp_asset_id p = a"
    "dval pnl = - net_total ''realized_pnl'' a postings"
    using c(4) by (rule published_pnl_Some)
  have one: "\<forall>e \<in> set es. pnl_value e \<noteq> 0 \<longrightarrow> au_cash_asset_id e = a"
    using posted_pnl_assets [OF c(3) es] a(1) by metis
  have "dval pnl = (\<Sum>e\<leftarrow>es. if au_cash_asset_id e = a then pnl_value e else 0)"
    unfolding a(2) booked_flows(4) [OF c(3) es] uminus_sum_list_map by (rule arg_cong [of _ _ sum_list]) simp
  also have "\<dots> = (\<Sum>e\<leftarrow>es. pnl_value e)"
    by (rule arg_cong [of _ _ sum_list]) (use one in auto)
  finally show ?thesis using c(1,2) es one by blast
qed

section \<open>An evaluated reconciliation\<close>

text \<open>One bought trade of ten units, observed between two cuts of the account; \<open>e\<close> are its economics.\<close>

definition example_amount :: "string \<Rightarrow> dec \<Rightarrow> nat \<Rightarrow> asset_amount" where
  "example_amount asset amount source =
     \<lparr>ao_asset_id = asset, ao_amount = amount, ao_quantum = Dec False 1 (-2), ao_evidence_hash = Sha256 source\<rparr>"

definition example_recent :: "trade_economics \<Rightarrow> recent_trade" where
  "example_recent e = \<lparr>rt_venue_trade_id = ''trade-1'', rt_venue_order_id = ''order-1'', rt_intent_id = Uuid 558565,
     rt_cash_asset_id = ''usdc'', rt_position_asset_id = ''yes'', rt_side = Buy, rt_state = CONFIRMED,
     rt_trade_event_hash = Sha256 2, rt_settlement_hash = Sha256 22, rt_fee_hash = Sha256 21, rt_source_hash = Sha256 23,
     rt_balance_evidence_hashes = [Sha256 24], rt_economics_fingerprint = economics_fingerprint example_digests e,
     rt_realized_pnl = au_realized_pnl e, rt_cost_basis_evidence_hash = au_cost_basis_evidence_hash e, rt_occurred_at = 15\<rparr>"

definition example_settlement :: settlement where
  "example_settlement = \<lparr>st_venue_trade_id = ''trade-1'', st_venue_order_id = ''order-1'', st_intent_id = Uuid 558565,
     st_position_asset_id = ''yes'', st_state = CONFIRMED, st_settlement_hash = Sha256 22, st_evidence_hash = Sha256 40,
     st_occurred_at = 15\<rparr>"

definition example_account :: "trade_economics \<Rightarrow> dec \<Rightarrow> account_snapshot" where
  "example_account e cash = \<lparr>va_account_fingerprint = Sha256 3, va_cutoff_at = 10, va_observed_at = 40,
     va_opening_cash_balances = [example_amount ''usdc'' (Dec False 100 0) 50],
     va_current_cash_balances = [example_amount ''usdc'' cash 51],
     va_opening_token_positions = [example_amount ''yes'' dec0 52],
     va_current_token_positions = [example_amount ''yes'' (Dec False 10 0) 53],
     va_opening_allowances = [], va_current_allowances = [],
     va_opening_cumulative_fees = [example_amount ''usdc'' dec0 54],
     va_current_cumulative_fees = [example_amount ''usdc'' (Dec False 1 (-2)) 55],
     va_open_orders = [], va_recent_trades = [example_recent e], va_settlements = [example_settlement],
     va_opening_cash_source_hash = Sha256 60, va_current_cash_source_hash = Sha256 61,
     va_opening_position_source_hash = Sha256 62, va_current_position_source_hash = Sha256 63,
     va_opening_allowance_source_hash = Sha256 64, va_current_allowance_source_hash = Sha256 65,
     va_opening_fee_source_hash = Sha256 66, va_current_fee_source_hash = Sha256 67,
     va_open_orders_source_hash = Sha256 68, va_recent_trades_source_hash = Sha256 69,
     va_settlements_source_hash = Sha256 70, va_snapshot_fingerprint = None\<rparr>"

definition closing_of :: "trade_economics \<Rightarrow> dec \<Rightarrow> (live_ledger_posting list \<times> live_reconciliation) result" where
  "closing_of e cash =
     bindE (postings_for_confirmed_trades example_digests [example_intent] [example_trade] [e]) (\<lambda>ps.
     bindE (reconcile_live_account example_digests ps (example_account e cash) [example_intent] [example_trade] [e] [])
       (\<lambda>c. Inr (ps, c)))"

definition profitable :: trade_economics where
  "profitable = example_economics\<lparr>au_realized_pnl := Some (Dec False 2 0), au_cost_basis_evidence_hash := Some (Sha256 25)\<rparr>"

text \<open>The account closes, ten units at one half and a fee later, and its profit is published.\<close>

lemma example_closes:
  "case closing_of profitable (Dec False 9499 (-2)) of
     Inr (ps, c) \<Rightarrow> lr_complete c \<and> rel_option deq (published_pnl ps) (Some (Dec False 2 0)) | _ \<Rightarrow> False"
  by code_simp

lemma example_profit_Inr:
  obtains ps c pnl where "closing_of profitable (Dec False 9499 (-2)) = Inr (ps, c)" and "dval pnl = 2"
    and "reconcile_live_account example_digests ps (example_account profitable (Dec False 9499 (-2)))
      [example_intent] [example_trade] [profitable] [] = Inr c" and "lr_complete c"
    and "reconciled_live_pnl example_digests ps (Some c) (example_account profitable (Dec False 9499 (-2)))
      [example_intent] [example_trade] [profitable] [] = Inr (Some pnl)"
proof -
  have two: "dval (Dec False 2 0) = 2" by code_simp
  obtain ps c where c: "closing_of profitable (Dec False 9499 (-2)) = Inr (ps, c)" "lr_complete c"
    and "rel_option deq (published_pnl ps) (Some (Dec False 2 0))"
    using example_closes by (auto split: sum.splits)
  then obtain pnl where pnl: "published_pnl ps = Some pnl" "dval pnl = 2"
    by (cases "published_pnl ps") (simp_all add: deq_iff two)
  have run: "reconcile_live_account example_digests ps (example_account profitable (Dec False 9499 (-2)))
      [example_intent] [example_trade] [profitable] [] = Inr c"
    using c(1) by (auto simp: closing_of_def bindE_eq_Inr)
  show thesis using that [OF c(1) pnl(2) run c(2)] complete_publishes [OF run c(2)] pnl(1) by simp
qed

lemma complete_reconciliation_closes_witness:
  "\<exists>ps c. closing_of profitable (Dec False 9499 (-2)) = Inr (ps, c) \<and>
     verify_live_conservation example_digests ps [example_intent] [example_trade] [profitable] = Inr ()"
proof (rule example_profit_Inr)
  fix ps c pnl assume c: "closing_of profitable (Dec False 9499 (-2)) = Inr (ps, c)" "lr_complete c"
    and run: "reconcile_live_account example_digests ps (example_account profitable (Dec False 9499 (-2)))
      [example_intent] [example_trade] [profitable] [] = Inr c"
  have "verify_live_conservation example_digests ps [example_intent] [example_trade] [profitable] = Inr ()"
    using complete_reconciliation_closes [OF run c(2)] by (elim exE conjE)
  with c(1) show ?thesis by (intro exI conjI)
qed

lemma published_pnl_exact_witness:
  "\<exists>ps c pnl. closing_of profitable (Dec False 9499 (-2)) = Inr (ps, c) \<and> lr_complete c \<and> dval pnl = 2 \<and>
     (\<exists>es. ledger_economics example_digests [profitable] = Inr es \<and> (\<Sum>e\<leftarrow>es. pnl_value e) = 2)"
proof (rule example_profit_Inr)
  fix ps c pnl assume c: "closing_of profitable (Dec False 9499 (-2)) = Inr (ps, c)" and val: "dval pnl = 2"
    and run: "reconciled_live_pnl example_digests ps (Some c) (example_account profitable (Dec False 9499 (-2)))
      [example_intent] [example_trade] [profitable] [] = Inr (Some pnl)"
  obtain es where "ledger_economics example_digests [profitable] = Inr es" "dval pnl = (\<Sum>e\<leftarrow>es. pnl_value e)" "lr_complete c"
    using published_pnl_exact [OF run] by (elim conjE exE)
  with c val show ?thesis by (intro exI conjI) simp_all
qed

end
