(* ===== verification/Pilot_Selector.thy ===== *)
theory Pilot_Selector
  imports Pilot_Policy Economics Shadow_Models
begin

text \<open>
  Selection of a live strategy (\<open>predictions/pilot/selector.py\<close>, and the shadow experiments of
  \<open>predictions/experiments.py\<close> it reads): eligible opportunities rebuilt from persisted evidence, their
  ranking, and the frozen plan with its recovery branches.  What the store returns at a cutoff is an
  argument.
\<close>

section \<open>Shadow experiments\<close>

text \<open>\<open>not value.strip()\<close>: only white space.\<close>

definition py_blank :: "string \<Rightarrow> bool" where
  "py_blank s = list_all (\<lambda>c. (of_char c :: nat) \<in> {9, 10, 11, 12, 13, 28, 29, 30, 31, 32, 133, 160}) s"

record shadow_experiment =
  sx_experiment_id :: uuid
  sx_family_id :: string
  sx_proposal_id :: uuid
  sx_scenario_id :: string
  sx_terminal_state :: shadow_state
  sx_paper_pnl_usd :: "dec option"
  sx_reconciled :: bool
  sx_as_of :: timestamp
  sx_observed_at :: timestamp

definition validate_experiment :: "shadow_experiment \<Rightarrow> shadow_experiment result" where
  "validate_experiment e =
     bindE (checkE
       [(\<not> (nonempty_string (sx_family_id e) \<and> nonempty_string (sx_scenario_id e)), ValueError ''experiment field''),
        (sx_terminal_state e \<notin> {Complete, Unwound, Expired, Unknown, Reconciled}, ValueError ''terminal_state''),
        (py_blank (sx_family_id e) \<or> py_blank (sx_scenario_id e),
         ValueError ''text fields must not be blank''),
        (sx_paper_pnl_usd e \<noteq> None \<and> \<not> sx_reconciled e, ValueError ''paper_pnl_usd requires reconciled=True'')])
       (\<lambda>_. Inr e)"

section \<open>Opportunities\<close>

datatype pilot_family = BINARY_COMPLEMENT_FAMILY | EXHAUSTIVE_SET_FAMILY | IMPLICATION_FAMILY | EQUIVALENCE_FAMILY

fun family_value :: "pilot_family \<Rightarrow> string" where
  "family_value BINARY_COMPLEMENT_FAMILY = ''binary_complement@1''"
| "family_value EXHAUSTIVE_SET_FAMILY = ''exhaustive_outcome_set@1''"
| "family_value IMPLICATION_FAMILY = ''logical_implication@1''"
| "family_value EQUIVALENCE_FAMILY = ''cross_venue_equivalence@1''"

definition ALL_FAMILIES :: "pilot_family list" where
  "ALL_FAMILIES = [BINARY_COMPLEMENT_FAMILY, EXHAUSTIVE_SET_FAMILY, IMPLICATION_FAMILY, EQUIVALENCE_FAMILY]"

record pilot_account =
  pc_account_fingerprint :: sha256
  pc_wallet_fingerprint :: sha256
  pc_collateral_usd :: dec
  pc_allowance_usd :: dec
  pc_kill_engaged :: bool
  pc_observed_at :: timestamp

record pilot_leg =
  pg_leg_index :: int
  pg_outcome_token_id :: string
  pg_side :: side
  pg_limit_price :: dec
  pg_size :: dec
  pg_order_type :: immediate_order_type

definition leg_notional :: "pilot_leg \<Rightarrow> dec" where
  "leg_notional l = dmul (pg_limit_price l) (pg_size l)"

definition validate_pilot_leg :: "pilot_leg \<Rightarrow> pilot_leg result" where
  "validate_pilot_leg l =
     (if 0 \<le> pg_leg_index l \<and> positive_decimal (pg_limit_price l) \<and> positive_decimal (pg_size l)
      then Inr l else Inl (ValueError ''pilot leg''))"

record pilot_opportunity =
  pq_proof_id :: uuid
  pq_candidate_id :: uuid
  pq_proposal_id :: uuid
  pq_proof_family :: pilot_family
  pq_legs :: "pilot_leg list"
  pq_current_surplus_usd :: dec
  pq_stressed_surplus_usd :: dec
  pq_capacity_usd :: dec
  pq_incomplete_loss_usd :: dec
  pq_deployed_capital_usd :: dec
  pq_evidence_hashes :: "sha256 list"
  pq_information_cutoff :: timestamp

definition validate_opportunity :: "pilot_opportunity \<Rightarrow> pilot_opportunity result" where
  "validate_opportunity q =
     bindE (mapE validate_pilot_leg (pq_legs q)) (\<lambda>_.
     bindE (checkE
       [(\<not> (nonnegative_decimal (pq_capacity_usd q) \<and> nonnegative_decimal (pq_incomplete_loss_usd q) \<and>
            positive_decimal (pq_deployed_capital_usd q)), ValueError ''opportunity''),
        (length (pq_legs q) < 2, ValueError ''a pilot strategy needs at least two legs''),
        (map pg_leg_index (pq_legs q) \<noteq> map int [0..<length (pq_legs q)],
         ValueError ''legs must be indexed consecutively from zero'')])
       (\<lambda>_. Inr q))"

definition incomplete_loss_ratio :: "pilot_opportunity \<Rightarrow> dec result" where
  "incomplete_loss_ratio q = ddiv (pq_incomplete_loss_usd q) (pq_deployed_capital_usd q)"

definition gross_notional :: "pilot_leg list \<Rightarrow> dec" where
  "gross_notional legs = dsum (map leg_notional legs)"

section \<open>Ranking\<close>

text \<open>
  The tuples Python sorts by compare decimals by value; the text of a UUID compares like its number.
\<close>

type_synonym ranking_key = "rat \<times> rat \<times> rat \<times> uuid"

definition ranking_key :: "pilot_opportunity \<Rightarrow> ranking_key result" where
  "ranking_key q = bindE (incomplete_loss_ratio q) (\<lambda>ratio.
     Inr (dval ratio, dval (dminus (pq_stressed_surplus_usd q)), dval (dminus (pq_capacity_usd q)), pq_proof_id q))"

definition rank_pilot_opportunities :: "pilot_opportunity list \<Rightarrow> pilot_opportunity list result" where
  "rank_pilot_opportunities opportunities =
     bindE (mapE (\<lambda>q. bindE (ranking_key q) (\<lambda>k. Inr (k, q))) opportunities) (\<lambda>keyed.
     Inr (map snd (sort_key fst keyed)))"

datatype tie_break_field = Tie_incomplete_loss_ratio | Tie_stressed_surplus | Tie_capacity | Tie_proof_id

definition first_tie_break_field :: "pilot_opportunity \<Rightarrow> pilot_opportunity \<Rightarrow> tie_break_field result" where
  "first_tie_break_field left right =
     bindE (incomplete_loss_ratio left) (\<lambda>l. bindE (incomplete_loss_ratio right) (\<lambda>r.
     Inr (if \<not> deq l r then Tie_incomplete_loss_ratio
          else if \<not> deq (pq_stressed_surplus_usd left) (pq_stressed_surplus_usd right) then Tie_stressed_surplus
          else if \<not> deq (pq_capacity_usd left) (pq_capacity_usd right) then Tie_capacity
          else Tie_proof_id)))"

section \<open>Eligibility\<close>

definition MAXIMUM_EVIDENCE_AGE :: int where
  "MAXIMUM_EVIDENCE_AGE = seconds 300"

definition INCOMPLETE_LOSS_CAP :: dec where
  "INCOMPLETE_LOSS_CAP = dmul (Dec False 25 (- 4)) (pv_wallet_trading_equity PILOT_CEILINGS)"

definition require_eligible ::
  "pilot_opportunity \<Rightarrow> pilot_account \<Rightarrow> pilot_limits \<Rightarrow> pilot_family list \<Rightarrow> timestamp \<Rightarrow> unit result" where
  "require_eligible q account limits enabled_families as_of =
     checkE ([(pc_kill_engaged account, PilotSelectionError ''KILL_ENGAGED''),
        (pq_proof_family q \<notin> set enabled_families, PilotSelectionError ''FAMILY_NOT_ENABLED''),
        (MAXIMUM_EVIDENCE_AGE < as_of - pq_information_cutoff q, PilotSelectionError ''EVIDENCE_STALE''),
        (dle (pq_current_surplus_usd q) dec0, PilotSelectionError ''SURPLUS_NOT_POSITIVE''),
        (dle (pq_stressed_surplus_usd q) dec0, PilotSelectionError ''STRESSED_SURPLUS_NOT_POSITIVE''),
        (dle INCOMPLETE_LOSS_CAP (pq_incomplete_loss_usd q), PilotSelectionError ''INCOMPLETE_LOSS_EXCEEDED'')] @
       map (\<lambda>leg. (dlt (pv_order_notional limits) (leg_notional leg), PilotSelectionError ''ORDER_NOTIONAL_EXCEEDED''))
         (pq_legs q) @
       [(dlt (pv_strategy_gross_notional limits) (gross_notional (pq_legs q)),
         PilotSelectionError ''STRATEGY_NOTIONAL_EXCEEDED''),
        (dlt (pv_session_deployed_capital limits) (pq_deployed_capital_usd q),
         PilotSelectionError ''STRATEGY_NOTIONAL_EXCEEDED''),
        (dlt (pc_collateral_usd account) (pq_deployed_capital_usd q), PilotSelectionError ''INSUFFICIENT_BALANCE''),
        (dlt (pc_allowance_usd account) (gross_notional (pq_legs q)), PilotSelectionError ''INSUFFICIENT_ALLOWANCE'')])"

section \<open>Opportunities from persisted evidence\<close>

definition family_for :: "string \<Rightarrow> pilot_family option" where
  "family_for template = find (\<lambda>family. family_value family = template) ALL_FAMILIES"

text \<open>An empty token id counts as missing.\<close>

definition leg_from_plan :: "nat \<times> shadow_leg_plan \<Rightarrow> pilot_leg result" where
  "leg_from_plan = (\<lambda>(index, leg).
     case sl_limit_price_levels leg of
       [] \<Rightarrow> Inl IndexError
     | (price, available) # _ \<Rightarrow> validate_pilot_leg
         \<lparr>pg_leg_index = int index,
          pg_outcome_token_id = (case sl_outcome_token_id leg of None \<Rightarrow> sl_market_id leg
            | Some t \<Rightarrow> if t = [] then sl_market_id leg else t),
          pg_side = Buy, pg_limit_price = price, pg_size = dmin available (sl_max_quantity leg), pg_order_type = FAK\<rparr>)"

definition legs_from_plan :: "shadow_plan \<Rightarrow> pilot_leg list result" where
  "legs_from_plan plan = mapE leg_from_plan (enumerate 0 (pl_legs plan))"

definition surviving_state :: "shadow_state \<Rightarrow> bool" where
  "surviving_state s \<longleftrightarrow> s = Complete \<or> s = Reconciled"

definition stressed_proposals :: "shadow_experiment list \<Rightarrow> uuid list" where
  "stressed_proposals experiments = map sx_proposal_id (filter (\<lambda>e. sx_scenario_id e = ''latency_5s'' \<and>
     surviving_state (sx_terminal_state e) \<and> (case sx_paper_pnl_usd e of None \<Rightarrow> False | Some v \<Rightarrow> dlt dec0 v)) experiments)"

definition replayed_proposals :: "shadow_experiment list \<Rightarrow> uuid list" where
  "replayed_proposals experiments = map sx_proposal_id
     (filter (\<lambda>e. sx_scenario_id e = ''baseline'' \<and> surviving_state (sx_terminal_state e)) experiments)"

text \<open>The evaluated reports that name a proof; of several for one proof the last stays.\<close>

definition evaluated_reports :: "scan_report list \<Rightarrow> (uuid option, scan_report \<times> economics_result) dict" where
  "evaluated_reports reports = index_by (\<lambda>(r, _). sc_proof_id r)
     (List.map_filter (\<lambda>r. case (sc_proof_id r, sc_economics r) of
        (Some _, Some e) \<Rightarrow> if er_status e = Basket_evaluated then Some (r, e) else None | _ \<Rightarrow> None) reports)"

definition opportunity_of_plan ::
  "(uuid, proof_artifact) dict \<Rightarrow> (uuid option, scan_report \<times> economics_result) dict \<Rightarrow> uuid list \<Rightarrow> uuid list \<Rightarrow>
     shadow_plan \<Rightarrow> pilot_opportunity option result" where
  "opportunity_of_plan artifacts reports stressed replayed plan =
     (case (map_of artifacts (pl_proof_id plan), map_of reports (Some (pl_proof_id plan))) of
        (Some artifact, Some (report, economics)) \<Rightarrow>
          if list_ex (\<lambda>leg. sl_venue leg \<noteq> Polymarket) (pl_legs plan) then Inr None
          else (case family_for (pa_template artifact) of
            None \<Rightarrow> Inr None
          | Some family \<Rightarrow>
              if pl_proposal_id plan \<notin> set replayed then Inr None
              else bindE (legs_from_plan plan) (\<lambda>legs.
                bindE (validate_opportunity
                  \<lparr>pq_proof_id = pl_proof_id plan, pq_candidate_id = pl_candidate_id plan,
                   pq_proposal_id = pl_proposal_id plan, pq_proof_family = family, pq_legs = legs,
                   pq_current_surplus_usd = er_conservative_surplus_usd economics,
                   pq_stressed_surplus_usd =
                     (if pl_proposal_id plan \<in> set stressed then er_doubled_cost_surplus_usd economics else dec0),
                   pq_capacity_usd = er_capacity_usd_at_current_depth economics,
                   pq_incomplete_loss_usd = pl_max_incomplete_loss_usd plan,
                   pq_deployed_capital_usd = dmax (er_all_in_cost_usd economics) (Dec False 1 (- 2)),
                   pq_evidence_hashes = py_sorted_set (pa_source_hashes artifact @ pl_frozen_hashes plan),
                   pq_information_cutoff = min (pl_information_cutoff plan) (sc_as_of report)\<rparr>)
                  (\<lambda>q. Inr (Some q))))
      | _ \<Rightarrow> Inr None)"

text \<open>\<open>try: require_eligible(...)  except PilotSelectionError: continue\<close>.\<close>

definition keep_eligible ::
  "pilot_account \<Rightarrow> pilot_limits \<Rightarrow> pilot_family list \<Rightarrow> timestamp \<Rightarrow> pilot_opportunity option \<Rightarrow> bool" where
  "keep_eligible account limits families as_of found =
     (case found of None \<Rightarrow> False | Some q \<Rightarrow> require_eligible q account limits families as_of = Inr ())"

text \<open>A family set that is absent or empty stands for all families.\<close>

definition eligible_opportunities ::
  "proof_artifact list \<Rightarrow> shadow_experiment list \<Rightarrow> scan_report list \<Rightarrow> shadow_plan list \<Rightarrow> pilot_account \<Rightarrow> timestamp \<Rightarrow>
     pilot_limits option \<Rightarrow> pilot_family list option \<Rightarrow> pilot_opportunity list result" where
  "eligible_opportunities artifacts experiments reports plans account as_of limits enabled_families =
     (let effective = (case limits of None \<Rightarrow> PILOT_CEILINGS | Some l \<Rightarrow> l);
          families = (case enabled_families of None \<Rightarrow> ALL_FAMILIES | Some fs \<Rightarrow> if fs = [] then ALL_FAMILIES else fs);
          ready = index_by pa_proof_id (filter (\<lambda>a. pa_status a = Proof_ready) artifacts) in
      bindE (mapE (opportunity_of_plan ready (evaluated_reports reports) (stressed_proposals experiments)
                (replayed_proposals experiments)) plans) (\<lambda>found.
      rank_pilot_opportunities (map the (filter (keep_eligible account effective families as_of) found))))"

section \<open>The frozen plan\<close>

record recovery_branch =
  fb_leg :: pilot_leg
  fb_worst_case_exposure_before_usd :: dec
  fb_worst_case_exposure_after_usd :: dec

text \<open>The trigger is always \<open>LEG_INCOMPLETE\<close> and the additional capital always zero.\<close>

definition validate_recovery_branch :: "recovery_branch \<Rightarrow> recovery_branch result" where
  "validate_recovery_branch b =
     bindE (validate_pilot_leg (fb_leg b)) (\<lambda>_.
     bindE (checkE
       [(\<not> (nonnegative_decimal (fb_worst_case_exposure_before_usd b) \<and>
            nonnegative_decimal (fb_worst_case_exposure_after_usd b)), ValueError ''recovery branch''),
        (dle (fb_worst_case_exposure_before_usd b) (fb_worst_case_exposure_after_usd b),
         ValueError ''a recovery branch must reduce worst-case incomplete exposure'')])
       (\<lambda>_. Inr b))"

record frozen_plan =
  fp_proof_id :: uuid
  fp_proposal_id :: uuid
  fp_account_fingerprint :: sha256
  fp_wallet_fingerprint :: sha256
  fp_legs :: "pilot_leg list"
  fp_recovery_branches :: "recovery_branch list"
  fp_gross_notional_usd :: dec
  fp_deployed_capital_usd :: dec
  fp_worst_case_incomplete_loss_usd :: dec
  fp_effective_limits :: pilot_limits
  fp_evidence_hashes :: "sha256 list"
  fp_deadline :: timestamp
  fp_information_cutoff :: timestamp

definition validate_frozen_plan :: "frozen_plan \<Rightarrow> frozen_plan result" where
  "validate_frozen_plan p =
     bindE (mapE validate_pilot_leg (fp_legs p)) (\<lambda>_.
     bindE (mapE validate_recovery_branch (fp_recovery_branches p)) (\<lambda>_.
     bindE (validate_pilot_limits (fp_effective_limits p)) (\<lambda>_.
     if positive_decimal (fp_gross_notional_usd p) \<and> positive_decimal (fp_deployed_capital_usd p) \<and>
        nonnegative_decimal (fp_worst_case_incomplete_loss_usd p)
     then Inr p else Inl (ValueError ''frozen plan''))))"

definition recovery_branch_of :: "pilot_opportunity \<Rightarrow> pilot_leg \<Rightarrow> recovery_branch result" where
  "recovery_branch_of q leg =
     bindE (validate_pilot_leg (leg\<lparr>pg_side := (if pg_side leg = Buy then Sell else Buy), pg_order_type := FOK\<rparr>)) (\<lambda>unwind.
     validate_recovery_branch
       \<lparr>fb_leg = unwind, fb_worst_case_exposure_before_usd = leg_notional leg,
        fb_worst_case_exposure_after_usd = pq_incomplete_loss_usd q\<rparr>)"

definition recovery_branches :: "pilot_opportunity \<Rightarrow> recovery_branch list result" where
  "recovery_branches q = mapE (recovery_branch_of q) (butlast (pq_legs q))"

definition compile_frozen_pilot_plan ::
  "pilot_opportunity \<Rightarrow> pilot_limits \<Rightarrow> pilot_account \<Rightarrow> timestamp \<Rightarrow> frozen_plan result" where
  "compile_frozen_pilot_plan q limits account deadline =
     bindE (require_eligible q account limits ALL_FAMILIES (pq_information_cutoff q)) (\<lambda>_.
     bindE (recovery_branches q) (\<lambda>recovery.
     let recovery_notional = gross_notional (map fb_leg recovery) in
     bindE (checkE
       (map (\<lambda>b. (dlt (pv_order_notional limits) (leg_notional (fb_leg b)), PilotSelectionError ''ORDER_NOTIONAL_EXCEEDED'')) recovery @
        [(dlt (pv_strategy_gross_notional limits) (dadd (gross_notional (pq_legs q)) recovery_notional),
          PilotSelectionError ''STRATEGY_NOTIONAL_EXCEEDED'')])) (\<lambda>_.
     validate_frozen_plan
       \<lparr>fp_proof_id = pq_proof_id q, fp_proposal_id = pq_proposal_id q,
        fp_account_fingerprint = pc_account_fingerprint account, fp_wallet_fingerprint = pc_wallet_fingerprint account,
        fp_legs = pq_legs q, fp_recovery_branches = recovery,
        fp_gross_notional_usd = dadd (gross_notional (pq_legs q)) recovery_notional,
        fp_deployed_capital_usd = pq_deployed_capital_usd q,
        fp_worst_case_incomplete_loss_usd = pq_incomplete_loss_usd q, fp_effective_limits = limits,
        fp_evidence_hashes = pq_evidence_hashes q, fp_deadline = deadline,
        fp_information_cutoff = pq_information_cutoff q\<rparr>)))"

end
