(* ===== verification/Pilot_Capabilities.thy ===== *)
theory Pilot_Capabilities
  imports Authority Pilot_Policy
begin

text \<open>
  The pilot's capabilities (\<open>predictions/pilot/capabilities.py\<close>, \<open>predictions/pilot/verifier.py\<close>, with the
  challenge of \<open>predictions/pilot/models.py\<close> and the assertion of \<open>predictions/pilot/passkeys.py\<close>): a verified
  operator assertion is turned into a primary and a recovery grant, a grant is projected into the
  capability the authority layer checks, and the boundary's context is assembled from it.  The signature
  scheme is a parameter.
\<close>

section \<open>Challenges and assertions\<close>

definition RECOVERY_OPERATIONS :: "execution_operation list" where
  "RECOVERY_OPERATIONS = [CANCEL_ORDER, READ_ACCOUNT, READ_ORDERS, READ_TRADES]"

definition pilot_limits_content :: "pilot_limits \<Rightarrow> jval" where
  "pilot_limits_content l =
     JObj [(''wallet_trading_equity'', JDec (pv_wallet_trading_equity l)), (''order_notional'', JDec (pv_order_notional l)),
           (''strategy_gross_notional'', JDec (pv_strategy_gross_notional l)),
           (''session_duration'', JInt (pv_session_duration l)),
           (''session_deployed_capital'', JDec (pv_session_deployed_capital l)),
           (''concurrent_strategies'', JInt (pv_concurrent_strategies l)),
           (''session_loss'', JDec (pv_session_loss l)), (''utc_day_loss'', JDec (pv_utc_day_loss l))]"

definition PILOT_CEILING_HASH :: "digests \<Rightarrow> sha256" where
  "PILOT_CEILING_HASH D = canonical_execution_hash D (pilot_limits_content PILOT_CEILINGS)"

datatype challenge_state = CHALLENGE_ISSUED | CHALLENGE_USED | CHALLENGE_REJECTED | CHALLENGE_EXPIRED

record authorization_challenge =
  ac_challenge_id :: uuid
  ac_account_fingerprint :: sha256
  ac_wallet_fingerprint :: sha256
  ac_browser_session_hash :: sha256
  ac_credential_id_hash :: sha256
  ac_mode :: authorization_mode
  ac_grant_kind :: grant_kind
  ac_target_id :: uuid
  ac_policy_id :: uuid
  ac_evidence_hashes :: "sha256 list"
  ac_requested_limits_hash :: sha256
  ac_ceiling_hash :: sha256
  ac_allowed_operations :: "execution_operation list"
  ac_recovery_operations :: "execution_operation list"
  ac_confirmation_text :: string
  ac_confirmation_text_hash :: sha256
  ac_nonce :: string
  ac_state :: challenge_state
  ac_not_before :: timestamp
  ac_expires_at :: timestamp

definition validate_challenge :: "digests \<Rightarrow> authorization_challenge \<Rightarrow> authorization_challenge result" where
  "validate_challenge D c =
     bindE (checkE
       [(\<not> (nonempty_string (ac_confirmation_text c) \<and> nonempty_string (ac_nonce c)), ValueError ''challenge field''),
        (ac_evidence_hashes c = [], ValueError ''evidence_hashes must not be empty''),
        (\<not> sorted_unique (ac_evidence_hashes c), ValueError ''evidence_hashes must be sorted and unique''),
        (\<not> sorted_unique (map operation_value (ac_allowed_operations c)), ValueError ''allowed_operations must be sorted and unique''),
        (\<not> sorted_unique (map operation_value (ac_recovery_operations c)), ValueError ''recovery_operations must be sorted and unique''),
        (ac_expires_at c \<le> ac_not_before c, ValueError ''expires_at must follow not_before''),
        (ac_ceiling_hash c \<noteq> PILOT_CEILING_HASH D, ValueError ''ceiling_hash must bind the compiled immutable ceilings''),
        (list_ex (\<lambda>op. op \<notin> set RECOVERY_OPERATIONS) (ac_recovery_operations c),
         ValueError ''recovery_operations may only inspect or cancel''),
        (ac_grant_kind c = CREDENTIAL_PROVISIONING \<and> (ac_allowed_operations c \<noteq> [] \<or> ac_recovery_operations c \<noteq> []),
         ValueError ''a CREDENTIAL_PROVISIONING challenge grants no execution operation''),
        (ac_grant_kind c \<noteq> CREDENTIAL_PROVISIONING \<and> ac_allowed_operations c = [],
         ValueError ''a trading challenge must name its allowed_operations'')])
       (\<lambda>_. Inr c)"

fun mode_value :: "authorization_mode \<Rightarrow> string" where
  "mode_value EXACT_ORDER = ''EXACT_ORDER''"
| "mode_value COMPLETE_STRATEGY = ''COMPLETE_STRATEGY''"
| "mode_value AUTOMATION_SESSION = ''AUTOMATION_SESSION''"

fun grant_kind_value :: "grant_kind \<Rightarrow> string" where
  "grant_kind_value PRIMARY = ''PRIMARY''"
| "grant_kind_value RECOVERY = ''RECOVERY''"
| "grant_kind_value CREDENTIAL_PROVISIONING = ''CREDENTIAL_PROVISIONING''"

definition joperations :: "execution_operation list \<Rightarrow> jval" where
  "joperations ops = JList (map (\<lambda>op. JText (operation_value op)) ops)"

definition action_challenge_digest :: "digests \<Rightarrow> authorization_challenge \<Rightarrow> sha256" where
  "action_challenge_digest D c = canonical_execution_hash D (JObj
     [(''account_fingerprint'', JHash (ac_account_fingerprint c)),
      (''allowed_operations'', joperations (ac_allowed_operations c)),
      (''browser_session_hash'', JHash (ac_browser_session_hash c)), (''ceiling_hash'', JHash (ac_ceiling_hash c)),
      (''challenge_id'', JUuid (ac_challenge_id c)), (''confirmation_text_hash'', JHash (ac_confirmation_text_hash c)),
      (''credential_id_hash'', JHash (ac_credential_id_hash c)), (''evidence_hashes'', jhashes (ac_evidence_hashes c)),
      (''expires_at'', JTime (ac_expires_at c)), (''grant_kind'', JText (grant_kind_value (ac_grant_kind c))),
      (''mode'', JText (mode_value (ac_mode c))), (''nonce'', JText (ac_nonce c)),
      (''not_before'', JTime (ac_not_before c)), (''policy_id'', JUuid (ac_policy_id c)),
      (''recovery_operations'', joperations (ac_recovery_operations c)),
      (''requested_limits_hash'', JHash (ac_requested_limits_hash c)), (''target_id'', JUuid (ac_target_id c)),
      (''wallet_fingerprint'', JHash (ac_wallet_fingerprint c))])"

record operator_assertion =
  av_challenge_id :: uuid
  av_credential_id_hash :: sha256
  av_browser_session_hash :: sha256
  av_account_fingerprint :: sha256
  av_action_digest :: sha256
  av_assertion_digest :: sha256
  av_sign_count :: int
  av_verified_at :: timestamp

section \<open>Requests and grants\<close>

record venue_binding =
  vb_venue :: prediction_venue
  vb_manifest_record_hash :: sha256
  vb_manifest_source_hashes :: "sha256 list"
  vb_eligibility_evidence_hashes :: "sha256 list"
  vb_strategy_policy_hash :: sha256
  vb_proof_policy_hash :: sha256
  vb_economics_policy_hash :: sha256
  vb_protocol_fixture_hash :: sha256
  vb_route_set_version :: string
  vb_route_set_hash :: sha256

definition validate_venue_binding :: "venue_binding \<Rightarrow> venue_binding result" where
  "validate_venue_binding b =
     bindE (checkE
       [(\<not> nonempty_string (vb_route_set_version b), ValueError ''route_set_version''),
        (vb_manifest_source_hashes b = [] \<or> vb_eligibility_evidence_hashes b = [],
         ValueError ''venue binding evidence must not be empty''),
        (\<not> (sorted_unique (vb_manifest_source_hashes b) \<and> sorted_unique (vb_eligibility_evidence_hashes b)),
         ValueError ''venue binding evidence must be sorted and unique'')])
       (\<lambda>_. Inr b)"

record capability_request =
  cq_capability_id :: uuid
  cq_recovery_capability_id :: uuid
  cq_challenge_id :: uuid
  cq_mode :: authorization_mode
  cq_venue_binding :: venue_binding
  cq_account_fingerprint :: sha256
  cq_wallet_fingerprint :: sha256
  cq_browser_session_hash :: sha256
  cq_policy_id :: uuid
  cq_target_id :: uuid
  cq_session_id :: "uuid option"
  cq_effective_limits :: pilot_limits
  cq_requested_limits_hash :: sha256
  cq_ceiling_hash :: sha256
  cq_plan_hash :: sha256
  cq_strategy_hash :: sha256
  cq_proof_family_hash :: sha256
  cq_recovery_policy_hash :: sha256
  cq_evidence_hashes :: "sha256 list"
  cq_allowed_operations :: "execution_operation list"
  cq_recovery_operations :: "execution_operation list"
  cq_primary_nonce :: string
  cq_recovery_nonce :: string
  cq_not_before :: timestamp
  cq_expires_at :: timestamp
  cq_recovery_expires_at :: timestamp
  cq_presence_deadline :: timestamp

definition validate_capability_request :: "capability_request \<Rightarrow> capability_request result" where
  "validate_capability_request r =
     bindE (validate_venue_binding (cq_venue_binding r)) (\<lambda>_.
     bindE (validate_pilot_limits (cq_effective_limits r)) (\<lambda>_.
     bindE (checkE
       [(\<not> (nonempty_string (cq_primary_nonce r) \<and> nonempty_string (cq_recovery_nonce r)), ValueError ''nonce''),
        (\<not> (sorted_unique (cq_evidence_hashes r) \<and> sorted_unique (map operation_value (cq_allowed_operations r)) \<and>
            sorted_unique (map operation_value (cq_recovery_operations r))), ValueError ''field must be sorted and unique''),
        (cq_capability_id r = cq_recovery_capability_id r,
         ValueError ''primary and recovery grants must have distinct identities''),
        (cq_primary_nonce r = cq_recovery_nonce r, ValueError ''primary and recovery grants must have distinct nonces'')])
       (\<lambda>_. Inr r)))"

record capability_grant =
  cg_capability_id :: uuid
  cg_challenge_id :: uuid
  cg_grant_kind :: grant_kind
  cg_mode :: authorization_mode
  cg_venue_binding :: venue_binding
  cg_account_fingerprint :: sha256
  cg_wallet_fingerprint :: sha256
  cg_parent_action_id :: uuid
  cg_session_id :: "uuid option"
  cg_effective_limits :: pilot_limits
  cg_requested_limits_hash :: sha256
  cg_ceiling_hash :: sha256
  cg_plan_hash :: sha256
  cg_strategy_hash :: sha256
  cg_proof_family_hash :: sha256
  cg_recovery_policy_hash :: sha256
  cg_browser_session_hash :: sha256
  cg_passkey_assertion_digest :: sha256
  cg_evidence_hashes :: "sha256 list"
  cg_allowed_operations :: "execution_operation list"
  cg_single_use :: bool
  cg_nonce :: string
  cg_issuer_key_id :: string
  cg_not_before :: timestamp
  cg_expires_at :: timestamp
  cg_presence_deadline :: timestamp

definition venue_binding_content :: "venue_binding \<Rightarrow> jval" where
  "venue_binding_content b =
     JObj [(''venue'', JText (venue_value (vb_venue b))), (''manifest_record_hash'', JHash (vb_manifest_record_hash b)),
           (''manifest_source_hashes'', jhashes (vb_manifest_source_hashes b)),
           (''eligibility_evidence_hashes'', jhashes (vb_eligibility_evidence_hashes b)),
           (''strategy_policy_hash'', JHash (vb_strategy_policy_hash b)), (''proof_policy_hash'', JHash (vb_proof_policy_hash b)),
           (''economics_policy_hash'', JHash (vb_economics_policy_hash b)),
           (''protocol_fixture_hash'', JHash (vb_protocol_fixture_hash b)),
           (''route_set_version'', JText (vb_route_set_version b)), (''route_set_hash'', JHash (vb_route_set_hash b))]"

definition grant_content :: "capability_grant \<Rightarrow> jval" where
  "grant_content g =
     JObj [(''capability_id'', JUuid (cg_capability_id g)), (''challenge_id'', JUuid (cg_challenge_id g)),
           (''grant_kind'', JText (grant_kind_value (cg_grant_kind g))), (''mode'', JText (mode_value (cg_mode g))),
           (''venue_binding'', venue_binding_content (cg_venue_binding g)),
           (''account_fingerprint'', JHash (cg_account_fingerprint g)), (''wallet_fingerprint'', JHash (cg_wallet_fingerprint g)),
           (''parent_action_id'', JUuid (cg_parent_action_id g)), (''session_id'', jopt JUuid (cg_session_id g)),
           (''effective_limits'', pilot_limits_content (cg_effective_limits g)),
           (''requested_limits_hash'', JHash (cg_requested_limits_hash g)), (''ceiling_hash'', JHash (cg_ceiling_hash g)),
           (''plan_hash'', JHash (cg_plan_hash g)), (''strategy_hash'', JHash (cg_strategy_hash g)),
           (''proof_family_hash'', JHash (cg_proof_family_hash g)),
           (''recovery_policy_hash'', JHash (cg_recovery_policy_hash g)),
           (''browser_session_hash'', JHash (cg_browser_session_hash g)),
           (''passkey_assertion_digest'', JHash (cg_passkey_assertion_digest g)),
           (''evidence_hashes'', jhashes (cg_evidence_hashes g)),
           (''allowed_operations'', joperations (cg_allowed_operations g)), (''single_use'', JBool (cg_single_use g)),
           (''nonce'', JText (cg_nonce g)), (''issuer_key_id'', JText (cg_issuer_key_id g)),
           (''not_before'', JTime (cg_not_before g)), (''expires_at'', JTime (cg_expires_at g)),
           (''presence_deadline'', JTime (cg_presence_deadline g))]"

definition grant_digest :: "digests \<Rightarrow> capability_grant \<Rightarrow> sha256" where
  "grant_digest D g = canonical_execution_hash D (grant_content g)"

section \<open>Signatures\<close>

text \<open>
  Ed25519 is a library: the bytes of a key or a signature are a number, \<open>sign\<close> signs a digest under a
  private key of the given public key, \<open>check\<close> verifies it and answers \<open>False\<close> for malformed input.
\<close>

record signature_scheme =
  sig_sign :: "nat \<Rightarrow> sha256 \<Rightarrow> nat"
  sig_check :: "nat \<Rightarrow> nat \<Rightarrow> sha256 \<Rightarrow> bool"

record signed_capability =
  sg_grant :: capability_grant
  sg_signature :: nat
  sg_public_verification_key :: nat

record grant_pair =
  gp_primary :: signed_capability
  gp_recovery :: signed_capability

definition verify_capability_signature :: "digests \<Rightarrow> signature_scheme \<Rightarrow> signed_capability \<Rightarrow> nat \<Rightarrow> bool" where
  "verify_capability_signature D S c public_key \<longleftrightarrow>
     sg_public_verification_key c = public_key \<and> sig_check S public_key (sg_signature c) (grant_digest D (sg_grant c))"

section \<open>The issuer\<close>

record issuer_state =
  is_public_key :: nat
  is_key_id :: string
  is_closed :: bool
  is_claimed_nonces :: "string list"
  is_issued_capabilities :: "uuid list"

definition close_issuer :: "issuer_state \<Rightarrow> issuer_state" where
  "close_issuer i = i\<lparr>is_closed := True\<rparr>"

fun maximum_primary_lifetime :: "authorization_mode \<Rightarrow> int" where
  "maximum_primary_lifetime EXACT_ORDER = seconds 60"
| "maximum_primary_lifetime COMPLETE_STRATEGY = seconds 300"
| "maximum_primary_lifetime AUTOMATION_SESSION = seconds 900"

definition MAXIMUM_RECOVERY_LIFETIME :: int where
  "MAXIMUM_RECOVERY_LIFETIME = seconds 120"

definition single_use_mode :: "authorization_mode \<Rightarrow> bool" where
  "single_use_mode m \<longleftrightarrow> m = EXACT_ORDER \<or> m = COMPLETE_STRATEGY"

definition binding_checks ::
  "digests \<Rightarrow> capability_request \<Rightarrow> operator_assertion \<Rightarrow> authorization_challenge \<Rightarrow> (bool \<times> py_error) list" where
  "binding_checks D request assertion challenge =
     [(ac_challenge_id challenge \<noteq> cq_challenge_id request, CapabilityIssueError ''CHALLENGE_MISMATCH''),
      (av_challenge_id assertion \<noteq> cq_challenge_id request, CapabilityIssueError ''CHALLENGE_MISMATCH''),
      (ac_mode challenge \<noteq> cq_mode request, CapabilityIssueError ''MODE_MISMATCH''),
      (ac_grant_kind challenge \<noteq> PRIMARY, CapabilityIssueError ''GRANT_KIND_MISMATCH''),
      (av_action_digest assertion \<noteq> action_challenge_digest D challenge, CapabilityIssueError ''ACTION_DIGEST_MISMATCH''),
      (av_account_fingerprint assertion \<noteq> cq_account_fingerprint request, CapabilityIssueError ''ACCOUNT_MISMATCH''),
      (av_browser_session_hash assertion \<noteq> cq_browser_session_hash request, CapabilityIssueError ''BROWSER_SESSION_MISMATCH''),
      (cq_ceiling_hash request \<noteq> PILOT_CEILING_HASH D, CapabilityIssueError ''CEILING_MISMATCH''),
      (ac_requested_limits_hash challenge \<noteq> cq_requested_limits_hash request, CapabilityIssueError ''LIMITS_MISMATCH''),
      (set (ac_allowed_operations challenge) \<noteq> set (cq_allowed_operations request) \<or>
         set (ac_recovery_operations challenge) \<noteq> set (cq_recovery_operations request),
       CapabilityIssueError ''LIMITS_MISMATCH'')]"

definition lifetime_checks :: "capability_request \<Rightarrow> (bool \<times> py_error) list" where
  "lifetime_checks request =
     [(cq_expires_at request - cq_not_before request \<le> 0, CapabilityIssueError ''PRIMARY_LIFETIME_EXCEEDED''),
      (maximum_primary_lifetime (cq_mode request) < cq_expires_at request - cq_not_before request,
       CapabilityIssueError ''PRIMARY_LIFETIME_EXCEEDED''),
      (cq_expires_at request + MAXIMUM_RECOVERY_LIFETIME < cq_recovery_expires_at request,
       CapabilityIssueError ''RECOVERY_LIFETIME_EXCEEDED''),
      (cq_recovery_expires_at request \<le> cq_not_before request, CapabilityIssueError ''RECOVERY_LIFETIME_EXCEEDED''),
      (list_ex (\<lambda>op. op \<notin> set RECOVERY_OPERATIONS) (cq_recovery_operations request),
       CapabilityIssueError ''RECOVERY_OPERATION_NOT_REDUCING''),
      (\<not> (cq_not_before request \<le> cq_presence_deadline request \<and> cq_presence_deadline request \<le> cq_expires_at request),
       CapabilityIssueError ''PRESENCE_DEADLINE_INVALID'')]"

definition grant_of ::
  "issuer_state \<Rightarrow> capability_request \<Rightarrow> operator_assertion \<Rightarrow> grant_kind \<Rightarrow> uuid \<Rightarrow> execution_operation list \<Rightarrow> string \<Rightarrow>
     timestamp \<Rightarrow> capability_grant" where
  "grant_of i request assertion kind capability_id operations nonce expires_at =
     \<lparr>cg_capability_id = capability_id, cg_challenge_id = cq_challenge_id request, cg_grant_kind = kind,
      cg_mode = cq_mode request, cg_venue_binding = cq_venue_binding request,
      cg_account_fingerprint = cq_account_fingerprint request, cg_wallet_fingerprint = cq_wallet_fingerprint request,
      cg_parent_action_id = cq_target_id request, cg_session_id = cq_session_id request,
      cg_effective_limits = cq_effective_limits request, cg_requested_limits_hash = cq_requested_limits_hash request,
      cg_ceiling_hash = cq_ceiling_hash request, cg_plan_hash = cq_plan_hash request,
      cg_strategy_hash = cq_strategy_hash request, cg_proof_family_hash = cq_proof_family_hash request,
      cg_recovery_policy_hash = cq_recovery_policy_hash request, cg_browser_session_hash = cq_browser_session_hash request,
      cg_passkey_assertion_digest = av_assertion_digest assertion, cg_evidence_hashes = cq_evidence_hashes request,
      cg_allowed_operations = operations, cg_single_use = single_use_mode (cq_mode request), cg_nonce = nonce,
      cg_issuer_key_id = is_key_id i, cg_not_before = cq_not_before request, cg_expires_at = expires_at,
      cg_presence_deadline = cq_presence_deadline request\<rparr>"

text \<open>A grant is built from validated fields; only the issuer's own key id may still be empty.\<close>

definition validate_grant :: "capability_grant \<Rightarrow> capability_grant result" where
  "validate_grant g =
     (if nonempty_string (cg_nonce g) \<and> nonempty_string (cg_issuer_key_id g) then Inr g else Inl (ValueError ''grant''))"

definition sign_grant :: "digests \<Rightarrow> signature_scheme \<Rightarrow> issuer_state \<Rightarrow> capability_grant \<Rightarrow> signed_capability" where
  "sign_grant D S i g =
     \<lparr>sg_grant = g, sg_signature = sig_sign S (is_public_key i) (grant_digest D g),
      sg_public_verification_key = is_public_key i\<rparr>"

text \<open>Issuing claims both nonces and both identities; a refusal changes nothing.\<close>

definition sign_primary_and_recovery ::
  "digests \<Rightarrow> signature_scheme \<Rightarrow> issuer_state \<Rightarrow> capability_request \<Rightarrow> operator_assertion \<Rightarrow> (grant_pair \<times> issuer_state) result" where
  "sign_primary_and_recovery D S i request assertion =
     bindE (checkE
       [(cq_primary_nonce request \<in> set (is_claimed_nonces i), CapabilityIssueError ''NONCE_REPLAYED''),
        (cq_recovery_nonce request \<in> set (is_claimed_nonces i), CapabilityIssueError ''NONCE_REPLAYED''),
        (cq_capability_id request \<in> set (is_issued_capabilities i), CapabilityIssueError ''CAPABILITY_ALREADY_ISSUED''),
        (cq_recovery_capability_id request \<in> set (is_issued_capabilities i),
         CapabilityIssueError ''CAPABILITY_ALREADY_ISSUED'')]) (\<lambda>_.
     bindE (validate_grant (grant_of i request assertion PRIMARY (cq_capability_id request)
              (cq_allowed_operations request) (cq_primary_nonce request) (cq_expires_at request))) (\<lambda>primary.
     bindE (validate_grant (grant_of i request assertion RECOVERY (cq_recovery_capability_id request)
              (cq_recovery_operations request) (cq_recovery_nonce request) (cq_recovery_expires_at request))) (\<lambda>recovery.
     Inr (\<lparr>gp_primary = sign_grant D S i primary, gp_recovery = sign_grant D S i recovery\<rparr>,
          i\<lparr>is_claimed_nonces := [cq_primary_nonce request, cq_recovery_nonce request] @ is_claimed_nonces i,
            is_issued_capabilities := [cq_capability_id request, cq_recovery_capability_id request] @ is_issued_capabilities i\<rparr>))))"

definition issue ::
  "digests \<Rightarrow> signature_scheme \<Rightarrow> issuer_state \<Rightarrow> capability_request \<Rightarrow> operator_assertion \<Rightarrow> authorization_challenge \<Rightarrow>
     (grant_pair \<times> issuer_state) result" where
  "issue D S i request assertion challenge =
     bindE (checkE [(is_closed i, CapabilityIssueError ''ISSUER_CLOSED'')]) (\<lambda>_.
     bindE (checkE (binding_checks D request assertion challenge @ lifetime_checks request)) (\<lambda>_.
     sign_primary_and_recovery D S i request assertion))"

definition issued_capability_ids :: "issuer_state \<Rightarrow> uuid list" where
  "issued_capability_ids i = py_sorted_set (is_issued_capabilities i)"

section \<open>The verifier\<close>

record verifier_state =
  vf_public_key :: nat
  vf_revoked :: "uuid list"

definition revoke :: "verifier_state \<Rightarrow> uuid \<Rightarrow> verifier_state" where
  "revoke v capability_id = v\<lparr>vf_revoked := capability_id # vf_revoked v\<rparr>"

definition verified_capability_from_grant :: "digests \<Rightarrow> capability_grant \<Rightarrow> timestamp \<Rightarrow> verified_capability result" where
  "verified_capability_from_grant D g verified_at =
     (let b = cg_venue_binding g; limits = cg_effective_limits g in
      validate_capability
       \<lparr>ca_capability_id = cg_capability_id g, ca_venue = vb_venue b, ca_account_fingerprint = cg_account_fingerprint g,
        ca_manifest_record_hash = vb_manifest_record_hash b, ca_manifest_source_hashes = vb_manifest_source_hashes b,
        ca_eligibility_evidence_hashes = vb_eligibility_evidence_hashes b,
        ca_strategy_policy_hash = vb_strategy_policy_hash b, ca_proof_policy_hash = vb_proof_policy_hash b,
        ca_economics_policy_hash = vb_economics_policy_hash b, ca_protocol_fixture_hash = vb_protocol_fixture_hash b,
        ca_allowed_operations = cg_allowed_operations g, ca_route_set_version = vb_route_set_version b,
        ca_route_set_hash = vb_route_set_hash b, ca_maximum_capital = pv_session_deployed_capital limits,
        ca_maximum_per_intent_notional = pv_order_notional limits,
        ca_maximum_position = pv_strategy_gross_notional limits, ca_maximum_loss = pv_session_loss limits,
        ca_not_before = cg_not_before g, ca_expires_at = cg_expires_at g, ca_activation_nonce = cg_nonce g,
        ca_issuer_key_id = cg_issuer_key_id g, ca_mode = Some (cg_mode g), ca_grant_kind = Some (cg_grant_kind g),
        ca_parent_action_id = Some (cg_parent_action_id g), ca_session_id = cg_session_id g,
        ca_requested_limits_hash = Some (cg_requested_limits_hash g), ca_ceiling_hash = Some (cg_ceiling_hash g),
        ca_plan_hash = Some (cg_plan_hash g), ca_strategy_hash = Some (cg_strategy_hash g),
        ca_proof_family_hash = Some (cg_proof_family_hash g), ca_recovery_policy_hash = Some (cg_recovery_policy_hash g),
        ca_presence_deadline = Some (cg_presence_deadline g), ca_single_use = Some (cg_single_use g),
        vc_capability_digest = grant_digest D g, vc_verified_at = verified_at, vc_signature_valid = True,
        vc_canonical_bytes_valid = True\<rparr>)"

text \<open>A denial, or the projection of the grant.\<close>

definition verify_grant ::
  "digests \<Rightarrow> signature_scheme \<Rightarrow> verifier_state \<Rightarrow> signed_capability \<Rightarrow> timestamp \<Rightarrow> (authority_reason + verified_capability) result" where
  "verify_grant D S v c now =
     (case first_denial
        [(\<not> verify_capability_signature D S c (vf_public_key v), CAPABILITY_SIGNATURE_INVALID),
         (cg_capability_id (sg_grant c) \<in> set (vf_revoked v), CAPABILITY_REVOKED),
         (now < cg_not_before (sg_grant c), CAPABILITY_NOT_YET_VALID),
         (cg_expires_at (sg_grant c) \<le> now, CAPABILITY_EXPIRED)] of
        Some reason \<Rightarrow> Inr (Inl reason)
      | None \<Rightarrow> bindE (verified_capability_from_grant D (sg_grant c) now) (\<lambda>x. Inr (Inr x)))"

text \<open>What the boundary knows besides the grant.\<close>

record boundary_evidence =
  be_manifest :: "venue_manifest option"
  be_now :: timestamp
  be_account_fingerprint :: sha256
  be_action_id :: "uuid option"
  be_requested_notional :: dec
  be_capital_after :: dec
  be_position_after :: dec
  be_loss_after :: dec
  be_used_activation_nonces :: "string list"
  be_revoked_capability_ids :: "uuid list"
  be_geoblock_allowed :: "bool option"
  be_geoblock_evidence_hash :: "sha256 option"
  be_geoblock_expires_at :: "timestamp option"
  be_account_scope_evidence_hash :: "sha256 option"
  be_account_scope_expires_at :: "timestamp option"
  be_kill_engaged :: bool
  be_operator_present :: bool
  be_evidence_hashes :: "sha256 list"
  be_permitted_clock_skew :: int
  be_observed_clock_skew :: int
  be_credential_route_requested :: bool

text \<open>The expectations are copied from the capability, which is present here.\<close>

definition build_authority_context :: "verified_capability \<Rightarrow> boundary_evidence \<Rightarrow> authority_context result" where
  "build_authority_context v b = validate_context
     \<lparr>ax_manifest = be_manifest b, ax_verified_capability = Some v, ax_now = be_now b, ax_venue = Polymarket,
      ax_account_fingerprint = be_account_fingerprint b, ax_manifest_record_hash = ca_manifest_record_hash v,
      ax_manifest_source_hashes = ca_manifest_source_hashes v, ax_strategy_policy_hash = ca_strategy_policy_hash v,
      ax_proof_policy_hash = ca_proof_policy_hash v, ax_economics_policy_hash = ca_economics_policy_hash v,
      ax_protocol_fixture_hash = ca_protocol_fixture_hash v, ax_route_set_version = ca_route_set_version v,
      ax_route_set_hash = ca_route_set_hash v, ax_requested_notional = be_requested_notional b,
      ax_capital_after = be_capital_after b, ax_position_after = be_position_after b, ax_loss_after = be_loss_after b,
      ax_activation_nonce = ca_activation_nonce v, ax_used_activation_nonces = be_used_activation_nonces b,
      ax_revoked_capability_ids = be_revoked_capability_ids b, ax_observed_clock_skew = be_observed_clock_skew b,
      ax_permitted_clock_skew = be_permitted_clock_skew b, ax_geoblock_allowed = be_geoblock_allowed b,
      ax_geoblock_evidence_hash = be_geoblock_evidence_hash b, ax_geoblock_expires_at = be_geoblock_expires_at b,
      ax_account_scope_account_fingerprint = Some (be_account_fingerprint b),
      ax_account_scope_evidence_hash = be_account_scope_evidence_hash b,
      ax_account_scope_expires_at = be_account_scope_expires_at b, ax_kill_engaged = be_kill_engaged b,
      ax_evidence_hashes = py_sorted_set (be_evidence_hashes b), ax_expected_mode = ca_mode v,
      ax_expected_grant_kind = ca_grant_kind v, ax_action_id = be_action_id b, ax_session_id = ca_session_id v,
      ax_requested_limits_hash = ca_requested_limits_hash v, ax_ceiling_hash = ca_ceiling_hash v,
      ax_plan_hash = ca_plan_hash v, ax_strategy_hash = ca_strategy_hash v,
      ax_proof_family_hash = ca_proof_family_hash v, ax_recovery_policy_hash = ca_recovery_policy_hash v,
      ax_operator_present = be_operator_present b,
      ax_credential_route_requested = be_credential_route_requested b\<rparr>"

end
