(* ===== verification/Pilot_Sessions.thy ===== *)
theory Pilot_Sessions
  imports Pilot_Selector Pilot_Capabilities
begin

text \<open>
  Execution of a frozen plan (\<open>predictions/pilot/sessions.py\<close>): leg by leg through a port, with the
  decision to continue, recover or halt after every outcome, and the tick of an automation session.  The
  port is outside the module: it is a parameter that answers every call as any function of the calls made
  so far, and the list of calls is the state that survives an exception.
\<close>

section \<open>The port and its calls\<close>

datatype stop_reason =
    OPERATOR_STOP | STOP_PRESENCE_LOST | UNKNOWN_OUTCOME | LEG_REJECTED | LIMIT_BREACH
  | STOP_EVIDENCE_STALE | ACCOUNT_MISMATCH | GRANT_INVALID

datatype leg_state = LEG_FILLED | PARTIALLY_FILLED | LEG_REFUSED | LEG_UNKNOWN

record leg_outcome =
  lo_leg_index :: int
  lo_state :: leg_state
  lo_filled_size :: dec
  lo_notional_usd :: dec
  lo_venue_order_id :: "string option"
  lo_observed_at :: timestamp

datatype port_call =
    Persist pilot_leg
  | Submit pilot_leg uuid
  | Read_account
  | Read_positions
  | Engage_kill stop_reason

type_synonym history = "port_call list"

record execution_port =
  xp_persist_intent :: "history \<Rightarrow> frozen_plan \<Rightarrow> pilot_leg \<Rightarrow> unit result"
  xp_submit :: "history \<Rightarrow> frozen_plan \<Rightarrow> pilot_leg \<Rightarrow> uuid \<Rightarrow> leg_outcome result"
  xp_authoritative_state :: "history \<Rightarrow> frozen_plan \<Rightarrow> pilot_account result"
  xp_positions :: "history \<Rightarrow> frozen_plan \<Rightarrow> (string, dec) dict result"
  xp_engage_kill :: "history \<Rightarrow> stop_reason \<Rightarrow> unit result"
  xp_presence :: "(history \<Rightarrow> bool) option"

text \<open>A computation answers and extends the history, also when it raises.\<close>

type_synonym 'a exec = "history \<Rightarrow> 'a result \<times> history"

definition returnX :: "'a \<Rightarrow> 'a exec" where
  "returnX x = (\<lambda>h. (Inr x, h))"

definition liftX :: "'a result \<Rightarrow> 'a exec" where
  "liftX m = (\<lambda>h. (m, h))"

definition bindX :: "'a exec \<Rightarrow> ('a \<Rightarrow> 'b exec) \<Rightarrow> 'b exec" where
  "bindX m f = (\<lambda>h. case m h of (Inl e, h') \<Rightarrow> (Inl e, h') | (Inr x, h') \<Rightarrow> f x h')"

definition callX :: "port_call \<Rightarrow> (history \<Rightarrow> 'a result) \<Rightarrow> 'a exec" where
  "callX c answer = (\<lambda>h. (answer (h @ [c]), h @ [c]))"

declare bindX_def [code_unfold] returnX_def [code_unfold] liftX_def [code_unfold] callX_def [code_unfold]

section \<open>Decisions\<close>

datatype continuation = Continue | Recover stop_reason | Halt stop_reason

record execution_result =
  xr_state :: "string"
  xr_submitted_legs :: "leg_outcome list"
  xr_recovery_legs :: "leg_outcome list"
  xr_deployed_capital_usd :: dec
  xr_gross_notional_usd :: dec
  xr_stop_reason :: "stop_reason option"

text \<open>The plan's hash, which the result carries, is left out.\<close>

definition validate_execution_result :: "execution_result \<Rightarrow> execution_result result" where
  "validate_execution_result r =
     bindE (checkE
       [(\<not> (nonnegative_decimal (xr_deployed_capital_usd r) \<and> nonnegative_decimal (xr_gross_notional_usd r)),
         ValueError ''execution result''),
        ((xr_state r = ''COMPLETED'') = (xr_stop_reason r \<noteq> None),
         ValueError ''only an interrupted execution names a stop reason'')])
       (\<lambda>_. Inr r)"

definition RECOVERY_GRACE :: int where
  "RECOVERY_GRACE = seconds 120"

text \<open>\<open>_continuation\<close>: the decision after one outcome, from a fresh authoritative read when it filled.\<close>

definition account_decision ::
  "execution_port \<Rightarrow> frozen_plan \<Rightarrow> leg_outcome \<Rightarrow> dec \<Rightarrow> pilot_account \<Rightarrow> history \<Rightarrow> continuation" where
  "account_decision P plan outcome deployed account h =
     (if pc_kill_engaged account then Recover STOP_PRESENCE_LOST
      else if pc_account_fingerprint account \<noteq> fp_account_fingerprint plan then Halt ACCOUNT_MISMATCH
      else if pc_observed_at account < lo_observed_at outcome then Recover STOP_EVIDENCE_STALE
      else if dlt (pv_session_deployed_capital (fp_effective_limits plan)) deployed then Recover LIMIT_BREACH
      else if (case xp_presence P of None \<Rightarrow> False | Some present \<Rightarrow> \<not> present h) then Recover STOP_PRESENCE_LOST
      else Continue)"

definition continuation_after ::
  "execution_port \<Rightarrow> frozen_plan \<Rightarrow> leg_outcome \<Rightarrow> dec \<Rightarrow> continuation exec" where
  "continuation_after P plan outcome deployed =
     (case lo_state outcome of
        LEG_UNKNOWN \<Rightarrow> returnX (Recover UNKNOWN_OUTCOME)
      | LEG_REFUSED \<Rightarrow> returnX (if 0 < lo_leg_index outcome then Recover LEG_REJECTED else Halt LEG_REJECTED)
      | PARTIALLY_FILLED \<Rightarrow> returnX (Recover LEG_REJECTED)
      | LEG_FILLED \<Rightarrow>
          bindX (callX Read_account (\<lambda>h. xp_authoritative_state P h plan))
            (\<lambda>account h. (Inr (account_decision P plan outcome deployed account h), h)))"

section \<open>Recovery\<close>

text \<open>The legs that may have left exposure behind.\<close>

definition exposed_legs :: "leg_outcome list \<Rightarrow> int list" where
  "exposed_legs submitted = map lo_leg_index
     (filter (\<lambda>o'. lo_state o' \<in> {LEG_FILLED, PARTIALLY_FILLED, LEG_UNKNOWN}) submitted)"

fun recover ::
  "execution_port \<Rightarrow> frozen_plan \<Rightarrow> uuid \<Rightarrow> leg_outcome list \<Rightarrow> recovery_branch list \<Rightarrow> leg_outcome list exec" where
  "recover P plan capability submitted [] = returnX []"
| "recover P plan capability submitted (branch # branches) =
     (if pg_leg_index (fb_leg branch) \<notin> set (exposed_legs submitted)
      then recover P plan capability submitted branches
      else bindX (liftX (require_order_within_budget (fp_effective_limits plan)
                    (dsum (map lo_notional_usd submitted)) (leg_notional (fb_leg branch))
                    (fp_deployed_capital_usd plan) True dec0)) (\<lambda>_.
           bindX (callX (Persist (fb_leg branch)) (\<lambda>h. xp_persist_intent P h plan (fb_leg branch))) (\<lambda>_.
           bindX (callX (Submit (fb_leg branch) capability) (\<lambda>h. xp_submit P h plan (fb_leg branch) capability)) (\<lambda>outcome.
           bindX (recover P plan capability submitted branches) (\<lambda>outcomes. returnX (outcome # outcomes))))))"

section \<open>The run of a plan\<close>

record run_progress =
  rp_submitted :: "leg_outcome list"
  rp_recovery :: "leg_outcome list"
  rp_committed :: dec
  rp_deployed :: dec
  rp_stop_reason :: "stop_reason option"

definition start_progress :: run_progress where
  "start_progress = \<lparr>rp_submitted = [], rp_recovery = [], rp_committed = dec0, rp_deployed = dec0, rp_stop_reason = None\<rparr>"

text \<open>A leg beyond the budget raises, whatever was submitted before it.\<close>

definition charge_leg :: "frozen_plan \<Rightarrow> run_progress \<Rightarrow> pilot_leg \<Rightarrow> unit result" where
  "charge_leg plan p leg =
     (case require_order_within_budget (fp_effective_limits plan) (rp_committed p) (leg_notional leg)
             (rp_deployed p) False (leg_notional leg) of
        Inl (PilotPolicyError _) \<Rightarrow> Inl (PilotExecutionError ''LIMIT_BREACH'')
      | r \<Rightarrow> r)"

definition record_outcome :: "run_progress \<Rightarrow> pilot_leg \<Rightarrow> leg_outcome \<Rightarrow> run_progress" where
  "record_outcome p leg outcome = p
     \<lparr>rp_submitted := rp_submitted p @ [outcome],
      rp_committed := dadd (rp_committed p) (leg_notional leg),
      rp_deployed := dadd (rp_deployed p) (lo_notional_usd outcome)\<rparr>"

fun run_legs ::
  "execution_port \<Rightarrow> frozen_plan \<Rightarrow> grant_pair \<Rightarrow> pilot_leg list \<Rightarrow> run_progress \<Rightarrow> run_progress exec" where
  "run_legs P plan grants [] p = returnX p"
| "run_legs P plan grants (leg # legs) p =
     (let primary = cg_capability_id (sg_grant (gp_primary grants));
          recovery = cg_capability_id (sg_grant (gp_recovery grants)) in
      bindX (liftX (charge_leg plan p leg)) (\<lambda>_.
      bindX (callX (Persist leg) (\<lambda>h. xp_persist_intent P h plan leg)) (\<lambda>_.
      bindX (callX (Submit leg primary) (\<lambda>h. xp_submit P h plan leg primary)) (\<lambda>outcome.
      let p = record_outcome p leg outcome in
      bindX (continuation_after P plan outcome (rp_deployed p)) (\<lambda>decision.
      case decision of
        Continue \<Rightarrow> run_legs P plan grants legs p
      | Halt reason \<Rightarrow> returnX (p\<lparr>rp_stop_reason := Some reason\<rparr>)
      | Recover reason \<Rightarrow>
          bindX (recover P plan recovery (rp_submitted p) (fp_recovery_branches plan)) (\<lambda>outcomes.
          returnX (p\<lparr>rp_stop_reason := Some reason, rp_recovery := outcomes\<rparr>)))))))"

definition result_of_run :: "run_progress \<Rightarrow> execution_result result" where
  "result_of_run p = validate_execution_result
     \<lparr>xr_state = (if rp_stop_reason p = None then ''COMPLETED'' else if rp_recovery p \<noteq> [] then ''RECOVERED'' else ''STOPPED''),
      xr_submitted_legs = rp_submitted p, xr_recovery_legs = rp_recovery p,
      xr_deployed_capital_usd = rp_deployed p,
      xr_gross_notional_usd = dadd (rp_committed p) (dsum (map lo_notional_usd (rp_recovery p))),
      xr_stop_reason = rp_stop_reason p\<rparr>"

definition run_frozen_plan :: "execution_port \<Rightarrow> frozen_plan \<Rightarrow> grant_pair \<Rightarrow> nat \<Rightarrow> execution_result exec" where
  "run_frozen_plan P plan grants maximum_legs =
     bindX (run_legs P plan grants (take maximum_legs (fp_legs plan)) start_progress) (\<lambda>p.
     bindX (case rp_stop_reason p of None \<Rightarrow> returnX () | Some reason \<Rightarrow> callX (Engage_kill reason) (\<lambda>h. xp_engage_kill P h reason)) (\<lambda>_.
     liftX (result_of_run p)))"

section \<open>The executor\<close>

text \<open>The capabilities used so far are the executor's own state.\<close>

definition require_grant :: "uuid list \<Rightarrow> grant_pair \<Rightarrow> authorization_mode \<Rightarrow> uuid list result" where
  "require_grant used grants mode =
     (let primary = sg_grant (gp_primary grants); recovery = sg_grant (gp_recovery grants) in
      bindE (checkE
        [(cg_grant_kind primary \<noteq> PRIMARY, PilotExecutionError ''GRANT_INVALID''),
         (cg_grant_kind recovery \<noteq> RECOVERY, PilotExecutionError ''GRANT_INVALID''),
         (cg_mode primary \<noteq> mode, PilotExecutionError ''GRANT_INVALID''),
         (cg_single_use primary \<and> cg_capability_id primary \<in> set used, PilotExecutionError ''GRANT_INVALID'')])
        (\<lambda>_. Inr (cg_capability_id primary # used)))"

definition require_risk_reducing :: "execution_port \<Rightarrow> frozen_plan \<Rightarrow> pilot_leg \<Rightarrow> unit exec" where
  "require_risk_reducing P plan leg =
     bindX (callX Read_positions (\<lambda>h. xp_positions P h plan)) (\<lambda>positions.
     liftX (case map_of positions (pg_outcome_token_id leg) of
         None \<Rightarrow> Inl (PilotExecutionError ''UNKNOWN_OUTCOME'')
       | Some held \<Rightarrow> if pg_side leg \<noteq> Sell \<or> dlt held (pg_size leg) then Inl (PilotExecutionError ''LIMIT_BREACH'')
           else Inr ()))"

text \<open>Both operations return the used capabilities with what they answer.\<close>

definition execute_exact_order ::
  "execution_port \<Rightarrow> uuid list \<Rightarrow> frozen_plan \<Rightarrow> grant_pair \<Rightarrow> history \<Rightarrow> (execution_result result \<times> history) \<times> uuid list" where
  "execute_exact_order P used plan grants h =
     (case require_grant used grants EXACT_ORDER of
        Inl e \<Rightarrow> ((Inl e, h), used)
      | Inr used' \<Rightarrow>
          ((case fp_legs plan of
              [leg] \<Rightarrow> bindX (require_risk_reducing P plan leg) (\<lambda>_. run_frozen_plan P plan grants 1) h
            | _ \<Rightarrow> (Inl (PilotExecutionError ''GRANT_INVALID''), h)), used'))"

definition execute_complete_strategy ::
  "execution_port \<Rightarrow> uuid list \<Rightarrow> frozen_plan \<Rightarrow> grant_pair \<Rightarrow> history \<Rightarrow> (execution_result result \<times> history) \<times> uuid list" where
  "execute_complete_strategy P used plan grants h =
     (case require_grant used grants COMPLETE_STRATEGY of
        Inl e \<Rightarrow> ((Inl e, h), used)
      | Inr used' \<Rightarrow> (run_frozen_plan P plan grants (length (fp_legs plan)) h, used'))"

text \<open>\<open>stop\<close>: kill, and the deadline until which recovery lives on.\<close>

definition stop_execution :: "execution_port \<Rightarrow> stop_reason \<Rightarrow> timestamp \<Rightarrow> (stop_reason \<times> timestamp) exec" where
  "stop_execution P reason now =
     bindX (callX (Engage_kill reason) (\<lambda>h. xp_engage_kill P h reason)) (\<lambda>_. returnX (reason, now + RECOVERY_GRACE))"

section \<open>Automation sessions\<close>

record session_reading =
  ss_kill_engaged :: bool
  ss_presence_present :: bool
  ss_loss_unknown :: bool
  ss_session_loss_usd :: dec
  ss_utc_day_loss_usd :: dec
  ss_active_strategies :: int
  ss_session_deployed_usd :: dec
  ss_strategies_started :: int

datatype session_reason = Session_stop stop_reason | SESSION_EXPIRED | FINAL_MINUTE | STRATEGY_ACTIVE

datatype session_action = Start_strategy | Wait_for session_reason | Stop_session session_reason

record session_decision =
  sd_action :: session_action
  sd_strategies_started :: int
  sd_deployed_capital_usd :: dec
  sd_observed_at :: timestamp

record session_runner =
  sr_started_at :: timestamp
  sr_limits :: pilot_limits
  sr_stopped :: bool

definition session_expires_at :: "session_runner \<Rightarrow> timestamp" where
  "session_expires_at r = sr_started_at r + pv_session_duration (sr_limits r)"

definition session_action_of :: "session_runner \<Rightarrow> session_reading \<Rightarrow> timestamp \<Rightarrow> session_action" where
  "session_action_of r s now =
     (if sr_stopped r \<or> ss_kill_engaged s then Stop_session (Session_stop STOP_PRESENCE_LOST)
      else if \<not> ss_presence_present s then Stop_session (Session_stop STOP_PRESENCE_LOST)
      else if ss_loss_unknown s then Stop_session (Session_stop UNKNOWN_OUTCOME)
      else if dlt (pv_session_loss (sr_limits r)) (ss_session_loss_usd s) then Stop_session (Session_stop LIMIT_BREACH)
      else if dlt (pv_utc_day_loss (sr_limits r)) (ss_utc_day_loss_usd s) then Stop_session (Session_stop LIMIT_BREACH)
      else if session_expires_at r \<le> now then Stop_session SESSION_EXPIRED
      else if pv_concurrent_strategies (sr_limits r) \<le> ss_active_strategies s then Wait_for STRATEGY_ACTIVE
      else if session_expires_at r - seconds 60 < now then Wait_for FINAL_MINUTE
      else if dle (dsub (pv_session_deployed_capital (sr_limits r)) (ss_session_deployed_usd s)) dec0
        then Wait_for (Session_stop LIMIT_BREACH)
      else Start_strategy)"

definition decide_session :: "session_reading \<Rightarrow> timestamp \<Rightarrow> session_action \<Rightarrow> session_decision result" where
  "decide_session s now action =
     (if 0 \<le> ss_strategies_started s \<and> nonnegative_decimal (ss_session_deployed_usd s)
      then Inr \<lparr>sd_action = action, sd_strategies_started = ss_strategies_started s,
        sd_deployed_capital_usd = ss_session_deployed_usd s, sd_observed_at = now\<rparr>
      else Inl (ValueError ''session decision''))"

definition session_tick :: "session_runner \<Rightarrow> session_reading \<Rightarrow> timestamp \<Rightarrow> session_decision result" where
  "session_tick r s now = decide_session s now (session_action_of r s now)"

definition stop_session :: "session_runner \<Rightarrow> session_reading \<Rightarrow> stop_reason \<Rightarrow> timestamp \<Rightarrow> session_runner \<times> session_decision result" where
  "stop_session r s reason now = (r\<lparr>sr_stopped := True\<rparr>, decide_session s now (Stop_session (Session_stop reason)))"

end
