(* ===== verification/Pilot_Guarantees.thy ===== *)
theory Pilot_Guarantees
  imports Pilot_Sessions "HOL-Library.Sublist"
begin

text \<open>
  What the pilot guarantees: requested limits are bound by the compiled ceilings, a frozen plan and its
  recovery stay within them, the executor submits only legs of the plan, in order and after persisting
  them, and engages the kill switch when it stops; and what it does not guarantee: a leg beyond the budget
  raises without recovering or killing what was submitted before it.
\<close>

section \<open>Limits\<close>

lemma ceiling_checks_iff:
  "(\<forall>g \<in> set (ceiling_checks r). \<not> fst g) \<longleftrightarrow>
     dle (pv_wallet_trading_equity r) (Dec False 250 0) \<and>
     dle (pv_order_notional r) (Dec False 10 0) \<and> dle (pv_strategy_gross_notional r) (Dec False 25 0) \<and>
     pv_session_duration r \<le> seconds 900 \<and> dle (pv_session_deployed_capital r) (Dec False 50 0) \<and>
     pv_concurrent_strategies r \<le> 1 \<and> dle (pv_session_loss r) (Dec False 5 0) \<and>
     dle (pv_utc_day_loss r) (Dec False 10 0)"
  by (simp add: ceiling_checks_def PILOT_CEILINGS_def dec_compare not_less)

text \<open>Limits are taken over unchanged or refused with a policy code; they are never clamped.\<close>

lemma effective_limits_cases:
  assumes "validate_requested_limits r = Inr r"
  shows "effective_limits r = (if \<forall>g \<in> set (ceiling_checks r). \<not> fst g then Inr r
    else Inl (snd (hd (filter fst (ceiling_checks r)))))"
proof -
  have check: "checkE gs = (if \<forall>g \<in> set gs. \<not> fst g then Inr () else Inl (snd (hd (filter fst gs))))" for gs
    by (induction gs rule: checkE.induct) auto
  have ok: "requested_limits_ok r" using assms by (simp add: validate_requested_limits_def split: if_splits)
  then have one: "1 \<le> pv_concurrent_strategies r" by (simp add: requested_limits_ok_def)
  show ?thesis
  proof (cases "\<forall>g \<in> set (ceiling_checks r). \<not> fst g")
    case True
    then have "validate_pilot_limits r = Inr r"
      unfolding ceiling_checks_iff validate_pilot_limits_def using ok one by simp
    with True show ?thesis by (simp add: effective_limits_def check)
  qed (auto simp: effective_limits_def check)
qed

lemma validate_pilot_leg_id: "validate_pilot_leg l = Inr m \<Longrightarrow> m = l"
  by (simp add: validate_pilot_leg_def split: if_splits)

section \<open>Frozen plans\<close>

text \<open>The recovery of a leg: the same quantity at the same price on the other side, fill or kill.\<close>

definition unwinds :: "pilot_leg \<Rightarrow> recovery_branch \<Rightarrow> bool" where
  "unwinds l b \<longleftrightarrow> fb_leg b = l\<lparr>pg_side := (if pg_side l = Buy then Sell else Buy), pg_order_type := FOK\<rparr> \<and>
     dval (fb_worst_case_exposure_after_usd b) < dval (fb_worst_case_exposure_before_usd b)"

lemma recovery_branch_of_Inr:
  assumes "recovery_branch_of q l = Inr b"
  shows "unwinds l b" and "leg_notional (fb_leg b) = leg_notional l"
proof -
  have "b = \<lparr>fb_leg = l\<lparr>pg_side := (if pg_side l = Buy then Sell else Buy), pg_order_type := FOK\<rparr>,
      fb_worst_case_exposure_before_usd = leg_notional l, fb_worst_case_exposure_after_usd = pq_incomplete_loss_usd q\<rparr> \<and>
      \<not> dle (leg_notional l) (pq_incomplete_loss_usd q)"
    using assms by (auto simp: recovery_branch_of_def validate_recovery_branch_def bindE_eq_Inr dest!: validate_pilot_leg_id
        split: if_splits)
  then show "unwinds l b" "leg_notional (fb_leg b) = leg_notional l"
    by (simp_all add: unwinds_def dec_compare leg_notional_def)
qed

lemma validate_frozen_plan_Inr:
  "validate_frozen_plan p = Inr p' \<Longrightarrow> p' = p \<and> (\<exists>l. validate_pilot_limits (fp_effective_limits p) = Inr l)"
  by (auto simp: validate_frozen_plan_def bindE_eq_Inr split: if_splits)

definition eligible_at :: "pilot_opportunity \<Rightarrow> pilot_account \<Rightarrow> pilot_limits \<Rightarrow> bool" where
  "eligible_at q account limits \<longleftrightarrow>
     \<not> pc_kill_engaged account \<and> 0 < dval (pq_current_surplus_usd q) \<and> 0 < dval (pq_stressed_surplus_usd q) \<and>
     dval (pq_incomplete_loss_usd q) < 625 / 1000 \<and>
     (\<forall>l \<in> set (pq_legs q). dval (leg_notional l) \<le> dval (pv_order_notional limits)) \<and>
     dval (gross_notional (pq_legs q)) \<le> dval (pv_strategy_gross_notional limits) \<and>
     dval (pq_deployed_capital_usd q) \<le> dval (pv_session_deployed_capital limits) \<and>
     dval (pq_deployed_capital_usd q) \<le> dval (pc_collateral_usd account) \<and>
     dval (gross_notional (pq_legs q)) \<le> dval (pc_allowance_usd account)"

lemma incomplete_loss_cap: "dval INCOMPLETE_LOSS_CAP = 625 / 1000"
  by code_simp

lemma require_eligible_iff:
  "require_eligible q account limits families as_of = Inr () \<longleftrightarrow>
     eligible_at q account limits \<and> pq_proof_family q \<in> set families \<and>
     as_of - pq_information_cutoff q \<le> MAXIMUM_EVIDENCE_AGE"
  unfolding require_eligible_def checkE_Inr eligible_at_def
  by (simp add: dec_compare not_less not_le incomplete_loss_cap ball_Un) blast

lemma all_families: "f \<in> set ALL_FAMILIES"
  by (cases f) (simp_all add: ALL_FAMILIES_def)

lemma pilot_ceilings:
  "validate_pilot_limits limits = Inr l \<Longrightarrow> dval (pv_order_notional limits) \<le> 10 \<and>
     dval (pv_strategy_gross_notional limits) \<le> 25 \<and> dval (pv_session_deployed_capital limits) \<le> 50"
  by (auto simp: validate_pilot_limits_def dec_compare dval_def dsigned_def split: if_splits)

text \<open>
  C10: a frozen plan lives within its limits, recovery included. Its limits are valid pilot limits, every leg
  and every recovery leg is within the order ceiling (at most 10 USD), the whole with its recovery within the
  strategy ceiling (at most 25 USD), and the capital it deploys, which is the opportunity's, within the session
  ceiling (at most 50 USD) and the reconciled collateral; the opportunity was eligible; each leg but the last
  has one recovery branch, which sells back exactly what the leg bought and reduces the exposure; and the rest of
  the plan is the opportunity's and the account's: identities, fingerprints, worst-case loss, evidence,
  deadline and cutoff.
\<close>

theorem frozen_plan_within_limits:
  assumes "compile_frozen_pilot_plan q limits account deadline = Inr p"
  shows "fp_legs p = pq_legs q \<and> fp_effective_limits p = limits \<and> (\<exists>l. validate_pilot_limits limits = Inr l) \<and>
    eligible_at q account limits \<and>
    (\<forall>l \<in> set (fp_legs p) \<union> fb_leg ` set (fp_recovery_branches p). dval (leg_notional l) \<le> min (dval (pv_order_notional limits)) 10) \<and>
    fp_gross_notional_usd p = dadd (gross_notional (fp_legs p)) (gross_notional (map fb_leg (fp_recovery_branches p))) \<and>
    dval (fp_gross_notional_usd p) \<le> min (dval (pv_strategy_gross_notional limits)) 25 \<and>
    fp_deployed_capital_usd p = pq_deployed_capital_usd q \<and>
    dval (fp_deployed_capital_usd p) \<le> min (dval (pv_session_deployed_capital limits)) 50 \<and>
    dval (fp_deployed_capital_usd p) \<le> dval (pc_collateral_usd account) \<and>
    list_all2 unwinds (butlast (fp_legs p)) (fp_recovery_branches p) \<and>
    fp_proof_id p = pq_proof_id q \<and> fp_proposal_id p = pq_proposal_id q \<and>
    fp_account_fingerprint p = pc_account_fingerprint account \<and> fp_wallet_fingerprint p = pc_wallet_fingerprint account \<and>
    fp_worst_case_incomplete_loss_usd p = pq_incomplete_loss_usd q \<and> fp_evidence_hashes p = pq_evidence_hashes q \<and>
    fp_deadline p = deadline \<and> fp_information_cutoff p = pq_information_cutoff q"
proof -
  obtain recovery where el: "require_eligible q account limits ALL_FAMILIES (pq_information_cutoff q) = Inr ()"
    and rec: "recovery_branches q = Inr recovery"
    and gross: "\<not> dlt (pv_strategy_gross_notional limits) (dadd (gross_notional (pq_legs q)) (gross_notional (map fb_leg recovery)))"
    and p: "fp_legs p = pq_legs q" "fp_effective_limits p = limits" "fp_recovery_branches p = recovery"
      "fp_gross_notional_usd p = dadd (gross_notional (pq_legs q)) (gross_notional (map fb_leg recovery))"
      "fp_deployed_capital_usd p = pq_deployed_capital_usd q" "fp_proof_id p = pq_proof_id q" "fp_proposal_id p = pq_proposal_id q"
      "fp_account_fingerprint p = pc_account_fingerprint account" "fp_wallet_fingerprint p = pc_wallet_fingerprint account"
      "fp_worst_case_incomplete_loss_usd p = pq_incomplete_loss_usd q" "fp_evidence_hashes p = pq_evidence_hashes q"
      "fp_deadline p = deadline" "fp_information_cutoff p = pq_information_cutoff q"
    and valid: "\<exists>l. validate_pilot_limits limits = Inr l"
    using assms by (auto simp: compile_frozen_pilot_plan_def Let_def bindE_eq_Inr checkE_Inr dest!: validate_frozen_plan_Inr)
  have eligible: "eligible_at q account limits" using el by (simp add: require_eligible_iff)
  have each: "list_all2 (\<lambda>l b. recovery_branch_of q l = Inr b) (butlast (pq_legs q)) recovery"
    using rec by (simp add: recovery_branches_def mapE_Inr)
  have unwound: "list_all2 unwinds (butlast (pq_legs q)) recovery"
    using each by (rule list_all2_mono) (rule recovery_branch_of_Inr(1))
  have notional: "dval (leg_notional (fb_leg b)) \<le> dval (pv_order_notional limits)" if b: "b \<in> set recovery" for b
  proof -
    obtain l where "l \<in> set (butlast (pq_legs q))" "recovery_branch_of q l = Inr b" using list_all2_left [OF each b] by blast
    with recovery_branch_of_Inr(2) [of q l b] eligible show ?thesis
      by (auto simp: eligible_at_def dest: in_set_butlastD)
  qed
  note capped = pilot_ceilings [OF valid [THEN someI_ex]]
  have legs: "dval (leg_notional l) \<le> min (dval (pv_order_notional limits)) 10" if "l \<in> set (pq_legs q) \<union> fb_leg ` set recovery" for l
    using that notional eligible capped by (force simp: eligible_at_def)
  have bounds: "dval (fp_gross_notional_usd p) \<le> min (dval (pv_strategy_gross_notional limits)) 25"
    "dval (pq_deployed_capital_usd q) \<le> min (dval (pv_session_deployed_capital limits)) 50"
    "dval (pq_deployed_capital_usd q) \<le> dval (pc_collateral_usd account)"
    using gross eligible capped unfolding p by (auto simp: dec_compare not_less eligible_at_def)
  show ?thesis
    using eligible legs bounds valid unwound unfolding p by blast
qed

section \<open>Execution\<close>

definition submits :: "history \<Rightarrow> (pilot_leg \<times> uuid) list" where
  "submits cs = List.map_filter (\<lambda>c. case c of Submit l u \<Rightarrow> Some (l, u) | _ \<Rightarrow> None) cs"

text \<open>Every submission directly follows the persistence of the same leg.\<close>

definition persisted_first :: "history \<Rightarrow> bool" where
  "persisted_first cs \<longleftrightarrow> (\<forall>pre l u post. cs = pre @ Submit l u # post \<longrightarrow> pre \<noteq> [] \<and> last pre = Persist l)"

lemma submits_simps [simp]:
  "submits [] = []" "submits (xs @ ys) = submits xs @ submits ys" "submits (Submit l u # cs) = (l, u) # submits cs"
  "submits (Persist l # cs) = submits cs" "submits (Read_account # cs) = submits cs"
  "submits (Read_positions # cs) = submits cs" "submits (Engage_kill s # cs) = submits cs"
  by (simp_all add: submits_def List.map_filter_def)

lemma persisted_first_append:
  assumes "persisted_first xs" and "persisted_first ys"
  shows "persisted_first (xs @ ys)"
  unfolding persisted_first_def
proof (intro allI impI)
  fix pre l u post assume eq: "xs @ ys = pre @ Submit l u # post"
  then obtain us where "xs = pre @ us \<and> us @ ys = Submit l u # post \<or> xs @ us = pre \<and> ys = us @ Submit l u # post"
    by (auto simp: append_eq_append_conv2)
  then consider us' where "xs = pre @ Submit l u # us'" | "xs = pre" "ys = [] @ Submit l u # post"
    | us where "pre = xs @ us" "ys = us @ Submit l u # post"
    by (auto simp: append_eq_Cons_conv)
  then show "pre \<noteq> [] \<and> last pre = Persist l"
    using assms unfolding persisted_first_def by cases (blast, blast, simp)
qed

lemma persisted_first_steps:
  "persisted_first []" "persisted_first [Persist l]" "persisted_first [Persist l, Submit l u]"
  "persisted_first [Read_account]" "persisted_first [Engage_kill s]"
  by (auto simp: persisted_first_def Cons_eq_append_conv)

text \<open>What a computation may answer and do: \<open>Q\<close> of every answer and the calls made on the way.\<close>

definition traces :: "'a exec \<Rightarrow> ('a result \<Rightarrow> history \<Rightarrow> bool) \<Rightarrow> bool" where
  "traces m Q \<longleftrightarrow> (\<forall>h. \<exists>cs. snd (m h) = h @ cs \<and> Q (fst (m h)) cs)"

lemma traces_return: "Q (Inr x) [] \<Longrightarrow> traces (returnX x) Q"
  by (simp add: traces_def returnX_def)

lemma traces_lift: "Q m [] \<Longrightarrow> traces (liftX m) Q"
  by (simp add: traces_def liftX_def)

lemma traces_read: "(\<And>v. Q (Inr v) []) \<Longrightarrow> traces (\<lambda>h. (Inr (g h), h)) Q"
  by (simp add: traces_def)

lemma traces_call: "(\<And>a. Q a [c]) \<Longrightarrow> traces (callX c answer) Q"
  by (simp add: traces_def callX_def)

lemma traces_bind:
  assumes "traces m R" and "\<And>e cs. R (Inl e) cs \<Longrightarrow> Q (Inl e) cs"
    and "\<And>x cs. R (Inr x) cs \<Longrightarrow> traces (f x) (\<lambda>r cs'. Q r (cs @ cs'))"
  shows "traces (bindX m f) Q"
  unfolding traces_def
proof
  fix h
  obtain cs where cs: "snd (m h) = h @ cs" "R (fst (m h)) cs" using assms(1) unfolding traces_def by blast
  show "\<exists>cs. snd (bindX m f h) = h @ cs \<and> Q (fst (bindX m f h)) cs"
  proof (cases "fst (m h)")
    case (Inl e)
    then have "bindX m f h = (Inl e, h @ cs)" using cs(1) by (simp add: bindX_def case_prod_beta)
    then show ?thesis using assms(2) cs(2) Inl by auto
  next
    case (Inr x)
    then have "bindX m f h = f x (h @ cs)" using cs(1) by (simp add: bindX_def case_prod_beta)
    moreover obtain cs' where "snd (f x (h @ cs)) = (h @ cs) @ cs'" "Q (fst (f x (h @ cs))) (cs @ cs')"
      using assms(3) cs(2) Inr unfolding traces_def by metis
    ultimately show ?thesis by auto
  qed
qed

text \<open>The two binds of the executor's code, on a check and on a call of the port.\<close>

lemma traces_lift_bind:
  assumes "\<And>e. m = Inl e \<Longrightarrow> Q (Inl e) []" and "\<And>x. m = Inr x \<Longrightarrow> traces (f x) Q"
  shows "traces (bindX (liftX m) f) Q"
  by (rule traces_bind [where R = "\<lambda>r cs. cs = [] \<and> r = m"]) (use assms in \<open>auto intro: traces_lift\<close>)

lemma traces_call_bind:
  assumes "\<And>e. Q (Inl e) [c]" and "\<And>x. traces (f x) (\<lambda>r cs. Q r (c # cs))"
  shows "traces (bindX (callX c answer) f) Q"
  by (rule traces_bind [where R = "\<lambda>_ cs. cs = [c]"]) (use assms in \<open>auto intro: traces_call\<close>)

lemma traces_mono: "traces m R \<Longrightarrow> (\<And>r cs. R r cs \<Longrightarrow> Q r cs) \<Longrightarrow> traces m Q"
  unfolding traces_def by blast

lemma continuation_traces:
  "traces (continuation_after P plan outcome deployed)
     (\<lambda>r cs. (cs = [] \<or> cs = [Read_account]) \<and> (r = Inr Continue \<longrightarrow> lo_state outcome = LEG_FILLED))"
  unfolding continuation_after_def
  by (cases "lo_state outcome")
    (auto intro!: traces_return traces_bind [where R = "\<lambda>_ cs. cs = [Read_account]"] traces_call traces_read)

text \<open>A quiet trace engages no kill.\<close>

definition quiet :: "history \<Rightarrow> bool" where
  "quiet cs \<longleftrightarrow> (\<forall>s. Engage_kill s \<notin> set cs)"

lemma quiet_simps [simp]:
  "quiet []" "quiet (xs @ ys) \<longleftrightarrow> quiet xs \<and> quiet ys" "quiet (Persist l # cs) \<longleftrightarrow> quiet cs"
  "quiet (Submit l u # cs) \<longleftrightarrow> quiet cs" "quiet (Read_account # cs) \<longleftrightarrow> quiet cs"
  by (auto simp: quiet_def)

definition recovery_trace :: "frozen_plan \<Rightarrow> uuid \<Rightarrow> recovery_branch list \<Rightarrow> history \<Rightarrow> bool" where
  "recovery_trace plan capability branches cs \<longleftrightarrow> persisted_first cs \<and> quiet cs \<and>
     (\<exists>js. subseq js branches \<and> submits cs = map (\<lambda>b. (fb_leg b, capability)) js \<and>
        (\<forall>b \<in> set js. dval (leg_notional (fb_leg b)) \<le> dval (pv_order_notional (fp_effective_limits plan))))"

lemma budget_order: "require_order_within_budget limits c n d recovery x = Inr () \<Longrightarrow>
    dval n \<le> dval (pv_order_notional limits) \<and> dval (dadd c n) \<le> dval (pv_strategy_gross_notional limits)"
  by (simp add: require_order_within_budget_def dec_compare not_less split: if_splits)

lemma recovery_trace_skip: "recovery_trace plan u bs cs \<Longrightarrow> recovery_trace plan u (b # bs) cs"
  unfolding recovery_trace_def by (blast intro: list_emb_Cons)

lemma recovery_trace_Nil: "recovery_trace plan u bs []"
  by (auto simp: recovery_trace_def persisted_first_steps intro!: exI [of _ "[]"])

lemma recovery_trace_persist: "recovery_trace plan u bs [Persist l]"
  by (auto simp: recovery_trace_def persisted_first_steps intro!: exI [of _ "[]"])

lemma recovery_trace_step:
  assumes "dval (leg_notional (fb_leg b)) \<le> dval (pv_order_notional (fp_effective_limits plan))" and "recovery_trace plan u bs cs"
  shows "recovery_trace plan u (b # bs) ([Persist (fb_leg b), Submit (fb_leg b) u] @ cs)"
proof -
  obtain js where js: "subseq js bs" "submits cs = map (\<lambda>b. (fb_leg b, u)) js"
    "\<forall>b \<in> set js. dval (leg_notional (fb_leg b)) \<le> dval (pv_order_notional (fp_effective_limits plan))"
    using assms(2) unfolding recovery_trace_def by blast
  have "persisted_first ([Persist (fb_leg b), Submit (fb_leg b) u] @ cs)"
    by (rule persisted_first_append [OF persisted_first_steps(3)]) (use assms(2) in \<open>simp add: recovery_trace_def\<close>)
  then show ?thesis
    unfolding recovery_trace_def using assms js by (auto simp: recovery_trace_def intro!: exI [of _ "b # js"])
qed

lemma recover_traces: "traces (recover P plan u submitted bs) (\<lambda>_ cs. recovery_trace plan u bs cs)"
proof (induction bs)
  case Nil
  then show ?case by (simp add: traces_return recovery_trace_Nil)
next
  case (Cons b bs)
  let ?budget = "require_order_within_budget (fp_effective_limits plan) (dsum (map lo_notional_usd submitted))
      (leg_notional (fb_leg b)) (fp_deployed_capital_usd plan) True dec0"
  show ?case
  proof (cases "pg_leg_index (fb_leg b) \<notin> set (exposed_legs submitted)")
    case True
    then show ?thesis using Cons.IH by (auto intro: traces_mono recovery_trace_skip)
  next
    case False
    show ?thesis
      unfolding recover.simps if_not_P [OF False]
    proof (rule traces_lift_bind)
      fix x assume "?budget = Inr x"
      then have ok: "?budget = Inr ()" by simp
      have "dval (leg_notional (fb_leg b)) \<le> dval (pv_order_notional (fp_effective_limits plan))"
        using budget_order [OF ok] ..
      note step = recovery_trace_step [OF this, simplified]
      show "traces (bindX (callX (Persist (fb_leg b)) (\<lambda>h. xp_persist_intent P h plan (fb_leg b))) (\<lambda>_.
          bindX (callX (Submit (fb_leg b) u) (\<lambda>h. xp_submit P h plan (fb_leg b) u)) (\<lambda>outcome.
          bindX (recover P plan u submitted bs) (\<lambda>outcomes. returnX (outcome # outcomes)))))
        (\<lambda>_. recovery_trace plan u (b # bs))"
        by (intro traces_call_bind traces_bind [OF Cons.IH] traces_return)
          (auto intro: step recovery_trace_persist step [OF recovery_trace_Nil])
    qed (simp add: recovery_trace_Nil)
  qed
qed

subsection \<open>The legs of a run\<close>

definition all_filled :: "leg_outcome list \<Rightarrow> bool" where
  "all_filled os \<longleftrightarrow> (\<forall>x \<in> set os. lo_state x = LEG_FILLED)"

lemma all_filled_Cons [simp]: "all_filled (x # os) \<longleftrightarrow> lo_state x = LEG_FILLED \<and> all_filled os"
  by (simp add: all_filled_def)

definition within_orders :: "frozen_plan \<Rightarrow> pilot_leg set \<Rightarrow> bool" where
  "within_orders plan ls \<longleftrightarrow> (\<forall>l \<in> ls. dval (leg_notional l) \<le> dval (pv_order_notional (fp_effective_limits plan)))"

text \<open>
  The first \<open>k\<close> legs were submitted, then the branches \<open>js\<close>; a run without a stop reason has filled every leg.
\<close>

definition run_trace ::
  "frozen_plan \<Rightarrow> uuid \<Rightarrow> uuid \<Rightarrow> pilot_leg list \<Rightarrow> run_progress \<Rightarrow> run_progress result \<Rightarrow> history \<Rightarrow> nat \<Rightarrow>
     recovery_branch list \<Rightarrow> bool" where
  "run_trace plan u v legs p r cs k js \<longleftrightarrow>
     persisted_first cs \<and> quiet cs \<and> k \<le> length legs \<and>
     submits cs = map (\<lambda>l. (l, u)) (take k legs) @ map (\<lambda>b. (fb_leg b, v)) js \<and>
     subseq js (fp_recovery_branches plan) \<and> within_orders plan (set (take k legs) \<union> fb_leg ` set js) \<and>
     (\<forall>i<k. dval (foldl dadd (rp_committed p) (map leg_notional (take (Suc i) legs)))
        \<le> dval (pv_strategy_gross_notional (fp_effective_limits plan))) \<and>
     (\<forall>p'. r = Inr p' \<and> rp_stop_reason p' = None \<longrightarrow> k = length legs \<and> js = [] \<and>
        (\<exists>os. rp_submitted p' = rp_submitted p @ os \<and> length os = length legs \<and> all_filled os))"

lemma persisted_first_Cons:
  "persisted_first cs \<Longrightarrow> persisted_first (Persist l # Submit l u # cs)"
  "persisted_first cs \<Longrightarrow> persisted_first (Read_account # cs)"
  using persisted_first_append [OF persisted_first_steps(3) [of l u], of cs]
    persisted_first_append [OF persisted_first_steps(4), of cs] by simp_all

lemma charge_leg_Inr:
  assumes "charge_leg plan p leg = Inr x"
  shows "within_orders plan {leg}"
    and "dval (dadd (rp_committed p) (leg_notional leg)) \<le> dval (pv_strategy_gross_notional (fp_effective_limits plan))"
  using assms by (auto simp: charge_leg_def within_orders_def dest!: budget_order split: sum.splits py_error.splits)

lemma run_trace_refused: "run_trace plan u v legs p (Inl e) [] 0 []"
  by (simp add: run_trace_def persisted_first_steps within_orders_def)

lemma run_trace_persist: "run_trace plan u v legs p (Inl e) [Persist l] 0 []"
  by (simp add: run_trace_def persisted_first_steps within_orders_def)

lemma run_trace_end: "run_trace plan u v [] p (Inr p) [] 0 []"
  by (simp add: run_trace_def persisted_first_steps within_orders_def all_filled_def)

text \<open>A leg after which the run goes on, and a leg after which it stops.\<close>

lemma run_trace_step:
  assumes "charge_leg plan p leg = Inr x" and "lo_state y = LEG_FILLED" and "cs' = [] \<or> cs' = [Read_account]"
    and "run_trace plan u v legs (record_outcome p leg y) r cs k js"
  shows "run_trace plan u v (leg # legs) p r (Persist leg # Submit leg u # cs' @ cs) (Suc k) js"
proof -
  have "persisted_first (cs' @ cs) \<and> quiet (cs' @ cs) \<and> submits (cs' @ cs) = submits cs"
    using assms(3,4) by (auto simp: run_trace_def persisted_first_Cons)
  moreover have "dval (foldl dadd (rp_committed p) (map leg_notional (take (Suc i) (leg # legs))))
      \<le> dval (pv_strategy_gross_notional (fp_effective_limits plan))" if "i < Suc k" for i
    using that assms(4) charge_leg_Inr(2) [OF assms(1)]
    by (cases i) (auto simp: run_trace_def record_outcome_def)
  ultimately show ?thesis
    using assms(4) charge_leg_Inr(1) [OF assms(1)]
    by (auto simp: run_trace_def record_outcome_def persisted_first_Cons within_orders_def assms(2))
qed

lemma run_trace_stop:
  assumes "charge_leg plan p leg = Inr x" and "cs' = [] \<or> cs' = [Read_account]"
    and "recovery_trace plan v (fp_recovery_branches plan) cs"
    and "\<And>p'. r = Inr p' \<Longrightarrow> rp_stop_reason p' \<noteq> None"
  shows "\<exists>js. run_trace plan u v (leg # legs) p r (Persist leg # Submit leg u # cs' @ cs) 1 js"
proof -
  obtain js where js: "subseq js (fp_recovery_branches plan)" "submits cs = map (\<lambda>b. (fb_leg b, v)) js"
    "within_orders plan (fb_leg ` set js)"
    using assms(3) unfolding recovery_trace_def within_orders_def by auto
  have "persisted_first (cs' @ cs) \<and> quiet (cs' @ cs) \<and> submits (cs' @ cs) = submits cs"
    using assms(2,3) by (auto simp: recovery_trace_def persisted_first_Cons)
  then have "run_trace plan u v (leg # legs) p r (Persist leg # Submit leg u # cs' @ cs) 1 js"
    using js assms(4) charge_leg_Inr [OF assms(1)]
    by (auto simp: run_trace_def persisted_first_Cons within_orders_def)
  then show ?thesis ..
qed

lemma run_legs_traces:
  assumes "u = cg_capability_id (sg_grant (gp_primary grants))" and "v = cg_capability_id (sg_grant (gp_recovery grants))"
  shows "traces (run_legs P plan grants legs p) (\<lambda>r cs. \<exists>k js. run_trace plan u v legs p r cs k js)"
proof (induction legs arbitrary: p)
  case Nil
  show ?case by (auto intro!: traces_return run_trace_end)
next
  case (Cons leg legs)
  let ?Q = "\<lambda>r cs. \<exists>k js. run_trace plan u v (leg # legs) p r cs k js"
  have goes_on: "traces (case decision of
        Continue \<Rightarrow> run_legs P plan grants legs (record_outcome p leg outcome)
      | Halt reason \<Rightarrow> returnX ((record_outcome p leg outcome)\<lparr>rp_stop_reason := Some reason\<rparr>)
      | Recover reason \<Rightarrow>
          bindX (recover P plan v (rp_submitted (record_outcome p leg outcome)) (fp_recovery_branches plan)) (\<lambda>outcomes.
          returnX ((record_outcome p leg outcome)\<lparr>rp_stop_reason := Some reason, rp_recovery := outcomes\<rparr>)))
      (\<lambda>r cs. ?Q r (Persist leg # Submit leg u # cs' @ cs))"
    if charge: "charge_leg plan p leg = Inr x" and cs': "cs' = [] \<or> cs' = [Read_account]"
      and filled: "decision = Continue \<longrightarrow> lo_state outcome = LEG_FILLED" for x cs' outcome decision
  proof (cases decision)
    case Continue
    have "?Q r (Persist leg # Submit leg u # cs' @ cs)"
      if "\<exists>k js. run_trace plan u v legs (record_outcome p leg outcome) r cs k js" for r cs
      using that run_trace_step [OF charge _ cs'] filled Continue by blast
    then show ?thesis unfolding Continue continuation.case by (rule traces_mono [OF Cons.IH])
  next
    case (Halt reason)
    have stop: "?Q r (Persist leg # Submit leg u # cs' @ [])" if "\<And>p'. r = Inr p' \<Longrightarrow> rp_stop_reason p' \<noteq> None" for r
      using run_trace_stop [OF charge cs' recovery_trace_Nil that] by blast
    show ?thesis unfolding Halt continuation.case by (rule traces_return, rule stop) auto
  next
    case (Recover reason)
    have stop: "?Q r (Persist leg # Submit leg u # cs' @ cs)"
      if "recovery_trace plan v (fp_recovery_branches plan) cs" "\<And>p'. r = Inr p' \<Longrightarrow> rp_stop_reason p' \<noteq> None" for r cs
      using run_trace_stop [OF charge cs' that] by blast
    show ?thesis
      unfolding Recover continuation.case
    proof (rule traces_bind [OF recover_traces])
      fix outcomes cs assume cs: "recovery_trace plan v (fp_recovery_branches plan) cs"
      show "traces (returnX ((record_outcome p leg outcome)\<lparr>rp_stop_reason := Some reason, rp_recovery := outcomes\<rparr>))
          (\<lambda>r cs''. ?Q r (Persist leg # Submit leg u # cs' @ cs @ cs''))"
        by (rule traces_return, unfold append_Nil2, rule stop [OF cs]) auto
    qed (rule stop, auto)
  qed
  show ?case
    unfolding run_legs.simps Let_def assms [symmetric]
  proof (rule traces_lift_bind)
    fix x assume charge: "charge_leg plan p leg = Inr x"
    show "traces (bindX (callX (Persist leg) (\<lambda>h. xp_persist_intent P h plan leg)) (\<lambda>_.
        bindX (callX (Submit leg u) (\<lambda>h. xp_submit P h plan leg u)) (\<lambda>outcome.
        bindX (continuation_after P plan outcome (rp_deployed (record_outcome p leg outcome))) (\<lambda>decision.
        case decision of
          Continue \<Rightarrow> run_legs P plan grants legs (record_outcome p leg outcome)
        | Recover reason \<Rightarrow>
            bindX (recover P plan v (rp_submitted (record_outcome p leg outcome)) (fp_recovery_branches plan)) (\<lambda>outcomes.
            returnX ((record_outcome p leg outcome)\<lparr>rp_stop_reason := Some reason, rp_recovery := outcomes\<rparr>))
        | Halt reason \<Rightarrow> returnX ((record_outcome p leg outcome)\<lparr>rp_stop_reason := Some reason\<rparr>))))) ?Q"
    proof (intro traces_call_bind traces_bind [OF continuation_traces])
      show "\<exists>k js. run_trace plan u v (leg # legs) p (Inl e) [Persist leg] k js" for e
        using run_trace_persist by blast
      have stop: "?Q (Inl e) (Persist leg # Submit leg u # cs @ [])" if "cs = [] \<or> cs = [Read_account]" for e cs
        using run_trace_stop [OF charge that recovery_trace_Nil, of "Inl e" u] by blast
      show "\<exists>k js. run_trace plan u v (leg # legs) p (Inl e) [Persist leg, Submit leg u] k js" for e
        by (rule stop [of "[]", simplified])
      show "\<exists>k js. run_trace plan u v (leg # legs) p (Inl e) (Persist leg # Submit leg u # cs) k js"
        if "(cs = [] \<or> cs = [Read_account]) \<and> (Inl e = Inr Continue \<longrightarrow> lo_state y = LEG_FILLED)" for e cs y
        by (rule stop [of cs, simplified]) (use that in blast)
    qed (use goes_on [OF charge] in simp)
  qed (use run_trace_refused in blast)
qed

subsection \<open>A whole run\<close>

lemma result_of_run_Inr:
  assumes "result_of_run p = Inr r"
  shows "xr_stop_reason r = rp_stop_reason p" and "xr_submitted_legs r = rp_submitted p"
    and "xr_state r = ''COMPLETED'' \<longleftrightarrow> rp_stop_reason p = None"
proof -
  show "xr_stop_reason r = rp_stop_reason p" "xr_submitted_legs r = rp_submitted p"
    using assms by (auto simp: result_of_run_def validate_execution_result_def bindE_eq_Inr)
  have "xr_state r = (if rp_stop_reason p = None then ''COMPLETED'' else if rp_recovery p \<noteq> [] then ''RECOVERED'' else ''STOPPED'')"
    using assms by (auto simp: result_of_run_def validate_execution_result_def bindE_eq_Inr)
  then show "xr_state r = ''COMPLETED'' \<longleftrightarrow> rp_stop_reason p = None" by simp
qed

lemma persisted_first_kill: "persisted_first cs \<Longrightarrow> persisted_first (cs @ [Engage_kill reason])"
  by (rule persisted_first_append) (auto simp: persisted_first_steps)

text \<open>
  C8: an execution never leaves its frozen plan. Whatever the port answers, and also when the run raises, the
  calls it makes submit a prefix of the plan's legs under the primary capability and then some of the
  frozen recovery branches, in their order, under the recovery capability, each leg once and only directly
  after it was persisted; every submitted leg is within the order ceiling and every prefix of the legs
  within the strategy ceiling; the kill switch is engaged at most once, as the last call. A run that returns
  a result without a stop reason is COMPLETED: it has submitted and filled every leg, recovered nothing and
  engaged no kill. A run that returns any other result ends by engaging the kill switch with its stop
  reason. Of a run that raises no more is promised: it may have engaged no kill.
\<close>

theorem executor_stays_within_plan:
  "\<exists>cs k js. snd (run_frozen_plan P plan grants n h) = h @ cs \<and> persisted_first cs \<and>
     submits cs = map (\<lambda>l. (l, cg_capability_id (sg_grant (gp_primary grants)))) (take k (take n (fp_legs plan))) @
       map (\<lambda>b. (fb_leg b, cg_capability_id (sg_grant (gp_recovery grants)))) js \<and>
     subseq js (fp_recovery_branches plan) \<and>
     within_orders plan (set (take k (take n (fp_legs plan))) \<union> fb_leg ` set js) \<and>
     (\<forall>i<k. dval (gross_notional (take (Suc i) (take n (fp_legs plan))))
        \<le> dval (pv_strategy_gross_notional (fp_effective_limits plan))) \<and>
     (quiet cs \<or> (\<exists>cs' reason. cs = cs' @ [Engage_kill reason] \<and> quiet cs')) \<and>
     (case fst (run_frozen_plan P plan grants n h) of
        Inl e \<Rightarrow> True
      | Inr r \<Rightarrow> (case xr_stop_reason r of
          None \<Rightarrow> xr_state r = ''COMPLETED'' \<and> quiet cs \<and> js = [] \<and> k = length (take n (fp_legs plan)) \<and>
            length (xr_submitted_legs r) = k \<and> all_filled (xr_submitted_legs r)
        | Some reason \<Rightarrow> xr_state r \<noteq> ''COMPLETED'' \<and> cs \<noteq> [] \<and> last cs = Engage_kill reason))"
proof -
  let ?u = "cg_capability_id (sg_grant (gp_primary grants))" and ?v = "cg_capability_id (sg_grant (gp_recovery grants))"
    and ?legs = "take n (fp_legs plan)"
  let ?m = "run_legs P plan grants ?legs start_progress"
  obtain cs k js where cs: "snd (?m h) = h @ cs" and t: "run_trace plan ?u ?v ?legs start_progress (fst (?m h)) cs k js"
    using run_legs_traces [OF refl refl, of P plan grants ?legs start_progress] unfolding traces_def by blast
  have gross: "foldl dadd (rp_committed start_progress) (map leg_notional ls) = gross_notional ls" for ls
    by (simp add: start_progress_def gross_notional_def dsum_def)
  note t = t [unfolded run_trace_def gross]
  show ?thesis
  proof (cases "fst (?m h)")
    case (Inl e)
    then have "run_frozen_plan P plan grants n h = (Inl e, h @ cs)"
      using cs by (simp add: run_frozen_plan_def bindX_def case_prod_beta)
    with t show ?thesis by (intro exI [of _ cs] exI [of _ k] exI [of _ js]) auto
  next
    case (Inr p)
    show ?thesis
    proof (cases "rp_stop_reason p")
      case None
      have "run_frozen_plan P plan grants n h = (result_of_run p, h @ cs)"
        using cs Inr None by (simp add: run_frozen_plan_def bindX_def case_prod_beta returnX_def liftX_def)
      with t Inr None result_of_run_Inr [of p] show ?thesis
        by (intro exI [of _ cs] exI [of _ k] exI [of _ js]) (auto simp: start_progress_def split: sum.splits)
    next
      case (Some reason)
      have run: "run_frozen_plan P plan grants n h =
          (case xp_engage_kill P (h @ cs @ [Engage_kill reason]) reason of Inl e \<Rightarrow> Inl e | Inr _ \<Rightarrow> result_of_run p,
           h @ cs @ [Engage_kill reason])"
        using cs Inr Some
        by (simp add: run_frozen_plan_def bindX_def case_prod_beta callX_def liftX_def split: sum.splits)
      from t result_of_run_Inr [of p] Some show ?thesis
        unfolding run
        by (intro exI [of _ "cs @ [Engage_kill reason]"] exI [of _ k] exI [of _ js])
          (auto simp: persisted_first_kill split: sum.splits)
    qed
  qed
qed

section \<open>Examples\<close>

text \<open>Two legs of eight dollars each, under the compiled ceilings and under a session that may deploy twelve.\<close>

definition example_leg :: "int \<Rightarrow> pilot_leg" where
  "example_leg i = \<lparr>pg_leg_index = i, pg_outcome_token_id = ''token'', pg_side = Buy, pg_limit_price = Dec False 8 (- 1),
     pg_size = Dec False 10 0, pg_order_type = FAK\<rparr>"

definition example_opportunity :: pilot_opportunity where
  "example_opportunity = \<lparr>pq_proof_id = Uuid 1, pq_candidate_id = Uuid 2, pq_proposal_id = Uuid 3, pq_proof_family = BINARY_COMPLEMENT_FAMILY,
     pq_legs = [example_leg 0, example_leg 1], pq_current_surplus_usd = Dec False 1 0, pq_stressed_surplus_usd = Dec False 5 (- 1),
     pq_capacity_usd = Dec False 10 0, pq_incomplete_loss_usd = Dec False 5 (- 1), pq_deployed_capital_usd = Dec False 10 0,
     pq_evidence_hashes = [Sha256 7], pq_information_cutoff = 100\<rparr>"

definition example_pilot_account :: pilot_account where
  "example_pilot_account = \<lparr>pc_account_fingerprint = Sha256 4, pc_wallet_fingerprint = Sha256 5, pc_collateral_usd = Dec False 100 0,
     pc_allowance_usd = Dec False 100 0, pc_kill_engaged = False, pc_observed_at = 200\<rparr>"

definition example_plan :: "pilot_limits \<Rightarrow> frozen_plan" where
  "example_plan limits = (case compile_frozen_pilot_plan example_opportunity limits example_pilot_account 500 of
     Inr p \<Rightarrow> p | Inl _ \<Rightarrow> undefined)"

text \<open>A venue that fills every submission in full.\<close>

definition filled :: "pilot_leg \<Rightarrow> leg_outcome" where
  "filled l = \<lparr>lo_leg_index = pg_leg_index l, lo_state = LEG_FILLED, lo_filled_size = pg_size l, lo_notional_usd = leg_notional l,
     lo_venue_order_id = Some ''order'', lo_observed_at = 150\<rparr>"

definition filling_port :: execution_port where
  "filling_port = \<lparr>xp_persist_intent = (\<lambda>_ _ _. Inr ()), xp_submit = (\<lambda>_ _ l _. Inr (filled l)),
     xp_authoritative_state = (\<lambda>_ _. Inr example_pilot_account), xp_positions = (\<lambda>_ _. Inr []),
     xp_engage_kill = (\<lambda>_ _. Inr ()), xp_presence = None\<rparr>"

lemma example_plan_compiles:
  "compile_frozen_pilot_plan example_opportunity PILOT_CEILINGS example_pilot_account 500 = Inr (example_plan PILOT_CEILINGS)"
  unfolding example_plan_def by code_simp

lemma frozen_plan_within_limits_witness:
  "dval (fp_gross_notional_usd (example_plan PILOT_CEILINGS)) = 24 \<and>
   dval (fp_deployed_capital_usd (example_plan PILOT_CEILINGS)) \<le> 50 \<and>
   list_all2 unwinds (butlast (fp_legs (example_plan PILOT_CEILINGS))) (fp_recovery_branches (example_plan PILOT_CEILINGS))"
proof
  show "dval (fp_gross_notional_usd (example_plan PILOT_CEILINGS)) = 24" by code_simp
qed (use frozen_plan_within_limits [OF example_plan_compiles, unfolded min.bounded_iff] in blast)+


subsection \<open>A completed and an abandoned run\<close>

definition example_binding :: venue_binding where
  "example_binding = \<lparr>vb_venue = Polymarket, vb_manifest_record_hash = Sha256 10, vb_manifest_source_hashes = [Sha256 11],
     vb_eligibility_evidence_hashes = [Sha256 12], vb_strategy_policy_hash = Sha256 13, vb_proof_policy_hash = Sha256 14,
     vb_economics_policy_hash = Sha256 15, vb_protocol_fixture_hash = Sha256 16, vb_route_set_version = ''1'',
     vb_route_set_hash = Sha256 17\<rparr>"

definition example_grant :: "grant_kind \<Rightarrow> uuid \<Rightarrow> execution_operation list \<Rightarrow> capability_grant" where
  "example_grant kind identity operations = \<lparr>cg_capability_id = identity, cg_challenge_id = Uuid 20, cg_grant_kind = kind,
     cg_mode = COMPLETE_STRATEGY, cg_venue_binding = example_binding, cg_account_fingerprint = Sha256 4,
     cg_wallet_fingerprint = Sha256 5, cg_parent_action_id = Uuid 21, cg_session_id = None,
     cg_effective_limits = PILOT_CEILINGS, cg_requested_limits_hash = Sha256 22, cg_ceiling_hash = Sha256 23,
     cg_plan_hash = Sha256 24, cg_strategy_hash = Sha256 25, cg_proof_family_hash = Sha256 26,
     cg_recovery_policy_hash = Sha256 27, cg_browser_session_hash = Sha256 28, cg_passkey_assertion_digest = Sha256 29,
     cg_evidence_hashes = [Sha256 7], cg_allowed_operations = operations, cg_single_use = True, cg_nonce = ''nonce'',
     cg_issuer_key_id = ''key'', cg_not_before = 0, cg_expires_at = seconds 300, cg_presence_deadline = seconds 200\<rparr>"

definition example_grants :: grant_pair where
  "example_grants =
     \<lparr>gp_primary = \<lparr>sg_grant = example_grant PRIMARY (Uuid 30) [SIGN_ORDER, SUBMIT_ORDER], sg_signature = 0,
        sg_public_verification_key = 1\<rparr>,
      gp_recovery = \<lparr>sg_grant = example_grant RECOVERY (Uuid 31) [CANCEL_ORDER], sg_signature = 0,
        sg_public_verification_key = 1\<rparr>\<rparr>"

lemma executor_stays_within_plan_witness:
  "(case fst (run_frozen_plan filling_port (example_plan PILOT_CEILINGS) example_grants 2 []) of
      Inl e \<Rightarrow> False | Inr r \<Rightarrow> xr_state r = ''COMPLETED'' \<and> xr_stop_reason r = None) \<and>
   (\<exists>cs js. snd (run_frozen_plan filling_port (example_plan PILOT_CEILINGS) example_grants 2 []) = cs \<and> quiet cs \<and>
      submits cs = [(example_leg 0, Uuid 30), (example_leg 1, Uuid 30)])"
proof -
  have run: "case fst (run_frozen_plan filling_port (example_plan PILOT_CEILINGS) example_grants 2 []) of
      Inl e \<Rightarrow> False | Inr r \<Rightarrow> xr_state r = ''COMPLETED'' \<and> xr_stop_reason r = None"
    by code_simp
  have legs: "take 2 (fp_legs (example_plan PILOT_CEILINGS)) = [example_leg 0, example_leg 1]" by code_simp
  have primary: "cg_capability_id (sg_grant (gp_primary example_grants)) = Uuid 30" by code_simp
  show ?thesis
    using run executor_stays_within_plan [of filling_port "example_plan PILOT_CEILINGS" example_grants 2 "[]"]
    unfolding legs primary by (auto split: sum.splits)
qed

subsection \<open>A leg beyond the budget\<close>

text \<open>A run over some legs goes on with the rest exactly when it has no reason to stop.\<close>

lemma run_legs_append:
  assumes "rp_stop_reason p = None"
  shows "run_legs P plan grants (xs @ ys) p h =
    (case run_legs P plan grants xs p h of
       (Inl e, h') \<Rightarrow> (Inl e, h')
     | (Inr p', h') \<Rightarrow> if rp_stop_reason p' = None then run_legs P plan grants ys p' h' else (Inr p', h'))"
  using assms
proof (induction xs arbitrary: p h)
  case Nil
  then show ?case by (simp add: returnX_def)
next
  case (Cons leg xs)
  then have "rp_stop_reason (record_outcome p leg outcome) = None" for outcome by (simp add: record_outcome_def)
  note IH = Cons.IH [OF this]
  show ?case
    by (auto simp: Let_def bindX_def liftX_def callX_def returnX_def IH split: sum.splits prod.splits continuation.splits)
qed

lemma budget_breach:
  assumes "dval (pv_order_notional (fp_effective_limits plan)) < dval (leg_notional leg) \<or>
      dval (pv_strategy_gross_notional (fp_effective_limits plan)) < dval (dadd (rp_committed p) (leg_notional leg)) \<or>
      dval (pv_session_deployed_capital (fp_effective_limits plan)) < dval (dadd (rp_deployed p) (leg_notional leg))"
  shows "charge_leg plan p leg = Inl (PilotExecutionError ''LIMIT_BREACH'')"
  using assms by (auto simp: charge_leg_def require_order_within_budget_def dec_compare)

text \<open>
  C40: a leg beyond the budget abandons what was submitted before it. When the first \<open>k\<close> legs have gone through
  without a reason to stop and the next leg is beyond the order, strategy or session ceiling (the capital
  deployed so far and the leg), then for every port, plan, grant and history the whole execution
  raises LIMIT_BREACH, the error of an execution refused before anything reaches the venue: it stops after
  the calls of the \<open>k\<close> legs, all of which were submitted and filled, with no recovery branch submitted and
  without engaging the kill switch.
\<close>

theorem breach_leaves_exposure:
  assumes "run_legs P plan grants (take k (take n (fp_legs plan))) start_progress h = (Inr p, h')"
    and "rp_stop_reason p = None" and "k < length (take n (fp_legs plan))"
  defines "leg \<equiv> fp_legs plan ! k"
  assumes "dval (pv_order_notional (fp_effective_limits plan)) < dval (leg_notional leg) \<or>
      dval (pv_strategy_gross_notional (fp_effective_limits plan)) < dval (dadd (rp_committed p) (leg_notional leg)) \<or>
      dval (pv_session_deployed_capital (fp_effective_limits plan)) < dval (dadd (rp_deployed p) (leg_notional leg))"
  shows "run_frozen_plan P plan grants n h = (Inl (PilotExecutionError ''LIMIT_BREACH''), h') \<and>
    (\<exists>cs. h' = h @ cs \<and> quiet cs \<and>
       submits cs = map (\<lambda>l. (l, cg_capability_id (sg_grant (gp_primary grants)))) (take k (fp_legs plan))) \<and>
    length (rp_submitted p) = k \<and> all_filled (rp_submitted p)"
proof -
  let ?legs = "take n (fp_legs plan)" and ?u = "cg_capability_id (sg_grant (gp_primary grants))"
  have k: "k < n" "k < length (fp_legs plan)" and first: "take k ?legs = take k (fp_legs plan)" using assms(3) by simp_all
  have nth: "?legs ! k = leg" using k by (simp add: leg_def)
  have legs: "?legs = take k ?legs @ leg # drop (Suc k) ?legs"
    using id_take_nth_drop [OF assms(3)] unfolding nth .
  have start: "rp_stop_reason start_progress = None" by (simp add: start_progress_def)
  have run: "run_legs P plan grants ?legs start_progress h = (Inl (PilotExecutionError ''LIMIT_BREACH''), h')"
    by (subst legs, unfold run_legs_append [OF start] assms(1))
      (simp add: assms(2) budget_breach [OF assms(5)] bindX_def liftX_def Let_def)
  obtain cs i js where "snd (run_legs P plan grants (take k ?legs) start_progress h) = h @ cs"
    "run_trace plan ?u (cg_capability_id (sg_grant (gp_recovery grants))) (take k ?legs) start_progress
       (fst (run_legs P plan grants (take k ?legs) start_progress h)) cs i js"
    using run_legs_traces [OF refl refl, of P plan grants "take k ?legs" start_progress] unfolding traces_def by blast
  then have "h' = h @ cs" "quiet cs" "submits cs = map (\<lambda>l. (l, ?u)) (take k (fp_legs plan))"
      "length (rp_submitted p) = k" "all_filled (rp_submitted p)"
    using k assms(2) unfolding assms(1) [unfolded first] run_trace_def first by (auto simp: start_progress_def)
  then show ?thesis using run by (simp add: run_frozen_plan_def bindX_def)
qed

text \<open>The situation arises: a plan compiled under a session ceiling of 12 USD raises after its first leg of 8 USD.\<close>

lemma breach_leaves_exposure_witness:
  "\<exists>limits plan. validate_pilot_limits limits = Inr limits \<and>
     compile_frozen_pilot_plan example_opportunity limits example_pilot_account 500 = Inr plan \<and>
     run_frozen_plan filling_port plan example_grants 2 [] =
       (Inl (PilotExecutionError ''LIMIT_BREACH''), [Persist (example_leg 0), Submit (example_leg 0) (Uuid 30), Read_account]) \<and>
     length (fp_recovery_branches plan) = 1"
proof -
  let ?limits = "PILOT_CEILINGS\<lparr>pv_session_deployed_capital := Dec False 12 0\<rparr>"
  let ?plan = "example_plan ?limits" and ?p = "record_outcome start_progress (example_leg 0) (filled (example_leg 0))"
  have "validate_pilot_limits ?limits = Inr ?limits" by code_simp
  moreover have "compile_frozen_pilot_plan example_opportunity ?limits example_pilot_account 500 = Inr ?plan"
    unfolding example_plan_def by code_simp
  moreover have "run_frozen_plan filling_port ?plan example_grants 2 [] =
      (Inl (PilotExecutionError ''LIMIT_BREACH''), [Persist (example_leg 0), Submit (example_leg 0) (Uuid 30), Read_account])"
  proof (rule breach_leaves_exposure [THEN conjunct1])
    show "run_legs filling_port ?plan example_grants (take 1 (take 2 (fp_legs ?plan))) start_progress [] =
        (Inr ?p, [Persist (example_leg 0), Submit (example_leg 0) (Uuid 30), Read_account])"
      by code_simp
    show "rp_stop_reason ?p = None" "1 < length (take 2 (fp_legs ?plan))" by code_simp+
    have "dlt (pv_session_deployed_capital (fp_effective_limits ?plan)) (dadd (rp_deployed ?p) (leg_notional (fp_legs ?plan ! 1)))"
      by code_simp
    then show "dval (pv_order_notional (fp_effective_limits ?plan)) < dval (leg_notional (fp_legs ?plan ! 1)) \<or>
      dval (pv_strategy_gross_notional (fp_effective_limits ?plan)) < dval (dadd (rp_committed ?p) (leg_notional (fp_legs ?plan ! 1))) \<or>
      dval (pv_session_deployed_capital (fp_effective_limits ?plan)) < dval (dadd (rp_deployed ?p) (leg_notional (fp_legs ?plan ! 1)))"
      by (simp add: dlt_iff)
  qed
  moreover have "length (fp_recovery_branches ?plan) = 1" by code_simp
  ultimately show ?thesis by blast
qed

end
