(* ===== verification/Pilot_Authority.thy ===== *)
theory Pilot_Authority
  imports Pilot_Capabilities
begin

text \<open>
  What an issued grant can do: from the operator's assertion over the issuer, the verifier and the boundary
  to the decision of the authority layer.  A mutation that is allowed under an issued grant was approved by
  the operator as to its account, mode and operations, and keeps to the window and limits of the request; and
  a recovery grant is bounded by the primary's window and by the kill switch like any other.
\<close>

lemma issue_Inr:
  assumes "issue D S i request assertion challenge = Inr (pair, i')"
  shows "\<not> is_closed i"
    and "\<forall>g \<in> set (binding_checks D request assertion challenge @ lifetime_checks request). \<not> fst g"
    and "sg_grant (gp_primary pair) = grant_of i request assertion PRIMARY (cq_capability_id request)
           (cq_allowed_operations request) (cq_primary_nonce request) (cq_expires_at request)"
    and "sg_grant (gp_recovery pair) = grant_of i request assertion RECOVERY (cq_recovery_capability_id request)
           (cq_recovery_operations request) (cq_recovery_nonce request) (cq_recovery_expires_at request)"
  using assms unfolding issue_def sign_primary_and_recovery_def bindE_eq_Inr checkE_Inr validate_grant_def sign_grant_def
  by (auto split: if_splits simp del: checkE.simps)

lemma verify_grant_Inr:
  assumes "verify_grant D S vf c now = Inr (Inr v)"
  shows "verify_capability_signature D S c (vf_public_key vf)" and "cg_capability_id (sg_grant c) \<notin> set (vf_revoked vf)"
    and "\<exists>x. verified_capability_from_grant D (sg_grant c) now = Inr x \<and> v = x"
  using assms unfolding verify_grant_def by (auto simp: bindE_eq_Inr split: option.splits if_splits)

lemma validate_capability_id: "validate_capability c = Inr v \<Longrightarrow> v = c"
  by (auto simp: validate_capability_def bindE_eq_Inr simp del: checkE.simps)

lemma validate_context_id: "validate_context c = Inr d \<Longrightarrow> d = c"
  unfolding validate_context_def bindE_eq_Inr by blast

text \<open>The fields of the projected capability and of the boundary's context.\<close>

lemma projected_capability:
  assumes "verified_capability_from_grant D g now = Inr v"
  shows "ca_capability_id v = cg_capability_id g" "ca_account_fingerprint v = cg_account_fingerprint g"
    "ca_allowed_operations v = cg_allowed_operations g" "ca_not_before v = cg_not_before g" "ca_expires_at v = cg_expires_at g"
    "ca_maximum_capital v = pv_session_deployed_capital (cg_effective_limits g)"
    "ca_maximum_per_intent_notional v = pv_order_notional (cg_effective_limits g)"
    "ca_maximum_position v = pv_strategy_gross_notional (cg_effective_limits g)"
    "ca_maximum_loss v = pv_session_loss (cg_effective_limits g)"
    "ca_activation_nonce v = cg_nonce g" "ca_grant_kind v = Some (cg_grant_kind g)"
    "ca_presence_deadline v = Some (cg_presence_deadline g)" "ca_parent_action_id v = Some (cg_parent_action_id g)"
  using validate_capability_id [OF assms [unfolded verified_capability_from_grant_def Let_def]] by simp_all

lemma boundary_context:
  assumes "build_authority_context v b = Inr c"
  shows "ax_manifest c = be_manifest b" "ax_verified_capability c = Some v" "ax_now c = be_now b"
    "ax_account_fingerprint c = be_account_fingerprint b" "ax_requested_notional c = be_requested_notional b"
    "ax_capital_after c = be_capital_after b" "ax_position_after c = be_position_after b" "ax_loss_after c = be_loss_after b"
    "ax_used_activation_nonces c = be_used_activation_nonces b" "ax_revoked_capability_ids c = be_revoked_capability_ids b"
    "ax_kill_engaged c = be_kill_engaged b" "ax_action_id c = be_action_id b" "ax_operator_present c = be_operator_present b"
    and "validate_context c = Inr c"
proof -
  note c = validate_context_id [OF assms [unfolded build_authority_context_def]]
  show "validate_context c = Inr c" using assms c unfolding build_authority_context_def by simp
qed (use validate_context_id [OF assms [unfolded build_authority_context_def]] in simp_all)

lemma validate_capability_request_Inr:
  assumes "validate_capability_request r = Inr r"
  shows "dval (pv_order_notional (cq_effective_limits r)) \<le> 10" "dval (pv_strategy_gross_notional (cq_effective_limits r)) \<le> 25"
    "dval (pv_session_deployed_capital (cq_effective_limits r)) \<le> 50" "dval (pv_session_loss (cq_effective_limits r)) \<le> 5"
proof -
  have ceiling: "dval (Dec False 10 0) = 10" "dval (Dec False 25 0) = 25" "dval (Dec False 50 0) = 50" "dval (Dec False 5 0) = 5"
    by code_simp+
  have "\<exists>l. validate_pilot_limits (cq_effective_limits r) = Inr l"
    using assms unfolding validate_capability_request_def bindE_eq_Inr by blast
  then show "dval (pv_order_notional (cq_effective_limits r)) \<le> 10" "dval (pv_strategy_gross_notional (cq_effective_limits r)) \<le> 25"
    "dval (pv_session_deployed_capital (cq_effective_limits r)) \<le> 50" "dval (pv_session_loss (cq_effective_limits r)) \<le> 5"
    by (auto simp: validate_pilot_limits_def dle_iff ceiling split: if_splits)
qed

lemma validate_capability_request_id: "validate_capability_request r = Inr r' \<Longrightarrow> r' = r"
  unfolding validate_capability_request_def bindE_eq_Inr by blast

text \<open>What the operator's approval of a request fixes.\<close>

definition approved_request ::
  "digests \<Rightarrow> capability_request \<Rightarrow> operator_assertion \<Rightarrow> authorization_challenge \<Rightarrow> bool" where
  "approved_request D request assertion challenge \<longleftrightarrow>
     av_action_digest assertion = action_challenge_digest D challenge \<and>
     av_challenge_id assertion = ac_challenge_id challenge \<and> ac_grant_kind challenge = PRIMARY \<and>
     ac_mode challenge = cq_mode request \<and> av_account_fingerprint assertion = cq_account_fingerprint request \<and>
     av_browser_session_hash assertion = cq_browser_session_hash request \<and>
     ac_requested_limits_hash challenge = cq_requested_limits_hash request \<and> cq_ceiling_hash request = PILOT_CEILING_HASH D \<and>
     set (ac_allowed_operations challenge) = set (cq_allowed_operations request) \<and>
     set (ac_recovery_operations challenge) = set (cq_recovery_operations request)"

definition bounded_lifetimes :: "capability_request \<Rightarrow> bool" where
  "bounded_lifetimes r \<longleftrightarrow> cq_not_before r < cq_expires_at r \<and>
     cq_expires_at r - cq_not_before r \<le> maximum_primary_lifetime (cq_mode r) \<and>
     cq_recovery_expires_at r \<le> cq_expires_at r + seconds 120 \<and> cq_presence_deadline r \<le> cq_expires_at r"

lemma issue_approved:
  assumes "issue D S i request assertion challenge = Inr (pair, i')"
  shows "approved_request D request assertion challenge" and "bounded_lifetimes request"
proof -
  note checks = issue_Inr(2) [OF assms, unfolded binding_checks_def lifetime_checks_def list.set append.simps ball_simps fst_conv
      set_append ball_Un not_not de_Morgan_disj]
  show "approved_request D request assertion challenge"
    using checks unfolding approved_request_def by (elim conjE) (intro conjI; simp only:)
  show "bounded_lifetimes request"
    using checks unfolding bounded_lifetimes_def MAXIMUM_RECOVERY_LIFETIME_def by (elim conjE) (simp only: not_less not_le, simp)
qed

text \<open>
  C9: what the operator approved bounds what an issued grant allows. Whatever the boundary knows, if the authority
  layer allows an operation on the strength of a grant the issuer signed, then the operator's assertion covers
  the challenge of the request: the same mode, account and browser session, the compiled ceiling, and a
  limits hash in the request equal to the approved one; the operation is among those the challenge names
  (under the recovery grant, only a cancellation), for the account that approved it; the operator is present, the
  kill switch disengaged, the grant's nonce unspent and its identity unrevoked. The action, the time and the amounts
  are bounded by the request: the action is its target, the time within its window, the maximum primary
  lifetime and its presence deadline, the amounts within its effective limits and the compiled ceilings. The
  issuer does not compare that target and window with the challenge, nor the effective limits with the approved
  hash, so their approval is not promised.
\<close>

theorem issued_mutations_approved:
  assumes request: "validate_capability_request request = Inr request"
    and issued: "issue D S i request assertion challenge = Inr (pair, i')"
    and c: "c = gp_primary pair \<or> c = gp_recovery pair"
    and verified: "verify_grant D S vf c verified_at = Inr (Inr v)"
    and boundary: "build_authority_context v b = Inr x"
    and decided: "verify_mutation_authority D x op = Inr d" and allowed: "ad_allowed d"
  shows "approved_request D request assertion challenge \<and>
    be_account_fingerprint b = av_account_fingerprint assertion \<and> be_action_id b = Some (cq_target_id request) \<and>
    (if c = gp_primary pair then op \<in> set (ac_allowed_operations challenge)
     else op = CANCEL_ORDER \<and> op \<in> set (ac_recovery_operations challenge)) \<and>
    cq_not_before request \<le> be_now b \<and> be_now b \<le> cq_presence_deadline request \<and>
    be_now b - cq_not_before request \<le> maximum_primary_lifetime (cq_mode request) \<and>
    be_operator_present b \<and> \<not> be_kill_engaged b \<and>
    cg_nonce (sg_grant c) \<notin> set (be_used_activation_nonces b) \<and>
    cg_capability_id (sg_grant c) \<notin> set (be_revoked_capability_ids b) \<union> set (vf_revoked vf) \<and>
    dval (be_requested_notional b) \<le> min 10 (dval (pv_order_notional (cq_effective_limits request))) \<and>
    dval (be_capital_after b) \<le> min 50 (dval (pv_session_deployed_capital (cq_effective_limits request))) \<and>
    dval (dabs (be_position_after b)) \<le> min 25 (dval (pv_strategy_gross_notional (cq_effective_limits request))) \<and>
    dval (be_loss_after b) \<le> min 5 (dval (pv_session_loss (cq_effective_limits request)))"
proof -
  note approved = issue_approved [OF issued]
  note grants = issue_Inr(3,4) [OF issued]
  have kinds: "cg_grant_kind (sg_grant (gp_primary pair)) \<noteq> cg_grant_kind (sg_grant (gp_recovery pair))"
    unfolding grants by (simp add: grant_of_def)
  obtain projected: "verified_capability_from_grant D (sg_grant c) verified_at = Inr v"
    using verify_grant_Inr(3) [OF verified] by blast
  note v = projected_capability [OF projected] and x = boundary_context [OF boundary]
  obtain m where "capability_binds D x m v" "grant_covers x v op" "within_limits x v" "boundary_open x v"
    using authority_allowed [OF x(14), of D op] decided allowed x(2) by auto
  note facts = this [unfolded capability_binds_def grant_covers_def within_limits_def boundary_open_def v x]
  have g: "cg_account_fingerprint (sg_grant c) = cq_account_fingerprint request"
    "cg_effective_limits (sg_grant c) = cq_effective_limits request" "cg_not_before (sg_grant c) = cq_not_before request"
    "cg_presence_deadline (sg_grant c) = cq_presence_deadline request" "cg_parent_action_id (sg_grant c) = cq_target_id request"
    "if c = gp_primary pair then cg_allowed_operations (sg_grant c) = cq_allowed_operations request
     else cg_grant_kind (sg_grant c) = RECOVERY \<and> cg_allowed_operations (sg_grant c) = cq_recovery_operations request"
    using c kinds grants by (auto simp: grant_of_def)
  have account: "av_account_fingerprint assertion = cq_account_fingerprint request"
    and operations: "set (ac_allowed_operations challenge) = set (cq_allowed_operations request)"
      "set (ac_recovery_operations challenge) = set (cq_recovery_operations request)"
    using approved(1) unfolding approved_request_def by blast+
  have deadline: "cq_presence_deadline request \<le> cq_expires_at request"
    and window: "cq_expires_at request - cq_not_before request \<le> maximum_primary_lifetime (cq_mode request)"
    using approved(2) unfolding bounded_lifetimes_def by blast+
  have covered: "if c = gp_primary pair then op \<in> set (ac_allowed_operations challenge)
      else op = CANCEL_ORDER \<and> op \<in> set (ac_recovery_operations challenge)"
    using facts g(6) operations by (simp split: if_splits)
  have present: "be_now b \<le> cq_presence_deadline request" "be_operator_present b" "be_action_id b = Some (cq_target_id request)"
    using facts g(4,5) by (simp_all split: if_splits)
  have amounts: "dval (be_requested_notional b) \<le> dval (pv_order_notional (cq_effective_limits request))"
    "dval (be_capital_after b) \<le> dval (pv_session_deployed_capital (cq_effective_limits request))"
    "dval (dabs (be_position_after b)) \<le> dval (pv_strategy_gross_notional (cq_effective_limits request))"
    "dval (be_loss_after b) \<le> dval (pv_session_loss (cq_effective_limits request))"
    using facts g(2) by simp_all
  have "cg_account_fingerprint (sg_grant c) = be_account_fingerprint b" using facts by blast
  then have bound: "be_account_fingerprint b = av_account_fingerprint assertion" using account g(1) by simp
  have "cg_not_before (sg_grant c) \<le> be_now b" using facts by blast
  then have start: "cq_not_before request \<le> be_now b" using g(3) by simp
  have rest: "\<not> be_kill_engaged b" "cg_nonce (sg_grant c) \<notin> set (be_used_activation_nonces b)" using facts by blast+
  have "cg_capability_id (sg_grant c) \<notin> set (be_revoked_capability_ids b)" using facts by blast
  then have unrevoked: "cg_capability_id (sg_grant c) \<notin> set (be_revoked_capability_ids b) \<union> set (vf_revoked vf)"
    using verify_grant_Inr(2) [OF verified] by simp
  have lifetime: "be_now b - cq_not_before request \<le> maximum_primary_lifetime (cq_mode request)"
    using present(1) deadline window by linarith
  show ?thesis
    using approved(1) bound start rest unrevoked present covered lifetime amounts validate_capability_request_Inr [OF request]
    by (intro conjI; simp only: min.bounded_iff; blast intro: order_trans)
qed

section \<open>A worked approval\<close>

definition approval_limits_hash :: sha256 where
  "approval_limits_hash = Sha256 40"

definition example_challenge :: authorization_challenge where
  "example_challenge = \<lparr>ac_challenge_id = Uuid 20, ac_account_fingerprint = Sha256 2, ac_wallet_fingerprint = Sha256 5,
     ac_browser_session_hash = Sha256 28, ac_credential_id_hash = Sha256 30, ac_mode = COMPLETE_STRATEGY,
     ac_grant_kind = PRIMARY, ac_target_id = Uuid 21, ac_policy_id = Uuid 22, ac_evidence_hashes = [Sha256 7],
     ac_requested_limits_hash = approval_limits_hash, ac_ceiling_hash = PILOT_CEILING_HASH example_digests,
     ac_allowed_operations = [CANCEL_ORDER, SIGN_ORDER], ac_recovery_operations = [CANCEL_ORDER],
     ac_confirmation_text = ''yes'', ac_confirmation_text_hash = Sha256 31, ac_nonce = ''C'', ac_state = CHALLENGE_ISSUED,
     ac_not_before = 0, ac_expires_at = 100\<rparr>"

definition example_assertion :: operator_assertion where
  "example_assertion = \<lparr>av_challenge_id = Uuid 20, av_credential_id_hash = Sha256 30, av_browser_session_hash = Sha256 28,
     av_account_fingerprint = Sha256 2, av_action_digest = action_challenge_digest example_digests example_challenge,
     av_assertion_digest = Sha256 32, av_sign_count = 1, av_verified_at = 1\<rparr>"

definition example_request :: capability_request where
  "example_request = \<lparr>cq_capability_id = Uuid 30, cq_recovery_capability_id = Uuid 31, cq_challenge_id = Uuid 20,
     cq_mode = COMPLETE_STRATEGY,
     cq_venue_binding = \<lparr>vb_venue = Polymarket,
       vb_manifest_record_hash = canonical_execution_hash example_digests (manifest_content example_manifest),
       vb_manifest_source_hashes = [Sha256 1], vb_eligibility_evidence_hashes = [Sha256 3], vb_strategy_policy_hash = Sha256 4,
       vb_proof_policy_hash = Sha256 5, vb_economics_policy_hash = Sha256 6, vb_protocol_fixture_hash = Sha256 7,
       vb_route_set_version = ''1'', vb_route_set_hash = Sha256 8\<rparr>,
     cq_account_fingerprint = Sha256 2, cq_wallet_fingerprint = Sha256 5, cq_browser_session_hash = Sha256 28,
     cq_policy_id = Uuid 22, cq_target_id = Uuid 21, cq_session_id = None, cq_effective_limits = PILOT_CEILINGS,
     cq_requested_limits_hash = approval_limits_hash, cq_ceiling_hash = PILOT_CEILING_HASH example_digests,
     cq_plan_hash = Sha256 24, cq_strategy_hash = Sha256 25, cq_proof_family_hash = Sha256 26,
     cq_recovery_policy_hash = Sha256 27, cq_evidence_hashes = [Sha256 7],
     cq_allowed_operations = [CANCEL_ORDER, SIGN_ORDER], cq_recovery_operations = [CANCEL_ORDER], cq_primary_nonce = ''P'',
     cq_recovery_nonce = ''R'', cq_not_before = 0, cq_expires_at = seconds 300, cq_recovery_expires_at = seconds 400,
     cq_presence_deadline = seconds 200\<rparr>"

text \<open>A signature that is its digest, good for evaluation.\<close>

definition plain_signatures :: signature_scheme where
  "plain_signatures = \<lparr>sig_sign = (\<lambda>k d. sha256_int d), sig_check = (\<lambda>k s d. s = sha256_int d)\<rparr>"

definition example_issuer :: issuer_state where
  "example_issuer = \<lparr>is_public_key = 1, is_key_id = ''K'', is_closed = False, is_claimed_nonces = [], is_issued_capabilities = []\<rparr>"

definition example_issued :: "grant_pair \<times> issuer_state" where
  "example_issued = projr (issue example_digests plain_signatures example_issuer example_request example_assertion example_challenge)"

definition example_verifier :: verifier_state where
  "example_verifier = \<lparr>vf_public_key = 1, vf_revoked = []\<rparr>"

definition example_verified :: verified_capability where
  "example_verified = projr (projr (verify_grant example_digests plain_signatures example_verifier
     (gp_primary (fst example_issued)) 50))"

definition example_evidence :: boundary_evidence where
  "example_evidence = \<lparr>be_manifest = Some example_manifest, be_now = 50, be_account_fingerprint = Sha256 2,
     be_action_id = Some (Uuid 21), be_requested_notional = Dec False 10 0, be_capital_after = Dec False 10 0,
     be_position_after = Dec False 10 0, be_loss_after = dec0, be_used_activation_nonces = [], be_revoked_capability_ids = [],
     be_geoblock_allowed = Some True, be_geoblock_evidence_hash = Some (Sha256 11), be_geoblock_expires_at = Some 51,
     be_account_scope_evidence_hash = Some (Sha256 12), be_account_scope_expires_at = Some 51, be_kill_engaged = False,
     be_operator_present = True, be_evidence_hashes = [Sha256 13], be_permitted_clock_skew = seconds 2,
     be_observed_clock_skew = 0, be_credential_route_requested = False\<rparr>"

definition example_context :: authority_context where
  "example_context = projr (build_authority_context example_verified example_evidence)"

lemma example_approval:
  "\<not> isl (validate_capability_request example_request)"
  "\<not> isl (issue example_digests plain_signatures example_issuer example_request example_assertion example_challenge)"
  "\<not> isl (verify_grant example_digests plain_signatures example_verifier (gp_primary (fst example_issued)) 50)"
  "\<not> isl (projr (verify_grant example_digests plain_signatures example_verifier (gp_primary (fst example_issued)) 50))"
  "\<not> isl (build_authority_context example_verified example_evidence)"
  "decision_reason (verify_mutation_authority example_digests example_context SIGN_ORDER) = Some None"
  by code_simp+

lemma issued_mutations_approved_witness:
  "\<exists>d. verify_mutation_authority example_digests example_context SIGN_ORDER = Inr d \<and> ad_allowed d \<and>
     SIGN_ORDER \<in> set (ac_allowed_operations example_challenge) \<and> be_now example_evidence \<le> seconds 200 \<and>
     dval (be_requested_notional example_evidence) \<le> 10"
proof -
  note ran = example_approval
  have request: "validate_capability_request example_request = Inr example_request"
    using ran(1) validate_capability_request_id [of example_request] by (cases "validate_capability_request example_request") auto
  have issued: "issue example_digests plain_signatures example_issuer example_request example_assertion example_challenge =
      Inr (fst example_issued, snd example_issued)"
    using ran(2) unfolding example_issued_def by simp
  have verified: "verify_grant example_digests plain_signatures example_verifier (gp_primary (fst example_issued)) 50 =
      Inr (Inr example_verified)"
    using ran(3,4) unfolding example_verified_def by simp
  have boundary: "build_authority_context example_verified example_evidence = Inr example_context"
    using ran(5) unfolding example_context_def by simp
  obtain d where d: "verify_mutation_authority example_digests example_context SIGN_ORDER = Inr d" "ad_reason d = None"
    using ran(6) by (auto simp: decision_reason_def split: sum.splits)
  have "ad_allowed d"
    using authority_allowed [OF boundary_context(14) [OF boundary], of example_digests SIGN_ORDER] d by auto
  then show ?thesis
    using issued_mutations_approved [OF request issued disjI1 [OF refl] verified boundary d(1)] d(1)
    by (auto simp: example_request_def)
qed

end
