(* ===== verification/Pilot_Presence.thy ===== *)
theory Pilot_Presence
  imports Prelude
begin

text \<open>
  Operator presence (\<open>predictions/pilot/presence.py\<close>): the monitor that turns browser heartbeats and native
  signals into one verdict.  The native source is outside the module: what it answers, a monotonic reading
  and the drained signals, is part of each input.  The lemmas follow the monitor over all its inputs as a
  step relation.
\<close>

section \<open>The monitor\<close>

definition HEARTBEAT_INTERVAL :: int where
  "HEARTBEAT_INTERVAL = seconds 2"

definition MAXIMUM_MISSED_HEARTBEATS :: int where
  "MAXIMUM_MISSED_HEARTBEATS = 2"

definition MAXIMUM_HEARTBEAT_SILENCE :: int where
  "MAXIMUM_HEARTBEAT_SILENCE = seconds 5"

definition MAXIMUM_MONOTONIC_GAP :: int where
  "MAXIMUM_MONOTONIC_GAP = MAXIMUM_HEARTBEAT_SILENCE"

datatype presence_kill_reason =
  HEARTBEAT_MISSED | HEARTBEAT_SILENT | SCREEN_LOCKED_KILL | SYSTEM_SLEPT_KILL | PAGE_CLOSED

datatype native_signal = SCREEN_LOCKED | SCREEN_UNLOCKED | SYSTEM_SLEPT | SYSTEM_WOKE

text \<open>The monitor never enters \<open>LOST\<close>.\<close>

datatype presence_state = PRESENT | LOST | TERMINAL

text \<open>\<open>pm_kills\<close> are the reasons handed to the kill callback so far.\<close>

record presence_monitor =
  pm_last_heartbeat :: timestamp
  pm_last_monotonic :: int
  pm_state :: presence_state
  pm_kill_reason :: "presence_kill_reason option"
  pm_kills :: "presence_kill_reason list"

record presence_decision =
  pd_state :: presence_state
  pd_kill_reason :: "presence_kill_reason option"
  pd_observed_at :: timestamp

definition start_monitor :: "timestamp \<Rightarrow> int \<Rightarrow> presence_monitor" where
  "start_monitor started_at monotonic =
     \<lparr>pm_last_heartbeat = started_at, pm_last_monotonic = monotonic, pm_state = PRESENT, pm_kill_reason = None, pm_kills = []\<rparr>"

definition presence_decision_of :: "presence_monitor \<Rightarrow> timestamp \<Rightarrow> presence_decision" where
  "presence_decision_of m now = \<lparr>pd_state = pm_state m, pd_kill_reason = pm_kill_reason m, pd_observed_at = now\<rparr>"

definition kill_presence :: "presence_monitor \<Rightarrow> presence_kill_reason \<Rightarrow> presence_monitor" where
  "kill_presence m reason =
     m\<lparr>pm_state := TERMINAL, pm_kill_reason := Some reason, pm_kills := pm_kills m @ [reason]\<rparr>"

definition record_browser_heartbeat :: "presence_monitor \<Rightarrow> timestamp \<Rightarrow> presence_monitor" where
  "record_browser_heartbeat m now =
     (if pm_state m = TERMINAL then m
      else let silence = now - pm_last_heartbeat m in
        if MAXIMUM_HEARTBEAT_SILENCE \<le> silence then kill_presence m HEARTBEAT_SILENT
        else if HEARTBEAT_INTERVAL * MAXIMUM_MISSED_HEARTBEATS < silence then kill_presence m HEARTBEAT_MISSED
        else m\<lparr>pm_last_heartbeat := now\<rparr>)"

text \<open>\<open>timedelta(microseconds=n / 1000)\<close> of a nanosecond count rounds half to even.\<close>

definition nanoseconds_to_timedelta :: "int \<Rightarrow> int" where
  "nanoseconds_to_timedelta n =
     (let q = n div 1000; r = n mod 1000 in if 500 < r \<or> (r = 500 \<and> odd q) then q + 1 else q)"

definition signal_kill :: "native_signal \<Rightarrow> presence_kill_reason option" where
  "signal_kill s = (case s of SCREEN_LOCKED \<Rightarrow> Some SCREEN_LOCKED_KILL | SYSTEM_SLEPT \<Rightarrow> Some SYSTEM_SLEPT_KILL | _ \<Rightarrow> None)"

text \<open>The loop over the drained signals returns at the first that kills.\<close>

fun first_signal_kill :: "native_signal list \<Rightarrow> presence_kill_reason option" where
  "first_signal_kill [] = None"
| "first_signal_kill (s # ss) = (case signal_kill s of None \<Rightarrow> first_signal_kill ss | Some r \<Rightarrow> Some r)"

definition record_native_state :: "presence_monitor \<Rightarrow> int \<Rightarrow> native_signal list \<Rightarrow> presence_monitor" where
  "record_native_state m observed signals =
     (if pm_state m = TERMINAL then m
      else let gap = nanoseconds_to_timedelta (observed - pm_last_monotonic m); m = m\<lparr>pm_last_monotonic := observed\<rparr> in
        if MAXIMUM_MONOTONIC_GAP < gap then kill_presence m SYSTEM_SLEPT_KILL
        else (case first_signal_kill signals of None \<Rightarrow> m | Some reason \<Rightarrow> kill_presence m reason))"

definition record_page_closed :: "presence_monitor \<Rightarrow> presence_monitor" where
  "record_page_closed m = kill_presence m PAGE_CLOSED"

definition evaluate_presence :: "presence_monitor \<Rightarrow> timestamp \<Rightarrow> presence_monitor" where
  "evaluate_presence m now =
     (if pm_state m = TERMINAL then m
      else if MAXIMUM_HEARTBEAT_SILENCE \<le> now - pm_last_heartbeat m then kill_presence m HEARTBEAT_SILENT
      else if HEARTBEAT_INTERVAL * MAXIMUM_MISSED_HEARTBEATS < now - pm_last_heartbeat m
        then kill_presence m HEARTBEAT_MISSED
      else m)"

section \<open>Its inputs\<close>

datatype presence_input =
    Browser_heartbeat timestamp
  | Native_state timestamp int "native_signal list"
  | Page_closed timestamp
  | Evaluate timestamp

fun presence_input_step :: "presence_monitor \<Rightarrow> presence_input \<Rightarrow> presence_monitor \<times> presence_decision" where
  "presence_input_step m (Browser_heartbeat now) =
     (let m = record_browser_heartbeat m now in (m, presence_decision_of m now))"
| "presence_input_step m (Native_state now observed signals) =
     (let m = record_native_state m observed signals in (m, presence_decision_of m now))"
| "presence_input_step m (Page_closed now) = (let m = record_page_closed m in (m, presence_decision_of m now))"
| "presence_input_step m (Evaluate now) = (let m = evaluate_presence m now in (m, presence_decision_of m now))"

text \<open>The monitor after a list of inputs; the last input comes first in the list of what was seen.\<close>

inductive monitored :: "timestamp \<Rightarrow> int \<Rightarrow> presence_input list \<Rightarrow> presence_monitor \<Rightarrow> bool" for t0 k0 where
  started: "monitored t0 k0 [] (start_monitor t0 k0)"
| observed: "monitored t0 k0 seen m \<Longrightarrow> presence_input_step m i = (m', d) \<Longrightarrow> monitored t0 k0 (i # seen) m'"

inductive_cases monitored_ConsE: "monitored t0 k0 (i # seen) m"

section \<open>When presence is kept\<close>

fun last_heartbeat :: "timestamp \<Rightarrow> presence_input list \<Rightarrow> timestamp" where
  "last_heartbeat t0 [] = t0"
| "last_heartbeat t0 (i # seen) = (case i of Browser_heartbeat now \<Rightarrow> now | _ \<Rightarrow> last_heartbeat t0 seen)"

fun last_reading :: "int \<Rightarrow> presence_input list \<Rightarrow> int" where
  "last_reading k0 [] = k0"
| "last_reading k0 (i # seen) = (case i of Native_state _ observed _ \<Rightarrow> observed | _ \<Rightarrow> last_reading k0 seen)"

text \<open>
  The evidence of an operator who never left: no heartbeat and no evaluation more than four seconds after the
  heartbeat before it, no two monotonic readings more than five seconds (and half a microsecond) apart, no
  lock or sleep signal, and the page open.
\<close>

fun undisturbed :: "timestamp \<Rightarrow> int \<Rightarrow> presence_input list \<Rightarrow> bool" where
  "undisturbed t0 k0 [] \<longleftrightarrow> True"
| "undisturbed t0 k0 (i # seen) \<longleftrightarrow> undisturbed t0 k0 seen \<and>
     (case i of
        Browser_heartbeat now \<Rightarrow> now - last_heartbeat t0 seen \<le> 4000000
      | Evaluate now \<Rightarrow> now - last_heartbeat t0 seen \<le> 4000000
      | Native_state _ observed signals \<Rightarrow> observed - last_reading k0 seen \<le> 5000000500 \<and>
          SCREEN_LOCKED \<notin> set signals \<and> SYSTEM_SLEPT \<notin> set signals
      | Page_closed _ \<Rightarrow> False)"

lemma nanoseconds_within: "nanoseconds_to_timedelta n \<le> 5000000 \<longleftrightarrow> n \<le> 5000000500"
proof -
  define q r where "q = n div 1000" and "r = n mod 1000"
  then have n: "n = 1000 * q + r" "0 \<le> r" "r < 1000" by simp_all
  have "nanoseconds_to_timedelta n = (if 500 < r \<or> (r = 500 \<and> odd q) then q + 1 else q)"
    by (simp add: nanoseconds_to_timedelta_def q_def r_def Let_def)
  moreover have "q < 5000000 \<or> q = 5000000 \<or> 5000000 < q" by linarith
  moreover have "even q" if "q = 5000000" using that by simp
  ultimately show ?thesis using n by (elim disjE) auto
qed

lemma first_signal_kill_None: "first_signal_kill ss = None \<longleftrightarrow> SCREEN_LOCKED \<notin> set ss \<and> SYSTEM_SLEPT \<notin> set ss"
  by (induction ss) (auto simp: signal_kill_def split: native_signal.splits)

text \<open>One monitor and its history agree.\<close>

definition agrees :: "timestamp \<Rightarrow> int \<Rightarrow> presence_input list \<Rightarrow> presence_monitor \<Rightarrow> bool" where
  "agrees t0 k0 seen m \<longleftrightarrow>
     (if undisturbed t0 k0 seen
      then pm_state m = PRESENT \<and> pm_kill_reason m = None \<and> pm_kills m = [] \<and>
        pm_last_heartbeat m = last_heartbeat t0 seen \<and> pm_last_monotonic m = last_reading k0 seen
      else pm_state m = TERMINAL \<and> pm_kills m \<noteq> [] \<and> set (tl (pm_kills m)) \<subseteq> {PAGE_CLOSED} \<and>
        pm_kill_reason m = Some (last (pm_kills m)))"

lemmas presence_ops = record_browser_heartbeat_def record_native_state_def record_page_closed_def evaluate_presence_def
  MAXIMUM_HEARTBEAT_SILENCE_def MAXIMUM_MONOTONIC_GAP_def HEARTBEAT_INTERVAL_def MAXIMUM_MISSED_HEARTBEATS_def seconds_def

lemma kill_presence_sel [simp]:
  "pm_state (kill_presence m r) = TERMINAL" "pm_kill_reason (kill_presence m r) = Some r"
  "pm_kills (kill_presence m r) = pm_kills m @ [r]"
  by (simp_all add: kill_presence_def)

lemma agrees_step:
  assumes "agrees t0 k0 seen m" and "presence_input_step m i = (m', d)"
  shows "agrees t0 k0 (i # seen) m'"
proof (cases "undisturbed t0 k0 seen")
  case True
  then have m: "pm_state m = PRESENT" "pm_kill_reason m = None" "pm_kills m = []"
    "pm_last_heartbeat m = last_heartbeat t0 seen" "pm_last_monotonic m = last_reading k0 seen"
    using assms(1) by (simp_all add: agrees_def)
  show ?thesis
  proof (cases i)
    case (Native_state now observed signals)
    have gap: "5000000 < nanoseconds_to_timedelta n \<longleftrightarrow> \<not> n \<le> 5000000500" for n
      using nanoseconds_within [of n] by auto
    have m': "m' = record_native_state m observed signals" using assms(2) by (simp add: Native_state Let_def)
    show ?thesis
    proof (cases "first_signal_kill signals")
      case None
      then show ?thesis
        using True first_signal_kill_None [of signals] unfolding m' Native_state by (simp add: agrees_def Let_def presence_ops gap m)
    next
      case (Some r)
      then have "\<not> (SCREEN_LOCKED \<notin> set signals \<and> SYSTEM_SLEPT \<notin> set signals)"
        using first_signal_kill_None [of signals] by simp
      with Some show ?thesis unfolding m' Native_state by (simp add: agrees_def Let_def presence_ops gap m)
    qed
  next
    case (Browser_heartbeat now)
    then have m': "m' = record_browser_heartbeat m now" using assms(2) by (simp add: Let_def)
    show ?thesis using True unfolding m' Browser_heartbeat by (simp add: agrees_def Let_def presence_ops m)
  next
    case (Evaluate now)
    then have m': "m' = evaluate_presence m now" using assms(2) by (simp add: Let_def)
    show ?thesis using True unfolding m' Evaluate by (simp add: agrees_def presence_ops m)
  next
    case (Page_closed now)
    then have m': "m' = record_page_closed m" using assms(2) by (simp add: Let_def)
    show ?thesis using True unfolding m' Page_closed by (simp add: agrees_def presence_ops m)
  qed
next
  case False
  then have m: "pm_state m = TERMINAL" "pm_kills m \<noteq> []" "set (tl (pm_kills m)) \<subseteq> {PAGE_CLOSED}"
    "pm_kill_reason m = Some (last (pm_kills m))"
    using assms(1) by (simp_all add: agrees_def)
  show ?thesis using assms(2) m False by (cases i) (auto simp: agrees_def Let_def presence_ops)
qed

text \<open>
  Presence is kept exactly while nothing disturbed it, and lost for good. After any inputs the monitor is
  PRESENT exactly when no heartbeat and no evaluation came more than four seconds after the heartbeat before
  it, no monotonic gap exceeded five seconds, no signal reported a lock or sleep, and the page was not closed;
  it then has no kill reason and the kill callback was never called. Otherwise it is TERMINAL, never merely
  LOST: the callback was called once for the first loss and afterwards only for a page that was closed, whose
  reason also replaces the first one.
\<close>

lemma presence_kept_iff:
  assumes "monitored t0 k0 seen m"
  shows "(pm_state m = PRESENT \<longleftrightarrow> undisturbed t0 k0 seen) \<and> pm_state m \<noteq> LOST \<and>
    (pm_state m = PRESENT \<longleftrightarrow> pm_kill_reason m = None) \<and> (pm_state m = PRESENT \<longleftrightarrow> pm_kills m = []) \<and>
    set (tl (pm_kills m)) \<subseteq> {PAGE_CLOSED} \<and>
    pm_kill_reason m = (if pm_kills m = [] then None else Some (last (pm_kills m)))"
proof -
  have "agrees t0 k0 seen m"
    using assms
  proof (induction rule: monitored.induct)
    case started
    then show ?case by (simp add: agrees_def start_monitor_def)
  next
    case (observed seen m i m' d)
    then show ?case by (blast intro: agrees_step)
  qed
  then show ?thesis by (auto simp: agrees_def split: if_splits)
qed

lemma presence_lost_example:
  "\<exists>m. monitored 0 0 [Page_closed 9000000, Evaluate 7100000, Browser_heartbeat 3000000] m \<and> pm_state m = TERMINAL \<and>
     pm_kills m = [HEARTBEAT_MISSED, PAGE_CLOSED] \<and> \<not> undisturbed 0 0 [Page_closed 9000000, Evaluate 7100000, Browser_heartbeat 3000000]"
proof -
  let ?m1 = "fst (presence_input_step (start_monitor 0 0) (Browser_heartbeat 3000000))"
  let ?m2 = "fst (presence_input_step ?m1 (Evaluate 7100000))"
  let ?m3 = "fst (presence_input_step ?m2 (Page_closed 9000000))"
  have "monitored 0 0 [Page_closed 9000000, Evaluate 7100000, Browser_heartbeat 3000000] ?m3"
    by (intro monitored.observed [OF _ surjective_pairing] monitored.started)
  moreover have "pm_state ?m3 = TERMINAL" "pm_kills ?m3 = [HEARTBEAT_MISSED, PAGE_CLOSED]" by code_simp+
  ultimately show ?thesis using presence_kept_iff [of 0 0 _ ?m3] by (intro exI [of _ ?m3] conjI) auto
qed

end
