(* ===== verification/Order_Amounts.thy ===== *)
theory Order_Amounts
  imports Decimal_Rounding Exec_Models Py_Text
begin

text \<open>
  The encoding of an intent as a venue order (\<open>predictions/polymarket_execution/order.py\<close>, with the rounding
  contract of \<open>protocol.py\<close>): decimals become integer units, under the tick and the rounding rules of the
  protocol, and the order record is built, printed for the wire and read back.  Signing and recovering a
  signature are a library's.
\<close>

section \<open>Decimal operations\<close>

datatype rounding = ROUND_DOWN | ROUND_UP

text \<open>
  \<open>d.quantize(Decimal(1).scaleb(-places), rounding)\<close>: the number with exponent \<open>-places\<close>, invalid when it
  needs more than 28 digits.
\<close>

definition dquantize :: "dec \<Rightarrow> int \<Rightarrow> rounding \<Rightarrow> dec result" where
  "dquantize d places r =
     (let s = dexp d + places; n = dcoef d * 10 ^ nat s; k = 10 ^ nat (- s);
          c = (case r of ROUND_DOWN \<Rightarrow> n div k | ROUND_UP \<Rightarrow> (n + k - 1) div k)
      in if num_digits c \<le> 28 then Inr (Dec (dneg d) c (- places)) else Inl InvalidOperation)"

text \<open>\<open>a % b\<close>: the exact remainder with the sign of \<open>a\<close>, invalid for a quotient of more than 28 digits.\<close>

definition drem :: "dec \<Rightarrow> dec \<Rightarrow> dec result" where
  "drem a b =
     (if dcoef b = 0 then Inl InvalidOperation
      else let m = min_exp a b; x = nat \<bar>at_exp m a\<bar>; y = nat \<bar>at_exp m b\<bar>
        in if num_digits (x div y) \<le> 28 then Inr (dec_fix (dneg a) (x mod y) m) else Inl InvalidOperation)"

text \<open>\<open>Decimal(10) ** n\<close>.\<close>

definition ten_power :: "int \<Rightarrow> dec" where
  "ten_power n = (if 0 \<le> n then dec_fix False (10 ^ nat n) 0 else Dec False 1 n)"

text \<open>\<open>int(d)\<close>, and whether \<open>d == d.to_integral_value()\<close>.\<close>

definition dtrunc :: "dec \<Rightarrow> int" where
  "dtrunc d = (let c = int (dcoef d * 10 ^ nat (dexp d) div 10 ^ nat (- dexp d)) in if dneg d then - c else c)"

definition dintegral :: "dec \<Rightarrow> bool" where
  "dintegral d \<longleftrightarrow> dcoef d mod 10 ^ nat (- dexp d) = 0"

section \<open>The rounding contract\<close>

record tick_size_rule =
  tr_tick_size :: string
  tr_price_decimals :: int
  tr_size_decimals :: int
  tr_amount_decimals :: int

text \<open>The two lists of rule names, which no code reads, are left out.\<close>

record rounding_contract =
  rc_token_decimals :: int
  rc_tick_size_rules :: "tick_size_rule list"

datatype order_kind = Limit_order | Market_order

fun tick_rule_in :: "dec \<Rightarrow> tick_size_rule list \<Rightarrow> tick_size_rule result" where
  "tick_rule_in tick_size [] = Inl (OrderAmountError ''TICK_SIZE_UNSUPPORTED'')"
| "tick_rule_in tick_size (rule # rules) =
     (case decimal_of_text (tr_tick_size rule) of
        None \<Rightarrow> Inl InvalidOperation
      | Some d \<Rightarrow> bindE (ext_eq d (Finite tick_size)) (\<lambda>same. if same then Inr rule else tick_rule_in tick_size rules))"

definition tick_rule :: "dec \<Rightarrow> rounding_contract \<Rightarrow> tick_size_rule result" where
  "tick_rule tick_size contract = tick_rule_in tick_size (rc_tick_size_rules contract)"

section \<open>Amounts\<close>

definition order_positive :: "dec \<Rightarrow> string \<Rightarrow> unit result" where
  "order_positive value code = (if dlt dec0 value then Inr () else Inl (OrderAmountError code))"

definition limit_quote :: "dec \<Rightarrow> dec \<Rightarrow> int \<Rightarrow> dec result" where
  "limit_quote price shares amount_decimals =
     bindE (dquantize (dmul price shares) (amount_decimals + 4) ROUND_UP) (\<lambda>rounded.
     dquantize rounded amount_decimals ROUND_DOWN)"

definition protocol_units :: "dec \<Rightarrow> int \<Rightarrow> int result" where
  "protocol_units value token_decimals =
     (let scaled = dmul value (ten_power token_decimals) in
      if \<not> dintegral scaled \<or> dle scaled dec0 then Inl (OrderAmountError ''ROUNDED_AMOUNT_INVALID'')
      else Inr (dtrunc scaled))"

definition maximum_protocol_units :: "dec \<Rightarrow> int \<Rightarrow> int" where
  "maximum_protocol_units value token_decimals = dtrunc (dmul value (ten_power token_decimals))"

definition off_tick :: "dec \<Rightarrow> dec \<Rightarrow> bool result" where
  "off_tick price tick_size = bindE (drem price tick_size) (\<lambda>r. Inr (\<not> deq r dec0))"

text \<open>The price rounded to the rule, unless it is off the tick (or, for a limit order, changed by rounding).\<close>

definition normalized_price :: "order_kind \<Rightarrow> dec \<Rightarrow> dec \<Rightarrow> tick_size_rule \<Rightarrow> dec result" where
  "normalized_price kind price tick_size rule =
     bindE (dquantize price (tr_price_decimals rule) ROUND_DOWN) (\<lambda>normalized.
     bindE (if (case kind of Limit_order \<Rightarrow> \<not> deq normalized price | Market_order \<Rightarrow> dle normalized dec0) then Inr True
            else off_tick normalized tick_size) (\<lambda>invalid.
     if invalid then Inl (OrderAmountError ''PRICE_TICK_INVALID'') else Inr normalized))"

definition quoted_amounts :: "order_kind \<Rightarrow> side \<Rightarrow> dec \<Rightarrow> dec \<Rightarrow> tick_size_rule \<Rightarrow> (dec \<times> dec) result" where
  "quoted_amounts kind side price amount rule =
     (if kind = Market_order \<and> side = Buy
      then bindE (ddiv amount price) (\<lambda>q.
        bindE (dquantize q (tr_amount_decimals rule + 4) ROUND_UP) (\<lambda>r.
        bindE (dquantize r (tr_amount_decimals rule) ROUND_UP) (\<lambda>shares. Inr (amount, shares))))
      else bindE (limit_quote price amount (tr_amount_decimals rule)) (\<lambda>usd. Inr (usd, amount)))"

definition order_amounts ::
  "side \<Rightarrow> dec \<Rightarrow> dec \<Rightarrow> dec \<Rightarrow> order_kind \<Rightarrow> rounding_contract \<Rightarrow> (int \<times> int) result" where
  "order_amounts side price amount tick_size kind contract =
     bindE (order_positive price ''PRICE_INVALID'') (\<lambda>_.
     bindE (order_positive amount ''SIZE_INVALID'') (\<lambda>_.
     bindE (order_positive tick_size ''TICK_SIZE_UNSUPPORTED'') (\<lambda>_.
     bindE (tick_rule tick_size contract) (\<lambda>rule.
     bindE (normalized_price kind price tick_size rule) (\<lambda>normalized.
     bindE (checkE [(dlt (dec_of_int 1) normalized, OrderAmountError ''PRICE_INVALID'')]) (\<lambda>_.
     bindE (dquantize amount (tr_size_decimals rule) ROUND_DOWN) (\<lambda>rounded_input.
     bindE (checkE [(dle rounded_input dec0, OrderAmountError ''ROUNDED_AMOUNT_INVALID'')]) (\<lambda>_.
     bindE (quoted_amounts kind side normalized rounded_input rule) (\<lambda>(usd, shares).
     bindE (protocol_units usd (rc_token_decimals contract)) (\<lambda>usd_units.
     bindE (protocol_units shares (rc_token_decimals contract)) (\<lambda>share_units.
     Inr (if side = Buy then (usd_units, share_units) else (share_units, usd_units)))))))))))))"

section \<open>Orders\<close>

record polymarket_order =
  po_salt :: int
  po_maker :: string
  po_signer :: string
  po_token_id :: int
  po_maker_amount :: int
  po_taker_amount :: int
  po_side :: int
  po_signature_type :: int
  po_timestamp :: int
  po_metadata :: string
  po_builder :: string
  po_expiration :: int
  po_exchange_kind :: exchange_kind

definition hex_digit :: "char \<Rightarrow> bool" where
  "hex_digit c \<longleftrightarrow> is_digit c \<or> (CHR ''a'' \<le> c \<and> c \<le> CHR ''f'') \<or> (CHR ''A'' \<le> c \<and> c \<le> CHR ''F'')"

text \<open>\<open>^0x[0-9a-fA-F]{n}$\<close>.\<close>

definition hex_text :: "nat \<Rightarrow> string \<Rightarrow> bool" where
  "hex_text n s \<longleftrightarrow> take 2 s = ''0x'' \<and> length s = n + 2 \<and> list_all hex_digit (drop 2 s)"

definition uint256 :: "int \<Rightarrow> bool" where
  "uint256 n \<longleftrightarrow> 0 \<le> n \<and> n < 2 ^ 256"

definition order_fields_ok :: "polymarket_order \<Rightarrow> bool" where
  "order_fields_ok p \<longleftrightarrow>
     uint256 (po_salt p) \<and> hex_text 40 (po_maker p) \<and> hex_text 40 (po_signer p) \<and> uint256 (po_token_id p) \<and>
     uint256 (po_maker_amount p) \<and> 0 < po_maker_amount p \<and> uint256 (po_taker_amount p) \<and> 0 < po_taker_amount p \<and>
     0 \<le> po_side p \<and> po_side p \<le> 1 \<and> 0 \<le> po_signature_type p \<and> po_signature_type p \<le> 3 \<and>
     uint256 (po_timestamp p) \<and> hex_text 64 (po_metadata p) \<and> hex_text 64 (po_builder p) \<and> uint256 (po_expiration p)"

definition validate_order :: "polymarket_order \<Rightarrow> polymarket_order result" where
  "validate_order p =
     bindE (checkE
       [(\<not> order_fields_ok p, ValueError ''order field''),
        (po_signature_type p \<in> {0, 3} \<and> py_casefold (po_maker p) \<noteq> py_casefold (po_signer p),
         ValueError ''maker and signer must match for this signature type'')])
       (\<lambda>_. Inr p)"

subsection \<open>The wire form\<close>

datatype wire_value = Wire_int int | Wire_text string

definition text_of_int :: "int \<Rightarrow> string" where
  "text_of_int n = (if n < 0 then CHR ''-'' # str_of_nat (nat (- n)) else str_of_nat (nat n))"

definition public_order :: "polymarket_order \<Rightarrow> (string, wire_value) dict" where
  "public_order p =
     [(''builder'', Wire_text (po_builder p)), (''expiration'', Wire_text (text_of_int (po_expiration p))),
      (''maker'', Wire_text (po_maker p)), (''makerAmount'', Wire_text (text_of_int (po_maker_amount p))),
      (''metadata'', Wire_text (po_metadata p)), (''salt'', Wire_int (po_salt p)),
      (''side'', Wire_text (if po_side p = 0 then ''BUY'' else ''SELL'')),
      (''signatureType'', Wire_int (po_signature_type p)), (''signer'', Wire_text (po_signer p)),
      (''takerAmount'', Wire_text (text_of_int (po_taker_amount p))),
      (''timestamp'', Wire_text (text_of_int (po_timestamp p))), (''tokenId'', Wire_text (text_of_int (po_token_id p)))]"

text \<open>\<open>_wire_int\<close>; \<open>int(text)\<close> refuses more than 4300 digits.\<close>

definition wire_int :: "wire_value \<Rightarrow> int result" where
  "wire_int v = (case v of
       Wire_int n \<Rightarrow> if 0 \<le> n then Inr n else Inl (ValueError ''wire integer invalid'')
     | Wire_text s \<Rightarrow> if s \<noteq> [] \<and> list_all is_digit s \<and> length s \<le> 4300 then Inr (int (digits_value s))
         else Inl (ValueError ''wire integer invalid''))"

definition wire_text :: "wire_value \<Rightarrow> string result" where
  "wire_text v = (case v of Wire_text s \<Rightarrow> Inr s | Wire_int _ \<Rightarrow> Inl (ValueError ''order field''))"

definition wire_side :: "wire_value \<Rightarrow> int result" where
  "wire_side v = (if v = Wire_text ''BUY'' then Inr 0 else if v = Wire_text ''SELL'' then Inr 1 else Inl KeyError)"

definition PUBLIC_ORDER_FIELDS :: "string list" where
  "PUBLIC_ORDER_FIELDS = [''builder'', ''expiration'', ''maker'', ''makerAmount'', ''metadata'', ''salt'', ''side'',
     ''signatureType'', ''signer'', ''takerAmount'', ''timestamp'', ''tokenId'']"

definition wire_field :: "(string, wire_value) dict \<Rightarrow> string \<Rightarrow> wire_value result" where
  "wire_field value name = (case map_of value name of None \<Rightarrow> Inl KeyError | Some v \<Rightarrow> Inr v)"

definition order_of_fields :: "(string, wire_value) dict \<Rightarrow> exchange_kind \<Rightarrow> polymarket_order result" where
  "order_of_fields value kind =
     bindE (bindE (wire_field value ''side'') wire_side) (\<lambda>side.
     bindE (bindE (wire_field value ''salt'') wire_int) (\<lambda>salt.
     bindE (bindE (wire_field value ''tokenId'') wire_int) (\<lambda>token_id.
     bindE (bindE (wire_field value ''makerAmount'') wire_int) (\<lambda>maker_amount.
     bindE (bindE (wire_field value ''takerAmount'') wire_int) (\<lambda>taker_amount.
     bindE (bindE (wire_field value ''signatureType'') wire_int) (\<lambda>signature_type.
     bindE (bindE (wire_field value ''timestamp'') wire_int) (\<lambda>timestamp.
     bindE (bindE (wire_field value ''expiration'') wire_int) (\<lambda>expiration.
     bindE (bindE (wire_field value ''maker'') wire_text) (\<lambda>maker.
     bindE (bindE (wire_field value ''signer'') wire_text) (\<lambda>signer.
     bindE (bindE (wire_field value ''metadata'') wire_text) (\<lambda>metadata.
     bindE (bindE (wire_field value ''builder'') wire_text) (\<lambda>builder.
     validate_order
       \<lparr>po_salt = salt, po_maker = maker, po_signer = signer, po_token_id = token_id, po_maker_amount = maker_amount,
        po_taker_amount = taker_amount, po_side = side, po_signature_type = signature_type, po_timestamp = timestamp,
        po_metadata = metadata, po_builder = builder, po_expiration = expiration, po_exchange_kind = kind\<rparr>))))))))))))"

text \<open>Whatever goes wrong in between, the caller sees one error.\<close>

definition from_public_order :: "(string, wire_value) dict \<Rightarrow> exchange_kind \<Rightarrow> polymarket_order result" where
  "from_public_order value kind =
     (if set (map fst value) \<noteq> set PUBLIC_ORDER_FIELDS then Inl (OrderSigningError ''PUBLIC_ORDER_INVALID'')
      else except_as (order_of_fields value kind) (OrderSigningError ''PUBLIC_ORDER_INVALID''))"

subsection \<open>The order of an intent\<close>

record order_protocol =
  op_version :: string
  op_rounding :: rounding_contract
  op_buy_encoding :: int
  op_sell_encoding :: int
  op_market_order_expiration :: int

definition stable_order_salt :: "digests \<Rightarrow> execution_intent \<Rightarrow> int" where
  "stable_order_salt D i = int (sha256_int (sha256_of D (JObj
     [(''intent_fingerprint'', JHash (ei_intent_fingerprint i)), (''intent_id'', JText (str_of_uuid (ei_intent_id i))),
      (''protocol_version'', JText (ei_protocol_version i))])))"

definition signing_error :: "'a result \<Rightarrow> 'a result" where
  "signing_error r = (case r of Inl (OrderAmountError code) \<Rightarrow> Inl (OrderSigningError code) | _ \<Rightarrow> r)"

definition order_input :: "execution_intent \<Rightarrow> (order_kind \<times> dec) result" where
  "order_input i =
     (case (ei_base_size i, ei_maximum_spend i) of
        (Some amount, _) \<Rightarrow> Inr (Limit_order, amount)
      | (None, Some amount) \<Rightarrow> if ei_side i = Buy then Inr (Market_order, amount)
          else Inl (OrderSigningError ''ORDER_AMOUNT_CONTEXT_UNSUPPORTED'')
      | _ \<Rightarrow> Inl (OrderSigningError ''ORDER_AMOUNT_CONTEXT_UNSUPPORTED''))"

text \<open>The token id must be the decimal text of an integer, exactly as Python prints it.\<close>

definition token_of_text :: "string \<Rightarrow> int result" where
  "token_of_text s =
     (if s \<noteq> [] \<and> list_all is_digit s \<and> length s \<le> 4300 \<and> str_of_nat (digits_value s) = s
      then Inr (int (digits_value s)) else Inl (OrderSigningError ''TOKEN_ID_INVALID''))"

definition ZERO_BYTES32 :: string where
  "ZERO_BYTES32 = ''0x'' @ replicate 64 (CHR ''0'')"

definition order_from_intent :: "digests \<Rightarrow> execution_intent \<Rightarrow> string \<Rightarrow> order_protocol \<Rightarrow> polymarket_order result" where
  "order_from_intent D i maker protocol =
     bindE (checkE
       [(ei_protocol_version i \<noteq> op_version protocol, OrderSigningError ''PROTOCOL_VERSION_MISMATCH''),
        (ei_rounding_mode i \<noteq> ''ROUND_DOWN'', OrderSigningError ''ROUNDING_MODE_UNSUPPORTED'')]) (\<lambda>_.
     bindE (signing_error (tick_rule (ei_tick_size i) (op_rounding protocol))) (\<lambda>_.
     bindE (order_input i) (\<lambda>(kind, amount).
     bindE (signing_error (order_amounts (ei_side i) (ei_limit_price i) amount (ei_tick_size i) kind (op_rounding protocol)))
       (\<lambda>(maker_amount, taker_amount).
     bindE (checkE
       [(ei_side i = Buy \<and> (case ei_maximum_spend i of None \<Rightarrow> False
           | Some spend \<Rightarrow> maximum_protocol_units spend (rc_token_decimals (op_rounding protocol)) < maker_amount),
         OrderSigningError ''MAXIMUM_SPEND_EXCEEDED'')]) (\<lambda>_.
     bindE (token_of_text (ei_token_id i)) (\<lambda>token_id.
     validate_order
       \<lparr>po_salt = stable_order_salt D i, po_maker = maker, po_signer = maker, po_token_id = token_id,
        po_maker_amount = maker_amount, po_taker_amount = taker_amount,
        po_side = (if ei_side i = Buy then op_buy_encoding protocol else op_sell_encoding protocol),
        po_signature_type = 0, po_timestamp = ei_created_at i div 1000, po_metadata = ZERO_BYTES32,
        po_builder = ZERO_BYTES32, po_expiration = op_market_order_expiration protocol,
        po_exchange_kind = ei_exchange_kind i\<rparr>))))))"

end
