(* ===== verification/Order_Guarantees.thy ===== *)
theory Order_Guarantees
  imports Order_Amounts
begin

text \<open>
  What an encoded order guarantees: the integer units are exactly what the rounded decimals say, a limit
  order trades exactly at its price, a market buy never above it, no order asks for more than its intent, and
  the wire form is read back to the same order.
\<close>

section \<open>Rounding to a number of places\<close>

lemma dval_nonneg: "\<not> dneg d \<Longrightarrow> dval d = of_nat (dcoef d) * 10 powi dexp d"
  by (simp add: dval_def dsigned_def)

lemma ratio_powi: "of_nat (c * 10 ^ nat s) / of_nat (10 ^ nat (- s)) = of_nat c * (10::rat) powi s"
proof (cases "0 \<le> s")
  case True
  then show ?thesis by (simp add: power_int_def)
next
  case False
  then have "(10::rat) powi s = inverse (10 ^ nat (- s))" "nat s = 0"
    by (simp_all add: power_int_def power_one_over inverse_eq_divide)
  then show ?thesis by (simp add: divide_inverse)
qed

lemma div_floor_rat: "0 < k \<Longrightarrow> of_nat (n div k) \<le> (of_nat n / of_nat k :: rat) \<and> (of_nat n / of_nat k :: rat) < of_nat (n div k) + 1"
proof -
  assume k: "0 < k"
  have "n div k * k \<le> n" "n < (n div k + 1) * k"
    using k by (simp_all add: dividend_less_div_times)
  then have "(of_nat (n div k) :: rat) * of_nat k \<le> of_nat n" "(of_nat n :: rat) < (of_nat (n div k) + 1) * of_nat k"
    by (metis of_nat_le_iff of_nat_mult) (metis of_nat_less_iff of_nat_mult of_nat_add of_nat_1 \<open>n < (n div k + 1) * k\<close>)
  then show ?thesis using k by (simp add: field_simps)
qed

lemma div_ceiling_rat:
  "0 < k \<Longrightarrow> (of_nat n / of_nat k :: rat) \<le> of_nat ((n + k - 1) div k) \<and> of_nat ((n + k - 1) div k) < (of_nat n / of_nat k :: rat) + 1"
proof -
  assume k: "0 < k"
  define q where "q = (n + k - 1) div k"
  have "q * k \<le> n + k - 1" "n + k - 1 < (q + 1) * k"
    unfolding q_def using k by (simp_all add: dividend_less_div_times)
  then have "q * k < n + k" "n \<le> q * k" using k by simp_all
  then have "(of_nat q :: rat) * of_nat k < of_nat n + of_nat k" "(of_nat n :: rat) \<le> of_nat q * of_nat k"
    by (metis of_nat_less_iff of_nat_mult of_nat_add) (metis of_nat_le_iff of_nat_mult \<open>n \<le> q * k\<close>)
  then show ?thesis unfolding q_def [symmetric] using k by (simp add: field_simps)
qed

text \<open>The result is on the grid, below or above by less than one step of it.\<close>

lemma dquantize_Inr:
  assumes "dquantize d p r = Inr q" and "\<not> dneg d"
  shows "\<not> dneg q" and "dexp q = - p" and "dcoef q < 10 ^ 28" and "dval q = of_nat (dcoef q) * 10 powi (- p)"
    and "r = ROUND_DOWN \<Longrightarrow> dval q \<le> dval d \<and> dval d < dval q + 10 powi (- p)"
    and "r = ROUND_UP \<Longrightarrow> dval d \<le> dval q \<and> dval q < dval d + 10 powi (- p)"
proof -
  define n k where "n = dcoef d * 10 ^ nat (dexp d + p)" and "k = (10 ^ nat (- (dexp d + p)) :: nat)"
  define c where "c = (case r of ROUND_DOWN \<Rightarrow> n div k | ROUND_UP \<Rightarrow> (n + k - 1) div k)"
  define g where "g = (10::rat) powi (- p)"
  have k: "0 < k" and g: "0 < g" by (simp_all add: k_def g_def)
  have "num_digits c \<le> 28" and q: "q = Dec (dneg d) c (- p)"
    using assms(1) unfolding dquantize_def Let_def n_def [symmetric] k_def [symmetric] c_def [symmetric]
    by (auto split: if_splits)
  then show "dcoef q < 10 ^ 28" using num_digits_le_iff [of 28 c] by simp
  show "\<not> dneg q" and "dexp q = - p" using q assms(2) by simp_all
  then show "dval q = of_nat (dcoef q) * 10 powi (- p)" by (simp add: dval_nonneg)
  then have v: "dval q = of_nat c * g" using q by (simp add: g_def)
  have x: "dval d = of_nat n / of_nat k * g"
    unfolding n_def k_def ratio_powi g_def using dval_nonneg [OF assms(2)] by (simp add: power_int_add power_int_minus)
  have scale: "a \<le> b \<Longrightarrow> a * g \<le> b * g" "a < b \<Longrightarrow> a * g < b * g" for a b
    using g by (simp_all add: mult_right_mono mult_strict_right_mono)
  show "dval q \<le> dval d \<and> dval d < dval q + 10 powi (- p)" if "r = ROUND_DOWN"
    using div_floor_rat [OF k, of n] scale [of "of_nat c" "of_nat n / of_nat k"] scale [of "of_nat n / of_nat k" "of_nat c + 1"]
    unfolding v x g_def [symmetric] by (simp add: c_def that distrib_right)
  show "dval d \<le> dval q \<and> dval q < dval d + 10 powi (- p)" if "r = ROUND_UP"
    using div_ceiling_rat [OF k, of n] scale [of "of_nat n / of_nat k" "of_nat c"] scale [of "of_nat c" "of_nat n / of_nat k + 1"]
    unfolding v x g_def [symmetric] by (simp add: c_def that distrib_right)
qed

text \<open>A number already on the grid stays.\<close>

lemma dquantize_on_grid:
  assumes "dquantize d p r = Inr q" and "\<not> dneg d" and "dval d = of_nat m * 10 powi (- p)"
  shows "dcoef q = m" and "dval q = dval d"
proof -
  note q = dquantize_Inr [OF assms(1,2)]
  have step: "(0::rat) < 10 powi (- p)" by simp
  show "dcoef q = m"
  proof (cases r)
    case ROUND_DOWN
    have "of_nat (dcoef q) * (10::rat) powi (- p) \<le> of_nat m * 10 powi (- p)"
      "of_nat m * (10::rat) powi (- p) < of_nat (dcoef q + 1) * 10 powi (- p)"
      using q(5) [OF ROUND_DOWN] unfolding q(4) assms(3) by (simp_all add: distrib_right)
    then show ?thesis using step by (simp add: mult_le_cancel_right mult_less_cancel_right)
  next
    case ROUND_UP
    have "of_nat m * (10::rat) powi (- p) \<le> of_nat (dcoef q) * 10 powi (- p)"
      "of_nat (dcoef q) * (10::rat) powi (- p) < of_nat (m + 1) * 10 powi (- p)"
      using q(6) [OF ROUND_UP] unfolding q(4) assms(3) by (simp_all add: distrib_right)
    then show ?thesis using step by (simp add: mult_le_cancel_right mult_less_cancel_right)
  qed
  then show "dval q = dval d" using q(4) assms(3) by simp
qed

section \<open>Exact products\<close>

text \<open>Scaling by a power of ten only moves digits that are zero beyond the 28th.\<close>

lemma half_even_exact: "c mod 10 ^ k = 0 \<Longrightarrow> half_even c k * 10 ^ k = c"
  by (auto simp: half_even_def Let_def)

lemma dec_fix_zeros:
  assumes "c < 10 ^ (28 + j)" and "c mod 10 ^ j = 0"
  shows "dval (dec_fix False c e) = of_nat c * 10 powi e"
proof (cases "28 < num_digits c")
  case True
  let ?k = "num_digits c - 28"
  have "num_digits c \<le> 28 + j" using assms(1) num_digits_le_iff [of "28 + j" c] by simp
  then have "(10::nat) ^ ?k dvd 10 ^ j" by (intro le_imp_power_dvd) simp
  then have "c mod 10 ^ ?k = 0" using assms(2) by (meson dvd_trans mod_0_imp_dvd mod_eq_0_iff_dvd)
  then have "half_even c ?k * 10 ^ ?k = c" by (rule half_even_exact)
  then have "of_nat (half_even c ?k) * (10::rat) ^ ?k = of_nat c" by (metis of_nat_mult of_nat_numeral of_nat_power)
  then show ?thesis using dec_fix_val [OF True, of e] by (simp add: power_int_add mult_ac)
next
  case False
  then have "num_digits c \<le> 28" by simp
  then show ?thesis by (simp add: dec_fix_def dval_Dec_False)
qed

lemma ten_power_small: "0 \<le> k \<Longrightarrow> k \<le> 27 \<Longrightarrow> ten_power k = Dec False (10 ^ nat k) 0"
  using power_strict_increasing [of "nat k" 28 "10::nat"] by (simp add: ten_power_def dec_fix_small)

lemma dmul_ten:
  assumes "\<not> dneg a" and "dcoef a < 10 ^ 28" and "0 \<le> k" and "k \<le> 27"
  shows "dval (dmul a (ten_power k)) = dval a * 10 powi k" and "\<not> dneg (dmul a (ten_power k))"
proof -
  have "dcoef a * 10 ^ nat k < 10 ^ (28 + nat k)" using assms(2) by (simp add: power_add)
  then have "dval (dec_fix False (dcoef a * 10 ^ nat k) (dexp a)) = of_nat (dcoef a * 10 ^ nat k) * 10 powi dexp a"
    by (rule dec_fix_zeros) simp
  then show "dval (dmul a (ten_power k)) = dval a * 10 powi k"
    using assms by (simp add: dmul_def ten_power_small dval_nonneg power_int_def mult_ac)
  show "\<not> dneg (dmul a (ten_power k))" using assms by (simp add: dmul_def ten_power_small dec_fix_sign)
qed

lemma dtrunc_integral:
  assumes "dintegral d" and "\<not> dneg d"
  shows "of_int (dtrunc d) = dval d"
proof -
  have "(dcoef d * 10 ^ nat (dexp d)) mod 10 ^ nat (- dexp d) = 0"
    using assms(1) by (simp add: dintegral_def mod_mult_left_eq [symmetric])
  then have "(dcoef d * 10 ^ nat (dexp d)) div 10 ^ nat (- dexp d) * 10 ^ nat (- dexp d) = dcoef d * 10 ^ nat (dexp d)"
    by (metis add.right_neutral div_mult_mod_eq)
  then have "(of_nat (dcoef d * 10 ^ nat (dexp d) div 10 ^ nat (- dexp d)) :: rat) * of_nat (10 ^ nat (- dexp d)) =
      of_nat (dcoef d * 10 ^ nat (dexp d))"
    by (metis of_nat_mult)
  then have "(of_nat (dcoef d * 10 ^ nat (dexp d) div 10 ^ nat (- dexp d)) :: rat) = of_nat (dcoef d) * 10 powi dexp d"
    unfolding ratio_powi [symmetric] by (simp add: nonzero_eq_divide_eq)
  then show ?thesis
    using assms(2) dval_nonneg [OF assms(2)] unfolding dtrunc_def Let_def by (simp add: of_nat_of_int_iff [symmetric])
qed

lemma protocol_units_Inr:
  assumes "protocol_units v td = Inr u" and "\<not> dneg v" and "dcoef v < 10 ^ 28" and "0 \<le> td" and "td \<le> 27"
  shows "of_int u = dval v * 10 powi td" and "0 < u"
proof -
  let ?s = "dmul v (ten_power td)"
  have s: "dintegral ?s" "0 < dval ?s" "u = dtrunc ?s"
    using assms(1) by (auto simp: protocol_units_def Let_def dle_iff split: if_splits)
  show u: "of_int u = dval v * 10 powi td"
    using dtrunc_integral [OF s(1) dmul_ten(2) [OF assms(2-5)]] dmul_ten(1) [OF assms(2-5)] s(3) by simp
  then have "0 < (of_int u :: rat)" using s(2) dmul_ten(1) [OF assms(2-5)] by simp
  then show "0 < u" by simp
qed

lemma powi_up: "(10::rat) powi (int k + e) = 10 ^ k * 10 powi e"
  by (simp add: power_int_add)

text \<open>A quoted amount that can be represented was not rounded at all.\<close>

lemma limit_quote_exact:
  assumes "limit_quote price shares ad = Inr usd" and "\<not> dneg price" and "\<not> dneg shares" and "dexp price + dexp shares = - ad"
  shows "dval usd = dval price * dval shares" and "\<not> dneg usd" and "dcoef usd < 10 ^ 28"
proof -
  obtain r where r: "dquantize (dmul price shares) (ad + 4) ROUND_UP = Inr r" and u: "dquantize r ad ROUND_DOWN = Inr usd"
    using assms(1) by (auto simp: limit_quote_def bindE_eq_Inr)
  let ?c = "dcoef price * dcoef shares"
  have m: "\<not> dneg (dmul price shares)" using assms(2,3) by (simp add: dmul_def dec_fix_sign)
  note R = dquantize_Inr [OF r m] and U = dquantize_Inr [OF u, OF dquantize_Inr(1) [OF r m]]
  have "1 - ad = int 5 + - (ad + 4)" by simp
  then have up: "(10::rat) powi (1 - ad) = 10 ^ 5 * 10 powi (- (ad + 4))" by (simp only: powi_up)
  have small: "?c < 10 ^ 28"
  proof (rule ccontr)
    assume "\<not> ?c < 10 ^ 28"
    then have "(10::rat) ^ 28 \<le> of_nat ?c" by (metis not_less of_nat_le_iff of_nat_numeral of_nat_power)
    then have "(10::rat) ^ 28 * 10 powi (- ad) \<le> dval price * dval shares"
      using assms(2-4) by (simp add: dval_nonneg power_int_add [symmetric] mult_ac)
    moreover have "(10::rat) powi (- ad) = 10 ^ 4 * 10 powi (- (ad + 4))"
      using powi_up [of 4 "- (ad + 4)"] by simp
    ultimately have "dval (Dec False (10 ^ 27) (1 - ad)) \<le> dval price * dval shares" by (simp add: dval_Dec_False up)
    then have "dval (Dec False (10 ^ 27) (1 - ad)) \<le> dval (dmul price shares)"
      using assms(2,3) by (intro dmul_lower) simp_all
    moreover have "dval (Dec False (10 ^ 27) (1 - ad)) = of_nat (10 ^ 32) * 10 powi (- (ad + 4))"
      unfolding dval_Dec_False up by simp
    ultimately have "of_nat (10 ^ 32) * (10::rat) powi (- (ad + 4)) \<le> dval r" using R(6) [OF refl] by linarith
    then have "of_nat (10 ^ 32) * (10::rat) powi (- (ad + 4)) \<le> of_nat (dcoef r) * 10 powi (- (ad + 4))" unfolding R(4) .
    then have "10 ^ 32 \<le> dcoef r" by (simp only: mult_le_cancel_right_pos powi_pos of_nat_le_iff)
    then show False using R(3) by simp
  qed
  have v: "dval (dmul price shares) = dval price * dval shares" using small by (rule dmul_exact)
  then have grid: "dval (dmul price shares) = of_nat ?c * 10 powi (- ad)"
    using assms(2-4) by (simp add: dval_nonneg power_int_add [symmetric] mult_ac)
  then have "dval (dmul price shares) = of_nat (?c * 10 ^ 4) * 10 powi (- (ad + 4))"
    by (simp add: power_int_diff power_int_minus power_int_add)
  then have "dval r = dval (dmul price shares)" by (rule dquantize_on_grid(2) [OF r m])
  then show "dval usd = dval price * dval shares" using dquantize_on_grid(2) [OF u R(1), of ?c] grid v by (simp only:)
  show "\<not> dneg usd" "dcoef usd < 10 ^ 28" using U(1,3) by simp_all
qed

section \<open>A market buy\<close>

text \<open>
  The shares are the quotient rounded to 28 digits and then up, twice.  The rounding of the quotient cannot
  take it below the true quotient's next share step: if it did, the quotient would lie within one
  \<open>p\<close>-th of a step above the shares, which 28 digits still tell apart.
\<close>

lemma next_step_below:
  fixes G :: rat
  assumes "0 < G" and "0 < (p::nat)" and "p \<le> 10 ^ P" and "of_nat S * G / 10 ^ P < of_nat a * G * 10 ^ P / of_nat p"
  shows "(of_nat S * 10 ^ P + 1) * G / 10 ^ P / 10 ^ P \<le> of_nat a * G * 10 ^ P / of_nat p"
proof -
  have "of_nat S * of_nat p < (of_nat a * 10 ^ P * 10 ^ P :: rat)"
    using assms(1,2,4) by (simp add: field_simps)
  then have "(of_nat (S * p) :: rat) < of_nat (a * 10 ^ P * 10 ^ P)" by simp
  then have "S * p + 1 \<le> a * 10 ^ P * 10 ^ P" by (simp only: of_nat_less_iff)
  then have "(S * p + 1) * 10 ^ P \<le> a * 10 ^ P * 10 ^ P * 10 ^ P" by (rule mult_right_mono) simp
  then have "(S * 10 ^ P + 1) * p \<le> a * 10 ^ P * 10 ^ P * 10 ^ P" using assms(3) by (simp add: algebra_simps)
  then have "(of_nat ((S * 10 ^ P + 1) * p) :: rat) \<le> of_nat (a * 10 ^ P * 10 ^ P * 10 ^ P)" by (simp only: of_nat_le_iff)
  then have "(of_nat S * 10 ^ P + 1) * of_nat p \<le> (of_nat a * 10 ^ P * 10 ^ P * 10 ^ P :: rat)"
    by (simp only: of_nat_mult of_nat_add of_nat_power of_nat_numeral of_nat_1)
  then have "G * ((of_nat S * 10 ^ P + 1) * of_nat p) \<le> G * (of_nat a * 10 ^ P * 10 ^ P * 10 ^ P)"
    using assms(1) by (intro mult_left_mono) simp_all
  then show ?thesis using assms(2) by (simp add: field_simps)
qed

lemma market_buy_covered:
  assumes "quoted_amounts Market_order Buy price amount rule = Inr (usd, shares)"
    and pos: "\<not> dneg price" "\<not> dneg amount" "0 < dval price" "dval price \<le> 1"
    and exps: "dexp price = - pd" "dexp amount = - sd" "tr_amount_decimals rule = pd + sd" and pd: "0 \<le> pd" "pd \<le> 4"
  shows "usd = amount" and "\<not> dneg shares" and "dcoef shares < 10 ^ 28" and "dval amount \<le> dval price * dval shares"
proof -
  define ad P G where "ad = pd + sd" and "P = nat pd" and "G = (10::rat) powi (- sd)"
  obtain q r where q: "ddiv amount price = Inr q" and r: "dquantize q (ad + 4) ROUND_UP = Inr r"
    and s: "dquantize r ad ROUND_UP = Inr shares" and u: "usd = amount"
    using assms(1) by (auto simp: quoted_amounts_def bindE_eq_Inr exps ad_def)
  show "usd = amount" by (rule u)
  have G: "0 < G" by (simp add: G_def)
  have "(10::rat) powi pd = 10 ^ P" using pd(1) by (simp add: P_def power_int_def)
  then have ten: "(10::rat) powi (- pd) = 1 / 10 ^ P" "(10::rat) powi (- ad) = G / 10 ^ P"
    using power_int_add [of "10::rat" "- pd" "- sd"] by (simp_all add: power_int_minus inverse_eq_divide ad_def G_def)
  have price: "dval price = of_nat (dcoef price) / 10 ^ P" using dval_nonneg [OF pos(1)] ten exps by simp
  have amount: "dval amount = of_nat (dcoef amount) * G" using dval_nonneg [OF pos(2)] exps by (simp add: G_def)
  have p: "0 < dcoef price" using pos(3) price by (cases "dcoef price") auto
  have "of_nat (dcoef price) \<le> (10 ^ P :: rat)" using pos(4) price by simp
  then have p1: "dcoef price \<le> 10 ^ P" by (metis of_nat_le_iff of_nat_numeral of_nat_power)
  have q0: "\<not> dneg q"
    using q pos(1,2) by (auto simp: ddiv_def Let_def dec_fix_sign split: if_splits prod.splits)
  note R = dquantize_Inr [OF r q0] and S = dquantize_Inr [OF s, OF dquantize_Inr(1) [OF r q0]]
  show "\<not> dneg shares" "dcoef shares < 10 ^ 28" using S(1,3) by simp_all
  have shares: "dval shares = of_nat (dcoef shares) * G / 10 ^ P" using S(4) ten by simp
  have quotient: "dval amount / dval price = of_nat (dcoef amount) * G * 10 ^ P / of_nat (dcoef price)"
    unfolding price amount using p by simp
  have "dval amount / dval price \<le> dval shares"
  proof (rule ccontr)
    assume "\<not> ?thesis"
    then have below: "dval shares < dval amount / dval price" by simp
    then have "dval shares \<le> dval q" using ddiv_lower [OF q pos(2,1) S(1,3)] by simp
    then have same: "dval r = dval shares" "dval q = dval shares" using R(6) S(6) by simp_all
    have "dval r = of_nat (dcoef shares * 10 ^ 4) * 10 powi (- (ad + 4))"
      unfolding same S(4) by (simp add: power_int_diff power_int_minus power_int_add)
    then have "(of_nat (dcoef r) :: rat) = of_nat (dcoef shares * 10 ^ 4)" using R(4) by simp
    then have "dcoef shares * 10 ^ 4 < 10 ^ 28" using R(3) by (metis of_nat_eq_iff)
    then have "dcoef shares < 10 ^ 24" by simp
    moreover have "(10::nat) ^ P \<le> 10 ^ 4" using pd(2) unfolding P_def by (intro power_increasing) auto
    ultimately have "dcoef shares * 10 ^ P \<le> (10 ^ 24 - 1) * 10 ^ 4" by (intro mult_mono) auto
    then have small: "dcoef shares * 10 ^ P + 1 < 10 ^ 28" by simp
    let ?L = "Dec False (dcoef shares * 10 ^ P + 1) (- (ad + pd))"
    have L: "dval ?L = (of_nat (dcoef shares) * 10 ^ P + 1) * G / 10 ^ P / 10 ^ P"
      using ten by (simp add: dval_Dec_False power_int_diff power_int_minus divide_inverse)
    have "dval ?L \<le> dval amount / dval price"
      unfolding L quotient using below next_step_below [OF G p p1] unfolding shares quotient by simp
    then have "dval ?L \<le> dval shares" using ddiv_lower [OF q pos(2,1), of ?L] small same by simp
    moreover have "dval shares < dval ?L"
      unfolding L shares using G by (simp add: field_simps)
    ultimately show False by simp
  qed
  then show "dval amount \<le> dval price * dval shares" using pos(3) by (simp add: pos_divide_le_eq mult.commute)
qed

section \<open>Encoded amounts\<close>

text \<open>
  What the protocol's contract promises: products of a price and a size fit the amounts' decimals, and prices
  have at most four.
\<close>

definition good_rule :: "tick_size_rule \<Rightarrow> bool" where
  "good_rule r \<longleftrightarrow> 0 \<le> tr_price_decimals r \<and> tr_price_decimals r \<le> 4 \<and>
     tr_amount_decimals r = tr_price_decimals r + tr_size_decimals r"

definition good_contract :: "rounding_contract \<Rightarrow> bool" where
  "good_contract c \<longleftrightarrow> 0 \<le> rc_token_decimals c \<and> rc_token_decimals c \<le> 27 \<and> list_all good_rule (rc_tick_size_rules c)"

text \<open>The contract both protocol fixtures carry.\<close>

definition protocol_rounding :: rounding_contract where
  "protocol_rounding = \<lparr>rc_token_decimals = 6, rc_tick_size_rules =
     [\<lparr>tr_tick_size = ''0.1'', tr_price_decimals = 1, tr_size_decimals = 2, tr_amount_decimals = 3\<rparr>,
      \<lparr>tr_tick_size = ''0.01'', tr_price_decimals = 2, tr_size_decimals = 2, tr_amount_decimals = 4\<rparr>,
      \<lparr>tr_tick_size = ''0.005'', tr_price_decimals = 3, tr_size_decimals = 2, tr_amount_decimals = 5\<rparr>,
      \<lparr>tr_tick_size = ''0.0025'', tr_price_decimals = 4, tr_size_decimals = 2, tr_amount_decimals = 6\<rparr>,
      \<lparr>tr_tick_size = ''0.001'', tr_price_decimals = 3, tr_size_decimals = 2, tr_amount_decimals = 5\<rparr>,
      \<lparr>tr_tick_size = ''0.0001'', tr_price_decimals = 4, tr_size_decimals = 2, tr_amount_decimals = 6\<rparr>]\<rparr>"

lemma protocol_rounding_good: "good_contract protocol_rounding"
  by code_simp

lemma pos_nonneg: "0 < dval d \<Longrightarrow> \<not> dneg d"
  using sgn_dval [of d] by (auto split: if_splits)

lemma tick_rule_good:
  assumes "tick_rule_in tick rules = Inr rule" and "list_all good_rule rules"
  shows "good_rule rule"
  using assms by (induction rules) (auto simp: bindE_eq_Inr split: option.splits if_splits)

lemma order_positive_Inr: "order_positive v code = Inr x \<longleftrightarrow> 0 < dval v"
  by (simp add: order_positive_def dlt_iff)

lemma off_tick_multiple:
  assumes "off_tick a b = Inr False" and "\<not> dneg a" and "\<not> dneg b"
  shows "\<exists>k. dval a = of_int k * dval b"
proof -
  let ?m = "min_exp a b"
  obtain r where r: "drem a b = Inr r" "deq r dec0" using assms(1) by (auto simp: off_tick_def bindE_eq_Inr)
  then have "dval r = 0" by (simp add: deq_iff)
  then have "nat \<bar>at_exp ?m a\<bar> mod nat \<bar>at_exp ?m b\<bar> = 0"
    using r(1) by (auto simp: drem_def Let_def dval_zero_iff dec_fix_sign split: if_splits)
  moreover have "0 \<le> at_exp ?m a" "0 \<le> at_exp ?m b" using assms(2,3) by (simp_all add: at_exp_def dsigned_def)
  ultimately have "at_exp ?m a mod at_exp ?m b = 0" by (metis abs_of_nonneg nat_0_iff nat_mod_distrib of_nat_0 le_refl zmod_int int_nat_eq)
  then obtain k where "at_exp ?m a = k * at_exp ?m b" by (metis dvd_def mod_0_imp_dvd mult.commute)
  then have "dval a = of_int k * dval b" by (simp add: at_exp_min [of a b, symmetric] mult.assoc)
  then show ?thesis ..
qed

lemma normalized_price_Inr:
  assumes "normalized_price kind price tick rule = Inr np" and "0 < dval price" and "0 < dval tick"
  shows "\<not> dneg np" and "dexp np = - tr_price_decimals rule" and "0 < dval np" and "dval np \<le> dval price"
    and "kind = Limit_order \<Longrightarrow> dval np = dval price" and "\<exists>k. dval np = of_int k * dval tick"
proof -
  have q: "dquantize price (tr_price_decimals rule) ROUND_DOWN = Inr np"
    and good: "case kind of Limit_order \<Rightarrow> dval np = dval price | Market_order \<Rightarrow> 0 < dval np"
    and tick: "off_tick np tick = Inr False"
    using assms(1) by (cases kind; auto simp: normalized_price_def bindE_eq_Inr deq_iff dle_iff split: if_splits)+
  note Q = dquantize_Inr [OF q pos_nonneg [OF assms(2)]]
  show "\<not> dneg np" "dexp np = - tr_price_decimals rule" "dval np \<le> dval price" using Q(1,2,5) by simp_all
  show "0 < dval np" using good assms(2) by (cases kind) simp_all
  show "kind = Limit_order \<Longrightarrow> dval np = dval price" using good by simp
  show "\<exists>k. dval np = of_int k * dval tick" using off_tick_multiple [OF tick Q(1) pos_nonneg [OF assms(3)]] .
qed

section \<open>The amount vectors of the fixtures\<close>

lemma limit_vectors:
  "order_amounts Buy (Dec False 52 (- 2)) (Dec False 10 0) (Dec False 1 (- 2)) Limit_order protocol_rounding = Inr (5200000, 10000000)"
  "order_amounts Sell (Dec False 52 (- 2)) (Dec False 10 0) (Dec False 1 (- 2)) Limit_order protocol_rounding = Inr (10000000, 5200000)"
  by code_simp+

lemma market_vector_quotient:
  "ddiv (Dec False 1000 (- 2)) (Dec False 52 (- 2)) = Inr (Dec False 1923076923076923076923076923 (- 26))"
proof -
  have d: "num_digits 1000 = 4" "num_digits 52 = 2" "num_digits 19230769230769230769230769230 = 29"
    "num_digits 19230769230769230769230769231 = 29" by (simp_all add: num_digits.simps)
  show ?thesis by (simp add: ddiv_def Let_def d dec_fix_def half_even_def)
qed

lemma market_vector:
  "order_amounts Buy (Dec False 52 (- 2)) (Dec False 10 0) (Dec False 1 (- 2)) Market_order protocol_rounding = Inr (10000000, 19230800)"
proof -
  let ?rule = "\<lparr>tr_tick_size = ''0.01'', tr_price_decimals = 2, tr_size_decimals = 2, tr_amount_decimals = 4\<rparr>"
  have "dquantize (Dec False 1923076923076923076923076923 (- 26)) 8 ROUND_UP = Inr (Dec False 1923076924 (- 8))"
    "dquantize (Dec False 1923076924 (- 8)) 4 ROUND_UP = Inr (Dec False 192308 (- 4))" by code_simp+
  then have quote: "quoted_amounts Market_order Buy (Dec False 52 (- 2)) (Dec False 1000 (- 2)) ?rule =
      Inr (Dec False 1000 (- 2), Dec False 192308 (- 4))"
    by (simp add: quoted_amounts_def market_vector_quotient)
  have "tick_rule (Dec False 1 (- 2)) protocol_rounding = Inr ?rule"
    "normalized_price Market_order (Dec False 52 (- 2)) (Dec False 1 (- 2)) ?rule = Inr (Dec False 52 (- 2))"
    "dquantize (Dec False 10 0) 2 ROUND_DOWN = Inr (Dec False 1000 (- 2))"
    "protocol_units (Dec False 1000 (- 2)) 6 = Inr 10000000" "protocol_units (Dec False 192308 (- 4)) 6 = Inr 19230800"
    "order_positive (Dec False 52 (- 2)) ''PRICE_INVALID'' = Inr ()" "order_positive (Dec False 10 0) ''SIZE_INVALID'' = Inr ()"
    "order_positive (Dec False 1 (- 2)) ''TICK_SIZE_UNSUPPORTED'' = Inr ()" "\<not> dlt (dec_of_int 1) (Dec False 52 (- 2))"
    "\<not> dle (Dec False 1000 (- 2)) dec0" "rc_token_decimals protocol_rounding = 6"
    by code_simp+
  then show ?thesis by (simp add: order_amounts_def quote)
qed

section \<open>What an encoded order asks for\<close>

lemma quoted_amounts_sound:
  assumes q: "quoted_amounts kind side price amount rule = Inr (usd, shares)" and rule: "good_rule rule"
    and pos: "\<not> dneg price" "\<not> dneg amount" "0 < dval price" "dval price \<le> 1" "dcoef amount < 10 ^ 28"
    and exps: "dexp price = - tr_price_decimals rule" "dexp amount = - tr_size_decimals rule"
  shows "\<not> dneg usd" and "dcoef usd < 10 ^ 28" and "\<not> dneg shares" and "dcoef shares < 10 ^ 28"
    and "if kind = Market_order \<and> side = Buy then usd = amount \<and> dval usd \<le> dval price * dval shares
         else shares = amount \<and> dval usd = dval price * dval shares"
proof -
  have r: "tr_amount_decimals rule = tr_price_decimals rule + tr_size_decimals rule" "0 \<le> tr_price_decimals rule"
    "tr_price_decimals rule \<le> 4" using rule by (simp_all add: good_rule_def)
  have "\<not> dneg usd \<and> dcoef usd < 10 ^ 28 \<and> \<not> dneg shares \<and> dcoef shares < 10 ^ 28 \<and>
      (if kind = Market_order \<and> side = Buy then usd = amount \<and> dval usd \<le> dval price * dval shares
       else shares = amount \<and> dval usd = dval price * dval shares)"
  proof (cases "kind = Market_order \<and> side = Buy")
    case True
    with q have "quoted_amounts Market_order Buy price amount rule = Inr (usd, shares)" by simp
    from market_buy_covered [OF this pos(1-4) exps r] True pos(2,5) show ?thesis by simp
  next
    case False
    then have l: "limit_quote price amount (tr_amount_decimals rule) = Inr usd" "shares = amount"
      using q by (auto simp: quoted_amounts_def bindE_eq_Inr simp del: not_less split: if_splits)
    have "dexp price + dexp amount = - tr_amount_decimals rule" using exps r(1) by simp
    from limit_quote_exact [OF l(1) pos(1,2) this] l(2) pos(2,5) show ?thesis unfolding if_not_P [OF False] by simp
  qed
  then show "\<not> dneg usd" "dcoef usd < 10 ^ 28" "\<not> dneg shares" "dcoef shares < 10 ^ 28"
    "if kind = Market_order \<and> side = Buy then usd = amount \<and> dval usd \<le> dval price * dval shares
     else shares = amount \<and> dval usd = dval price * dval shares" by blast+
qed

text \<open>The units of the two sides: dollars and shares, and what they cost at a price on the tick.\<close>

lemma order_amounts_sound:
  assumes "good_contract contract" and "order_amounts side price amount tick kind contract = Inr (maker, taker)"
  defines "usd \<equiv> (if side = Buy then maker else taker)" and "shares \<equiv> (if side = Buy then taker else maker)"
    and "T \<equiv> (10::rat) powi rc_token_decimals contract"
  shows "\<exists>p (k::int). 0 < p \<and> p \<le> min 1 (dval price) \<and> p = of_int k * dval tick \<and> (kind = Limit_order \<longrightarrow> p = dval price) \<and>
    0 < usd \<and> 0 < shares \<and>
    (if kind = Market_order \<and> side = Buy then of_int usd \<le> dval amount * T \<and> of_int usd \<le> p * of_int shares
     else of_int shares \<le> dval amount * T \<and> of_int usd = p * of_int shares)"
proof -
  obtain rule np input u s uu su where pos: "0 < dval price" "0 < dval amount" "0 < dval tick"
    and rule: "tick_rule tick contract = Inr rule" and np: "normalized_price kind price tick rule = Inr np"
    and one: "dval np \<le> 1" and input: "dquantize amount (tr_size_decimals rule) ROUND_DOWN = Inr input"
    and quoted: "quoted_amounts kind side np input rule = Inr (u, s)"
    and units: "protocol_units u (rc_token_decimals contract) = Inr uu" "protocol_units s (rc_token_decimals contract) = Inr su"
    and result: "(if side = Buy then (uu, su) else (su, uu)) = (maker, taker)"
    using assms(2) by (auto simp: order_amounts_def bindE_eq_Inr order_positive_Inr checkE_Inr dlt_iff not_less
        simp del: checkE.simps)
  have good: "good_rule rule" using assms(1) rule unfolding good_contract_def tick_rule_def by (blast intro: tick_rule_good)
  note N = normalized_price_Inr [OF np pos(1,3)] and I = dquantize_Inr [OF input pos_nonneg [OF pos(2)]]
  note Q = quoted_amounts_sound [OF quoted good N(1) I(1) N(3) one I(3) N(2) I(2)]
  have td: "0 \<le> rc_token_decimals contract" "rc_token_decimals contract \<le> 27" using assms(1) by (simp_all add: good_contract_def)
  note U = protocol_units_Inr [OF units(1) Q(1,2) td] and S = protocol_units_Inr [OF units(2) Q(3,4) td]
  have us: "usd = uu" "shares = su" using result by (auto simp: usd_def shares_def split: if_splits)
  have T: "0 < T" by (simp add: T_def)
  have le: "dval input * T \<le> dval amount * T" using I(5) [OF refl] T by (simp add: mult_right_mono)
  obtain k where "dval np = of_int k * dval tick" using N(6) by blast
  moreover have "if kind = Market_order \<and> side = Buy then of_int usd \<le> dval amount * T \<and> of_int usd \<le> dval np * of_int shares
      else of_int shares \<le> dval amount * T \<and> of_int usd = dval np * of_int shares"
  proof (cases "kind = Market_order \<and> side = Buy")
    case True
    then have u: "u = input" and "dval u \<le> dval np * dval s" using Q(5) by (metis (full_types))+
    then have "dval u * T \<le> dval np * dval s * T" using T by (intro mult_right_mono) simp_all
    with True u le show ?thesis unfolding us U(1) S(1) T_def [symmetric] by (simp add: mult.assoc)
  next
    case False
    then have "s = input" "dval u = dval np * dval s" using Q(5) by (simp_all split: if_splits)
    with le show ?thesis unfolding if_not_P [OF False] us U(1) S(1) T_def [symmetric] by (simp add: mult.assoc)
  qed
  ultimately show ?thesis using N(3-5) one U(2) S(2) us by (intro exI [of _ "dval np"] exI [of _ k]) simp
qed

section \<open>The order of an intent\<close>

lemma validate_order_Inr:
  "validate_order p = Inr p' \<longleftrightarrow> p' = p \<and> order_fields_ok p \<and>
     \<not> (po_signature_type p \<in> {0, 3} \<and> py_casefold (po_maker p) \<noteq> py_casefold (po_signer p))"
  unfolding validate_order_def bindE_eq_Inr checkE_Inr by auto

lemma signing_error_Inr [simp]: "signing_error r = Inr x \<longleftrightarrow> r = Inr x"
  by (auto simp: signing_error_def split: sum.splits py_error.splits)

lemma dtrunc_le:
  assumes "\<not> dneg d"
  shows "of_int (dtrunc d) \<le> dval d"
proof -
  let ?n = "dcoef d * 10 ^ nat (dexp d)" and ?k = "10 ^ nat (- dexp d) :: nat"
  have "of_nat (?n div ?k) \<le> (of_nat ?n / of_nat ?k :: rat)" by (rule div_floor_rat [THEN conjunct1]) simp
  then have "of_nat (?n div ?k) \<le> dval d" unfolding ratio_powi dval_nonneg [OF assms] .
  moreover have "dtrunc d = int (?n div ?k)" using assms by (simp add: dtrunc_def Let_def)
  ultimately show ?thesis by (metis of_int_of_nat_eq)
qed

lemma order_from_intent_Inr:
  assumes "order_from_intent D i maker protocol = Inr p"
  shows "\<exists>kind amount. order_input i = Inr (kind, amount) \<and>
    order_amounts (ei_side i) (ei_limit_price i) amount (ei_tick_size i) kind (op_rounding protocol) =
      Inr (po_maker_amount p, po_taker_amount p) \<and>
    (ei_side i = Buy \<longrightarrow> (\<forall>spend. ei_maximum_spend i = Some spend \<longrightarrow>
       po_maker_amount p \<le> maximum_protocol_units spend (rc_token_decimals (op_rounding protocol)))) \<and>
    token_of_text (ei_token_id i) = Inr (po_token_id p) \<and> po_exchange_kind p = ei_exchange_kind i \<and>
    po_side p = (if ei_side i = Buy then op_buy_encoding protocol else op_sell_encoding protocol) \<and>
    po_maker p = maker \<and> po_signer p = maker \<and> po_salt p = stable_order_salt D i \<and> order_fields_ok p"
  using assms
  by (auto simp: order_from_intent_def bindE_eq_Inr checkE_Inr validate_order_Inr not_less simp del: checkE.simps
      split: option.splits)

text \<open>
  C37: an encoded order asks for no more than its intent. When a valid intent is turned into an order under a
  contract like the protocol's (prices of at most four decimals, amounts with the decimals of price and size
  together; \<open>protocol_rounding_good\<close>), and its maximum spend, if it has one, fits the 28-digit context, then both
  amounts are positive integers of token units, and a buy pays at most the
  intent's limit price for what it asks, at most its maximum spend, and asks for at most its size; a sale
  offers at most the intent's size and asks for exactly the limit price for it. An order for a size trades
  exactly at the limit price, which is on the tick. The token, exchange and side are the intent's.
\<close>

theorem order_respects_intent:
  assumes valid: "validate_intent D i = Inr i" and contract: "good_contract (op_rounding protocol)"
    and order: "order_from_intent D i maker protocol = Inr p"
    and digits: "opt_all (\<lambda>spend. dcoef spend < 10 ^ 28) (ei_maximum_spend i)"
  defines "usd \<equiv> (if ei_side i = Buy then po_maker_amount p else po_taker_amount p)"
    and "shares \<equiv> (if ei_side i = Buy then po_taker_amount p else po_maker_amount p)"
    and "T \<equiv> (10::rat) powi rc_token_decimals (op_rounding protocol)"
  shows "0 < usd \<and> 0 < shares \<and>
    (ei_side i = Buy \<longrightarrow> of_int usd \<le> dval (ei_limit_price i) * of_int shares) \<and>
    (ei_side i = Sell \<longrightarrow> of_int usd = dval (ei_limit_price i) * of_int shares) \<and>
    opt_all (\<lambda>size. of_int shares \<le> dval size * T \<and> of_int usd = dval (ei_limit_price i) * of_int shares \<and>
      (\<exists>k::int. dval (ei_limit_price i) = of_int k * dval (ei_tick_size i))) (ei_base_size i) \<and>
    (ei_side i = Buy \<longrightarrow> opt_all (\<lambda>spend. of_int usd \<le> dval spend * T) (ei_maximum_spend i)) \<and>
    po_token_id p = int (digits_value (ei_token_id i)) \<and> str_of_nat (nat (po_token_id p)) = ei_token_id i \<and>
    po_exchange_kind p = ei_exchange_kind i \<and>
    po_side p = (if ei_side i = Buy then op_buy_encoding protocol else op_sell_encoding protocol)"
proof -
  obtain kind amount where input: "order_input i = Inr (kind, amount)"
    and amounts: "order_amounts (ei_side i) (ei_limit_price i) amount (ei_tick_size i) kind (op_rounding protocol) =
      Inr (po_maker_amount p, po_taker_amount p)"
    and spend: "ei_side i = Buy \<longrightarrow> (\<forall>spend. ei_maximum_spend i = Some spend \<longrightarrow>
       po_maker_amount p \<le> maximum_protocol_units spend (rc_token_decimals (op_rounding protocol)))"
    and token: "token_of_text (ei_token_id i) = Inr (po_token_id p)" and rest: "po_exchange_kind p = ei_exchange_kind i"
      "po_side p = (if ei_side i = Buy then op_buy_encoding protocol else op_sell_encoding protocol)"
    using order_from_intent_Inr [OF order] by blast
  obtain np k where np: "0 < np" "np \<le> min 1 (dval (ei_limit_price i))" "np = of_int k * dval (ei_tick_size i)"
      "kind = Limit_order \<longrightarrow> np = dval (ei_limit_price i)" and positive: "0 < usd" "0 < shares"
    and sound: "if kind = Market_order \<and> ei_side i = Buy then of_int usd \<le> dval amount * T \<and> of_int usd \<le> np * of_int shares
       else of_int shares \<le> dval amount * T \<and> of_int usd = np * of_int shares"
    using order_amounts_sound [OF contract amounts] unfolding usd_def shares_def T_def by blast
  have kind: "kind = Limit_order \<and> ei_base_size i = Some amount \<or> kind = Market_order \<and> ei_base_size i = None \<and> ei_side i = Buy"
    using input by (auto simp: order_input_def split: option.splits if_splits)
  have price: "np * of_int shares \<le> dval (ei_limit_price i) * of_int shares"
    using np(2) positive(2) by (intro mult_right_mono) simp_all
  have maximum: "opt_all (\<lambda>spend. of_int usd \<le> dval spend * T) (ei_maximum_spend i)" if buy: "ei_side i = Buy"
  proof (cases "ei_maximum_spend i")
    case (Some v)
    have "0 < dval v" using valid Some by (simp add: validate_intent_Inr intent_fields_ok_def opt_all_def positive_decimal_def dlt_iff)
    then have v: "\<not> dneg v" "dcoef v < 10 ^ 28" using digits Some by (simp_all add: pos_nonneg opt_all_def)
    have td: "0 \<le> rc_token_decimals (op_rounding protocol)" "rc_token_decimals (op_rounding protocol) \<le> 27"
      using contract by (simp_all add: good_contract_def)
    note ten = dmul_ten [OF v td]
    have "po_maker_amount p \<le> maximum_protocol_units v (rc_token_decimals (op_rounding protocol))" using spend buy Some by blast
    then have "(of_int (po_maker_amount p) :: rat) \<le> of_int (dtrunc (dmul v (ten_power (rc_token_decimals (op_rounding protocol)))))"
      by (simp add: maximum_protocol_units_def)
    also have "\<dots> \<le> dval v * T" using dtrunc_le [OF ten(2)] ten(1) by (simp add: T_def)
    finally show ?thesis using buy Some by (simp add: usd_def opt_all_def)
  qed (simp add: opt_all_def)
  have token_id: "po_token_id p = int (digits_value (ei_token_id i))"
    using token by (simp add: token_of_text_def split: if_splits)
  then have token_text: "str_of_nat (nat (po_token_id p)) = ei_token_id i"
    using token by (simp add: token_of_text_def split: if_splits)
  show ?thesis
    using kind
  proof (elim disjE conjE)
    assume "kind = Limit_order" "ei_base_size i = Some amount"
    then show ?thesis using sound np(3,4) positive maximum token_id token_text rest by (auto simp: opt_all_def)
  next
    assume market: "kind = Market_order" "ei_base_size i = None" "ei_side i = Buy"
    have "of_int usd \<le> np * of_int shares" using sound market by simp
    from order_trans [OF this price] show ?thesis using market positive maximum token_id token_text rest
      by (auto simp: opt_all_def)
  qed
qed

section \<open>A worked order\<close>

text \<open>A buy of ten shares at 0.52, on a tick of 0.01.\<close>

definition order_intent :: execution_intent where
  "order_intent = seal_intent example_digests \<lparr>
     ei_lineage_hashes = [], ei_intent_id = Uuid 0, ei_plan_id = Uuid 9, ei_leg_sequence = 0, ei_token_id = ''123'',
     ei_side = Buy, ei_limit_price = Dec False 52 (- 2), ei_tick_size = Dec False 1 (- 2),
     ei_exchange_kind = Standard, ei_base_size = Some (Dec False 10 0), ei_maximum_spend = None,
     ei_order_type = FOK, ei_fee_rate_bps_cap = 100, ei_rounding_mode = ''ROUND_DOWN'',
     ei_account_fingerprint = Sha256 3, ei_capability_fingerprint = Sha256 4, ei_created_at = 0, ei_deadline = 100,
     ei_protocol_version = ''v2'', ei_intent_fingerprint = Sha256 0\<rparr>"

definition order_maker :: string where
  "order_maker = ''0x'' @ replicate 40 (CHR ''a'')"

definition example_protocol :: order_protocol where
  "example_protocol = \<lparr>op_version = ''v2'', op_rounding = protocol_rounding, op_buy_encoding = 0, op_sell_encoding = 1,
     op_market_order_expiration = 0\<rparr>"

lemma example_order:
  "\<not> isl (validate_intent example_digests order_intent)"
  "map_sum id (\<lambda>p. (po_maker_amount p, po_taker_amount p))
     (order_from_intent example_digests order_intent order_maker example_protocol) = Inr (5200000, 10000000)"
  by code_simp+

lemma order_respects_intent_witness:
  "\<exists>p. order_from_intent example_digests order_intent order_maker example_protocol = Inr p \<and>
     po_maker_amount p = 5200000 \<and> po_taker_amount p = 10000000 \<and> po_token_id p = 123"
proof -
  obtain p where p: "order_from_intent example_digests order_intent order_maker example_protocol = Inr p"
    "po_maker_amount p = 5200000" "po_taker_amount p = 10000000"
    using example_order(2) by (cases "order_from_intent example_digests order_intent order_maker example_protocol") auto
  have valid: "validate_intent example_digests order_intent = Inr order_intent"
    using example_order(1) by (metis intent.validate_id sum.collapse(2))
  have "good_contract (op_rounding example_protocol)" "ei_maximum_spend order_intent = None"
    "int (digits_value (ei_token_id order_intent)) = 123"
    by (simp add: example_protocol_def protocol_rounding_good, code_simp+)
  from order_respects_intent [OF valid this(1) p(1)] this(2,3) have "po_token_id p = 123"
    by (simp add: opt_all_def)
  with p show ?thesis by blast
qed

end
