(* ===== verification/Spec2Isabelle.thy ===== *)
theory Spec2Isabelle
  imports Live_Ledger Kill_Switch Proof_Guarantees Risk Shadow_Profit Shadow_Limits Economics_Guarantees Shadow_Guarantees Authority Live_Closing Pilot_Guarantees Pilot_Authority Pilot_Presence Order_Guarantees
begin

text \<open>
  A model of the prediction-market core of the trading crew (\<open>src/src/polytrading/predictions\<close>): the
  evidence records, the payoff-proof compiler, the basket economics, the risk gate, the shadow (paper)
  pipeline from plan to reconciled profit, of live execution the mutation authority, the exact ledger,
  the kill switch and the reconciliation against the observed account, and the pilot that plans, authorizes
  and executes one bounded live strategy.

  \<^bold>\<open>The program.\<close>  A candidate relationship between market outcomes (\<open>candidates_models.py\<close>) is compiled
  against attested rules into a proof artifact whose terminal states bound the payout of the basket
  (\<open>proofs.py\<close>).  \<open>economics.py\<close> walks the asks of every leg, charges every reserve and reports a
  conservative surplus.  \<open>shadow_planner.py\<close> turns a scan report into a plan with frozen evidence, after the
  gate of \<open>risk.py\<close>; \<open>shadow_simulator.py\<close> replays the plan against supplied books under a stress scenario
  and returns a chain of events (\<open>shadow_models.py\<close>); \<open>shadow_ledger.py\<close> books the chain in double entry,
  reconciles it and reports the profit.  Live execution keeps its own append-only evidence: order, trade
  and kill events (\<open>execution/models.py\<close>), classified and booked exactly by \<open>execution/ledger.py\<close>, and the
  switch of \<open>execution/kill_switch.py\<close>.  \<open>execution/authority.py\<close> lets a mutation through only under a
  manifest (\<open>manifest.py\<close>), a capability, fresh evidence and an open switch, and
  \<open>execution/reconciliation.py\<close> compares the ledger with an account snapshot taken independently.
  The pilot (\<open>pilot/\<close>) selects an eligible opportunity from the persisted evidence, freezes it into a plan
  with its recovery (\<open>selector.py\<close>), turns the operator's assertion into a primary and a recovery grant
  (\<open>capabilities.py\<close>, \<open>verifier.py\<close>) and runs the plan leg by leg through a port (\<open>sessions.py\<close>), every
  order charged against the ceilings of \<open>policy.py\<close>.

  \<^bold>\<open>Theories and sources\<close> (paths under \<open>src/src/polytrading/predictions\<close>).
  \<^item> \<open>Prelude\<close>, \<open>Contracts\<close>: exceptions as a sum (\<open>py_error\<close>), \<open>bindE\<close>, \<open>mapE\<close>, \<open>foldE\<close>, dictionaries as
    association lists, and the locales: exact addition, balanced rows, a state machine with final states,
    validation that may be repeated, records named by their content.  Every locale is interpreted on the
    model's own operations where they are defined.
  \<^item> \<open>Py_Decimal\<close>, \<open>Decimal_Rounding\<close>, \<open>Py_Text\<close>, \<open>Canonical\<close>: Python's decimals (sign, coefficient, exponent;
    the 28-digit context, half even) with their exact rational values \<open>dval\<close>, the text operations used,
    and the canonical content of records.
  \<^item> \<open>Prediction_Domain\<close>: \<open>domain.py\<close>.  \<open>Proof_Records\<close>: \<open>propositions.py\<close>, \<open>attestations.py\<close>,
    \<open>candidates_models.py\<close>, \<open>proofs_models.py\<close>.  \<open>Proof_Compiler\<close>, \<open>Proof_Guarantees\<close>: \<open>proofs.py\<close>.
  \<^item> \<open>Economics\<close>, \<open>Economics_Guarantees\<close>: \<open>economics_models.py\<close>, \<open>economics.py\<close>.  \<open>Risk\<close>: \<open>risk.py\<close>.
  \<^item> \<open>Shadow_Models\<close>: \<open>shadow_models.py\<close>.  \<open>Shadow_Planner\<close>: \<open>shadow_planner.py\<close>.  \<open>Shadow_Simulator\<close>:
    \<open>shadow_simulator.py\<close>; \<open>Shadow_Runs\<close> and \<open>Shadow_Guarantees\<close> state what a run is, \<open>Shadow_Example\<close>
    evaluates one.  \<open>Shadow_Ledger\<close>: \<open>shadow_ledger.py\<close>, with \<open>Shadow_Accounts\<close>, \<open>Shadow_Limits\<close>,
    \<open>Shadow_Pnl\<close>, \<open>Shadow_Profit\<close> for what it books and reports.
  \<^item> \<open>Exec_Models\<close>: \<open>execution/models.py\<close>.  \<open>Exact_Decimal\<close>, \<open>Live_History\<close>, \<open>Live_Ledger\<close>:
    \<open>execution/ledger.py\<close>.  \<open>Kill_Switch\<close>: \<open>execution/kill_switch.py\<close>.  \<open>Authority\<close>: \<open>manifest.py\<close> and
    \<open>execution/authority.py\<close>.  \<open>Live_Account\<close> (observations and snapshot), \<open>Live_Reconciliation\<close> (the
    differences and the published profit): \<open>execution/reconciliation.py\<close>; \<open>Live_Closing\<close> states what a
    complete reconciliation means.
  \<^item> \<open>Pilot_Policy\<close>: \<open>pilot/policy.py\<close> and the limits of \<open>pilot/models.py\<close>.  \<open>Pilot_Selector\<close>:
    \<open>pilot/selector.py\<close> and \<open>experiments.py\<close>.  \<open>Pilot_Capabilities\<close>: \<open>pilot/capabilities.py\<close>,
    \<open>pilot/verifier.py\<close> and the challenge of \<open>pilot/models.py\<close>; \<open>Pilot_Authority\<close> states what an issued
    grant can do.  \<open>Pilot_Sessions\<close>: \<open>pilot/sessions.py\<close>; \<open>Pilot_Guarantees\<close> states what a frozen plan
    and its execution keep to.  \<open>Pilot_Presence\<close>: \<open>pilot/presence.py\<close>.
  \<^item> \<open>Order_Amounts\<close>: the encoding of an intent as a venue order in \<open>polymarket_execution/order.py\<close>, with the
    rounding contract of \<open>protocol.py\<close>; \<open>Order_Guarantees\<close> states what an encoded order asks for.

  \<^bold>\<open>Correspondence.\<close>  A pydantic record is a \<open>record\<close> and its validators one function
  \<open>validate_x :: x \<Rightarrow> x result\<close> that raises what the validators raise, in their order; a function of the
  program is a function of the same name, and every raise, assertion and early return is a branch of it.
  Local state of a loop is an argument (or the record \<open>run_state\<close> of the simulator, which holds the book
  cache, the events, the evidence hashes, the acquisitions and the terminal buys).  A Python mapping is an
  association list in insertion order, a timestamp its UTC microseconds.

  \<^bold>\<open>Parameters.\<close>  The digests (SHA-256, UUID version 5) are a record of functions of the canonical content;
  what needs them to tell contents apart says so as an injectivity hypothesis on the contents at hand.
  The order in which Python iterates over a set in one place of the paper ledger, and the book provider of
  the simulator, are arguments.  So are the signature scheme of the grants, what the store returns at a
  cutoff, and the execution port: each of its answers is any function of the calls made so far, and that
  list of calls is the state of an execution that survives an exception.

  \<^bold>\<open>Lemma groups.\<close>  Exact ledger arithmetic is exact or raises; live histories are legal runs,
  independent of the caller's order; live bookings move exact amounts, stay within the intents and are
  the only postings verification accepts; a mutation is allowed exactly on the conditions
  the authority names; a complete reconciliation closes the account to the last decimal and a published
  profit is exact.  A frozen plan is within the pilot's ceilings; an execution never leaves its plan whatever
  the port answers, and ends in completion or a kill when it returns, though not when it raises on a leg beyond
  the budget; a mutation allowed under an issued grant is an operation the operator approved, within the limits
  of the request.  Presence is lost for good on the first disturbance.  An encoded order asks for no more than
  its intent.  Ready proofs bound the payout of the resolutions they model, which leaves out the voids that refund
  at cost; the depth walk is cheapest; a positive surplus covers every charge; economics is refused for the first
  defect of the evidence.  The risk gate keeps an allowed basket within the limits it compares and reports the
  first one breached.  A derived state is a run of the state machine; every simulated run refines the
  execution machine of \<open>Shadow_Runs\<close>; the paper ledger books buys within the frozen limits, sells only
  what was bought, and reports the exact profit of the fills.

  \<^bold>\<open>Bounds.\<close>  Decimal arithmetic rounds at 28 digits: a statement about rounded sums holds for any input
  when rounding cannot break it, and otherwise names a common grid \<open>g\<close> on which the amounts fit 28 digits.
  No recursion is bounded by fuel: every loop is structural over the data it walks.

  \<^bold>\<open>Not modelled.\<close>  The asynchronous coordinator, the pilot's services, its kill directives and
  signed mutation evidence, the candidate generators, the venue clients, the signing of orders, the servers, dashboards and
  commands, and the SQL stores are I/O around these records; the parsing of a signed order's JSON text and
  the hooks that keep Python code from copying or subclassing a record have no counterpart in a logic of
  values.  The carry research packages outside \<open>predictions\<close> are a separate program.
\<close>

end
